(* ===== verification/Prelude.thy ===== *)
theory Prelude
  imports Main "HOL-Library.Word"
begin

text \<open>
  Shared vocabulary of the development: the machine integer types of the Rust code, its shift
  operators, results with panics, slices with bounds checks, and the automation the component
  theories use.

  Arithmetic follows the release profile of \<^verbatim>\<open>Cargo.toml\<close> (no \<^verbatim>\<open>overflow-checks\<close>):
  \<open>+\<close>, \<open>-\<close> and \<open>*\<close> on machine words wrap, and the amount of a shift is taken modulo the
  width of the shifted value. \<^verbatim>\<open>debug_assert!\<close> conditions are not part of the definitions;
  where a property needs one it is a named hypothesis.
\<close>

unbundle bit_operations_syntax

section \<open>Machine integers\<close>

type_synonym u8 = "8 word"
type_synonym u16 = "16 word"
type_synonym u32 = "32 word"
type_synonym u64 = "64 word"

text \<open>Rust's \<open><<\<close> and \<open>>>\<close> (logical on unsigned, arithmetic on signed operands).\<close>

definition shl :: "'a::len word \<Rightarrow> nat \<Rightarrow> 'a word" where
  "shl x n = push_bit (n mod LENGTH('a)) x"

definition shr :: "'a::len word \<Rightarrow> nat \<Rightarrow> 'a word" where
  "shr x n = drop_bit (n mod LENGTH('a)) x"

definition sar :: "'a::len word \<Rightarrow> nat \<Rightarrow> 'a word" where
  "sar x n = signed_drop_bit (n mod LENGTH('a)) x"

text \<open>
  Bitwise reasoning: \<open>bit_eval\<close> turns a bit of a compound word into a formula over bits of
  its variables; \<open>word32_eqI\<close> and \<open>word64_eqI\<close> reduce an equation to its bits, one by one.
\<close>

named_theorems bit_eval

lemma bit_shl [bit_eval]:
  "bit (shl (x::'a::len word) n) m \<longleftrightarrow>
     n mod LENGTH('a) \<le> m \<and> m < LENGTH('a) \<and> bit x (m - n mod LENGTH('a))"
  by (simp add: shl_def bit_simps)

lemma bit_shr [bit_eval]:
  "bit (shr (x::'a::len word) n) m \<longleftrightarrow> bit x (n mod LENGTH('a) + m)"
  by (simp add: shr_def bit_simps)

lemma bit_sar [bit_eval]:
  "bit (sar (x::'a::len word) n) m \<longleftrightarrow>
     bit x (if LENGTH('a) - n mod LENGTH('a) \<le> m \<and> m < LENGTH('a)
            then LENGTH('a) - 1 else n mod LENGTH('a) + m)"
  by (simp add: sar_def bit_simps)

lemma bit_ucast_word [bit_eval]:
  "bit (ucast (x::'a::len word) :: 'b::len word) n \<longleftrightarrow> n < LENGTH('b) \<and> bit x n"
  by (auto simp: bit_simps)

lemma bit_scast_word [bit_eval]:
  "bit (scast (x::'a::len word) :: 'b::len word) n \<longleftrightarrow>
     n < LENGTH('b) \<and> bit x (min (LENGTH('a) - 1) n)"
  by (auto simp: bit_simps)

lemma bit_not_word [bit_eval]:
  "bit (NOT (x::'a::len word)) n \<longleftrightarrow> n < LENGTH('a) \<and> \<not> bit x n"
  by (auto simp: bit_simps)

lemma bit_mask_word [bit_eval]:
  "bit (mask k :: 'a::len word) n \<longleftrightarrow> n < LENGTH('a) \<and> n < k"
  by (auto simp: bit_simps)

lemma bit_take_bit_word [bit_eval]:
  "bit (take_bit k (x :: 'a::len word)) n \<longleftrightarrow> n < k \<and> bit x n"
  by (simp add: bit_simps)

lemma bit_signed_take_bit_word [bit_eval]:
  "bit (signed_take_bit k (x :: 'a::len word)) n \<longleftrightarrow> n < LENGTH('a) \<and> bit x (min n k)"
  by (simp add: bit_signed_take_bit_iff possible_bit_word min.commute)

lemma bit_zero_eval [bit_eval]: "\<not> bit (0 :: 'a::len word) n"
  by simp

declare bit_and_iff [bit_eval] bit_or_iff [bit_eval] bit_xor_iff [bit_eval]

text \<open>A signed value is negative exactly when its top bit is set.\<close>

definition is_negative :: "'a::len word \<Rightarrow> bool" where
  "is_negative x \<longleftrightarrow> sint x < 0"

lemma is_negative_bit [bit_eval]: "is_negative (x :: 'a::len word) \<longleftrightarrow> bit x (LENGTH('a) - 1)"
  by (simp add: is_negative_def bit_last_iff)

lemma shl_one_minus_one: "shl (1::'a::len word) n - 1 = mask (n mod LENGTH('a))"
  by (simp add: shl_def mask_eq_exp_minus_1 push_bit_eq_mult)

lemma all_less_32:
  "(\<forall>n<32. P n) \<longleftrightarrow>
     P 0 \<and> P 1 \<and> P 2 \<and> P 3 \<and> P 4 \<and> P 5 \<and> P 6 \<and> P 7 \<and> P 8 \<and> P 9 \<and> P 10 \<and> P 11 \<and> P 12 \<and>
     P 13 \<and> P 14 \<and> P 15 \<and> P 16 \<and> P 17 \<and> P 18 \<and> P 19 \<and> P 20 \<and> P 21 \<and> P 22 \<and> P 23 \<and>
     P 24 \<and> P 25 \<and> P 26 \<and> P 27 \<and> P 28 \<and> P 29 \<and> P 30 \<and> P (31::nat)"
  by (simp add: numeral_eq_Suc All_less_Suc2)

lemma all_less_64:
  "(\<forall>n<64. P n) \<longleftrightarrow> (\<forall>n<32. P n) \<and> (\<forall>n<32. P (32 + n :: nat))"
proof safe
  fix n :: nat
  assume a: "\<forall>n<32. P n" "\<forall>n<32. P (32 + n)" "n < 64"
  show "P n"
  proof (cases "n < 32")
    case False
    then have "P (32 + (n - 32))"
      using a by (intro a(2)[rule_format]) simp
    with False show ?thesis by simp
  qed (use a in simp)
qed auto

lemma all_less_16:
  "(\<forall>n<16. P n) \<longleftrightarrow>
     P 0 \<and> P 1 \<and> P 2 \<and> P 3 \<and> P 4 \<and> P 5 \<and> P 6 \<and> P 7 \<and> P 8 \<and> P 9 \<and> P 10 \<and> P 11 \<and> P 12 \<and>
     P 13 \<and> P 14 \<and> P (15::nat)"
  by (simp add: numeral_eq_Suc All_less_Suc2)

lemma all_less_8:
  "(\<forall>n<8. P n) \<longleftrightarrow> P 0 \<and> P 1 \<and> P 2 \<and> P 3 \<and> P 4 \<and> P 5 \<and> P 6 \<and> P (7::nat)"
  by (simp add: numeral_eq_Suc All_less_Suc2)

lemmas each_bit = all_less_64 all_less_32 all_less_16 all_less_8

lemma word8_eqI: "(\<forall>n<8. bit a n = bit b n) \<Longrightarrow> a = (b::u8)"
  by (rule bit_word_eqI) auto

lemma word16_eqI: "(\<forall>n<16. bit a n = bit b n) \<Longrightarrow> a = (b::u16)"
  by (rule bit_word_eqI) auto

lemma word32_eqI: "(\<forall>n<32. bit a n = bit b n) \<Longrightarrow> a = (b::u32)"
  by (rule bit_word_eqI) auto

lemma word64_eqI: "(\<forall>n<64. bit a n = bit b n) \<Longrightarrow> a = (b::u64)"
  by (rule bit_word_eqI) auto

text \<open>The simplifier leaves \<open>Suc\<close> forms of small indices when bits are enumerated.\<close>

lemma small_nats [bit_eval]: "Suc (Suc 0) = 2" "Suc 2 = 3"
  by simp_all

lemma bit_less_exp:
  assumes "unat (v::'a::len word) < 2 ^ k" and "k \<le> n"
  shows "\<not> bit v n"
proof
  assume b: "bit v n"
  have "unat v < 2 ^ n"
    using assms by (meson less_le_trans one_le_numeral power_increasing)
  then have "\<not> bit (unat v) n"
    by (simp add: bit_iff_odd div_less)
  with b show False
    by (simp add: bit_unsigned_iff)
qed

lemma take_bit_of_small:
  "unat (v::'a::len word) < 2 ^ k \<Longrightarrow> take_bit k v = v"
  using bit_less_exp [of v k] by (intro bit_word_eqI) (metis bit_take_bit_word not_less)

lemma and_not_of_clear: "w AND m = 0 \<Longrightarrow> w AND NOT m = (w :: 'a::len word)"
  by (rule bit_word_eqI) (auto simp: bit_eval bit_eq_iff)

section \<open>Panics, errors and results\<close>

text \<open>
  A Rust function that can panic and return an error has the result type \<open>'e fault + 'a\<close>;
  one that can only panic returns an \<open>option\<close>, with \<open>None\<close> for the panic.
\<close>

datatype 'e fault = Panic | Err 'e

text \<open>The \<^verbatim>\<open>?\<close> operator.\<close>

definition and_then :: "'e + 'a \<Rightarrow> ('a \<Rightarrow> 'e + 'b) \<Rightarrow> 'e + 'b" where
  "and_then r f = (case r of Inl e \<Rightarrow> Inl e | Inr x \<Rightarrow> f x)"

lemma and_then_simps [simp]:
  "and_then (Inl e) f = Inl e"
  "and_then (Inr x) f = f x"
  by (simp_all add: and_then_def)

lemma and_then_Inr_iff:
  "and_then r f = Inr y \<longleftrightarrow> (\<exists>x. r = Inr x \<and> f x = Inr y)"
  by (cases r) auto

lemma and_then_cong [fundef_cong]:
  "r = r' \<Longrightarrow> (\<And>x. r' = Inr x \<Longrightarrow> f x = g x) \<Longrightarrow> and_then r f = and_then r' g"
  by (cases r') auto

definition or_panic :: "'a option \<Rightarrow> 'e fault + 'a" where
  "or_panic r = (case r of None \<Rightarrow> Inl Panic | Some x \<Rightarrow> Inr x)"

lemma or_panic_simps [simp]:
  "or_panic None = Inl Panic"
  "or_panic (Some x) = Inr x"
  "(or_panic r = Inr x) = (r = Some x)"
  by (auto simp: or_panic_def split: option.splits)

section \<open>Slices\<close>

text \<open>
  \<^verbatim>\<open>buf[i..i + n].copy_from_slice(src)\<close> with \<open>n = src.len()\<close>, and reads of a window. The
  start is an \<open>int\<close> because the code computes it by subtraction; a start below zero or a window
  past the end of the buffer panics.
\<close>

definition put_at :: "'a list \<Rightarrow> int \<Rightarrow> 'a list \<Rightarrow> 'a list option" where
  "put_at buf i src =
     (if 0 \<le> i \<and> nat i + length src \<le> length buf
      then Some (take (nat i) buf @ src @ drop (nat i + length src) buf)
      else None)"

definition get_at :: "'a list \<Rightarrow> int \<Rightarrow> 'a option" where
  "get_at buf i = (if 0 \<le> i \<and> nat i < length buf then Some (buf ! nat i) else None)"

definition window :: "'a list \<Rightarrow> int \<Rightarrow> nat \<Rightarrow> 'a list option" where
  "window buf i n =
     (if 0 \<le> i \<and> nat i + n \<le> length buf then Some (take n (drop (nat i) buf)) else None)"

lemma put_at_length: "put_at buf i src = Some buf' \<Longrightarrow> length buf' = length buf"
  by (auto simp: put_at_def split: if_splits)

lemma put_at_nth:
  assumes "put_at buf i src = Some buf'" and "j < length buf"
  shows "buf' ! j = (if nat i \<le> j \<and> j < nat i + length src then src ! (j - nat i) else buf ! j)"
  using assms by (auto simp: put_at_def nth_append split: if_splits)

lemma put_at_window:
  assumes "put_at buf i src = Some buf'"
  shows "window buf' i (length src) = Some src"
  using assms by (auto simp: put_at_def window_def split: if_splits)

section \<open>Lists searched by a key\<close>

text \<open>
  \<^verbatim>\<open>partition_point\<close> and \<^verbatim>\<open>binary_search_by_key\<close> of the standard library, by their documented
  results: the index of the first element that fails a predicate the list is partitioned by, and
  an index whose element has the key, where there is one.
\<close>

definition partition_point :: "('a \<Rightarrow> bool) \<Rightarrow> 'a list \<Rightarrow> nat" where
  "partition_point p xs = length (takeWhile p xs)"

definition binary_search_by_key :: "('a \<Rightarrow> 'k) \<Rightarrow> 'k \<Rightarrow> 'a list \<Rightarrow> nat option" where
  "binary_search_by_key key k xs =
     (let i = partition_point (\<lambda>x. key x \<noteq> k) xs in if i < length xs then Some i else None)"

abbreviation strictly_by :: "('a \<Rightarrow> 'k::linorder) \<Rightarrow> 'a list \<Rightarrow> bool" where
  "strictly_by key xs \<equiv> sorted_wrt (\<lambda>x y. key x < key y) xs"

lemma partition_point_le: "partition_point p xs \<le> length xs"
  by (simp add: partition_point_def length_takeWhile_le)

lemma partition_point_Nil [simp]: "partition_point p [] = 0"
  by (simp add: partition_point_def)

lemma partition_point_Cons [simp]:
  "partition_point p (x # xs) = (if p x then Suc (partition_point p xs) else 0)"
  by (simp add: partition_point_def)

lemma binary_search_Nil [simp]: "binary_search_by_key key k [] = None"
  by (simp add: binary_search_by_key_def)

lemma binary_search_Cons:
  "binary_search_by_key key k (x # xs) =
     (if key x = k then Some 0 else map_option Suc (binary_search_by_key key k xs))"
  by (simp add: binary_search_by_key_def Let_def)

lemma binary_search_Some:
  "binary_search_by_key key k xs = Some i \<Longrightarrow> i < length xs \<and> key (xs ! i) = k"
  by (induction xs arbitrary: i) (auto simp: binary_search_Cons split: if_splits)

lemma binary_search_None_iff:
  "binary_search_by_key key k xs = None \<longleftrightarrow> k \<notin> key ` set xs"
  by (induction xs) (auto simp: binary_search_Cons)

lemma strictly_by_unique:
  "strictly_by key xs \<Longrightarrow> x \<in> set xs \<Longrightarrow> y \<in> set xs \<Longrightarrow> key x = key y \<Longrightarrow> x = y"
proof (induction xs)
  case (Cons a xs)
  then show ?case by (metis less_irrefl set_ConsD sorted_wrt.simps(2))
qed simp

lemma binary_search_value:
  assumes "strictly_by key xs" and "x \<in> set xs"
  shows "\<exists>i. binary_search_by_key key (key x) xs = Some i \<and> i < length xs \<and> xs ! i = x"
proof (cases "binary_search_by_key key (key x) xs")
  case None
  with assms(2) show ?thesis by (simp add: binary_search_None_iff)
next
  case (Some i)
  then have i: "i < length xs" and key_i: "key (xs ! i) = key x"
    using binary_search_Some [OF Some] by simp_all
  have "xs ! i = x"
    by (rule strictly_by_unique [OF assms(1) nth_mem [OF i] assms(2) key_i])
  with Some i show ?thesis by blast
qed

lemma takeWhile_strictly_by:
  "strictly_by key xs \<Longrightarrow> takeWhile (\<lambda>x. key x < k) xs = filter (\<lambda>x. key x < k) xs"
proof (induction xs)
  case (Cons a xs)
  show ?case
  proof (cases "key a < k")
    case False
    with Cons.prems have "\<forall>x\<in>set (a # xs). \<not> key x < k"
      by (auto intro: order.strict_trans1)
    then show ?thesis by (simp add: filter_empty_conv)
  qed (use Cons in simp)
qed simp

lemma strict_remdups_adj_sort: "sorted_wrt (<) (remdups_adj (sort (xs :: 'a::linorder list)))"
proof -
  have "sorted ys \<Longrightarrow> sorted_wrt (<) (remdups_adj ys)" for ys :: "'a list"
    by (induction ys rule: remdups_adj.induct) (auto simp: order.strict_iff_order)
  then show ?thesis by simp
qed

end
