(* ===== verification/Byte_Utils.thy ===== *)
theory Byte_Utils
  imports Prelude
begin

text \<open>
  Little-endian bytes and the masking helpers: \<^verbatim>\<open>crates/reld-reloc/src/utils.rs\<close>. \<open>to_le n w\<close> is
  the first \<open>n\<close> bytes of \<^verbatim>\<open>w.to_le_bytes()\<close>, \<open>of_le\<close> is \<^verbatim>\<open>from_le_bytes\<close>. The lemmas relate
  operations on bytes to operations on the word the bytes encode, so that the instruction
  encoders can be studied as functions on words.
\<close>

definition to_le :: "nat \<Rightarrow> 'a::len word \<Rightarrow> u8 list" where
  "to_le n w = map (\<lambda>i. ucast (drop_bit (8 * i) w)) [0..<n]"

definition of_le :: "u8 list \<Rightarrow> 'a::len word" where
  "of_le bs = foldr (\<lambda>b acc. ucast b OR push_bit 8 acc) bs 0"

definition u32_from_slice :: "u8 list \<Rightarrow> u32 option" where
  "u32_from_slice data = (if 4 \<le> length data then Some (of_le (take 4 data)) else None)"

definition u64_from_slice :: "u8 list \<Rightarrow> u64 option" where
  "u64_from_slice data = (if 8 \<le> length data then Some (of_le (take 8 data)) else None)"

text \<open>The loops over the mask bytes index \<^verbatim>\<open>dest\<close>, which panics when it is the shorter one.\<close>

fun or_from_slice :: "u8 list \<Rightarrow> u8 list \<Rightarrow> u8 list option" where
  "or_from_slice dest [] = Some dest"
| "or_from_slice [] (m # ms) = None"
| "or_from_slice (d # ds) (m # ms) = map_option ((#) (d OR m)) (or_from_slice ds ms)"

fun and_from_slice :: "u8 list \<Rightarrow> u8 list \<Rightarrow> u8 list option" where
  "and_from_slice dest [] = Some dest"
| "and_from_slice [] (m # ms) = None"
| "and_from_slice (d # ds) (m # ms) = map_option ((#) (d AND m)) (and_from_slice ds ms)"

datatype read_error = NotEnoughBytes

definition read_u32 :: "u8 list \<Rightarrow> read_error + (u32 \<times> u8 list)" where
  "read_u32 content =
     (if 4 \<le> length content then Inr (of_le (take 4 content), drop 4 content)
      else Inl NotEnoughBytes)"

section \<open>Bytes and words\<close>

lemma length_to_le [simp]: "length (to_le n w) = n"
  by (simp add: to_le_def)

lemma nth_to_le [simp]: "i < n \<Longrightarrow> to_le n w ! i = ucast (drop_bit (8 * i) w)"
  by (simp add: to_le_def)

lemma take_to_le: "k \<le> n \<Longrightarrow> take k (to_le n w) = to_le k w"
  by (simp add: to_le_def take_map)

lemma of_le_Nil [simp]: "of_le [] = 0"
  by (simp add: of_le_def)

lemma of_le_Cons: "of_le (b # bs) = ucast b OR push_bit 8 (of_le bs)"
  by (simp add: of_le_def)

lemma bit_of_le:
  "bit (of_le bs :: 'a::len word) n \<longleftrightarrow>
     n < LENGTH('a) \<and> n div 8 < length bs \<and> bit (bs ! (n div 8)) (n mod 8)"
proof (induction bs arbitrary: n)
  case (Cons b bs)
  show ?case
  proof (cases "n < 8")
    case True
    then show ?thesis by (auto simp: of_le_Cons bit_simps)
  next
    case False
    then obtain k where k: "n = 8 + k" by (metis le_add_diff_inverse not_less)
    have div: "(8 + k) div 8 = Suc (k div 8)" by simp
    have "\<not> bit b n" using False bit_imp_le_length [of b n] by auto
    then show ?thesis
      using Cons.IH [of k] by (auto simp: k div of_le_Cons bit_simps simp del: div_add_self1)
  qed
qed simp

lemma bit_nth_to_le:
  "i < n \<Longrightarrow> bit (to_le n w ! i) k \<longleftrightarrow> k < 8 \<and> bit w (8 * i + k)"
  by (simp add: bit_simps)

lemma of_le_to_le: "of_le (to_le n (w :: 'a::len word)) = take_bit (8 * n) w"
  by (rule bit_word_eqI) (auto simp: bit_of_le bit_nth_to_le bit_simps simp del: nth_to_le)

lemma of_le_to_le_full [simp]:
  "LENGTH('a) \<le> 8 * n \<Longrightarrow> of_le (to_le n (w :: 'a::len word)) = w"
  by (rule bit_word_eqI) (auto simp: of_le_to_le bit_simps)

lemma to_le_of_le:
  assumes "length bs = n" and "8 * n \<le> LENGTH('a)"
  shows "to_le n (of_le bs :: 'a::len word) = bs"
proof (rule nth_equalityI)
  fix i assume "i < length (to_le n (of_le bs :: 'a word))"
  then have i: "i < n" by simp
  show "to_le n (of_le bs :: 'a word) ! i = bs ! i"
  proof (rule bit_word_eqI)
    fix k assume k: "k < LENGTH(8)"
    have "8 * i + k < LENGTH('a)" using i k assms(2) by simp
    then show "bit (to_le n (of_le bs :: 'a word) ! i) k = bit (bs ! i) k"
      using i k assms(1) by (simp add: bit_nth_to_le bit_of_le del: nth_to_le)
  qed
qed (use assms in simp)

lemma to_le_cong: "take_bit (8 * n) v = take_bit (8 * n) (w::'a::len word) \<Longrightarrow> to_le n v = to_le n w"
proof (rule nth_equalityI; simp)
  fix i assume eq: "take_bit (8 * n) v = take_bit (8 * n) w" and i: "i < n"
  show "(ucast (drop_bit (8 * i) v) :: u8) = ucast (drop_bit (8 * i) w)"
  proof (rule bit_word_eqI)
    fix k assume "k < LENGTH(8)"
    with i have "8 * i + k < 8 * n" by simp
    then have "bit v (8 * i + k) = bit w (8 * i + k)"
      using arg_cong [OF eq, of "\<lambda>x. bit x (8 * i + k)"] by (simp add: bit_simps)
    then show "bit (ucast (drop_bit (8 * i) v) :: u8) k = bit (ucast (drop_bit (8 * i) w) :: u8) k"
      by (simp add: bit_simps)
  qed
qed

section \<open>Masking\<close>

lemma or_from_slice_length:
  "or_from_slice dest ms = Some r \<Longrightarrow> length r = length dest \<and> length ms \<le> length dest"
  by (induction dest ms arbitrary: r rule: or_from_slice.induct) auto

lemma and_from_slice_length:
  "and_from_slice dest ms = Some r \<Longrightarrow> length r = length dest \<and> length ms \<le> length dest"
  by (induction dest ms arbitrary: r rule: and_from_slice.induct) auto

lemma or_from_slice_None: "or_from_slice dest ms = None \<longleftrightarrow> length dest < length ms"
  by (induction dest ms rule: or_from_slice.induct) auto

lemma and_from_slice_None: "and_from_slice dest ms = None \<longleftrightarrow> length dest < length ms"
  by (induction dest ms rule: and_from_slice.induct) auto

lemma or_from_slice_append:
  "length ds = length ms \<Longrightarrow> or_from_slice (ds @ rest) ms = Some (map2 (OR) ds ms @ rest)"
  by (induction ds ms rule: list_induct2) auto

lemma and_from_slice_append:
  "length ds = length ms \<Longrightarrow> and_from_slice (ds @ rest) ms = Some (map2 (AND) ds ms @ rest)"
  by (induction ds ms rule: list_induct2) auto

lemma map2_or_to_le: "map2 (OR) (to_le n v) (to_le n w) = to_le n (v OR w)"
  by (rule nth_equalityI) (auto simp: unsigned_or_eq)

lemma map2_and_to_le: "map2 (AND) (to_le n v) (to_le n w) = to_le n (v AND w)"
  by (rule nth_equalityI) (auto simp: unsigned_and_eq)

lemma or_from_slice_le [simp]:
  "or_from_slice (to_le n v @ rest) (to_le n w) = Some (to_le n (v OR w) @ rest)"
  by (simp add: or_from_slice_append map2_or_to_le)

lemma and_from_slice_le [simp]:
  "and_from_slice (to_le n v @ rest) (to_le n w) = Some (to_le n (v AND w) @ rest)"
  by (simp add: and_from_slice_append map2_and_to_le)

lemma u32_from_slice_le [simp]: "u32_from_slice (to_le 4 w @ rest) = Some w"
  by (simp add: u32_from_slice_def)

lemma u64_from_slice_le [simp]: "u64_from_slice (to_le 8 w @ rest) = Some w"
  by (simp add: u64_from_slice_def)

text \<open>Every buffer of at least four (eight) bytes starts with the bytes of some word.\<close>

lemma le32_split:
  assumes "4 \<le> length buf"
  obtains w :: u32 where "buf = to_le 4 w @ drop 4 buf" and "u32_from_slice buf = Some w"
proof -
  have "to_le 4 (of_le (take 4 buf) :: u32) = take 4 buf"
    using assms by (intro to_le_of_le) auto
  with assms that [of "of_le (take 4 buf)"] show thesis
    by (simp add: u32_from_slice_def)
qed

lemma le64_split:
  assumes "8 \<le> length buf"
  obtains w :: u64 where "buf = to_le 8 w @ drop 8 buf" and "u64_from_slice buf = Some w"
proof -
  have "to_le 8 (of_le (take 8 buf) :: u64) = take 8 buf"
    using assms by (intro to_le_of_le) auto
  with assms that [of "of_le (take 8 buf)"] show thesis
    by (simp add: u64_from_slice_def)
qed

end
