(* ===== verification/Bit_Misc.thy ===== *)
theory Bit_Misc
  imports Prelude
begin

text \<open>
  Bit fields of 64-bit values: \<^verbatim>\<open>crates/reld-reloc/src/bit_misc.rs\<close>.

  Bit positions (\<^verbatim>\<open>u32\<close> in the code) are natural numbers. The \<^verbatim>\<open>debug_assert!\<close>s of
  \<^verbatim>\<open>extract_bit_range\<close> are the predicate \<open>range_ok\<close>. The lemmas give the meaning of each operation
  in terms of the library's \<open>take_bit\<close>, \<open>drop_bit\<close> and \<open>signed_take_bit\<close>.
\<close>

record bit_range =
  bit_start :: nat
  bit_end :: nat

definition range_ok :: "nat \<Rightarrow> nat \<Rightarrow> bool" where
  "range_ok a b \<longleftrightarrow> a < b \<and> b \<le> 64"

definition extract_bit_range :: "u64 \<Rightarrow> nat \<Rightarrow> nat \<Rightarrow> u64" where
  "extract_bit_range x a b =
     (if a = 0 \<and> b = 64 then x
      else shr x a AND (shl 1 (b - a) - 1))"

definition extract_bit :: "u64 \<Rightarrow> nat \<Rightarrow> u64" where
  "extract_bit x p = extract_bit_range x p (p + 1)"

definition low_bits :: "u64 \<Rightarrow> nat \<Rightarrow> u64" where
  "low_bits x n = x AND (shl 1 n - 1)"

definition sign_extend :: "u64 \<Rightarrow> nat \<Rightarrow> u64" where
  "sign_extend x s = (if x AND shl 1 s \<noteq> 0 then x OR NOT (shl 2 s - 1) else x)"

text \<open>The subtraction \<^verbatim>\<open>num_bits - 1\<close> is on \<^verbatim>\<open>u32\<close> and wraps at 0.\<close>

definition low_bits_signed :: "u64 \<Rightarrow> nat \<Rightarrow> u64" where
  "low_bits_signed x n = sign_extend (low_bits x n) (if n = 0 then 2 ^ 32 - 1 else n - 1)"

section \<open>Meaning of the operations\<close>

lemma extract_bit_range_eq:
  assumes "range_ok a b"
  shows "extract_bit_range x a b = take_bit (b - a) (drop_bit a x)"
proof (cases "a = 0 \<and> b = 64")
  case True
  have "take_bit 64 x = x"
    by (rule word64_eqI) (simp add: bit_eval)
  with True show ?thesis by (simp add: extract_bit_range_def)
next
  case False
  with assms have "b - a < 64" "a < 64"
    by (auto simp: range_ok_def)
  then show ?thesis
    unfolding extract_bit_range_def if_not_P [OF False]
    by (simp add: shl_one_minus_one shr_def take_bit_eq_mask)
qed

lemma bit_extract_bit_range [bit_eval]:
  "range_ok a b \<Longrightarrow> bit (extract_bit_range x a b) n \<longleftrightarrow> n < b - a \<and> bit x (a + n)"
  by (simp add: extract_bit_range_eq bit_simps)

lemma bit_extract_bit [bit_eval]:
  "p < 64 \<Longrightarrow> bit (extract_bit x p) n \<longleftrightarrow> n = 0 \<and> bit x p"
  by (auto simp: extract_bit_def bit_extract_bit_range range_ok_def)

lemma extract_bit_range_bound:
  assumes "range_ok a b"
  shows "unat (extract_bit_range x a b) < 2 ^ (b - a)"
proof -
  have "unat (extract_bit_range x a b) = take_bit (b - a) (unat (drop_bit a x))"
    using assms by (simp add: extract_bit_range_eq unsigned_take_bit_eq)
  then show ?thesis by simp
qed

lemma low_bits_eq: "n < 64 \<Longrightarrow> low_bits x n = take_bit n x"
  by (simp add: low_bits_def shl_one_minus_one take_bit_eq_mask)

lemma bit_low_bits [bit_eval]: "n < 64 \<Longrightarrow> bit (low_bits x n) m \<longleftrightarrow> m < n \<and> bit x m"
  by (simp add: low_bits_eq bit_simps)

lemma and_bit_zero_iff:
  "s < 64 \<Longrightarrow> (x :: u64) AND shl 1 s = 0 \<longleftrightarrow> \<not> bit x s"
  by (auto simp: bit_eq_iff bit_eval) (auto simp: bit_1_iff)

lemma sign_mask: "s < 64 \<Longrightarrow> shl (2::u64) s - 1 = mask (Suc s)"
  by (simp add: shl_def mask_eq_exp_minus_1 push_bit_eq_mult)

lemma bit_sign_extend [bit_eval]:
  "s < 64 \<Longrightarrow> bit (sign_extend x s) n \<longleftrightarrow> bit x n \<or> bit x s \<and> s < n \<and> n < 64"
  by (auto simp: sign_extend_def and_bit_zero_iff sign_mask bit_simps
      dest: bit_imp_le_length)

lemma bit_low_bits_signed [bit_eval]:
  "0 < n \<Longrightarrow> n < 64 \<Longrightarrow>
     bit (low_bits_signed x n) m \<longleftrightarrow> m < 64 \<and> bit x (min m (n - 1))"
  by (auto simp: low_bits_signed_def bit_eval min_def dest: bit_imp_le_length)

lemma low_bits_signed_eq:
  "0 < n \<Longrightarrow> n < 64 \<Longrightarrow> low_bits_signed x n = signed_take_bit (n - 1) x"
  by (rule word64_eqI) (simp add: bit_low_bits_signed bit_signed_take_bit_word)

section \<open>Splitting a value into a high and a signed low part\<close>

lemma and_not_minus: "a AND NOT b = a - (a AND b :: 'w::len word)"
proof -
  have "(a AND b) AND (a AND NOT b) = 0" "(a AND b) OR (a AND NOT b) = a"
    by (rule bit_word_eqI; auto simp: bit_eval)+
  then have "(a AND b) + (a AND NOT b) = a"
    using word_plus_and_or [of "a AND b" "a AND NOT b"] by simp
  then show ?thesis by (simp add: algebra_simps)
qed

lemma signed_take_bit_word_shift:
  assumes "n < 63"
  shows "signed_take_bit n v = take_bit (Suc n) (v + 2 ^ n) - (2 ^ n :: u64)"
proof -
  define k where "k = uint v"
  have v: "v = word_of_int k" by (simp add: k_def)
  have stb: "signed_take_bit n (word_of_int j :: u64) = word_of_int (signed_take_bit n j)" for j
    using assms
    by (intro bit_word_eqI) (auto simp: bit_eval bit_signed_take_bit_iff bit_word_of_int_iff min_def)
  have tb: "take_bit (Suc n) (word_of_int j :: u64) = word_of_int (take_bit (Suc n) j)" for j
    using assms
    by (intro bit_word_eqI) (auto simp: bit_eval bit_take_bit_iff bit_word_of_int_iff)
  have "signed_take_bit n v = word_of_int (take_bit (Suc n) (k + 2 ^ n) - 2 ^ n)"
    by (simp add: v stb signed_take_bit_eq_take_bit_shift)
  also have "\<dots> = take_bit (Suc n) (word_of_int (k + 2 ^ n)) - 2 ^ n"
    by (simp only: tb of_int_diff of_int_power of_int_numeral)
  also have "word_of_int (k + 2 ^ n) = v + 2 ^ n"
    by (simp add: v)
  finally show ?thesis .
qed

lemma take_bit_word_add:
  assumes "n < 64"
  shows "take_bit n (take_bit n a + b) = take_bit n (a + b :: u64)"
proof -
  have tb: "take_bit n (word_of_int j :: u64) = word_of_int (take_bit n j)" for j
    using assms by (intro bit_word_eqI) (auto simp: bit_eval bit_take_bit_iff bit_word_of_int_iff)
  have ab: "a + b = word_of_int (uint a + uint b)" by simp
  have part: "take_bit n a + b = word_of_int (take_bit n (uint a) + uint b)"
    using tb [of "uint a"] by simp
  have "take_bit n (uint a + uint b) = take_bit n (take_bit n (uint a) + uint b)"
    by (simp add: take_bit_eq_mod mod_add_left_eq)
  then show ?thesis by (simp only: ab part tb)
qed

lemma round_split:
  assumes "n < 63"
  shows "(v + 2 ^ n) AND NOT (mask (Suc n)) = v - signed_take_bit n (v :: u64)"
  using and_not_minus [of "v + 2 ^ n" "mask (Suc n)"] signed_take_bit_word_shift [OF assms, of v]
  by (simp add: take_bit_eq_mask)

end
