(* ===== verification/Reloc_Info.thy ===== *)
theory Reloc_Info
  imports Bit_Misc
begin

text \<open>
  The vocabulary of relocations: \<^verbatim>\<open>crates/reld-reloc/src/elf.rs\<close>. Relocation kinds, the
  instruction formats of the four architectures whose relocations patch instructions, the size
  of the patched field, the allowed range of the computed value, and the record that a table of
  an architecture gives for a relocation type.

  The numeric relocation types live in the \<^verbatim>\<open>object\<close> crate. Each architecture's theory has its own
  type of relocation types, with one constructor for each constant the code names and one for
  every other number; the types below are polymorphic in it (\<open>'r\<close>).
\<close>

datatype sign = Signed | Unsigned

datatype 'r relocation_kind =
    Absolute | AbsoluteSet | AbsoluteSetWord6 | AbsoluteAddition | AbsoluteAdditionWord6
  | AbsoluteSubtraction | AbsoluteSubtractionWord6 | AbsoluteLowPart
  | PairSubtractionULEB128 'r
  | Relative | RelativeLoongArchHigh | RelativeRiscVLow12
  | SymRelGotBase | GotRelGotBase | Got | PltRelGotBase | PltRelative
  | GotRelative | GotRelativeLoongArch64
  | TlsGd | TlsGdGot | TlsGdGotBase | TlsLd | TlsLdGot | TlsLdGotBase
  | DtpOff | GotTpOff | GotTpOffLoongArch64 | GotTpOffGot | GotTpOffGotBase | TpOff
  | TlsDesc | TlsDescLoongArch64 | TlsDescGot | TlsDescGotBase | TlsDescCall
  | NoRelocation | AlignmentReq

fun is_tls :: "'r relocation_kind \<Rightarrow> bool" where
  "is_tls DtpOff = True"
| "is_tls GotTpOff = True"
| "is_tls GotTpOffGotBase = True"
| "is_tls TlsDesc = True"
| "is_tls TlsDescCall = True"
| "is_tls TlsDescGot = True"
| "is_tls TlsDescGotBase = True"
| "is_tls TlsGd = True"
| "is_tls TlsGdGot = True"
| "is_tls TlsGdGotBase = True"
| "is_tls TlsLd = True"
| "is_tls TlsLdGot = True"
| "is_tls TlsLdGotBase = True"
| "is_tls TpOff = True"
| "is_tls _ = False"

datatype aarch64_instruction =
  Adr | Movkz | Movnz | Ldr | LdrRegister | Add | LdSt | TstBr | Bcond | JumpCall | MachOLow12

datatype riscv_instruction =
  UiType | UType | IType | SType | BType | JType | CbType | CjType | CluiType

datatype loongarch64_instruction =
  Shift5 | Shift10 | Branch21 | Branch26 | Call30 | Call36

datatype ppc64_instruction = D | Ds | Branch14 | Branch24

datatype relocation_instruction =
    AArch64 aarch64_instruction
  | RiscV riscv_instruction
  | LoongArch64 loongarch64_instruction
  | Ppc64 ppc64_instruction

text \<open>\<^verbatim>\<open>BitMask { instruction, range }\<close>, built by \<^verbatim>\<open>BitMask::new\<close>.\<close>

record bit_mask =
  instruction :: relocation_instruction
  range :: bit_range

definition bit_mask_new :: "relocation_instruction \<Rightarrow> nat \<Rightarrow> nat \<Rightarrow> bit_mask" where
  "bit_mask_new i a b = \<lparr>instruction = i, range = \<lparr>bit_start = a, bit_end = b\<rparr>\<rparr>"

datatype relocation_size = ByteSize nat | BitMasking bit_mask

definition bit_mask_aarch64 :: "nat \<Rightarrow> nat \<Rightarrow> aarch64_instruction \<Rightarrow> relocation_size" where
  "bit_mask_aarch64 a b i = BitMasking (bit_mask_new (AArch64 i) a b)"

definition bit_mask_riscv :: "nat \<Rightarrow> nat \<Rightarrow> riscv_instruction \<Rightarrow> relocation_size" where
  "bit_mask_riscv a b i = BitMasking (bit_mask_new (RiscV i) a b)"

definition bit_mask_loongarch64 :: "nat \<Rightarrow> nat \<Rightarrow> loongarch64_instruction \<Rightarrow> relocation_size" where
  "bit_mask_loongarch64 a b i = BitMasking (bit_mask_new (LoongArch64 i) a b)"

definition bit_mask_ppc64 :: "nat \<Rightarrow> nat \<Rightarrow> ppc64_instruction \<Rightarrow> relocation_size" where
  "bit_mask_ppc64 a b i = BitMasking (bit_mask_new (Ppc64 i) a b)"

lemmas bit_mask_defs =
  bit_mask_aarch64_def bit_mask_riscv_def bit_mask_loongarch64_def bit_mask_ppc64_def
  bit_mask_new_def

definition is_ppc64_branch :: "relocation_size \<Rightarrow> bool" where
  "is_ppc64_branch s =
     (case s of
        BitMasking m \<Rightarrow> (case instruction m of
            Ppc64 Branch14 \<Rightarrow> True | Ppc64 Branch24 \<Rightarrow> True | _ \<Rightarrow> False)
      | ByteSize _ \<Rightarrow> False)"

section \<open>Sizes and page masks\<close>

definition SIZE_2KB :: u64 where "SIZE_2KB = shl 1 11"
definition SIZE_4KB :: u64 where "SIZE_4KB = shl 1 12"
definition SIZE_2GB :: u64 where "SIZE_2GB = shl 1 31"
definition SIZE_4GB :: u64 where "SIZE_4GB = shl 1 32"
definition PAGE_MASK_4KB :: u64 where "PAGE_MASK_4KB = SIZE_4KB - 1"
definition PAGE_MASK_4GB :: u64 where "PAGE_MASK_4GB = SIZE_4GB - 1"

datatype page_mask =
  SymbolPlusAddendAndPosition u64 | GotEntryAndPosition u64 | GotBase u64 | Position u64

section \<open>The allowed range of a relocation value\<close>

text \<open>
  Both bounds are \<^verbatim>\<open>i64\<close>: integers in \<open>i64_range\<close>. \<open>i64_wrap\<close> is the wrap-around of \<^verbatim>\<open>i64\<close>
  arithmetic.
\<close>

definition i64_min :: int where "i64_min = - (2 ^ 63)"
definition i64_max :: int where "i64_max = 2 ^ 63 - 1"

definition i64_wrap :: "int \<Rightarrow> int" where
  "i64_wrap x = (x + 2 ^ 63) mod 2 ^ 64 - 2 ^ 63"

record allowed_range =
  range_min :: int
  range_max :: int

definition range_new :: "int \<Rightarrow> int \<Rightarrow> allowed_range" where
  "range_new lo hi = \<lparr>range_min = lo, range_max = hi\<rparr>"

definition no_check :: allowed_range where
  "no_check = range_new i64_min i64_max"

definition from_bit_size :: "nat \<Rightarrow> sign \<Rightarrow> allowed_range option" where
  "from_bit_size n s =
     (if n = 0 \<or> n = 64 then Some no_check
      else if n = 63 \<and> s = Unsigned then None
      else if 1 \<le> n \<and> n < 64 then
        (case s of
           Unsigned \<Rightarrow> Some (range_new 0 (2 ^ n))
         | Signed \<Rightarrow> Some (range_new (- (2 ^ (n - 1))) (2 ^ (n - 1))))
      else None)"

definition from_byte_size :: "nat \<Rightarrow> sign \<Rightarrow> allowed_range option" where
  "from_byte_size n s = from_bit_size (8 * n) s"

definition range_contains :: "allowed_range \<Rightarrow> int \<Rightarrow> bool" where
  "range_contains r v \<longleftrightarrow> range_min r \<le> v \<and> v < range_max r"

definition overrun :: "allowed_range \<Rightarrow> int \<Rightarrow> int" where
  "overrun r v =
     (if v < range_min r then i64_wrap (v - range_min r)
      else if range_max r < v then i64_wrap (v - range_max r)
      else 0)"

text \<open>
  The tables build their ranges in constant expressions, where a panic would be a compile-time
  error; \<open>const_range\<close> is the value of such an expression.
\<close>

abbreviation const_range :: "nat \<Rightarrow> sign \<Rightarrow> allowed_range" where
  "const_range n s \<equiv> the (from_bit_size n s)"

record 'r relocation_kind_info =
  kind :: "'r relocation_kind"
  rel_size :: relocation_size
  page_mask :: "page_mask option"
  allowed :: allowed_range
  rel_alignment :: nat
  bias :: u64
  thunkable :: bool

section \<open>Facts about ranges\<close>

lemma range_contains_new [simp]: "range_contains (range_new lo hi) v \<longleftrightarrow> lo \<le> v \<and> v < hi"
  by (simp add: range_contains_def range_new_def)

lemma range_contains_no_check [simp]:
  "range_contains no_check v \<longleftrightarrow> i64_min \<le> v \<and> v < i64_max"
  by (simp add: no_check_def)

lemma i64_wrap_id: "i64_min \<le> x \<Longrightarrow> x \<le> i64_max \<Longrightarrow> i64_wrap x = x"
  by (simp add: i64_wrap_def i64_min_def i64_max_def)

lemma sint_i64: "i64_min \<le> sint (v :: u64) \<and> sint v \<le> i64_max"
  using sint_greater_eq [of v] sint_less [of v] by (simp add: i64_min_def i64_max_def)

lemma from_bit_size_signed:
  "0 < n \<Longrightarrow> n < 64 \<Longrightarrow> from_bit_size n Signed = Some (range_new (- (2 ^ (n - 1))) (2 ^ (n - 1)))"
  by (simp add: from_bit_size_def)

lemma from_bit_size_unsigned:
  "0 < n \<Longrightarrow> n < 63 \<Longrightarrow> from_bit_size n Unsigned = Some (range_new 0 (2 ^ n))"
  by (simp add: from_bit_size_def)

text \<open>A value in the range of an \<open>n\<close>-bit field is determined by its low \<open>n\<close> bits.\<close>

lemma bit_sint: "m < 64 \<Longrightarrow> bit (sint (v :: u64)) m \<longleftrightarrow> bit v m"
  by (simp add: bit_signed_iff)

lemma signed_take_bit_self:
  assumes "- (2 ^ k) \<le> sint v" "sint v < 2 ^ k"
  shows "signed_take_bit k v = (v :: u64)"
proof (rule bit_word_eqI)
  fix m assume m: "m < LENGTH(64)"
  have "signed_take_bit k (sint v) = sint v"
    using assms by (simp add: signed_take_bit_int_eq_self)
  then have "bit (sint v) m = bit (sint v) (min k m)"
    using bit_signed_take_bit_iff [of k "sint v" m] by simp
  with m show "bit (signed_take_bit k v) m = bit v m"
    by (simp add: bit_eval bit_sint min.commute)
qed

lemma take_bit_self:
  assumes "0 \<le> sint v" "sint v < 2 ^ k"
  shows "take_bit k v = (v :: u64)"
proof (rule bit_word_eqI)
  fix m assume m: "m < LENGTH(64)"
  have "take_bit k (sint v) = sint v"
    using assms by (simp add: take_bit_int_eq_self)
  then have "bit (sint v) m = (m < k \<and> bit (sint v) m)"
    using bit_take_bit_iff [of k "sint v" m] by simp
  with m show "bit (take_bit k v) m = bit v m"
    by (simp add: bit_eval bit_sint)
qed

lemma signed_range_recover:
  assumes "0 < n" "n < 64" "range_contains (const_range n Signed) (sint v)"
  shows "signed_take_bit (n - 1) v = (v :: u64)"
  using assms by (simp add: from_bit_size_signed signed_take_bit_self)

lemma unsigned_range_recover:
  assumes "0 < n" "n < 63" "range_contains (const_range n Unsigned) (sint v)"
  shows "take_bit n v = (v :: u64)"
  using assms by (simp add: from_bit_size_unsigned take_bit_self)

text \<open>
  \<^verbatim>\<open>overrun\<close> is documented as the distance outside the allowed range. It is 0 on every value the
  range contains, but also on \<^verbatim>\<open>max\<close> itself, which \<^verbatim>\<open>contains\<close> rejects: the bound is exclusive there.
\<close>

lemma overrun_contained: "range_contains r v \<Longrightarrow> overrun r v = 0"
  by (simp add: range_contains_def overrun_def)

lemma overrun_at_max:
  "range_min r \<le> range_max r \<Longrightarrow> overrun r (range_max r) = 0 \<and> \<not> range_contains r (range_max r)"
  by (simp add: range_contains_def overrun_def)

end
