(* ===== verification/Insn_Codec.thy ===== *)
theory Insn_Codec
  imports Byte_Utils Reloc_Info
begin

text \<open>
  The interface between the relocation writer and the instruction formats of an architecture.
  A format is seen through \<open>enc\<close>, the effect of \<^verbatim>\<open>write_to_value\<close> on the instruction word, and the
  promise that a value of at most \<open>width\<close> bits changes nothing outside the immediate field. A
  readable format can also be read with \<^verbatim>\<open>read_value\<close>; a clearing format zeroes its field before it
  writes, so the last write wins.

  Each instruction theory interprets these locales on its own formats.
\<close>

locale insn_codec =
  fixes enc :: "u64 \<Rightarrow> bool \<Rightarrow> 'w::len word \<Rightarrow> 'w word"
    and fld :: "'w word"
    and width :: nat
  assumes frame: "unat v < 2 ^ width \<Longrightarrow> enc v neg w AND NOT fld = w AND NOT fld"
begin

lemma frame_bit:
  assumes "unat v < 2 ^ width" and "\<not> bit fld n"
  shows "bit (enc v neg w) n \<longleftrightarrow> bit w n"
proof (cases "n < LENGTH('w)")
  case True
  have "bit (enc v neg w AND NOT fld) n = bit (w AND NOT fld) n"
    using frame [OF assms(1)] by simp
  with True assms(2) show ?thesis by (simp add: bit_eval)
qed (auto dest: bit_imp_le_length)

lemma frame_twice:
  assumes "unat v < 2 ^ width" and "unat u < 2 ^ width"
  shows "enc v neg (enc u neg' w) AND NOT fld = w AND NOT fld"
  using assms by (simp add: frame)

end

locale readable_codec = insn_codec enc fld width
  for enc :: "u64 \<Rightarrow> bool \<Rightarrow> 'w::len word \<Rightarrow> 'w word" and fld width +
  fixes dec :: "'w word \<Rightarrow> (u64 \<times> bool) option"
    and blank :: "'w word \<Rightarrow> bool"
    and norm :: "u64 \<Rightarrow> bool \<Rightarrow> u64 \<times> bool"
  assumes read_back: "unat v < 2 ^ width \<Longrightarrow> blank w \<Longrightarrow> dec (enc v neg w) = Some (norm v neg)"
begin

lemma read_back_inj:
  assumes "unat v < 2 ^ width" "unat u < 2 ^ width" "blank w" "blank x"
    and "enc v neg w = enc u neg' x"
  shows "norm v neg = norm u neg'"
  using read_back [OF assms(1,3), of neg] read_back [OF assms(2,4), of neg'] assms(5) by simp

end

locale clearing_codec = insn_codec enc fld width
  for enc :: "u64 \<Rightarrow> bool \<Rightarrow> 'w::len word \<Rightarrow> 'w word" and fld width +
  assumes overwrite: "unat u < 2 ^ width \<Longrightarrow> enc v neg (enc u neg' w) = enc v neg w"
begin

lemma idempotent: "unat v < 2 ^ width \<Longrightarrow> enc v neg (enc v neg w) = enc v neg w"
  by (rule overwrite)

end

text \<open>
  The usual way to be a clearing format: keep some bits of the word and set the immediate in
  the others. Only the disjointness of the two is left to the instruction.
\<close>

definition keep_set :: "'w::len word \<Rightarrow> (u64 \<Rightarrow> 'w word) \<Rightarrow> u64 \<Rightarrow> bool \<Rightarrow> 'w word \<Rightarrow> 'w word" where
  "keep_set keep imm v neg w = w AND keep OR imm v"

locale masked_codec =
  fixes keep :: "'w::len word"
    and imm :: "u64 \<Rightarrow> 'w word"
    and width :: nat
  assumes disjoint: "unat v < 2 ^ width \<Longrightarrow> imm v AND keep = 0"
begin

lemma keep_set_keeps:
  assumes "unat v < 2 ^ width"
  shows "keep_set keep imm v neg w AND keep = w AND keep"
proof -
  have "keep_set keep imm v neg w AND keep = (w AND keep) AND keep OR imm v AND keep"
    by (simp only: keep_set_def bit.conj_disj_distrib2)
  then show ?thesis
    by (simp add: disjoint [OF assms] and.assoc)
qed

lemma keep_set_imm:
  assumes "unat v < 2 ^ width"
  shows "keep_set keep imm v neg w AND NOT keep = imm v"
proof -
  have "keep_set keep imm v neg w AND NOT keep = (w AND keep) AND NOT keep OR imm v AND NOT keep"
    by (simp only: keep_set_def bit.conj_disj_distrib2)
  moreover have "imm v AND NOT keep = imm v"
    using disjoint [OF assms] by (rule and_not_of_clear)
  ultimately show ?thesis
    by (simp add: and.assoc)
qed

end

sublocale masked_codec \<subseteq> clearing_codec "keep_set keep imm" "NOT keep" width
proof unfold_locales
  fix u v :: u64 and neg neg' and w :: "'w word"
  show "keep_set keep imm v neg w AND NOT (NOT keep) = w AND NOT (NOT keep)"
    if "unat v < 2 ^ width"
    using keep_set_keeps [OF that] by simp
  show "keep_set keep imm v neg (keep_set keep imm u neg' w) = keep_set keep imm v neg w"
    if "unat u < 2 ^ width"
    unfolding keep_set_def [of _ _ v] keep_set_keeps [OF that] ..
qed

section \<open>Encoders on buffers\<close>

text \<open>
  \<open>patches f e\<close>: on a buffer that is long enough the byte-level writer \<open>f\<close> returns the buffer
  with \<open>e\<close> applied to the little-endian word it starts with; on a shorter one it panics.
\<close>

definition insn_bytes :: "('w::len word \<Rightarrow> 'w word) \<Rightarrow> nat" where
  "insn_bytes e = LENGTH('w) div 8"

definition patches :: "(u8 list \<Rightarrow> u8 list option) \<Rightarrow> ('w::len word \<Rightarrow> 'w word) \<Rightarrow> bool" where
  "patches f e \<longleftrightarrow>
     8 dvd LENGTH('w) \<and>
     (\<forall>w rest. f (to_le (insn_bytes e) w @ rest) = Some (to_le (insn_bytes e) (e w) @ rest)) \<and>
     (\<forall>buf. length buf < insn_bytes e \<longrightarrow> f buf = None)"

lemma insn_bytes_eval [simp]:
  "insn_bytes (e16 :: u16 \<Rightarrow> u16) = 2"
  "insn_bytes (e32 :: u32 \<Rightarrow> u32) = 4"
  "insn_bytes (e64 :: u64 \<Rightarrow> u64) = 8"
  by (simp_all add: insn_bytes_def)

lemma patches_step:
  fixes e :: "'w::len word \<Rightarrow> 'w word"
  assumes p: "patches f e" and len: "insn_bytes e \<le> length buf"
  shows "f buf = Some (to_le (insn_bytes e) (e (of_le (take (insn_bytes e) buf)))
                       @ drop (insn_bytes e) buf)"
proof -
  let ?n = "insn_bytes e" and ?w = "of_le (take (insn_bytes e) buf) :: 'w word"
  have "8 * ?n = LENGTH('w)"
    using p by (simp add: patches_def insn_bytes_def)
  then have "to_le ?n ?w = take ?n buf"
    using len by (intro to_le_of_le) auto
  moreover have "f (to_le ?n ?w @ drop ?n buf) = Some (to_le ?n (e ?w) @ drop ?n buf)"
    using p unfolding patches_def by blast
  ultimately show ?thesis by simp
qed

lemma patches_Some:
  assumes "patches f e" and "f buf = Some buf'"
  shows "insn_bytes e \<le> length buf"
    and "buf' = to_le (insn_bytes e) (e (of_le (take (insn_bytes e) buf)))
                @ drop (insn_bytes e) buf"
proof -
  show "insn_bytes e \<le> length buf"
    using assms unfolding patches_def by (metis not_less option.distinct(1))
  with assms patches_step show "buf' = to_le (insn_bytes e)
      (e (of_le (take (insn_bytes e) buf))) @ drop (insn_bytes e) buf"
    by fastforce
qed

text \<open>What a successful write leaves: the length, the bytes behind the instruction, its word.\<close>

lemma patches_result:
  fixes e :: "'w::len word \<Rightarrow> 'w word"
  assumes "patches f e" and "f buf = Some buf'"
  shows "length buf' = length buf"
    and "drop (insn_bytes e) buf' = drop (insn_bytes e) buf"
    and "(of_le (take (insn_bytes e) buf') :: 'w word) = e (of_le (take (insn_bytes e) buf))"
proof -
  let ?n = "insn_bytes e"
  have n: "LENGTH('w) \<le> 8 * ?n"
    using assms(1) by (simp add: patches_def insn_bytes_def)
  note len = patches_Some(1) [OF assms] and buf' = patches_Some(2) [OF assms]
  show "length buf' = length buf" using len by (subst buf') simp
  show "drop ?n buf' = drop ?n buf" by (subst buf') simp
  show "(of_le (take ?n buf') :: 'w word) = e (of_le (take ?n buf))"
    using n by (subst buf') simp
qed

text \<open>A writer that reads and writes the first \<open>n\<close> bytes of its buffer, and panics without them.\<close>

definition windowed :: "(u8 list \<Rightarrow> u8 list option) \<Rightarrow> nat \<Rightarrow> bool" where
  "windowed f n \<longleftrightarrow>
     (\<forall>buf. f buf = None \<longleftrightarrow> length buf < n) \<and>
     (\<forall>buf buf'. f buf = Some buf' \<longrightarrow> length buf' = length buf \<and> drop n buf' = drop n buf)"

lemma patches_windowed:
  fixes e :: "'w::len word \<Rightarrow> 'w word"
  assumes p: "patches f e"
  shows "windowed f (insn_bytes e)"
  unfolding windowed_def
proof (intro conjI allI impI)
  fix buf
  show "f buf = None \<longleftrightarrow> length buf < insn_bytes e"
  proof (cases "length buf < insn_bytes e")
    case True
    with p show ?thesis by (simp add: patches_def)
  qed (simp add: patches_step [OF p] not_less)
qed (use patches_result [OF p] in blast)+

text \<open>
  \<open>buf_bit buf n\<close> is bit \<open>n\<close> of a buffer counted from its first byte. A writer that applies the
  encoder of a format changes no bit of the buffer outside the format's field.
\<close>

definition buf_bit :: "u8 list \<Rightarrow> nat \<Rightarrow> bool" where
  "buf_bit buf n = bit (buf ! (n div 8)) (n mod 8)"

lemma buf_bit_of_le:
  "n < LENGTH('w) \<Longrightarrow> n < 8 * k \<Longrightarrow> k \<le> length buf \<Longrightarrow>
   bit (of_le (take k buf) :: 'w::len word) n = buf_bit buf n"
  by (auto simp: buf_bit_def bit_of_le)

lemma buf_bit_drop:
  assumes "drop k buf' = drop k buf" "length buf' = length buf" "8 * k \<le> n" "n < 8 * length buf"
  shows "buf_bit buf' n = buf_bit buf n"
proof -
  have i: "k \<le> n div 8" "n div 8 < length buf" using assms(3,4) by simp_all
  have "buf' ! (n div 8) = drop k buf' ! (n div 8 - k)" using i assms(2) by simp
  also have "\<dots> = buf ! (n div 8)" using i assms(1) by simp
  finally show ?thesis by (simp add: buf_bit_def)
qed

definition confined_write :: "(u8 list \<Rightarrow> u8 list option) \<Rightarrow> u64 \<Rightarrow> bool" where
  "confined_write f fld \<longleftrightarrow>
     (\<forall>buf buf' n. f buf = Some buf' \<longrightarrow> n < 8 * length buf \<longrightarrow> \<not> bit fld n \<longrightarrow>
        buf_bit buf' n = buf_bit buf n)"

context insn_codec
begin

lemma patches_confined:
  assumes p: "patches f (enc v neg)" and f: "f buf = Some buf'" and v: "unat v < 2 ^ width"
    and n: "n < 8 * length buf" and fld: "\<not> bit fld n"
  shows "buf_bit buf' n = buf_bit buf n"
proof -
  let ?k = "insn_bytes (enc v neg)"
  note res = patches_result [OF p f]
  have k: "8 * ?k = LENGTH('w)" "?k \<le> length buf"
    using p patches_Some(1) [OF p f] by (simp_all add: patches_def insn_bytes_def)
  show ?thesis
  proof (cases "n < LENGTH('w)")
    case True
    then have "buf_bit buf' n = bit (enc v neg (of_le (take ?k buf))) n"
      using k res by (simp add: res(3) [symmetric] buf_bit_of_le)
    also have "\<dots> = bit (of_le (take ?k buf) :: 'w word) n"
      by (rule frame_bit [OF v fld])
    also have "\<dots> = buf_bit buf n"
      using True k by (simp add: buf_bit_of_le)
    finally show ?thesis .
  next
    case False
    with k have "8 * ?k \<le> n" by simp
    with res n show ?thesis by (intro buf_bit_drop [of ?k])
  qed
qed

lemma confined:
  assumes p: "patches f (enc v neg)" and v: "unat v < 2 ^ width" and w: "LENGTH('w) \<le> 64"
  shows "confined_write f (ucast fld)"
  unfolding confined_write_def
proof (intro allI impI)
  fix buf buf' n
  assume *: "f buf = Some buf'" "n < 8 * length buf" "\<not> bit (ucast fld :: u64) n"
  from *(3) w have "\<not> bit fld n"
    by (auto simp: bit_ucast_word dest: bit_imp_le_length)
  then show "buf_bit buf' n = buf_bit buf n"
    by (rule patches_confined [OF p *(1) v *(2)])
qed

end

context readable_codec
begin

lemma patches_read_back:
  assumes p: "patches f (enc v neg)" and f: "f buf = Some buf'" and v: "unat v < 2 ^ width"
    and k: "k = insn_bytes (enc v neg)" and b: "blank (of_le (take k buf))"
  shows "dec (of_le (take k buf')) = Some (norm v neg)"
  using patches_result(3) [OF p f] read_back [OF v b] k by simp

end

text \<open>Writing with a clearing format replaces what an earlier write left in the field.\<close>

definition replaces :: "(u8 list \<Rightarrow> u8 list option) \<Rightarrow> (u8 list \<Rightarrow> u8 list option) \<Rightarrow> bool" where
  "replaces f g \<longleftrightarrow> (\<forall>buf buf'. g buf = Some buf' \<longrightarrow> f buf' = f buf)"

context clearing_codec
begin

lemma patches_replace:
  assumes f: "patches f (enc v neg)" and g: "patches g (enc u neg')" and u: "unat u < 2 ^ width"
  shows "replaces f g"
  unfolding replaces_def
proof (intro allI impI)
  fix buf buf'
  assume buf: "g buf = Some buf'"
  note res = patches_result [OF g buf]
  have k: "insn_bytes (enc v neg) = insn_bytes (enc u neg')"
    by (simp add: insn_bytes_def)
  have len: "insn_bytes (enc v neg) \<le> length buf" "insn_bytes (enc v neg) \<le> length buf'"
    using patches_Some(1) [OF g buf] res(1) k by simp_all
  show "f buf' = f buf"
    using patches_step [OF f len(1)] patches_step [OF f len(2)] res(2,3)
    unfolding k by (simp add: overwrite [OF u])
qed

end

text \<open>\<^verbatim>\<open>and_from_slice\<close> followed by \<^verbatim>\<open>or_from_slice\<close>, as the arms of most formats end.\<close>

definition mask_and_set :: "u8 list \<Rightarrow> u8 list \<Rightarrow> u8 list \<Rightarrow> u8 list option" where
  "mask_and_set dest keep new =
     (case and_from_slice dest keep of None \<Rightarrow> None | Some dest \<Rightarrow> or_from_slice dest new)"

lemma mask_and_set_le:
  "mask_and_set (to_le n w @ rest) (to_le n keep) (to_le n new)
     = Some (to_le n (w AND keep OR new) @ rest)"
  by (simp add: mask_and_set_def)

lemma mask_and_set_short:
  "length dest < length keep \<Longrightarrow> mask_and_set dest keep new = None"
  by (simp add: mask_and_set_def and_from_slice_None [THEN iffD2])

lemma mask_and_set_patches:
  assumes "8 dvd LENGTH('w)" "insn_bytes e = n" "\<And>w. e w = keep_set keep imm v neg w"
    and "\<And>dest. f dest = mask_and_set dest (to_le n keep) (to_le n (imm v :: 'w::len word))"
  shows "patches f (e :: 'w word \<Rightarrow> 'w word)"
  using assms(1,2)
  by (auto simp: patches_def assms(3,4) mask_and_set_le mask_and_set_short keep_set_def)

end
