(* ===== verification/Insn_AArch64.thy ===== *)
theory Insn_AArch64
  imports Insn_Codec
begin

text \<open>
  AArch64 instruction immediates: \<^verbatim>\<open>impl AArch64Instruction\<close> of
  \<^verbatim>\<open>crates/reld-reloc/src/aarch64.rs\<close>. \<open>aarch64_write_to_value\<close> and \<open>aarch64_read_value\<close> follow the
  code on bytes; \<open>aarch64_enc\<close> and \<open>aarch64_dec\<close> are their effect on the instruction word, and
  \<open>aarch64_field\<close> is the immediate field of the format in the Arm manual's encoding.
\<close>

section \<open>The code\<close>

fun aarch64_write_to_value ::
    "aarch64_instruction \<Rightarrow> u64 \<Rightarrow> bool \<Rightarrow> u8 list \<Rightarrow> u8 list option" where
  "aarch64_write_to_value Adr v neg dest =
     (let mask = shl (ucast (extract_bit_range v 0 2) :: u32) 29
                 OR shl (ucast (extract_bit_range v 2 32)) 5
      in or_from_slice dest (to_le 4 mask))"
| "aarch64_write_to_value Movkz v neg dest =
     (let mask = shl (ucast v :: u32) 5 in or_from_slice dest (to_le 4 mask))"
| "aarch64_write_to_value Movnz v neg dest =
     (case and_from_slice dest (to_le 4 (0x0060001F :: u32)) of
        None \<Rightarrow> None
      | Some dest \<Rightarrow>
          let value = (if neg then NOT v else v);
              mask = (if neg then 0x92800000 else 0xd2800000 :: u32)
                     OR shl (ucast (extract_bit_range value 0 16)) 5
          in or_from_slice dest (to_le 4 mask))"
| "aarch64_write_to_value Ldr v neg dest =
     (let mask = shl (ucast v :: u32) 5 in or_from_slice dest (to_le 4 mask))"
| "aarch64_write_to_value LdrRegister v neg dest =
     (let mask = shl (ucast v :: u32) 10 in or_from_slice dest (to_le 4 mask))"
| "aarch64_write_to_value Add v neg dest =
     (let mask = shl (ucast v :: u32) 10 in or_from_slice dest (to_le 4 mask))"
| "aarch64_write_to_value LdSt v neg dest =
     (let mask = shl (ucast v :: u32) 10 in or_from_slice dest (to_le 4 mask))"
| "aarch64_write_to_value TstBr v neg dest =
     (let mask = shl (ucast v :: u32) 5 in or_from_slice dest (to_le 4 mask))"
| "aarch64_write_to_value Bcond v neg dest =
     (let mask = shl (ucast v :: u32) 5 in or_from_slice dest (to_le 4 mask))"
| "aarch64_write_to_value JumpCall v neg dest =
     (let mask = (ucast v :: u32) in or_from_slice dest (to_le 4 mask))"
| "aarch64_write_to_value MachOLow12 v neg dest =
     (case u32_from_slice dest of
        None \<Rightarrow> None
      | Some insn \<Rightarrow>
          let scale = (if insn AND 0x3b000000 = 0x39000000
                       then (let scale = shr insn 30
                             in if scale = 0 \<and> insn AND 0x04800000 = 0x04800000
                                then 4 else scale)
                       else 0)
          in (case and_from_slice dest (to_le 4 (NOT (shl (0xfff :: u32) 10))) of
                None \<Rightarrow> None
              | Some dest \<Rightarrow>
                  let mask = shl (shr (ucast v :: u32) (unat scale)) 10
                  in or_from_slice dest (to_le 4 mask)))"

text \<open>Reading \<^verbatim>\<open>MachOLow12\<close> is a \<^verbatim>\<open>todo!()\<close>, which panics.\<close>

fun aarch64_dec :: "aarch64_instruction \<Rightarrow> u64 \<Rightarrow> (u64 \<times> bool) option" where
  "aarch64_dec Adr value =
     Some (low_bits (shr value 29) 2 OR shl (low_bits_signed (shr value 5) 19) 2, False)"
| "aarch64_dec Movkz value = Some (low_bits_signed (shr value 5) 16, False)"
| "aarch64_dec Movnz value =
     (let negative = (value AND shl 1 30 = 0);
          v = low_bits (shr value 5) 16
      in Some (if negative then NOT v else v, negative))"
| "aarch64_dec Ldr value = Some (low_bits_signed (shr value 5) 19, False)"
| "aarch64_dec LdrRegister value = Some (low_bits (shr value 10) 12, False)"
| "aarch64_dec Add value = Some (low_bits (shr value 10) 12, False)"
| "aarch64_dec LdSt value = Some (low_bits_signed (shr value 10) 12, False)"
| "aarch64_dec TstBr value = Some (low_bits_signed (shr value 5) 14, False)"
| "aarch64_dec Bcond value = Some (low_bits_signed (shr value 5) 19, False)"
| "aarch64_dec JumpCall value = Some (low_bits_signed value 26, False)"
| "aarch64_dec MachOLow12 value = None"

definition aarch64_read_value :: "aarch64_instruction \<Rightarrow> u8 list \<Rightarrow> (u64 \<times> bool) option" where
  "aarch64_read_value i bytes =
     (case u32_from_slice bytes of None \<Rightarrow> None | Some w \<Rightarrow> aarch64_dec i (ucast w))"

section \<open>Effect on the instruction word\<close>

fun aarch64_enc :: "aarch64_instruction \<Rightarrow> u64 \<Rightarrow> bool \<Rightarrow> u32 \<Rightarrow> u32" where
  "aarch64_enc Adr v neg w =
     w OR (shl (ucast (extract_bit_range v 0 2)) 29 OR shl (ucast (extract_bit_range v 2 32)) 5)"
| "aarch64_enc Movkz v neg w = w OR shl (ucast v) 5"
| "aarch64_enc Movnz v neg w =
     w AND 0x0060001F OR
     ((if neg then 0x92800000 else 0xd2800000)
      OR shl (ucast (extract_bit_range (if neg then NOT v else v) 0 16)) 5)"
| "aarch64_enc Ldr v neg w = w OR shl (ucast v) 5"
| "aarch64_enc LdrRegister v neg w = w OR shl (ucast v) 10"
| "aarch64_enc Add v neg w = w OR shl (ucast v) 10"
| "aarch64_enc LdSt v neg w = w OR shl (ucast v) 10"
| "aarch64_enc TstBr v neg w = w OR shl (ucast v) 5"
| "aarch64_enc Bcond v neg w = w OR shl (ucast v) 5"
| "aarch64_enc JumpCall v neg w = w OR ucast v"
| "aarch64_enc MachOLow12 v neg w =
     w AND NOT (shl 0xfff 10) OR
     shl (shr (ucast v)
       (unat (if w AND 0x3b000000 = 0x39000000
              then (if shr w 30 = 0 \<and> w AND 0x04800000 = 0x04800000 then 4 else shr w 30)
              else 0))) 10"

lemma aarch64_write_patches:
  "patches (aarch64_write_to_value i v neg) (aarch64_enc i v neg)"
  unfolding patches_def insn_bytes_eval
proof (intro conjI allI impI)
  show "8 dvd LENGTH(32)" by simp
next
  fix w rest
  show "aarch64_write_to_value i v neg (to_le 4 w @ rest) = Some (to_le 4 (aarch64_enc i v neg w) @ rest)"
    by (cases i) (simp_all add: Let_def)
next
  fix buf :: "u8 list"
  assume "length buf < 4"
  then show "aarch64_write_to_value i v neg buf = None"
    by (cases i)
      (auto simp add: Let_def or_from_slice_None and_from_slice_None u32_from_slice_def
        split: option.splits dest: and_from_slice_length)
qed

fun aarch64_field :: "aarch64_instruction \<Rightarrow> u32" where
  "aarch64_field Adr = 0x60FFFFE0"
| "aarch64_field Movkz = 0x001FFFE0"
| "aarch64_field Movnz = 0xFF9FFFE0"
| "aarch64_field Ldr = 0x00FFFFE0"
| "aarch64_field LdrRegister = 0x003FFC00"
| "aarch64_field Add = 0x003FFC00"
| "aarch64_field LdSt = 0x003FFC00"
| "aarch64_field TstBr = 0x0007FFE0"
| "aarch64_field Bcond = 0x00FFFFE0"
| "aarch64_field JumpCall = 0x03FFFFFF"
| "aarch64_field MachOLow12 = 0x003FFC00"

text \<open>The number of bits a value may have: \<^verbatim>\<open>Movnz\<close> cuts its value itself.\<close>

fun aarch64_width :: "aarch64_instruction \<Rightarrow> nat" where
  "aarch64_width Adr = 21"
| "aarch64_width Movkz = 16"
| "aarch64_width Movnz = 64"
| "aarch64_width Ldr = 19"
| "aarch64_width LdrRegister = 12"
| "aarch64_width Add = 12"
| "aarch64_width LdSt = 12"
| "aarch64_width TstBr = 14"
| "aarch64_width Bcond = 19"
| "aarch64_width JumpCall = 26"
| "aarch64_width MachOLow12 = 12"

text \<open>What is read back: the value extended from the top bit of the field, or not.\<close>

fun aarch64_norm :: "aarch64_instruction \<Rightarrow> u64 \<Rightarrow> bool \<Rightarrow> u64 \<times> bool" where
  "aarch64_norm Adr v neg = (signed_take_bit 20 v, False)"
| "aarch64_norm Movkz v neg = (signed_take_bit 15 v, False)"
| "aarch64_norm Movnz v neg = (if neg then v OR NOT (mask 16) else take_bit 16 v, neg)"
| "aarch64_norm Ldr v neg = (signed_take_bit 18 v, False)"
| "aarch64_norm LdrRegister v neg = (take_bit 12 v, False)"
| "aarch64_norm Add v neg = (take_bit 12 v, False)"
| "aarch64_norm LdSt v neg = (signed_take_bit 11 v, False)"
| "aarch64_norm TstBr v neg = (signed_take_bit 13 v, False)"
| "aarch64_norm Bcond v neg = (signed_take_bit 18 v, False)"
| "aarch64_norm JumpCall v neg = (signed_take_bit 25 v, False)"
| "aarch64_norm MachOLow12 v neg = (v, neg)"

text \<open>The formats that only OR their value in read back what was written to an empty field.\<close>

definition aarch64_blank :: "aarch64_instruction \<Rightarrow> u32 \<Rightarrow> bool" where
  "aarch64_blank i w \<longleftrightarrow> i \<noteq> MachOLow12 \<and> (i = Movnz \<or> w AND aarch64_field i = 0)"

lemma aarch64_frame:
  assumes "unat v < 2 ^ aarch64_width i"
  shows "aarch64_enc i v neg w AND NOT (aarch64_field i) = w AND NOT (aarch64_field i)"
proof -
  have high: "\<not> bit v n" if "aarch64_width i \<le> n" for n
    using assms that by (rule bit_less_exp)
  show ?thesis
  proof (cases "i = MachOLow12")
    case True
    obtain s where s: "aarch64_enc MachOLow12 v neg w
        = w AND NOT (shl 0xfff 10) OR shl (shr (ucast v) s) 10"
      by simp
    from high True show ?thesis
      by (simp only: s) (intro word32_eqI, unfold each_bit, simp add: bit_eval)
  next
    case False
    with high show ?thesis
      by (cases i; intro word32_eqI; unfold each_bit; simp add: bit_eval range_ok_def)
  qed
qed

lemmas aarch64_codec_simps =
  aarch64_dec.simps aarch64_enc.simps aarch64_norm.simps aarch64_width.simps aarch64_field.simps

lemma aarch64_read_back_masked:
  "i \<noteq> MachOLow12 \<Longrightarrow> i \<noteq> Movnz \<Longrightarrow>
   aarch64_dec i (ucast (aarch64_enc i (take_bit (aarch64_width i) v) neg
                                       (w AND NOT (aarch64_field i))))
     = Some (aarch64_norm i (take_bit (aarch64_width i) v) neg)"
  by (cases i; (simp only: aarch64_codec_simps option.inject prod.inject simp_thms)?;
      (intro word64_eqI, unfold each_bit, simp add: bit_eval range_ok_def)?)

lemma aarch64_read_back_movnz:
  "aarch64_dec Movnz (ucast (aarch64_enc Movnz v neg w)) = Some (aarch64_norm Movnz v neg)"
proof -
  have sign: "(ucast (aarch64_enc Movnz v neg w) AND shl 1 30 = (0::u64)) = neg"
    by (simp only: and_bit_zero_iff aarch64_enc.simps) (simp add: bit_eval range_ok_def)
  show ?thesis
    unfolding aarch64_dec.simps sign aarch64_norm.simps Let_def option.inject prod.inject
    by (cases neg; simp only: aarch64_enc.simps if_True if_False simp_thms;
        intro word64_eqI; unfold each_bit; simp add: bit_eval range_ok_def)
qed

lemma aarch64_read_back:
  assumes "unat v < 2 ^ aarch64_width i" "aarch64_blank i w"
  shows "aarch64_dec i (ucast (aarch64_enc i v neg w)) = Some (aarch64_norm i v neg)"
proof (cases "i = Movnz")
  case False
  with assms(2) have "w AND NOT (aarch64_field i) = w" "i \<noteq> MachOLow12"
    by (auto simp: aarch64_blank_def and_not_of_clear)
  with False aarch64_read_back_masked [of i v neg w] take_bit_of_small [OF assms(1)]
  show ?thesis by simp
qed (simp only: aarch64_read_back_movnz)

interpretation a64: readable_codec "aarch64_enc i" "aarch64_field i" "aarch64_width i"
    "\<lambda>w. aarch64_dec i (ucast w)" "aarch64_blank i" "aarch64_norm i" for i
  by unfold_locales (simp_all add: aarch64_frame aarch64_read_back)

interpretation a64_movnz: clearing_codec "aarch64_enc Movnz" "aarch64_field Movnz" "aarch64_width Movnz"
proof unfold_locales
  fix u v :: u64 and neg neg' and w :: u32
  show "aarch64_enc Movnz v neg (aarch64_enc Movnz u neg' w) = aarch64_enc Movnz v neg w"
    unfolding aarch64_enc.simps
    by (intro word32_eqI, unfold each_bit, simp add: bit_eval range_ok_def)
qed

end
