(* ===== verification/Insn_RiscV.thy ===== *)
theory Insn_RiscV
  imports Insn_Codec
begin

text \<open>
  RISC-V instruction immediates: \<^verbatim>\<open>impl RiscVInstruction\<close> of
  \<^verbatim>\<open>crates/reld-reloc/src/riscv64.rs\<close>. Every format clears its field before it writes. The
  compressed formats patch two bytes, \<^verbatim>\<open>UiType\<close> patches the pair \<^verbatim>\<open>auipc\<close>/\<^verbatim>\<open>jalr\<close> of eight bytes.
\<close>

section \<open>The code\<close>

definition UTYPE_IMMEDIATE_MASK :: u32 where
  "UTYPE_IMMEDIATE_MASK = 0b00000000000000000000111111111111"
definition ITYPE_IMMEDIATE_MASK :: u32 where
  "ITYPE_IMMEDIATE_MASK = 0b00000000000011111111111111111111"
definition STYPE_IMMEDIATE_MASK :: u32 where
  "STYPE_IMMEDIATE_MASK = 0b00000001111111111111000001111111"
definition BTYPE_IMMEDIATE_MASK :: u32 where
  "BTYPE_IMMEDIATE_MASK = 0b00000001111111111111000001111111"
definition JTYPE_IMMEDIATE_MASK :: u32 where
  "JTYPE_IMMEDIATE_MASK = 0b00000000000000000000111111111111"
definition CBTYPE_IMMEDIATE_MASK :: u16 where
  "CBTYPE_IMMEDIATE_MASK = 0b1110001110000011"
definition CJTYPE_IMMEDIATE_MASK :: u16 where
  "CJTYPE_IMMEDIATE_MASK = 0b1110000000000011"
definition CLUITYPE_IMMEDIATE_MASK :: u16 where
  "CLUITYPE_IMMEDIATE_MASK = 0b1110111110000011"

lemmas riscv_masks =
  UTYPE_IMMEDIATE_MASK_def ITYPE_IMMEDIATE_MASK_def STYPE_IMMEDIATE_MASK_def
  BTYPE_IMMEDIATE_MASK_def JTYPE_IMMEDIATE_MASK_def CBTYPE_IMMEDIATE_MASK_def
  CJTYPE_IMMEDIATE_MASK_def CLUITYPE_IMMEDIATE_MASK_def

definition riscv_write_utype :: "u64 \<Rightarrow> u8 list \<Rightarrow> u8 list option" where
  "riscv_write_utype v dest =
     (let mask = shl (ucast (extract_bit_range (v + 0x800) 12 32) :: u32) 12
      in mask_and_set dest (to_le 4 UTYPE_IMMEDIATE_MASK) (to_le 4 mask))"

definition riscv_write_itype :: "u64 \<Rightarrow> u8 list \<Rightarrow> u8 list option" where
  "riscv_write_itype v dest =
     (let mask = shl v 20
      in mask_and_set dest (to_le 4 ITYPE_IMMEDIATE_MASK) (to_le 4 (ucast mask :: u32)))"

fun riscv_write_to_value ::
    "riscv_instruction \<Rightarrow> u64 \<Rightarrow> bool \<Rightarrow> u8 list \<Rightarrow> u8 list option" where
  "riscv_write_to_value UiType v neg dest =
     (if length dest < 4 then None
      else case riscv_write_utype v (take 4 dest) of
             None \<Rightarrow> None
           | Some lo \<Rightarrow> map_option (\<lambda>hi. lo @ hi) (riscv_write_itype v (drop 4 dest)))"
| "riscv_write_to_value UType v neg dest = riscv_write_utype v dest"
| "riscv_write_to_value IType v neg dest = riscv_write_itype v dest"
| "riscv_write_to_value SType v neg dest =
     (let mask = shl (extract_bit_range v 0 5) 7 OR shl (extract_bit_range v 5 12) 25
      in mask_and_set dest (to_le 4 STYPE_IMMEDIATE_MASK) (to_le 4 (ucast mask :: u32)))"
| "riscv_write_to_value BType v neg dest =
     (let mask = shl (extract_bit v 11) 7 OR shl (extract_bit_range v 1 5) 8
                 OR shl (extract_bit_range v 5 11) 25 OR shl (extract_bit v 12) 31
      in mask_and_set dest (to_le 4 BTYPE_IMMEDIATE_MASK) (to_le 4 (ucast mask :: u32)))"
| "riscv_write_to_value JType v neg dest =
     (let mask = shl (extract_bit_range v 12 20) 12 OR shl (extract_bit v 11) 20
                 OR shl (extract_bit_range v 1 11) 21 OR shl (extract_bit v 20) 31
      in mask_and_set dest (to_le 4 JTYPE_IMMEDIATE_MASK) (to_le 4 (ucast mask :: u32)))"
| "riscv_write_to_value CbType v neg dest =
     (let mask = shl (extract_bit v 5) 2 OR shl (extract_bit_range v 1 3) 3
                 OR shl (extract_bit_range v 6 8) 5 OR shl (extract_bit_range v 3 5) 10
                 OR shl (extract_bit v 8) 12
      in mask_and_set dest (to_le 2 CBTYPE_IMMEDIATE_MASK) (take 2 (to_le 8 mask)))"
| "riscv_write_to_value CjType v neg dest =
     (let mask = shl (extract_bit v 5) 2 OR shl (extract_bit_range v 1 4) 3
                 OR shl (extract_bit v 7) 6 OR shl (extract_bit v 6) 7
                 OR shl (extract_bit v 10) 8 OR shl (extract_bit_range v 8 10) 9
                 OR shl (extract_bit v 4) 11 OR shl (extract_bit v 11) 12
      in mask_and_set dest (to_le 2 CJTYPE_IMMEDIATE_MASK) (take 2 (to_le 8 mask)))"
| "riscv_write_to_value CluiType v neg dest =
     (let hi20 = shr (v + 0x800) 12;
          mask = shl (hi20 AND 0x1f) 2 OR shl (shr hi20 5 AND 1) 12
      in mask_and_set dest (to_le 2 CLUITYPE_IMMEDIATE_MASK) (to_le 2 (ucast mask :: u16)))"

text \<open>
  Reading: the word-level part of each arm, then \<^verbatim>\<open>read_value\<close>, which first loads the word (four
  bytes, or two for a compressed instruction) and panics when there are too few.
\<close>

definition riscv_dec_utype :: "u32 \<Rightarrow> u64 \<times> bool" where
  "riscv_dec_utype value =
     (let imm = shr value 12 AND 0xfffff; adjusted = sar (shl imm 12) 12
      in ((scast adjusted :: u64) - 0x800, False))"

definition riscv_dec_itype :: "u32 \<Rightarrow> u64 \<times> bool" where
  "riscv_dec_itype value =
     (let imm = shr value 20 AND 0xfff; sign_extended = sar (shl imm 20) 20
      in (scast sign_extended, is_negative sign_extended))"

definition riscv_dec_stype :: "u32 \<Rightarrow> u64 \<times> bool" where
  "riscv_dec_stype value =
     (let imm_low = shr value 7 AND 0x1f; imm_high = shr value 25 AND 0x7f;
          imm = shl imm_high 5 OR imm_low; sign_extended = sar (shl imm 20) 20
      in (scast sign_extended, is_negative sign_extended))"

definition riscv_dec_btype :: "u32 \<Rightarrow> u64 \<times> bool" where
  "riscv_dec_btype value =
     (let imm11 = shr value 7 AND 0x1; imm1_4 = shr value 8 AND 0xf;
          imm5_10 = shr value 25 AND 0x3f; imm12 = shr value 31 AND 0x1;
          imm = shl imm12 12 OR shl imm11 11 OR shl imm5_10 5 OR shl imm1_4 1;
          sign_extended = sar (shl imm 19) 19
      in (scast sign_extended, is_negative sign_extended))"

definition riscv_dec_jtype :: "u32 \<Rightarrow> u64 \<times> bool" where
  "riscv_dec_jtype value =
     (let imm12_19 = shr value 12 AND 0xff; imm11 = shr value 20 AND 0x1;
          imm1_10 = shr value 21 AND 0x3ff; imm20 = shr value 31 AND 0x1;
          imm = shl imm20 20 OR shl imm12_19 12 OR shl imm11 11 OR shl imm1_10 1;
          sign_extended = sar (shl imm 11) 11
      in (scast sign_extended, is_negative sign_extended))"

definition riscv_dec_cbtype :: "u16 \<Rightarrow> u64 \<times> bool" where
  "riscv_dec_cbtype value =
     (let imm5 = shr value 2 AND 0x1; imm1_2 = shr value 3 AND 0x3;
          imm6_7 = shr value 5 AND 0x3; imm3_4 = shr value 10 AND 0x3;
          imm8 = shr value 12 AND 0x1;
          imm = shl imm8 8 OR shl imm6_7 6 OR shl imm5 5 OR shl imm3_4 3 OR shl imm1_2 1;
          sign_extended = sar (shl (ucast imm :: u32) 23) 23
      in (scast sign_extended, is_negative sign_extended))"

definition riscv_dec_cjtype :: "u16 \<Rightarrow> u64 \<times> bool" where
  "riscv_dec_cjtype value =
     (let imm5 = shr value 2 AND 0x1; imm1_3 = shr value 3 AND 0x7;
          imm7 = shr value 6 AND 0x1; imm6 = shr value 7 AND 0x1;
          imm10 = shr value 8 AND 0x1; imm8_9 = shr value 9 AND 0x3;
          imm4 = shr value 11 AND 0x1; imm11 = shr value 12 AND 0x1;
          imm = shl imm11 11 OR shl imm10 10 OR shl imm8_9 8 OR shl imm7 7 OR shl imm6 6
                OR shl imm5 5 OR shl imm4 4 OR shl imm1_3 1;
          sign_extended = sar (shl (ucast imm :: u32) 20) 20
      in (scast sign_extended, is_negative sign_extended))"

definition riscv_dec_cluitype :: "u16 \<Rightarrow> u64 \<times> bool" where
  "riscv_dec_cluitype value =
     (let nzimm4_0 = shr value 2 AND 0x1f; nzimm5 = shr value 12 AND 0x1;
          nzimm = shl nzimm5 5 OR nzimm4_0;
          hi20 = (scast (sar (shl (ucast nzimm :: u32) 26) 26) :: u64)
      in (shl hi20 12 - 0x800, is_negative hi20))"

definition u16_from_slice :: "u8 list \<Rightarrow> u16 option" where
  "u16_from_slice bytes = (if 2 \<le> length bytes then Some (of_le (take 2 bytes)) else None)"

fun riscv_read_value :: "riscv_instruction \<Rightarrow> u8 list \<Rightarrow> (u64 \<times> bool) option" where
  "riscv_read_value UiType bytes =
     (if length bytes < 4 then None
      else case u32_from_slice (take 4 bytes) of
        None \<Rightarrow> None
      | Some w1 \<Rightarrow> map_option (\<lambda>w2. (shl (fst (riscv_dec_utype w1)) 12
                                        OR fst (riscv_dec_itype w2), False))
                             (u32_from_slice (drop 4 bytes)))"
| "riscv_read_value UType bytes = map_option riscv_dec_utype (u32_from_slice bytes)"
| "riscv_read_value IType bytes = map_option riscv_dec_itype (u32_from_slice bytes)"
| "riscv_read_value SType bytes = map_option riscv_dec_stype (u32_from_slice bytes)"
| "riscv_read_value BType bytes = map_option riscv_dec_btype (u32_from_slice bytes)"
| "riscv_read_value JType bytes = map_option riscv_dec_jtype (u32_from_slice bytes)"
| "riscv_read_value CbType bytes = map_option riscv_dec_cbtype (u16_from_slice bytes)"
| "riscv_read_value CjType bytes = map_option riscv_dec_cjtype (u16_from_slice bytes)"
| "riscv_read_value CluiType bytes = map_option riscv_dec_cluitype (u16_from_slice bytes)"

section \<open>Effect on the instruction word\<close>

text \<open>The formats by the width of the word they patch: the immediate each one sets.\<close>

definition riscv_imm_u :: "u64 \<Rightarrow> u32" where
  "riscv_imm_u v = shl (ucast (extract_bit_range (v + 0x800) 12 32)) 12"

definition riscv_imm_i :: "u64 \<Rightarrow> u32" where
  "riscv_imm_i v = ucast (shl v 20)"

definition riscv_imm_s :: "u64 \<Rightarrow> u32" where
  "riscv_imm_s v = ucast (shl (extract_bit_range v 0 5) 7 OR shl (extract_bit_range v 5 12) 25)"

definition riscv_imm_b :: "u64 \<Rightarrow> u32" where
  "riscv_imm_b v = ucast (shl (extract_bit v 11) 7 OR shl (extract_bit_range v 1 5) 8
                          OR shl (extract_bit_range v 5 11) 25 OR shl (extract_bit v 12) 31)"

definition riscv_imm_j :: "u64 \<Rightarrow> u32" where
  "riscv_imm_j v = ucast (shl (extract_bit_range v 12 20) 12 OR shl (extract_bit v 11) 20
                          OR shl (extract_bit_range v 1 11) 21 OR shl (extract_bit v 20) 31)"

definition riscv_imm_cb :: "u64 \<Rightarrow> u16" where
  "riscv_imm_cb v = ucast (shl (extract_bit v 5) 2 OR shl (extract_bit_range v 1 3) 3
                 OR shl (extract_bit_range v 6 8) 5 OR shl (extract_bit_range v 3 5) 10
                 OR shl (extract_bit v 8) 12)"

definition riscv_imm_cj :: "u64 \<Rightarrow> u16" where
  "riscv_imm_cj v = ucast (shl (extract_bit v 5) 2 OR shl (extract_bit_range v 1 4) 3
                 OR shl (extract_bit v 7) 6 OR shl (extract_bit v 6) 7
                 OR shl (extract_bit v 10) 8 OR shl (extract_bit_range v 8 10) 9
                 OR shl (extract_bit v 4) 11 OR shl (extract_bit v 11) 12)"

definition riscv_imm_clui :: "u64 \<Rightarrow> u16" where
  "riscv_imm_clui v = ucast (shl (shr (v + 0x800) 12 AND 0x1f) 2
                             OR shl (shr (shr (v + 0x800) 12) 5 AND 1) 12)"

definition riscv_imm_ui :: "u64 \<Rightarrow> u64" where
  "riscv_imm_ui v = ucast (riscv_imm_u v) OR shl (ucast (riscv_imm_i v)) 32"

definition UITYPE_KEEP :: u64 where
  "UITYPE_KEEP = ucast UTYPE_IMMEDIATE_MASK OR shl (ucast ITYPE_IMMEDIATE_MASK) 32"

lemmas riscv_imms =
  riscv_imm_u_def riscv_imm_i_def riscv_imm_s_def riscv_imm_b_def riscv_imm_j_def
  riscv_imm_cb_def riscv_imm_cj_def riscv_imm_clui_def riscv_imm_ui_def UITYPE_KEEP_def

text \<open>No immediate overlaps the bits its mask keeps, whatever the value.\<close>

interpretation rv_u: masked_codec UTYPE_IMMEDIATE_MASK riscv_imm_u 64
  by unfold_locales
    (intro word32_eqI, unfold each_bit riscv_imms riscv_masks, simp add: bit_eval range_ok_def)

interpretation rv_i: masked_codec ITYPE_IMMEDIATE_MASK riscv_imm_i 64
  by unfold_locales
    (intro word32_eqI, unfold each_bit riscv_imms riscv_masks, simp add: bit_eval range_ok_def)

interpretation rv_s: masked_codec STYPE_IMMEDIATE_MASK riscv_imm_s 64
  by unfold_locales
    (intro word32_eqI, unfold each_bit riscv_imms riscv_masks, simp add: bit_eval range_ok_def)

interpretation rv_b: masked_codec BTYPE_IMMEDIATE_MASK riscv_imm_b 64
  by unfold_locales
    (intro word32_eqI, unfold each_bit riscv_imms riscv_masks, simp add: bit_eval range_ok_def)

interpretation rv_j: masked_codec JTYPE_IMMEDIATE_MASK riscv_imm_j 64
  by unfold_locales
    (intro word32_eqI, unfold each_bit riscv_imms riscv_masks, simp add: bit_eval range_ok_def)

interpretation rv_cb: masked_codec CBTYPE_IMMEDIATE_MASK riscv_imm_cb 64
  by unfold_locales
    (intro word16_eqI, unfold each_bit riscv_imms riscv_masks, simp add: bit_eval range_ok_def)

interpretation rv_cj: masked_codec CJTYPE_IMMEDIATE_MASK riscv_imm_cj 64
  by unfold_locales
    (intro word16_eqI, unfold each_bit riscv_imms riscv_masks, simp add: bit_eval range_ok_def)

interpretation rv_clui: masked_codec CLUITYPE_IMMEDIATE_MASK riscv_imm_clui 64
  by unfold_locales
    (intro word16_eqI, unfold each_bit riscv_imms riscv_masks, simp add: bit_eval range_ok_def)

interpretation rv_ui: masked_codec UITYPE_KEEP riscv_imm_ui 64
  by unfold_locales
    (intro word64_eqI, unfold each_bit riscv_imms riscv_masks, simp add: bit_eval range_ok_def)

section \<open>The byte-level code sets these immediates\<close>

lemma to_le_ucast:
  "8 * n \<le> LENGTH('b) \<Longrightarrow> to_le n (ucast (w :: 'a::len word) :: 'b::len word) = to_le n w"
proof (rule nth_equalityI; simp)
  fix i assume "8 * n \<le> LENGTH('b)" "i < n"
  then show "(ucast (drop_bit (8 * i) (ucast w :: 'b word)) :: u8) = ucast (drop_bit (8 * i) w)"
    by (intro word8_eqI) (auto simp: bit_simps dest: bit_imp_le_length)
qed

lemma take_to_le_u16: "take 2 (to_le 8 (m :: u64)) = to_le 2 (ucast m :: u16)"
  by (simp add: take_to_le to_le_ucast)

lemma riscv_write_patches:
  "patches (riscv_write_to_value UType v neg) (keep_set UTYPE_IMMEDIATE_MASK riscv_imm_u v neg)"
  "patches (riscv_write_to_value IType v neg) (keep_set ITYPE_IMMEDIATE_MASK riscv_imm_i v neg)"
  "patches (riscv_write_to_value SType v neg) (keep_set STYPE_IMMEDIATE_MASK riscv_imm_s v neg)"
  "patches (riscv_write_to_value BType v neg) (keep_set BTYPE_IMMEDIATE_MASK riscv_imm_b v neg)"
  "patches (riscv_write_to_value JType v neg) (keep_set JTYPE_IMMEDIATE_MASK riscv_imm_j v neg)"
  "patches (riscv_write_to_value CbType v neg) (keep_set CBTYPE_IMMEDIATE_MASK riscv_imm_cb v neg)"
  "patches (riscv_write_to_value CjType v neg) (keep_set CJTYPE_IMMEDIATE_MASK riscv_imm_cj v neg)"
  "patches (riscv_write_to_value CluiType v neg)
     (keep_set CLUITYPE_IMMEDIATE_MASK riscv_imm_clui v neg)"
  by (rule mask_and_set_patches, simp, simp, rule refl,
      simp add: riscv_imms riscv_write_utype_def riscv_write_itype_def Let_def take_to_le_u16)+

lemma to_le_8_split:
  "to_le 8 (w :: u64) = to_le 4 (ucast w :: u32) @ to_le 4 (ucast (shr w 32) :: u32)"
proof (rule nth_equalityI)
  fix i :: nat assume i: "i < length (to_le 8 w)"
  show "to_le 8 w ! i = (to_le 4 (ucast w :: u32) @ to_le 4 (ucast (shr w 32) :: u32)) ! i"
  proof (cases "i < 4")
    case True
    then show ?thesis
      by (intro word8_eqI) (auto simp: nth_append bit_simps)
  next
    case False
    with i obtain k where "i = 4 + k" "k < 4"
      by (metis add_diff_inverse_nat length_to_le nat_add_left_cancel_less numeral_Bit0)
    then show ?thesis
      by (intro word8_eqI) (auto simp: nth_append bit_simps bit_shr distrib_left add.assoc)
  qed
qed simp

lemma riscv_write_uitype:
  "patches (riscv_write_to_value UiType v neg) (keep_set UITYPE_KEEP riscv_imm_ui v neg)"
  unfolding patches_def insn_bytes_eval
proof (intro conjI allI impI)
  fix w :: u64 and rest
  have lo: "ucast (keep_set UITYPE_KEEP riscv_imm_ui v neg w)
      = keep_set UTYPE_IMMEDIATE_MASK riscv_imm_u v neg (ucast w)"
    by (intro word32_eqI, unfold each_bit riscv_imms riscv_masks keep_set_def)
      (simp add: bit_eval range_ok_def)
  have hi: "ucast (shr (keep_set UITYPE_KEEP riscv_imm_ui v neg w) 32)
      = keep_set ITYPE_IMMEDIATE_MASK riscv_imm_i v neg (ucast (shr w 32))"
    by (intro word32_eqI, unfold each_bit riscv_imms riscv_masks keep_set_def)
      (simp add: bit_eval range_ok_def)
  have u: "riscv_write_utype v (to_le 4 x @ r)
      = Some (to_le 4 (keep_set UTYPE_IMMEDIATE_MASK riscv_imm_u v neg x) @ r)" for x :: u32 and r
    by (simp add: riscv_write_utype_def Let_def mask_and_set_le keep_set_def riscv_imm_u_def)
  have i: "riscv_write_itype v (to_le 4 x @ r)
      = Some (to_le 4 (keep_set ITYPE_IMMEDIATE_MASK riscv_imm_i v neg x) @ r)" for x :: u32 and r
    by (simp add: riscv_write_itype_def Let_def mask_and_set_le keep_set_def riscv_imm_i_def)
  show "riscv_write_to_value UiType v neg (to_le 8 w @ rest)
      = Some (to_le 8 (keep_set UITYPE_KEEP riscv_imm_ui v neg w) @ rest)"
    using u [of _ "[]"] by (simp add: to_le_8_split lo hi i)
next
  fix buf :: "u8 list"
  assume "length buf < 8"
  then have "riscv_write_itype v (drop 4 buf) = None"
    by (simp add: riscv_write_itype_def Let_def mask_and_set_short)
  then show "riscv_write_to_value UiType v neg buf = None"
    by (simp split: option.split)
qed simp

section \<open>Reading back\<close>

text \<open>
  For every format but the U-type ones \<^verbatim>\<open>read_value\<close> returns the value that was written, cut to the
  field and sign-extended (B, J, CB and CJ immediates have no bit 0).
\<close>

lemma riscv_read_back_i:
  "riscv_dec_itype (keep_set ITYPE_IMMEDIATE_MASK riscv_imm_i v neg w)
     = (signed_take_bit 11 v, bit v 11)"
  unfolding riscv_dec_itype_def Let_def prod.inject keep_set_def riscv_imms riscv_masks
  by (intro conjI; (intro word64_eqI, unfold each_bit)?; simp add: bit_eval range_ok_def)

lemma riscv_read_back_s:
  "riscv_dec_stype (keep_set STYPE_IMMEDIATE_MASK riscv_imm_s v neg w)
     = (signed_take_bit 11 v, bit v 11)"
  unfolding riscv_dec_stype_def Let_def prod.inject keep_set_def riscv_imms riscv_masks
  by (intro conjI; (intro word64_eqI, unfold each_bit)?; simp add: bit_eval range_ok_def)

lemma riscv_read_back_b:
  "riscv_dec_btype (keep_set BTYPE_IMMEDIATE_MASK riscv_imm_b v neg w)
     = (signed_take_bit 12 v AND NOT 1, bit v 12)"
  unfolding riscv_dec_btype_def Let_def prod.inject keep_set_def riscv_imms riscv_masks
  by (intro conjI; (intro word64_eqI, unfold each_bit)?; simp add: bit_eval range_ok_def)

lemma riscv_read_back_j:
  "riscv_dec_jtype (keep_set JTYPE_IMMEDIATE_MASK riscv_imm_j v neg w)
     = (signed_take_bit 20 v AND NOT 1, bit v 20)"
  unfolding riscv_dec_jtype_def Let_def prod.inject keep_set_def riscv_imms riscv_masks
  by (intro conjI; (intro word64_eqI, unfold each_bit)?; simp add: bit_eval range_ok_def)

lemma riscv_read_back_cb:
  "riscv_dec_cbtype (keep_set CBTYPE_IMMEDIATE_MASK riscv_imm_cb v neg w)
     = (signed_take_bit 8 v AND NOT 1, bit v 8)"
  unfolding riscv_dec_cbtype_def Let_def prod.inject keep_set_def riscv_imms riscv_masks
  by (intro conjI; (intro word64_eqI, unfold each_bit)?; simp add: bit_eval range_ok_def)

lemma riscv_read_back_cj:
  "riscv_dec_cjtype (keep_set CJTYPE_IMMEDIATE_MASK riscv_imm_cj v neg w)
     = (signed_take_bit 11 v AND NOT 1, bit v 11)"
  unfolding riscv_dec_cjtype_def Let_def prod.inject keep_set_def riscv_imms riscv_masks
  by (intro conjI; (intro word64_eqI, unfold each_bit)?; simp add: bit_eval range_ok_def)

lemma riscv_read_back_clui:
  "riscv_dec_cluitype (keep_set CLUITYPE_IMMEDIATE_MASK riscv_imm_clui v neg w)
     = (shl (signed_take_bit 5 (shr (v + 0x800) 12)) 12 - 0x800, bit (v + 0x800) 17)"
proof -
  have hi20: "(scast (sar (shl (ucast (shl (shr x 12 AND 0x1) 5 OR (shr x 2 AND 0x1f)) :: u32) 26) 26) :: u64)
      = signed_take_bit 5 (shr (v + 0x800) 12)"
    if "x = keep_set CLUITYPE_IMMEDIATE_MASK riscv_imm_clui v neg w" for x
    unfolding that keep_set_def riscv_imms riscv_masks
    by (intro word64_eqI; unfold each_bit; simp add: bit_eval)
  show ?thesis
    unfolding riscv_dec_cluitype_def Let_def hi20 [OF refl] prod.inject
    by (simp add: bit_eval)
qed

interpretation rv_i_read: readable_codec "keep_set ITYPE_IMMEDIATE_MASK riscv_imm_i"
    "NOT ITYPE_IMMEDIATE_MASK" 64 "\<lambda>w. Some (riscv_dec_itype w)" "\<lambda>w. True"
    "\<lambda>v neg. (signed_take_bit 11 v, bit v 11)"
  by unfold_locales (simp add: riscv_read_back_i)

interpretation rv_s_read: readable_codec "keep_set STYPE_IMMEDIATE_MASK riscv_imm_s"
    "NOT STYPE_IMMEDIATE_MASK" 64 "\<lambda>w. Some (riscv_dec_stype w)" "\<lambda>w. True"
    "\<lambda>v neg. (signed_take_bit 11 v, bit v 11)"
  by unfold_locales (simp add: riscv_read_back_s)

interpretation rv_b_read: readable_codec "keep_set BTYPE_IMMEDIATE_MASK riscv_imm_b"
    "NOT BTYPE_IMMEDIATE_MASK" 64 "\<lambda>w. Some (riscv_dec_btype w)" "\<lambda>w. True"
    "\<lambda>v neg. (signed_take_bit 12 v AND NOT 1, bit v 12)"
  by unfold_locales (simp add: riscv_read_back_b)

interpretation rv_j_read: readable_codec "keep_set JTYPE_IMMEDIATE_MASK riscv_imm_j"
    "NOT JTYPE_IMMEDIATE_MASK" 64 "\<lambda>w. Some (riscv_dec_jtype w)" "\<lambda>w. True"
    "\<lambda>v neg. (signed_take_bit 20 v AND NOT 1, bit v 20)"
  by unfold_locales (simp add: riscv_read_back_j)

interpretation rv_cb_read: readable_codec "keep_set CBTYPE_IMMEDIATE_MASK riscv_imm_cb"
    "NOT CBTYPE_IMMEDIATE_MASK" 64 "\<lambda>w. Some (riscv_dec_cbtype w)" "\<lambda>w. True"
    "\<lambda>v neg. (signed_take_bit 8 v AND NOT 1, bit v 8)"
  by unfold_locales (simp add: riscv_read_back_cb)

interpretation rv_cj_read: readable_codec "keep_set CJTYPE_IMMEDIATE_MASK riscv_imm_cj"
    "NOT CJTYPE_IMMEDIATE_MASK" 64 "\<lambda>w. Some (riscv_dec_cjtype w)" "\<lambda>w. True"
    "\<lambda>v neg. (signed_take_bit 11 v AND NOT 1, bit v 11)"
  by unfold_locales (simp add: riscv_read_back_cj)

text \<open>
  U-type: what comes back is the upper 20 bits themselves, less \<open>0x800\<close>, not a value with these
  upper bits. Writing it again gives another instruction in general.
\<close>

lemma riscv_read_back_u:
  "riscv_dec_utype (keep_set UTYPE_IMMEDIATE_MASK riscv_imm_u v neg w)
     = (signed_take_bit 19 (shr (v + 0x800) 12) - 0x800, False)"
proof -
  have "(scast (sar (shl (shr x 12 AND 0xfffff) 12) 12) :: u64)
      = signed_take_bit 19 (shr (v + 0x800) 12)"
    if "x = keep_set UTYPE_IMMEDIATE_MASK riscv_imm_u v neg w" for x
    unfolding that keep_set_def riscv_imms riscv_masks
    by (intro word64_eqI; unfold each_bit; simp add: bit_eval range_ok_def)
  then show ?thesis
    by (simp add: riscv_dec_utype_def Let_def)
qed

end
