(* ===== verification/Insn_LoongArch.thy ===== *)
theory Insn_LoongArch
  imports Insn_Codec
begin

text \<open>
  LoongArch instruction immediates: \<^verbatim>\<open>impl LoongArch64Instruction\<close> and
  \<^verbatim>\<open>highest_relocation_with_bias\<close> of \<^verbatim>\<open>crates/reld-reloc/src/loongarch64.rs\<close>. The single-instruction
  formats patch four bytes, \<^verbatim>\<open>Call30\<close> and \<^verbatim>\<open>Call36\<close> a pair of instructions of eight bytes.
\<close>

section \<open>The code\<close>

definition CALL30_CLEAR :: u64 where
  "CALL30_CLEAR = shl 0xFFF803FF 32 OR 0xFE00001F"

definition CALL36_CLEAR :: u64 where
  "CALL36_CLEAR = shl 0xFC0003FF 32 OR 0xFE00001F"

fun loongarch64_write_to_value ::
    "loongarch64_instruction \<Rightarrow> u64 \<Rightarrow> bool \<Rightarrow> u8 list \<Rightarrow> u8 list option" where
  "loongarch64_write_to_value Shift5 v neg dest =
     (let mask = shl v 5
      in mask_and_set dest (to_le 4 (0xFE00001F :: u32)) (to_le 4 (ucast mask :: u32)))"
| "loongarch64_write_to_value Shift10 v neg dest =
     (let mask = shl v 10
      in mask_and_set dest (to_le 4 (0xFFC003FF :: u32)) (to_le 4 (ucast mask :: u32)))"
| "loongarch64_write_to_value Branch26 v neg dest =
     (let low_part = shl (v AND 0xffff) 10; high_part = shr v 16
      in mask_and_set dest (to_le 4 (0xFC000000 :: u32))
           (to_le 4 (ucast (low_part OR high_part) :: u32)))"
| "loongarch64_write_to_value Branch21 v neg dest =
     (let low_part = shl (v AND 0xffff) 10; high_part = shr v 16
      in mask_and_set dest (to_le 4 (0xFC0003E0 :: u32))
           (to_le 4 (ucast (low_part OR high_part) :: u32)))"
| "loongarch64_write_to_value Call30 v neg dest =
     (let low_part = shl (v AND 0x1ff) (32 + 10); high_part = shl (v AND NOT 0x1ff) 5
      in mask_and_set dest (to_le 8 CALL30_CLEAR) (to_le 8 (low_part OR high_part)))"
| "loongarch64_write_to_value Call36 v neg dest =
     (let low_part = shl (v AND 0xffff) (32 + 10); high_part = shl (shr (v + 0x8000) 16) 5
      in mask_and_set dest (to_le 8 CALL36_CLEAR) (to_le 8 (low_part OR high_part)))"

definition loongarch64_dec_branch26 :: "u32 \<Rightarrow> u64 \<times> bool" where
  "loongarch64_dec_branch26 value =
     (let low_part = shr value 10 AND 0xffff; high_part = value AND 0x3ff;
          imm = shl high_part 16 OR low_part; sign_extended = sar (shl imm 6) 6
      in (scast sign_extended, is_negative sign_extended))"

definition loongarch64_dec_branch21 :: "u32 \<Rightarrow> u64 \<times> bool" where
  "loongarch64_dec_branch21 value =
     (let low_part = shr value 10 AND 0xffff; high_part = value AND 0x1f;
          imm = shl high_part 16 OR low_part; sign_extended = sar (shl imm 11) 11
      in (scast sign_extended, is_negative sign_extended))"

definition loongarch64_dec_call30 :: "u64 \<Rightarrow> u64 \<times> bool" where
  "loongarch64_dec_call30 value =
     (let insn1 = (ucast (shr value 32) :: u32); insn2 = (ucast value :: u32);
          high_part = shl (shr insn1 5 AND 0x7ffff) 9; low_part = shr insn2 10 AND 0x1ff
      in (ucast (high_part OR low_part), False))"

definition loongarch64_dec_call36 :: "u64 \<Rightarrow> u64 \<times> bool" where
  "loongarch64_dec_call36 value =
     (let insn1 = (ucast value :: u32); insn2 = (ucast (shr value 32) :: u32);
          high_part = (ucast (shr insn1 5 AND 0xfffff) :: u64);
          low_part = (ucast (shr insn2 10 AND 0xffff) :: u64)
      in ((shl high_part 16 - 0x8000) AND 0xffffffff OR low_part, False))"

fun loongarch64_read_value ::
    "loongarch64_instruction \<Rightarrow> u8 list \<Rightarrow> (u64 \<times> bool) option" where
  "loongarch64_read_value Shift5 bytes =
     map_option (\<lambda>value. (ucast (shr value 5 AND 0xfffff), False)) (u32_from_slice bytes)"
| "loongarch64_read_value Shift10 bytes =
     map_option (\<lambda>value. (ucast (shr value 10 AND 0xfff), False)) (u32_from_slice bytes)"
| "loongarch64_read_value Branch26 bytes =
     map_option loongarch64_dec_branch26 (u32_from_slice bytes)"
| "loongarch64_read_value Branch21 bytes =
     map_option loongarch64_dec_branch21 (u32_from_slice bytes)"
| "loongarch64_read_value Call30 bytes =
     map_option loongarch64_dec_call30 (u64_from_slice bytes)"
| "loongarch64_read_value Call36 bytes =
     map_option loongarch64_dec_call36 (u64_from_slice bytes)"

definition highest_relocation_with_bias :: "u64 \<Rightarrow> u64 \<Rightarrow> u64" where
  "highest_relocation_with_bias sym_val pc =
     ((sym_val + SIZE_2GB + (if sym_val AND SIZE_2KB \<noteq> 0 then SIZE_4KB - SIZE_4GB else 0))
        AND NOT PAGE_MASK_4KB)
     - ((pc - 8) AND NOT PAGE_MASK_4KB)"

section \<open>Effect on the instruction word\<close>

definition la_imm_shift5 :: "u64 \<Rightarrow> u32" where
  "la_imm_shift5 v = ucast (shl v 5)"
definition la_imm_shift10 :: "u64 \<Rightarrow> u32" where
  "la_imm_shift10 v = ucast (shl v 10)"
definition la_imm_branch :: "u64 \<Rightarrow> u32" where
  "la_imm_branch v = ucast (shl (v AND 0xffff) 10 OR shr v 16)"
definition la_imm_call30 :: "u64 \<Rightarrow> u64" where
  "la_imm_call30 v = shl (v AND 0x1ff) (32 + 10) OR shl (v AND NOT 0x1ff) 5"
definition la_imm_call36 :: "u64 \<Rightarrow> u64" where
  "la_imm_call36 v = shl (v AND 0xffff) (32 + 10) OR shl (shr (v + 0x8000) 16) 5"

lemmas la_imms =
  la_imm_shift5_def la_imm_shift10_def la_imm_branch_def la_imm_call30_def la_imm_call36_def
  CALL30_CLEAR_def CALL36_CLEAR_def

lemma loongarch64_write_patches:
  "patches (loongarch64_write_to_value Shift5 v neg) (keep_set 0xFE00001F la_imm_shift5 v neg)"
  "patches (loongarch64_write_to_value Shift10 v neg) (keep_set 0xFFC003FF la_imm_shift10 v neg)"
  "patches (loongarch64_write_to_value Branch26 v neg) (keep_set 0xFC000000 la_imm_branch v neg)"
  "patches (loongarch64_write_to_value Branch21 v neg) (keep_set 0xFC0003E0 la_imm_branch v neg)"
  "patches (loongarch64_write_to_value Call30 v neg) (keep_set CALL30_CLEAR la_imm_call30 v neg)"
  "patches (loongarch64_write_to_value Call36 v neg) (keep_set CALL36_CLEAR la_imm_call36 v neg)"
  by (rule mask_and_set_patches, simp, simp, rule refl, simp add: la_imms Let_def)+

text \<open>
  The immediates stay inside their fields for values of the width the relocations extract. For
  \<^verbatim>\<open>Call36\<close> that is one bit less than the 36 bits: the rounding by \<open>0x8000\<close> may carry out of the
  field of the first instruction.
\<close>

interpretation la_shift5: masked_codec "0xFE00001F" la_imm_shift5 20
proof unfold_locales
  fix v :: u64 assume "unat v < 2 ^ 20"
  then have "take_bit 20 v = v" by (rule take_bit_of_small)
  moreover have "la_imm_shift5 (take_bit 20 v) AND 0xFE00001F = 0"
    by (intro word32_eqI, unfold each_bit la_imms, simp add: bit_eval)
  ultimately show "la_imm_shift5 v AND 0xFE00001F = 0" by simp
qed

interpretation la_shift10: masked_codec "0xFFC003FF" la_imm_shift10 12
proof unfold_locales
  fix v :: u64 assume "unat v < 2 ^ 12"
  then have "take_bit 12 v = v" by (rule take_bit_of_small)
  moreover have "la_imm_shift10 (take_bit 12 v) AND 0xFFC003FF = 0"
    by (intro word32_eqI, unfold each_bit la_imms, simp add: bit_eval)
  ultimately show "la_imm_shift10 v AND 0xFFC003FF = 0" by simp
qed

interpretation la_branch26: masked_codec "0xFC000000" la_imm_branch 26
proof unfold_locales
  fix v :: u64 assume "unat v < 2 ^ 26"
  then have "take_bit 26 v = v" by (rule take_bit_of_small)
  moreover have "la_imm_branch (take_bit 26 v) AND 0xFC000000 = 0"
    by (intro word32_eqI, unfold each_bit la_imms, simp add: bit_eval)
  ultimately show "la_imm_branch v AND 0xFC000000 = 0" by simp
qed

interpretation la_branch21: masked_codec "0xFC0003E0" la_imm_branch 21
proof unfold_locales
  fix v :: u64 assume "unat v < 2 ^ 21"
  then have "take_bit 21 v = v" by (rule take_bit_of_small)
  moreover have "la_imm_branch (take_bit 21 v) AND 0xFC0003E0 = 0"
    by (intro word32_eqI, unfold each_bit la_imms, simp add: bit_eval)
  ultimately show "la_imm_branch v AND 0xFC0003E0 = 0" by simp
qed

interpretation la_call30: masked_codec CALL30_CLEAR la_imm_call30 20
proof unfold_locales
  fix v :: u64 assume "unat v < 2 ^ 20"
  then have "take_bit 20 v = v" by (rule take_bit_of_small)
  moreover have "la_imm_call30 (take_bit 20 v) AND CALL30_CLEAR = 0"
    by (intro word64_eqI, unfold each_bit la_imms, simp add: bit_eval)
  ultimately show "la_imm_call30 v AND CALL30_CLEAR = 0" by simp
qed

lemma add_8000_small:
  assumes "unat (v :: u64) < 2 ^ k" "16 \<le> k" "k < 63"
  shows "unat (v + 0x8000) < 2 ^ Suc k"
proof -
  have "(2::nat) ^ 16 \<le> 2 ^ k" using assms(2) by (intro power_increasing) auto
  moreover have "(2::nat) ^ k < 2 ^ 63" using assms(3) by (intro power_strict_increasing) auto
  ultimately have "unat v + unat (0x8000 :: u64) < 2 ^ LENGTH(64)"
    using assms(1) by simp
  then have "unat (v + 0x8000) = unat v + 0x8000"
    by (subst unat_add_lem [THEN iffD1]) auto
  with assms(1) \<open>(2::nat) ^ 16 \<le> 2 ^ k\<close> show ?thesis by simp
qed

lemma la_imm_call36_bit:
  assumes "unat v < 2 ^ 36"
  shows "la_imm_call36 v AND CALL36_CLEAR = (if bit (v + 0x8000) 36 then shl 1 25 else 0)"
proof -
  have "take_bit 37 (v + 0x8000) = v + 0x8000"
    using add_8000_small [of v 36] assms by (intro take_bit_of_small) simp
  then obtain s where s: "v + 0x8000 = take_bit 37 s" by metis
  show ?thesis
    unfolding la_imms s
    by (intro word64_eqI, unfold each_bit, simp add: bit_eval)
qed

interpretation la_call36: masked_codec CALL36_CLEAR la_imm_call36 35
proof unfold_locales
  fix v :: u64 assume v: "unat v < 2 ^ 35"
  have "\<not> bit (v + 0x8000) 36"
    using add_8000_small [of v 35] v by (intro bit_less_exp [of _ 36]) simp_all
  moreover have "unat v < 2 ^ 36" using v by simp
  ultimately show "la_imm_call36 v AND CALL36_CLEAR = 0"
    by (simp add: la_imm_call36_bit)
qed

section \<open>Reading back\<close>

lemma la_read_back_shift5:
  "ucast (shr (keep_set 0xFE00001F la_imm_shift5 v neg w) 5 AND 0xfffff) = take_bit 20 v"
  unfolding keep_set_def la_imms
  by (intro word64_eqI, unfold each_bit, simp add: bit_eval)

lemma la_read_back_shift10:
  "ucast (shr (keep_set 0xFFC003FF la_imm_shift10 v neg w) 10 AND 0xfff) = take_bit 12 v"
  unfolding keep_set_def la_imms
  by (intro word64_eqI, unfold each_bit, simp add: bit_eval)

lemma la_read_back_branch26:
  assumes "unat v < 2 ^ 26"
  shows "loongarch64_dec_branch26 (keep_set 0xFC000000 la_imm_branch v neg w)
    = (signed_take_bit 25 v, bit v 25)"
proof -
  obtain s where s: "v = take_bit 26 s" using take_bit_of_small [OF assms] by metis
  show ?thesis
    unfolding loongarch64_dec_branch26_def Let_def prod.inject keep_set_def la_imms s
    by (intro conjI; (intro word64_eqI, unfold each_bit)?; simp add: bit_eval)
qed

lemma la_read_back_branch21:
  assumes "unat v < 2 ^ 21"
  shows "loongarch64_dec_branch21 (keep_set 0xFC0003E0 la_imm_branch v neg w)
    = (signed_take_bit 20 v, bit v 20)"
proof -
  obtain s where s: "v = take_bit 21 s" using take_bit_of_small [OF assms] by metis
  show ?thesis
    unfolding loongarch64_dec_branch21_def Let_def prod.inject keep_set_def la_imms s
    by (intro conjI; (intro word64_eqI, unfold each_bit)?; simp add: bit_eval)
qed

interpretation la_shift5_read: readable_codec "keep_set 0xFE00001F la_imm_shift5"
    "NOT 0xFE00001F" 20 "\<lambda>w. Some (ucast (shr w 5 AND 0xfffff), False)" "\<lambda>w. True"
    "\<lambda>v neg. (take_bit 20 v, False)"
  by unfold_locales (simp add: la_read_back_shift5)

interpretation la_shift10_read: readable_codec "keep_set 0xFFC003FF la_imm_shift10"
    "NOT 0xFFC003FF" 12 "\<lambda>w. Some (ucast (shr w 10 AND 0xfff), False)" "\<lambda>w. True"
    "\<lambda>v neg. (take_bit 12 v, False)"
  by unfold_locales (simp add: la_read_back_shift10)

interpretation la_branch26_read: readable_codec "keep_set 0xFC000000 la_imm_branch"
    "NOT 0xFC000000" 26 "\<lambda>w. Some (loongarch64_dec_branch26 w)" "\<lambda>w. True"
    "\<lambda>v neg. (signed_take_bit 25 v, bit v 25)"
  by unfold_locales (simp add: la_read_back_branch26)

interpretation la_branch21_read: readable_codec "keep_set 0xFC0003E0 la_imm_branch"
    "NOT 0xFC0003E0" 21 "\<lambda>w. Some (loongarch64_dec_branch21 w)" "\<lambda>w. True"
    "\<lambda>v neg. (signed_take_bit 20 v, bit v 20)"
  by unfold_locales (simp add: la_read_back_branch21)

end
