(* ===== verification/Insn_Ppc64.thy ===== *)
theory Insn_Ppc64
  imports Insn_Codec
begin

text \<open>
  PowerPC64 instruction immediates: \<^verbatim>\<open>impl Ppc64Instruction\<close> of
  \<^verbatim>\<open>crates/reld-reloc/src/ppc64.rs\<close>. Displacement bits map to instruction bits without a shift.
\<close>

section \<open>The code\<close>

fun ppc64_field_mask :: "ppc64_instruction \<Rightarrow> u32" where
  "ppc64_field_mask D = 0x0000ffff"
| "ppc64_field_mask Ds = 0x0000fffc"
| "ppc64_field_mask Branch14 = 0x0000fffc"
| "ppc64_field_mask Branch24 = 0x03fffffc"

definition ppc64_write_to_value ::
    "ppc64_instruction \<Rightarrow> u64 \<Rightarrow> bool \<Rightarrow> u8 list \<Rightarrow> u8 list option" where
  "ppc64_write_to_value i v neg dest =
     (case u32_from_slice dest of
        None \<Rightarrow> None
      | Some insn \<Rightarrow>
          let field_mask = ppc64_field_mask i;
              insn = (insn AND NOT field_mask) OR (ucast v AND field_mask)
          in put_at dest 0 (to_le 4 insn))"

definition ppc64_read_value :: "ppc64_instruction \<Rightarrow> u8 list \<Rightarrow> (u64 \<times> bool) option" where
  "ppc64_read_value i bytes =
     (case u32_from_slice bytes of
        None \<Rightarrow> None
      | Some insn \<Rightarrow> Some (ucast (insn AND ppc64_field_mask i), False))"

section \<open>Effect on the instruction word\<close>

definition ppc64_imm :: "ppc64_instruction \<Rightarrow> u64 \<Rightarrow> u32" where
  "ppc64_imm i v = ucast v AND ppc64_field_mask i"

lemma ppc64_write_patches:
  "patches (ppc64_write_to_value i v neg) (keep_set (NOT (ppc64_field_mask i)) (ppc64_imm i) v neg)"
  by (auto simp: patches_def ppc64_write_to_value_def u32_from_slice_def Let_def put_at_def
      keep_set_def ppc64_imm_def)

interpretation ppc: masked_codec "NOT (ppc64_field_mask i)" "ppc64_imm i" 64 for i
proof unfold_locales
  fix v :: u64
  show "ppc64_imm i v AND NOT (ppc64_field_mask i) = 0"
    by (simp add: ppc64_imm_def and.assoc)
qed

lemma unat_bound64: "unat (v :: u64) < 18446744073709551616"
  using unsigned_less [where 'a = nat, of v] by simp

lemma ppc64_read_back:
  "ucast (keep_set (NOT (ppc64_field_mask i)) (ppc64_imm i) v neg w AND ppc64_field_mask i)
     = v AND ucast (ppc64_field_mask i)"
proof -
  have "keep_set (NOT (ppc64_field_mask i)) (ppc64_imm i) v neg w AND ppc64_field_mask i
      = ucast v AND ppc64_field_mask i"
    using ppc.keep_set_imm [of v i neg w] unat_bound64 [of v] by (simp add: ppc64_imm_def)
  then show ?thesis
    by (simp add: unsigned_and_eq) (rule bit_word_eqI, auto simp: bit_eval dest: bit_imp_le_length)
qed

interpretation ppc_read: readable_codec "keep_set (NOT (ppc64_field_mask i)) (ppc64_imm i)"
    "NOT (NOT (ppc64_field_mask i))" 64 "\<lambda>w. Some (ucast (w AND ppc64_field_mask i), False)"
    "\<lambda>w. True" "\<lambda>v neg. (v AND ucast (ppc64_field_mask i), False)" for i
  by unfold_locales (simp add: ppc64_read_back)

end
