(* ===== verification/Reloc_Write.thy ===== *)
theory Reloc_Write
  imports Insn_AArch64 Insn_RiscV Insn_LoongArch Insn_Ppc64
begin

text \<open>
  Applying a relocation: \<^verbatim>\<open>impl RelocationInstruction\<close> and \<^verbatim>\<open>impl RelocationKindInfo\<close> of
  \<^verbatim>\<open>crates/reld-reloc/src/elf.rs\<close>. The dispatch over the architectures, the check of the computed
  value against alignment and range, and the write into the section's bytes.

  \<^verbatim>\<open>leb128::write::unsigned\<close> is a third-party crate: the bytes it produces are the parameter \<open>uleb\<close>.
\<close>

section \<open>The code\<close>

fun write_to_value ::
    "relocation_instruction \<Rightarrow> u64 \<Rightarrow> bool \<Rightarrow> u8 list \<Rightarrow> u8 list option" where
  "write_to_value (AArch64 insn) v neg dest = aarch64_write_to_value insn v neg dest"
| "write_to_value (RiscV insn) v neg dest = riscv_write_to_value insn v neg dest"
| "write_to_value (LoongArch64 insn) v neg dest = loongarch64_write_to_value insn v neg dest"
| "write_to_value (Ppc64 insn) v neg dest = ppc64_write_to_value insn v neg dest"

fun read_value :: "relocation_instruction \<Rightarrow> u8 list \<Rightarrow> (u64 \<times> bool) option" where
  "read_value (AArch64 insn) bytes = aarch64_read_value insn bytes"
| "read_value (RiscV insn) bytes = riscv_read_value insn bytes"
| "read_value (LoongArch64 insn) bytes = loongarch64_read_value insn bytes"
| "read_value (Ppc64 insn) bytes = ppc64_read_value insn bytes"

fun write_windows_size :: "relocation_instruction \<Rightarrow> nat" where
  "write_windows_size (AArch64 _) = 4"
| "write_windows_size (RiscV _) = 4"
| "write_windows_size (LoongArch64 _) = 4"
| "write_windows_size (Ppc64 _) = 4"

text \<open>The subtraction of the \<^verbatim>\<open>u32\<close> bounds wraps.\<close>

definition bit_mask_bytes :: "relocation_instruction \<Rightarrow> bit_range \<Rightarrow> u8 list option" where
  "bit_mask_bytes insn r =
     (let width = nat ((int (bit_end r) - int (bit_start r)) mod 2 ^ 32);
          all_ones = shl 1 width - 1
      in map_option (map (\<lambda>b. NOT b)) (write_to_value insn all_ones False [0, 0, 0, 0]))"

datatype reloc_error =
    NotAligned int nat
  | OutOfBounds int int int
  | UlebDoesNotFit nat
  | OutsideSection

definition verify :: "'r relocation_kind_info \<Rightarrow> int \<Rightarrow> reloc_error + unit" where
  "verify info value =
     (if \<not> rel_alignment info dvd unat (word_of_int value :: u64)
      then Inl (NotAligned value (rel_alignment info))
      else if \<not> range_contains (allowed info) value
      then Inl (OutOfBounds value (range_min (allowed info)) (range_max (allowed info)))
      else Inr ())"

definition write_uleb :: "(u64 \<Rightarrow> u8 list) \<Rightarrow> u64 \<Rightarrow> u8 list \<Rightarrow> reloc_error fault + u8 list" where
  "write_uleb uleb value output =
     (let encoded = uleb value; n = length encoded
      in if 10 < n then Inl Panic
         else if length output < n then Inl (Err (UlebDoesNotFit n))
         else or_panic (put_at output 0 encoded))"

definition write_bytes :: "nat \<Rightarrow> u64 \<Rightarrow> u8 list \<Rightarrow> reloc_error fault + u8 list" where
  "write_bytes byte_size value output =
     (if length output < byte_size then Inl (Err OutsideSection)
      else or_panic (case window (to_le 8 value) 0 byte_size of
             None \<Rightarrow> None
           | Some bytes \<Rightarrow> put_at output 0 bytes))"

definition write_bit_mask :: "bit_mask \<Rightarrow> u64 \<Rightarrow> u8 list \<Rightarrow> reloc_error fault + u8 list" where
  "write_bit_mask m value output =
     (let extracted_value = extract_bit_range value (bit_start (range m)) (bit_end (range m));
          negative = is_negative value
      in or_panic (write_to_value (instruction m) extracted_value negative output))"

definition write_to_buffer ::
    "(u64 \<Rightarrow> u8 list) \<Rightarrow> 'r relocation_kind_info \<Rightarrow> u64 \<Rightarrow> u8 list
      \<Rightarrow> reloc_error fault + u8 list" where
  "write_to_buffer uleb info value output =
     (case verify info (sint value) of
        Inl e \<Rightarrow> Inl (Err e)
      | Inr _ \<Rightarrow>
          (case kind info of
             PairSubtractionULEB128 _ \<Rightarrow> write_uleb uleb value output
           | _ \<Rightarrow> (case rel_size info of
                 ByteSize byte_size \<Rightarrow> write_bytes byte_size value output
               | BitMasking m \<Rightarrow> write_bit_mask m value output)))"

section \<open>The field of a format\<close>

text \<open>
  \<open>insn_field\<close> is the set of bits of the instruction a format may change, \<open>insn_window\<close> the bytes
  it reads and writes, \<open>insn_width\<close> the number of bits a value may have to stay inside the field.
\<close>

fun riscv_field :: "riscv_instruction \<Rightarrow> u64" where
  "riscv_field UiType = NOT UITYPE_KEEP"
| "riscv_field UType = ucast (NOT UTYPE_IMMEDIATE_MASK)"
| "riscv_field IType = ucast (NOT ITYPE_IMMEDIATE_MASK)"
| "riscv_field SType = ucast (NOT STYPE_IMMEDIATE_MASK)"
| "riscv_field BType = ucast (NOT BTYPE_IMMEDIATE_MASK)"
| "riscv_field JType = ucast (NOT JTYPE_IMMEDIATE_MASK)"
| "riscv_field CbType = ucast (NOT CBTYPE_IMMEDIATE_MASK)"
| "riscv_field CjType = ucast (NOT CJTYPE_IMMEDIATE_MASK)"
| "riscv_field CluiType = ucast (NOT CLUITYPE_IMMEDIATE_MASK)"

fun loongarch64_field :: "loongarch64_instruction \<Rightarrow> u64" where
  "loongarch64_field Shift5 = ucast (NOT (0xFE00001F :: u32))"
| "loongarch64_field Shift10 = ucast (NOT (0xFFC003FF :: u32))"
| "loongarch64_field Branch26 = ucast (NOT (0xFC000000 :: u32))"
| "loongarch64_field Branch21 = ucast (NOT (0xFC0003E0 :: u32))"
| "loongarch64_field Call30 = NOT CALL30_CLEAR"
| "loongarch64_field Call36 = NOT CALL36_CLEAR"

fun insn_field :: "relocation_instruction \<Rightarrow> u64" where
  "insn_field (AArch64 i) = ucast (aarch64_field i)"
| "insn_field (RiscV i) = riscv_field i"
| "insn_field (LoongArch64 i) = loongarch64_field i"
| "insn_field (Ppc64 i) = ucast (NOT (NOT (ppc64_field_mask i)))"

fun loongarch64_width :: "loongarch64_instruction \<Rightarrow> nat" where
  "loongarch64_width Shift5 = 20"
| "loongarch64_width Shift10 = 12"
| "loongarch64_width Branch26 = 26"
| "loongarch64_width Branch21 = 21"
| "loongarch64_width Call30 = 20"
| "loongarch64_width Call36 = 35"

fun insn_width :: "relocation_instruction \<Rightarrow> nat" where
  "insn_width (AArch64 i) = aarch64_width i"
| "insn_width (RiscV i) = 64"
| "insn_width (LoongArch64 i) = loongarch64_width i"
| "insn_width (Ppc64 i) = 64"

fun insn_window :: "relocation_instruction \<Rightarrow> nat" where
  "insn_window (AArch64 _) = 4"
| "insn_window (RiscV i) =
     (if i = UiType then 8 else if i \<in> {CbType, CjType, CluiType} then 2 else 4)"
| "insn_window (LoongArch64 i) = (if i \<in> {Call30, Call36} then 8 else 4)"
| "insn_window (Ppc64 _) = 4"

text \<open>A write changes no bit outside the field when the value has at most the field's width.\<close>

lemma riscv_confined: "confined_write (riscv_write_to_value i v neg) (riscv_field i)"
proof -
  have v: "unat v < 2 ^ 64" using unat_bound64 [of v] by simp
  show ?thesis
    using rv_ui.confined [OF riscv_write_uitype v]
      rv_u.confined [OF riscv_write_patches(1) v] rv_i.confined [OF riscv_write_patches(2) v]
      rv_s.confined [OF riscv_write_patches(3) v] rv_b.confined [OF riscv_write_patches(4) v]
      rv_j.confined [OF riscv_write_patches(5) v] rv_cb.confined [OF riscv_write_patches(6) v]
      rv_cj.confined [OF riscv_write_patches(7) v] rv_clui.confined [OF riscv_write_patches(8) v]
    by (cases i) simp_all
qed

lemma loongarch64_confined:
  assumes "unat v < 2 ^ loongarch64_width i"
  shows "confined_write (loongarch64_write_to_value i v neg) (loongarch64_field i)"
  using assms la_shift5.confined [OF loongarch64_write_patches(1)]
    la_shift10.confined [OF loongarch64_write_patches(2)]
    la_branch26.confined [OF loongarch64_write_patches(3)]
    la_branch21.confined [OF loongarch64_write_patches(4)]
    la_call30.confined [OF loongarch64_write_patches(5)]
    la_call36.confined [OF loongarch64_write_patches(6)]
  by (cases i) (simp_all del: not_not)

lemma write_to_value_fun:
  "write_to_value (AArch64 i) v neg = aarch64_write_to_value i v neg"
  "write_to_value (RiscV j) v neg = riscv_write_to_value j v neg"
  "write_to_value (LoongArch64 k) v neg = loongarch64_write_to_value k v neg"
  "write_to_value (Ppc64 l) v neg = ppc64_write_to_value l v neg"
  by (simp_all add: fun_eq_iff)

lemma write_to_value_confined:
  assumes "unat v < 2 ^ insn_width insn"
  shows "confined_write (write_to_value insn v neg) (insn_field insn)"
  using assms riscv_confined loongarch64_confined a64.confined [OF aarch64_write_patches]
    ppc.confined [OF ppc64_write_patches]
  by (cases insn) (simp_all add: write_to_value_fun unat_bound64)

lemma riscv_windowed: "windowed (riscv_write_to_value i v neg) (insn_window (RiscV i))"
  using patches_windowed [OF riscv_write_uitype, of v neg]
    riscv_write_patches [of v neg, THEN patches_windowed]
  by (cases i) simp_all

lemma loongarch64_windowed:
  "windowed (loongarch64_write_to_value i v neg) (insn_window (LoongArch64 i))"
  using loongarch64_write_patches [of v neg, THEN patches_windowed] by (cases i) simp_all

lemma write_to_value_windowed: "windowed (write_to_value insn v neg) (insn_window insn)"
  using riscv_windowed loongarch64_windowed
    aarch64_write_patches [THEN patches_windowed] ppc64_write_patches [THEN patches_windowed]
  by (cases insn) (simp_all add: write_to_value_fun del: insn_window.simps(2,3))

lemma write_to_value_None_iff:
  "write_to_value insn v neg buf = None \<longleftrightarrow> length buf < insn_window insn"
  using write_to_value_windowed by (auto simp: windowed_def)

lemma write_to_value_Some:
  assumes "write_to_value insn v neg buf = Some buf'"
  shows "length buf' = length buf" "drop (insn_window insn) buf' = drop (insn_window insn) buf"
    and "insn_window insn \<le> length buf"
proof -
  show "length buf' = length buf" "drop (insn_window insn) buf' = drop (insn_window insn) buf"
    using assms write_to_value_windowed [of insn v neg] by (auto simp: windowed_def)
  show "insn_window insn \<le> length buf"
  proof (rule ccontr)
    assume "\<not> insn_window insn \<le> length buf"
    then have "write_to_value insn v neg buf = None" by (simp add: write_to_value_None_iff)
    with assms show False by simp
  qed
qed

text \<open>
  What \<^verbatim>\<open>read_value\<close> returns after a write. Formats whose \<^verbatim>\<open>read_value\<close> is not meant for, or does
  not invert, \<^verbatim>\<open>write_to_value\<close> are not \<open>readable\<close>; the formats that only OR their immediate in
  need an empty field (\<open>insn_blank\<close>).
\<close>

fun readable :: "relocation_instruction \<Rightarrow> bool" where
  "readable (AArch64 i) \<longleftrightarrow> i \<noteq> MachOLow12"
| "readable (RiscV i) \<longleftrightarrow> i \<in> {IType, SType, BType, JType, CbType, CjType}"
| "readable (LoongArch64 i) \<longleftrightarrow> i \<in> {Shift5, Shift10, Branch21, Branch26}"
| "readable (Ppc64 i) \<longleftrightarrow> True"

fun insn_blank :: "relocation_instruction \<Rightarrow> u8 list \<Rightarrow> bool" where
  "insn_blank (AArch64 i) buf \<longleftrightarrow> aarch64_blank i (of_le (take 4 buf))"
| "insn_blank _ buf \<longleftrightarrow> True"

fun insn_norm :: "relocation_instruction \<Rightarrow> u64 \<Rightarrow> bool \<Rightarrow> u64 \<times> bool" where
  "insn_norm (AArch64 i) v neg = aarch64_norm i v neg"
| "insn_norm (RiscV i) v neg =
     (if i = BType then (signed_take_bit 12 v AND NOT 1, bit v 12)
      else if i = JType then (signed_take_bit 20 v AND NOT 1, bit v 20)
      else if i = CbType then (signed_take_bit 8 v AND NOT 1, bit v 8)
      else if i = CjType then (signed_take_bit 11 v AND NOT 1, bit v 11)
      else (signed_take_bit 11 v, bit v 11))"
| "insn_norm (LoongArch64 i) v neg =
     (if i = Shift5 then (take_bit 20 v, False)
      else if i = Shift10 then (take_bit 12 v, False)
      else if i = Branch21 then (signed_take_bit 20 v, bit v 20)
      else (signed_take_bit 25 v, bit v 25))"
| "insn_norm (Ppc64 i) v neg = (v AND ucast (ppc64_field_mask i), False)"

lemma u_from_slice_Some:
  "4 \<le> length buf \<Longrightarrow> u32_from_slice buf = Some (of_le (take 4 buf))"
  "2 \<le> length buf \<Longrightarrow> u16_from_slice buf = Some (of_le (take 2 buf))"
  by (simp_all add: u32_from_slice_def u16_from_slice_def)

lemma riscv_read_back:
  assumes "riscv_write_to_value i v neg buf = Some buf'" "readable (RiscV i)"
  shows "riscv_read_value i buf' = Some (insn_norm (RiscV i) v neg)"
proof -
  have v: "unat v < 2 ^ 64" using unat_bound64 [of v] by simp
  have len: "insn_window (RiscV i) \<le> length buf'"
    using assms(1) riscv_windowed [of i v neg] unfolding windowed_def
    by (metis not_less option.distinct(1))
  show ?thesis
    using assms len
      rv_i_read.patches_read_back [OF riscv_write_patches(2) _ v, of neg buf buf']
      rv_s_read.patches_read_back [OF riscv_write_patches(3) _ v, of neg buf buf']
      rv_b_read.patches_read_back [OF riscv_write_patches(4) _ v, of neg buf buf']
      rv_j_read.patches_read_back [OF riscv_write_patches(5) _ v, of neg buf buf']
      rv_cb_read.patches_read_back [OF riscv_write_patches(6) _ v, of neg buf buf']
      rv_cj_read.patches_read_back [OF riscv_write_patches(7) _ v, of neg buf buf']
    by (cases i) (simp_all add: u_from_slice_Some)
qed

lemma loongarch64_read_back:
  assumes "loongarch64_write_to_value i v neg buf = Some buf'" "readable (LoongArch64 i)"
    "unat v < 2 ^ loongarch64_width i"
  shows "loongarch64_read_value i buf' = Some (insn_norm (LoongArch64 i) v neg)"
proof -
  have len: "insn_window (LoongArch64 i) \<le> length buf'"
    using assms(1) loongarch64_windowed [of i v neg] unfolding windowed_def
    by (metis not_less option.distinct(1))
  show ?thesis
    using assms len
      la_shift5_read.patches_read_back [OF loongarch64_write_patches(1), of v neg buf buf']
      la_shift10_read.patches_read_back [OF loongarch64_write_patches(2), of v neg buf buf']
      la_branch26_read.patches_read_back [OF loongarch64_write_patches(3), of v neg buf buf']
      la_branch21_read.patches_read_back [OF loongarch64_write_patches(4), of v neg buf buf']
    by (cases i) (simp_all add: u_from_slice_Some)
qed

lemma aarch64_read_back_bytes:
  assumes "aarch64_write_to_value i v neg buf = Some buf'"
    "unat v < 2 ^ aarch64_width i" "aarch64_blank i (of_le (take 4 buf))"
  shows "aarch64_read_value i buf' = Some (aarch64_norm i v neg)"
  using a64.patches_read_back [OF aarch64_write_patches assms(1,2)] assms(3)
    patches_Some(1) [OF aarch64_write_patches assms(1)]
    patches_result(1) [OF aarch64_write_patches assms(1)]
  by (simp add: aarch64_read_value_def u_from_slice_Some)

lemma ppc64_read_back_bytes:
  assumes "ppc64_write_to_value i v neg buf = Some buf'"
  shows "ppc64_read_value i buf' = Some (insn_norm (Ppc64 i) v neg)"
  using ppc_read.patches_read_back [OF ppc64_write_patches assms] unat_bound64 [of v]
    patches_Some(1) [OF ppc64_write_patches assms]
    patches_result(1) [OF ppc64_write_patches assms]
  by (simp add: ppc64_read_value_def u_from_slice_Some)

text \<open>
  The formats that clear their field before they write it. The other AArch64 formats OR their
  immediate into the instruction.
\<close>

fun clears_field :: "relocation_instruction \<Rightarrow> bool" where
  "clears_field (AArch64 i) \<longleftrightarrow> i = Movnz"
| "clears_field _ \<longleftrightarrow> True"

lemma riscv_replaces: "replaces (riscv_write_to_value i v neg) (riscv_write_to_value i u neg')"
proof -
  have u: "unat u < 2 ^ 64" using unat_bound64 [of u] by simp
  show ?thesis
    using rv_ui.patches_replace [OF riscv_write_uitype riscv_write_uitype u]
      rv_u.patches_replace [OF riscv_write_patches(1) riscv_write_patches(1) u]
      rv_i.patches_replace [OF riscv_write_patches(2) riscv_write_patches(2) u]
      rv_s.patches_replace [OF riscv_write_patches(3) riscv_write_patches(3) u]
      rv_b.patches_replace [OF riscv_write_patches(4) riscv_write_patches(4) u]
      rv_j.patches_replace [OF riscv_write_patches(5) riscv_write_patches(5) u]
      rv_cb.patches_replace [OF riscv_write_patches(6) riscv_write_patches(6) u]
      rv_cj.patches_replace [OF riscv_write_patches(7) riscv_write_patches(7) u]
      rv_clui.patches_replace [OF riscv_write_patches(8) riscv_write_patches(8) u]
    by (cases i) simp_all
qed

lemma loongarch64_replaces:
  assumes "unat u < 2 ^ loongarch64_width i"
  shows "replaces (loongarch64_write_to_value i v neg) (loongarch64_write_to_value i u neg')"
  using assms
    la_shift5.patches_replace [OF loongarch64_write_patches(1) loongarch64_write_patches(1)]
    la_shift10.patches_replace [OF loongarch64_write_patches(2) loongarch64_write_patches(2)]
    la_branch26.patches_replace [OF loongarch64_write_patches(3) loongarch64_write_patches(3)]
    la_branch21.patches_replace [OF loongarch64_write_patches(4) loongarch64_write_patches(4)]
    la_call30.patches_replace [OF loongarch64_write_patches(5) loongarch64_write_patches(5)]
    la_call36.patches_replace [OF loongarch64_write_patches(6) loongarch64_write_patches(6)]
  by (cases i) simp_all

lemma write_to_value_replace:
  assumes "clears_field insn" "unat u < 2 ^ insn_width insn"
  shows "replaces (write_to_value insn v neg) (write_to_value insn u neg')"
  using assms riscv_replaces loongarch64_replaces
    a64_movnz.patches_replace [OF aarch64_write_patches aarch64_write_patches]
    ppc.patches_replace [OF ppc64_write_patches ppc64_write_patches]
  by (cases insn) (simp_all add: write_to_value_fun unat_bound64)

section \<open>Relocation writes\<close>

definition is_uleb_pair :: "'r relocation_kind_info \<Rightarrow> bool" where
  "is_uleb_pair info \<longleftrightarrow> (\<exists>r. kind info = PairSubtractionULEB128 r)"

definition aligned_to :: "nat \<Rightarrow> u64 \<Rightarrow> bool" where
  "aligned_to a v \<longleftrightarrow> a dvd unat v"

lemma verify_Inr_iff:
  "verify info (sint v) = Inr u \<longleftrightarrow>
     aligned_to (rel_alignment info) v \<and> range_contains (allowed info) (sint v)"
  by (simp add: verify_def aligned_to_def)

lemma write_to_buffer_checked:
  assumes "aligned_to (rel_alignment info) v" "range_contains (allowed info) (sint v)"
  shows "write_to_buffer uleb info v out =
    (if is_uleb_pair info then write_uleb uleb v out
     else case rel_size info of
        ByteSize n \<Rightarrow> write_bytes n v out
      | BitMasking m \<Rightarrow> write_bit_mask m v out)"
  using assms
  by (auto simp: write_to_buffer_def verify_def aligned_to_def is_uleb_pair_def
      split: relocation_kind.splits)

lemma write_to_buffer_InrD:
  assumes "write_to_buffer uleb info v out = Inr out'"
  shows "aligned_to (rel_alignment info) v" "range_contains (allowed info) (sint v)"
  using assms by (auto simp: write_to_buffer_def verify_def aligned_to_def split: if_splits)

lemma write_bytes_eq:
  "write_bytes n v out =
     (if length out < n then Inl (Err OutsideSection)
      else if 8 < n then Inl Panic
      else Inr (to_le n v @ drop n out))"
  by (auto simp: write_bytes_def window_def put_at_def take_to_le)

lemma write_uleb_eq:
  "write_uleb uleb v out =
     (let n = length (uleb v) in
      if 10 < n then Inl Panic
      else if length out < n then Inl (Err (UlebDoesNotFit n))
      else Inr (uleb v @ drop n out))"
  by (auto simp: write_uleb_def put_at_def Let_def)

lemma write_bit_mask_Inr_iff:
  "write_bit_mask m v out = Inr out' \<longleftrightarrow>
     write_to_value (instruction m) (extract_bit_range v (bit_start (range m)) (bit_end (range m)))
       (is_negative v) out = Some out'"
  by (simp add: write_bit_mask_def Let_def)

lemma write_bit_mask_error:
  "write_bit_mask m v out = Inl e \<longleftrightarrow> e = Panic \<and> length out < insn_window (instruction m)"
  using write_to_value_None_iff
    [of "instruction m" "extract_bit_range v (bit_start (range m)) (bit_end (range m))"
      "is_negative v" out]
  by (auto simp: write_bit_mask_def Let_def or_panic_def split: option.splits)

text \<open>The bytes a relocation reads and writes.\<close>

definition touched_bytes :: "(u64 \<Rightarrow> u8 list) \<Rightarrow> 'r relocation_kind_info \<Rightarrow> u64 \<Rightarrow> nat" where
  "touched_bytes uleb info v =
     (if is_uleb_pair info then length (uleb v)
      else case rel_size info of ByteSize n \<Rightarrow> n | BitMasking m \<Rightarrow> insn_window (instruction m))"

lemma touched_bytes_bits:
  "\<not> is_uleb_pair info \<Longrightarrow> rel_size info = BitMasking m \<Longrightarrow>
   touched_bytes uleb info v = insn_window (instruction m)"
  by (simp add: touched_bytes_def)

lemma touched_bytes_bytes:
  "\<not> is_uleb_pair info \<Longrightarrow> rel_size info = ByteSize n \<Longrightarrow> touched_bytes uleb info v = n"
  by (simp add: touched_bytes_def)

lemma write_to_buffer_Inr_cases:
  assumes "write_to_buffer uleb info v out = Inr out'"
  obtains (uleb) "is_uleb_pair info" "write_uleb uleb v out = Inr out'"
  | (bytes) n where "\<not> is_uleb_pair info" "rel_size info = ByteSize n" "write_bytes n v out = Inr out'"
  | (bits) m where "\<not> is_uleb_pair info" "rel_size info = BitMasking m"
      "write_bit_mask m v out = Inr out'"
  using assms write_to_buffer_checked [OF write_to_buffer_InrD [OF assms]]
  by (cases "rel_size info") (auto split: if_splits)

lemma write_to_buffer_bits_confined:
  assumes "write_to_buffer uleb info v out = Inr out'"
    and "\<not> is_uleb_pair info" "rel_size info = BitMasking m"
    and "range_ok (bit_start (range m)) (bit_end (range m))"
    and "bit_end (range m) - bit_start (range m) \<le> insn_width (instruction m)"
    and "n < 8 * length out" "\<not> bit (insn_field (instruction m)) n"
  shows "buf_bit out' n = buf_bit out n"
  using assms(1)
proof (cases rule: write_to_buffer_Inr_cases)
  case (bits m')
  let ?x = "extract_bit_range v (bit_start (range m)) (bit_end (range m))"
  have "unat ?x < 2 ^ (bit_end (range m) - bit_start (range m))"
    using assms(4) by (rule extract_bit_range_bound)
  also have "\<dots> \<le> 2 ^ insn_width (instruction m)"
    using assms(5) by (rule power_increasing) simp
  finally have "confined_write (write_to_value (instruction m) ?x (is_negative v))
      (insn_field (instruction m))"
    by (rule write_to_value_confined)
  moreover have "write_to_value (instruction m) ?x (is_negative v) out = Some out'"
    using bits assms(3) by (simp add: write_bit_mask_Inr_iff)
  ultimately show ?thesis
    using assms(6,7) unfolding confined_write_def by blast
qed (use assms in simp_all)

text \<open>Two entries, and two runs, at which the properties are applied.\<close>

definition sample_data32 :: "unit relocation_kind_info" where
  "sample_data32 = \<lparr>kind = Absolute, rel_size = ByteSize 4, page_mask = None,
     allowed = range_new (- (2 ^ 31)) (2 ^ 31), rel_alignment = 1, bias = 0, thunkable = False\<rparr>"

definition sample_branch :: "unit relocation_kind_info" where
  "sample_branch = \<lparr>kind = Relative, rel_size = bit_mask_riscv 0 13 BType, page_mask = None,
     allowed = range_new (- (2 ^ 12)) (2 ^ 12 - 1), rel_alignment = 2, bias = 0,
     thunkable = False\<rparr>"

lemma sample_data32_run:
  "write_to_buffer (\<lambda>_. []) sample_data32 (-8) [0x63, 0, 0, 0, 7]
     = Inr [0xf8, 0xff, 0xff, 0xff, 7]"
  by (simp add: write_to_buffer_def verify_def write_bytes_eq sample_data32_def to_le_def upt_rec)

lemma sample_branch_run:
  "write_to_buffer (\<lambda>_. []) sample_branch (-8) [0x63, 0, 0, 0, 7]
     = Inr [0xe3, 0x0c, 0, 0xfe, 7]"
  by (simp add: write_to_buffer_def verify_def sample_branch_def bit_mask_defs write_bit_mask_def
      is_negative_def extract_bit_def extract_bit_range_def shr_def shl_def riscv_masks to_le_def
      upt_rec mask_and_set_def)

section \<open>Properties\<close>

text \<open>A relocation is written only when its value is aligned and in the allowed range, and
  then it leaves the length of the section's bytes and everything behind the bytes it touches as
  they were.\<close>

theorem write_to_buffer_frame:
  assumes "write_to_buffer uleb info v out = Inr out'"
  shows "aligned_to (rel_alignment info) v \<and> range_contains (allowed info) (sint v)
    \<and> length out' = length out \<and> touched_bytes uleb info v \<le> length out
    \<and> drop (touched_bytes uleb info v) out' = drop (touched_bytes uleb info v) out"
proof -
  have "length out' = length out \<and> touched_bytes uleb info v \<le> length out
      \<and> drop (touched_bytes uleb info v) out' = drop (touched_bytes uleb info v) out"
    using assms
  proof (cases rule: write_to_buffer_Inr_cases)
    case uleb
    then show ?thesis by (auto simp: write_uleb_eq touched_bytes_def Let_def split: if_splits)
  next
    case (bytes n)
    then show ?thesis by (auto simp: write_bytes_eq touched_bytes_bytes split: if_splits)
  next
    case (bits m)
    then have w: "write_to_value (instruction m)
        (extract_bit_range v (bit_start (range m)) (bit_end (range m))) (is_negative v) out
        = Some out'"
      by (simp add: write_bit_mask_Inr_iff)
    with bits write_to_value_Some [OF w] show ?thesis
      by (simp add: touched_bytes_bits)
  qed
  with write_to_buffer_InrD [OF assms] show ?thesis by simp
qed

theorem write_to_buffer_frame_witness:
  "aligned_to (rel_alignment sample_branch) (-8) \<and> range_contains (allowed sample_branch) (sint (-8 :: u64))
    \<and> length [0xe3, 0x0c, 0, 0xfe, 7 :: u8] = length [0x63, 0, 0, 0, 7 :: u8]
    \<and> touched_bytes (\<lambda>_. []) sample_branch (-8) \<le> length [0x63, 0, 0, 0, 7 :: u8]
    \<and> drop (touched_bytes (\<lambda>_. []) sample_branch (-8)) [0xe3, 0x0c, 0, 0xfe, 7 :: u8]
      = drop (touched_bytes (\<lambda>_. []) sample_branch (-8)) [0x63, 0, 0, 0, 7]"
  by (rule write_to_buffer_frame [OF sample_branch_run])




text \<open>A plain value of \<open>n\<close> bytes that passes the check for \<open>n\<close> bytes is written without
  loss: sign or zero extension of the written bytes gives the value back.\<close>

theorem write_to_buffer_lossless:
  assumes "write_to_buffer uleb info v out = Inr out'"
    and "\<not> is_uleb_pair info" "rel_size info = ByteSize n" "0 < n"
    and "from_byte_size n s = Some (allowed info)"
  shows "(case s of Signed \<Rightarrow> signed_take_bit (8 * n - 1) (of_le (take n out'))
                  | Unsigned \<Rightarrow> of_le (take n out')) = v"
  using assms(1)
proof (cases rule: write_to_buffer_Inr_cases)
  case (bytes n')
  with assms(3) have n: "n \<le> 8" and out': "take n out' = to_le n v"
    by (auto simp: write_bytes_eq split: if_splits)
  have le: "(of_le (take n out') :: u64) = take_bit (8 * n) v"
    by (simp add: out' of_le_to_le)
  have stb: "signed_take_bit (8 * n - 1) (take_bit (8 * n) v) = signed_take_bit (8 * n - 1) v"
    using assms(4) by (intro bit_word_eqI) (auto simp: bit_eval min_def)
  have rng: "range_contains (allowed info) (sint v)"
    by (rule write_to_buffer_InrD [OF assms(1)])
  show ?thesis
  proof (cases "n = 8")
    case True
    have "take_bit 64 v = v" "signed_take_bit 63 v = v"
      by (rule word64_eqI, simp add: bit_eval min_def)+
    with True le stb show ?thesis by (cases s) simp_all
  next
    case False
    with n assms(4) have "0 < 8 * n" "8 * n < 63" by simp_all
    with assms(5) rng show ?thesis
      using signed_range_recover [of "8 * n" v] unsigned_range_recover [of "8 * n" v]
      by (cases s) (simp_all add: from_byte_size_def le stb [simplified])
  qed
qed (use assms in simp_all)

theorem write_to_buffer_lossless_witness:
  "signed_take_bit (8 * 4 - 1) (of_le (take 4 [0xf8, 0xff, 0xff, 0xff, 7])) = (-8 :: u64)"
  using write_to_buffer_lossless [OF sample_data32_run, of 4 Signed]
  by (simp add: sample_data32_def is_uleb_pair_def from_byte_size_def from_bit_size_def)



text \<open>A format that clears its field is written without a trace of an earlier value in it:
  applying a relocation a second time, with another value, gives what applying it alone gives.\<close>

theorem write_to_value_replaces:
  assumes "clears_field insn" "unat u < 2 ^ insn_width insn"
    and "write_to_value insn u neg' buf = Some buf'"
  shows "write_to_value insn v neg buf' = write_to_value insn v neg buf"
  using assms(3) write_to_value_replace [OF assms(1,2)] unfolding replaces_def by blast

theorem write_to_value_replaces_witness:
  "write_to_value (RiscV BType) 8 False [0xe3, 0x0c, 0, 0xfe]
    = write_to_value (RiscV BType) 8 False [0x63, 0, 0, 0]"
  by (rule write_to_value_replaces [where u = "0x1ff8" and neg' = True])
    (simp_all add: extract_bit_def extract_bit_range_def shr_def shl_def riscv_masks to_le_def
      upt_rec mask_and_set_def)

text \<open>The masks the diff tool derives from a relocation. Every bit outside the instruction's
  field is kept, so it is never masked out; a format of two instructions, which \<^verbatim>\<open>bit_mask\<close> writes
  into a buffer of four bytes, panics.\<close>

theorem bit_mask_bytes_keeps:
  assumes "range_ok (bit_start r) (bit_end r)" "bit_end r < 2 ^ 32"
    and "bit_end r - bit_start r \<le> insn_width insn" "bit_end r - bit_start r < 64"
  shows "if insn_window insn = 8 then bit_mask_bytes insn r = None
    else \<exists>m. bit_mask_bytes insn r = Some m \<and> length m = 4
      \<and> (\<forall>n<32. \<not> bit (insn_field insn) n \<longrightarrow> buf_bit m n)"
proof -
  define k where "k = bit_end r - bit_start r"
  have "int (bit_end r) - int (bit_start r) = int k"
    using assms(1) by (simp add: k_def range_ok_def of_nat_diff)
  moreover have "k < 2 ^ 32" using assms(2) by (simp add: k_def)
  ultimately have width: "nat ((int (bit_end r) - int (bit_start r)) mod 2 ^ 32) = k" by simp
  let ?w = "write_to_value insn (shl 1 k - 1) False [0, 0, 0, 0]"
  have eq: "bit_mask_bytes insn r = map_option (map (\<lambda>b. NOT b)) ?w"
    unfolding bit_mask_bytes_def width Let_def ..
  have ones: "unat (shl 1 k - 1 :: u64) < 2 ^ insn_width insn"
  proof -
    have "k < 64" using assms(4) by (simp add: k_def)
    then have "shl 1 k - 1 = (mask k :: u64)" by (simp add: shl_one_minus_one)
    moreover have "unat (mask k :: u64) < 2 ^ k"
    proof -
      have "unat (take_bit k w) < 2 ^ k" for w :: u64
        by (simp add: unsigned_take_bit_eq take_bit_nat_less_exp)
      moreover have "take_bit k (mask k :: u64) = mask k"
        by (rule bit_word_eqI) (simp add: bit_eval)
      ultimately show ?thesis by metis
    qed
    moreover have "(2::nat) ^ k \<le> 2 ^ insn_width insn"
      using assms(3) unfolding k_def by (rule power_increasing) simp
    ultimately show ?thesis by (metis less_le_trans)
  qed
  show ?thesis
  proof (cases ?w)
    case None
    then have "4 < insn_window insn" by (simp add: write_to_value_None_iff)
    then have "insn_window insn = 8" by (cases insn) (simp_all split: if_splits)
    with None eq show ?thesis by simp
  next
    case (Some b)
    then have b: "length b = 4" "insn_window insn \<le> 4"
      using write_to_value_Some [OF Some] by simp_all
    have "buf_bit (map (\<lambda>b. NOT b) b) n" if n: "n < 32" "\<not> bit (insn_field insn) n" for n
    proof -
      have "n div 8 < 4" using n(1) by simp
      then have "n div 8 \<in> {0, 1, 2, 3}" by auto
      then have "buf_bit [0, 0, 0, 0] n = False" by (auto simp: buf_bit_def)
      moreover have "buf_bit b n = buf_bit [0, 0, 0, 0] n"
        using write_to_value_confined [OF ones] Some n by (auto simp: confined_write_def)
      ultimately show ?thesis
        using \<open>n div 8 < 4\<close> b(1) by (simp add: buf_bit_def bit_eval)
    qed
    with eq Some b show ?thesis by simp
  qed
qed

theorem bit_mask_bytes_keeps_witness:
  "\<exists>m. bit_mask_bytes (RiscV IType) \<lparr>bit_start = 0, bit_end = 12\<rparr> = Some m \<and> length m = 4 \<and> buf_bit m 0"
  using bit_mask_bytes_keeps [of "\<lparr>bit_start = 0, bit_end = 12\<rparr>" "RiscV IType"]
  by (auto simp: range_ok_def riscv_masks bit_eval)


end
