(* ===== verification/Reloc_Table.thy ===== *)
theory Reloc_Table
  imports Reloc_Write
begin

text \<open>
  What a table of relocation types promises to the writer: the locale \<open>relocation_table\<close>. Each
  architecture has a function from relocation types to \<^verbatim>\<open>RelocationKindInfo\<close>; its theory interprets
  the locale on it and names the entries that break the promise (\<open>irregular\<close>). The lemmas of the
  locale turn the promise into facts about what \<open>write_to_buffer\<close> does to a section.
\<close>

section \<open>Well-formed entries\<close>

text \<open>The bits written fit into the field of the instruction; plain values have at most 8 bytes.\<close>

definition fits_field :: "relocation_size \<Rightarrow> bool" where
  "fits_field s =
     (case s of
        ByteSize n \<Rightarrow> n \<le> 8
      | BitMasking m \<Rightarrow>
          range_ok (bit_start (range m)) (bit_end (range m)) \<and>
          bit_end (range m) - bit_start (range m) \<le> insn_width (instruction m))"

text \<open>
  \<open>reach\<close> is the number of low bits of a value that an entry can represent: up to the end of its
  bit range, one more for \<^verbatim>\<open>movn\<close>/\<^verbatim>\<open>movz\<close> whose opcode carries the sign, and the bits of the
  immediate for the RISC-V formats that take the whole value. \<open>dropped\<close> is the number of low bits
  that are not written.
\<close>

fun insn_reach :: "relocation_instruction \<Rightarrow> nat \<Rightarrow> nat" where
  "insn_reach (AArch64 i) e = (if i = Movnz then e + 1 else e)"
| "insn_reach (RiscV i) e =
     (if i = BType then 13 else if i = JType then 21 else if i = CbType then 9
      else if i = CjType then 12 else min e 32)"
| "insn_reach (LoongArch64 i) e = e"
| "insn_reach (Ppc64 i) e = e"

fun insn_dropped :: "relocation_instruction \<Rightarrow> nat \<Rightarrow> nat" where
  "insn_dropped (RiscV i) a = (if i \<in> {BType, JType, CbType, CjType} then 1 else a)"
| "insn_dropped (Ppc64 i) a = (if i = D then a else 2)"
| "insn_dropped _ a = a"

definition reach :: "relocation_size \<Rightarrow> nat" where
  "reach s = (case s of ByteSize n \<Rightarrow> 8 * n
                      | BitMasking m \<Rightarrow> insn_reach (instruction m) (bit_end (range m)))"

definition dropped :: "relocation_size \<Rightarrow> nat" where
  "dropped s = (case s of ByteSize n \<Rightarrow> 0
                        | BitMasking m \<Rightarrow> insn_dropped (instruction m) (bit_start (range m)))"

definition range_fits :: "allowed_range \<Rightarrow> nat \<Rightarrow> bool" where
  "range_fits r e \<longleftrightarrow> 0 < e \<and> - (2 ^ (e - 1)) \<le> range_min r \<and> range_max r \<le> 2 ^ e"

text \<open>
  Entries whose range is checked represent every value of the range. An entry that leaves out
  fewer than 12 low bits demands an alignment that makes them zero; entries that start at bit 12
  or above are the upper part of a value whose lower part another relocation writes.
\<close>

definition entry_ok :: "'r relocation_kind_info \<Rightarrow> bool" where
  "entry_ok info \<longleftrightarrow>
     fits_field (rel_size info)
     \<and> (allowed info = no_check \<or> range_fits (allowed info) (reach (rel_size info)))
     \<and> (dropped (rel_size info) < 12 \<longrightarrow> 2 ^ dropped (rel_size info) dvd rel_alignment info)"

lemmas row_eval =
  entry_ok_def fits_field_def range_fits_def reach_def dropped_def range_ok_def bit_mask_defs
  from_bit_size_def range_new_def

lemma range_fits_value:
  assumes "range_fits r e" "range_contains r (sint v)"
  shows "signed_take_bit (e - 1) v = v \<or> take_bit e v = (v :: u64)"
proof (cases "sint v < 0")
  case True
  have "(0::int) < 2 ^ (e - 1)" by simp
  with True assms have "- (2 ^ (e - 1)) \<le> sint v" "sint v < 2 ^ (e - 1)"
    unfolding range_fits_def range_contains_def by linarith+
  then show ?thesis by (simp add: signed_take_bit_self)
next
  case False
  with assms have "0 \<le> sint v" "sint v < 2 ^ e"
    unfolding range_fits_def range_contains_def by linarith+
  then show ?thesis by (simp add: take_bit_self)
qed

lemma aligned_low_bits:
  assumes "2 ^ k dvd a" "aligned_to a v"
  shows "take_bit k v = (0 :: u64)"
proof -
  have "2 ^ k dvd unat v"
    using assms by (simp add: aligned_to_def dvd_trans)
  then have "take_bit k (unat v) = 0" by (simp add: take_bit_eq_0_iff)
  then have "unat (take_bit k v) = 0" by (simp only: unsigned_take_bit_eq)
  then show ?thesis by (simp only: unat_eq_zero)
qed

section \<open>The contract of a table\<close>

locale relocation_table =
  fixes from_raw :: "'r \<Rightarrow> 'r relocation_kind_info option"
    and irregular :: "'r \<Rightarrow> bool"
  assumes regular: "from_raw r = Some info \<Longrightarrow> \<not> irregular r \<Longrightarrow> entry_ok info"
begin

lemma write_confined:
  assumes "from_raw r = Some info" "\<not> irregular r"
    and "write_to_buffer uleb info v out = Inr out'"
    and "\<not> is_uleb_pair info" "rel_size info = BitMasking m"
    and "n < 8 * length out" "\<not> bit (insn_field (instruction m)) n"
  shows "buf_bit out' n = buf_bit out n"
proof -
  have "fits_field (BitMasking m)"
    using regular [OF assms(1,2)] assms(5) by (simp add: entry_ok_def)
  then show ?thesis
    using write_to_buffer_bits_confined [OF assms(3,4,5) _ _ assms(6,7)]
    by (simp add: fits_field_def)
qed

lemma value_fits:
  assumes "from_raw r = Some info" "\<not> irregular r"
    and "write_to_buffer uleb info v out = Inr out'" "allowed info \<noteq> no_check"
  shows "signed_take_bit (reach (rel_size info) - 1) v = v \<or> take_bit (reach (rel_size info)) v = v"
proof -
  have "range_fits (allowed info) (reach (rel_size info))"
    using regular [OF assms(1,2)] assms(4) by (simp add: entry_ok_def)
  then show ?thesis by (rule range_fits_value) (rule write_to_buffer_InrD(2) [OF assms(3)])
qed

lemma dropped_zero:
  assumes "from_raw r = Some info" "\<not> irregular r"
    and "write_to_buffer uleb info v out = Inr out'" "dropped (rel_size info) < 12"
  shows "take_bit (dropped (rel_size info)) v = 0"
proof -
  have "2 ^ dropped (rel_size info) dvd rel_alignment info"
    using regular [OF assms(1,2)] assms(4) by (simp add: entry_ok_def)
  then show ?thesis by (rule aligned_low_bits) (rule write_to_buffer_InrD(1) [OF assms(3)])
qed

lemma no_panic:
  assumes "from_raw r = Some info" "\<not> irregular r"
    and "touched_bytes uleb info v \<le> length out" "length (uleb v) \<le> 10"
  shows "write_to_buffer uleb info v out \<noteq> Inl Panic"
proof -
  have fit: "fits_field (rel_size info)"
    using regular [OF assms(1,2)] by (simp add: entry_ok_def)
  show ?thesis
  proof (cases "aligned_to (rel_alignment info) v \<and> range_contains (allowed info) (sint v)")
    case True
    with assms(3,4) fit show ?thesis
      by (auto simp: write_to_buffer_checked write_uleb_eq write_bytes_eq write_bit_mask_error
          touched_bytes_def fits_field_def Let_def split: relocation_size.splits)
  qed (auto simp: write_to_buffer_def verify_def aligned_to_def)
qed

end

end
