(* ===== verification/Relax_Site.thy ===== *)
theory Relax_Site
  imports Prelude "HOL-Library.Monad_Syntax"
begin

text \<open>
  Instruction relaxation: what the \<^verbatim>\<open>RelaxationKind::apply\<close> functions of the architectures share. A
  relaxation rewrites the bytes of a section around the offset of a relocation and may move the
  offset and replace the addend; the three are the \<open>relax_site\<close> that \<^verbatim>\<open>apply\<close> gets by mutable
  reference. An index below zero or past the end of the section panics (\<open>None\<close>).

  The locale \<open>relaxer\<close> is the contract with \<^verbatim>\<open>reld-diff\<close>, whose \<^verbatim>\<open>relaxation_byte_range\<close> says which
  bytes around the offset a relaxation covers.
\<close>

datatype relocation_modifier = Normal | SkipNextRelocation

type_synonym relax_site = "u8 list \<times> u64 \<times> u64"

text \<open>An offset as a signed index.\<close>

abbreviation at :: "u64 \<Rightarrow> int" where
  "at off \<equiv> int (unat off)"

text \<open>\<^verbatim>\<open>RelaxationByteRange\<close> of \<^verbatim>\<open>crates/reld-diff/src/arch.rs\<close>.\<close>

record relaxation_byte_range =
  offset_shift :: nat
  num_bytes :: nat

definition byte_range_new :: "nat \<Rightarrow> nat \<Rightarrow> relaxation_byte_range" where
  "byte_range_new shift n = \<lparr>offset_shift = shift, num_bytes = n\<rparr>"

section \<open>Bytes that stay\<close>

definition same_outside :: "int \<Rightarrow> int \<Rightarrow> u8 list \<Rightarrow> u8 list \<Rightarrow> bool" where
  "same_outside lo hi buf buf' \<longleftrightarrow>
     length buf' = length buf \<and>
     (\<forall>i < length buf. int i < lo \<or> hi \<le> int i \<longrightarrow> buf' ! i = buf ! i)"

lemma same_outside_refl [simp]: "same_outside lo hi buf buf"
  by (simp add: same_outside_def)

lemma same_outside_trans:
  "same_outside lo hi a b \<Longrightarrow> same_outside lo hi b c \<Longrightarrow> same_outside lo hi a c"
  by (simp add: same_outside_def)

lemma same_outside_mono:
  "same_outside lo hi a b \<Longrightarrow> lo' \<le> lo \<Longrightarrow> hi \<le> hi' \<Longrightarrow> same_outside lo' hi' a b"
  by (auto simp: same_outside_def)

lemma put_at_same_outside:
  assumes "put_at buf i src = Some buf'" "lo \<le> i" "i + int (length src) \<le> hi"
  shows "same_outside lo hi buf buf'"
  using assms put_at_length [OF assms(1)]
  by (auto simp: same_outside_def put_at_nth put_at_def split: if_splits)

lemma get_at_put_at:
  assumes "put_at a i src = Some b"
  shows "get_at b j = (if i \<le> j \<and> j < i + int (length src) then Some (src ! nat (j - i)) else get_at a j)"
proof (cases "0 \<le> j \<and> nat j < length a")
  case True
  then show ?thesis
    using assms put_at_length [OF assms] put_at_nth [OF assms, of "nat j"]
    by (auto simp: get_at_def put_at_def nat_diff_distrib split: if_splits)
next
  case False
  then show ?thesis
    using assms put_at_length [OF assms] by (auto simp: get_at_def put_at_def split: if_splits)
qed

text \<open>The bytes of a window before the offset and after it.\<close>

definition covered :: "relaxation_byte_range \<Rightarrow> u64 \<Rightarrow> u8 list \<Rightarrow> u8 list \<Rightarrow> bool" where
  "covered r off buf buf' \<longleftrightarrow>
     same_outside (at off - int (offset_shift r))
       (at off - int (offset_shift r) + int (num_bytes r)) buf buf'"

locale relaxer =
  fixes apply_kind :: "'k \<Rightarrow> relax_site \<Rightarrow> relax_site option"
    and byte_range :: "'k \<Rightarrow> relaxation_byte_range"
    and before :: nat and after :: nat
  assumes window: "apply_kind k (buf, off, add) = Some (buf', off', add')
      \<Longrightarrow> covered (byte_range k) off buf buf'"
    and within: "offset_shift (byte_range k) \<le> before"
      "num_bytes (byte_range k) \<le> offset_shift (byte_range k) + after"
begin

lemma keeps_length:
  "apply_kind k (buf, off, add) = Some (buf', off', add') \<Longrightarrow> length buf' = length buf"
  using window [of k buf off add] by (simp add: covered_def same_outside_def)

lemma max_window:
  assumes "apply_kind k (buf, off, add) = Some (buf', off', add')"
  shows "same_outside (at off - int before) (at off + int after) buf buf'"
  using window [OF assms] within [of k] unfolding covered_def
  by (elim same_outside_mono) auto

text \<open>A byte further from the offset than the window is read the same before and after.\<close>

lemma far_byte:
  assumes "apply_kind k (buf, off, add) = Some (buf', off', add')"
    and "i < length buf" "int i < at off - int before \<or> at off + int after \<le> int i"
  shows "buf' ! i = buf ! i"
  using max_window [OF assms(1)] assms(2,3) by (auto simp: same_outside_def)

end

end
