(* ===== verification/Reloc_X86.thy ===== *)
theory Reloc_X86
  imports Reloc_Table Relax_Site
begin

text \<open>
  x86-64 relocations and relaxations: \<^verbatim>\<open>crates/reld-reloc/src/x86_64.rs\<close>, with the byte ranges that
  \<^verbatim>\<open>crates/reld-diff/src/x86_64.rs\<close> assumes for the relaxations.
\<close>

section \<open>Relaxations\<close>

datatype x86_relaxation =
    MovIndirectToLea | MovIndirectToAbsolute | RexMovIndirectToAbsolute u8
  | RexAddIndirectToAbsolute u8 | RexSubIndirectToAbsolute u8 | RexCmpIndirectToAbsolute u8
  | CallIndirectToRelative | JmpIndirectToRelative | X86NoOp
  | TlsGdToLocalExec | TlsGdToLocalExecLarge | TlsLdToLocalExec | TlsLdToLocalExecNoPlt
  | TlsLdToLocalExec64 | TlsGdToInitialExec | TlsDescToLocalExec u8 | TlsDescToInitialExec
  | SkipTlsDescCall

text \<open>The arms share the way the \<^verbatim>\<open>REX\<close> prefix and the \<^verbatim>\<open>ModRM\<close> byte are rewritten.\<close>

definition rex_3 :: "u8 \<Rightarrow> u8" where
  "rex_3 rex = (rex AND NOT 4) OR shr (rex AND 4) 2"

definition rex_4 :: "u8 \<Rightarrow> u8" where
  "rex_4 rex = (rex AND NOT 0x44) OR shr (rex AND 0x44) 2"

definition patch_rex :: "u8 list \<Rightarrow> int \<Rightarrow> u8 \<Rightarrow> u8 list option" where
  "patch_rex buf off inst_offset = do {
     rex \<leftarrow> get_at buf (off - 3);
     if inst_offset = 3 then put_at buf (off - 3) [rex_3 rex]
     else if inst_offset = 4 then put_at buf (off - 3) [rex_4 rex]
     else Some buf }"

definition patch_mod_rm :: "u8 list \<Rightarrow> int \<Rightarrow> u8 \<Rightarrow> u8 list option" where
  "patch_mod_rm buf off base = do {
     mod_rm \<leftarrow> get_at buf (off - 1);
     put_at buf (off - 1) [(shr mod_rm 3 AND 0x7) OR base] }"

text \<open>The \<^verbatim>\<open>EVEX\<close> prefix of \<^verbatim>\<open>RexAddIndirectToAbsolute(6)\<close>.\<close>

definition evex_l5 :: "u8 \<Rightarrow> u8" where
  "evex_l5 l5 =
     (let l5 = (if l5 AND shl 1 7 = 0 then (l5 OR shl 1 7) AND NOT (shl 1 5) else l5)
      in if l5 AND shl 1 4 = 0 then l5 OR shl 1 4 OR shl 1 3 else l5)"

definition patch_add_prefix :: "u8 list \<Rightarrow> int \<Rightarrow> u8 \<Rightarrow> u8 list option" where
  "patch_add_prefix buf off inst_offset =
     (if inst_offset = 3 then do {
        rex \<leftarrow> get_at buf (off - 3);
        put_at buf (off - 3) [rex_3 rex] }
      else if inst_offset = 4 then do {
        rex \<leftarrow> get_at buf (off - 3);
        put_at buf (off - 3) [rex_4 rex] }
      else if inst_offset = 6 then do {
        l5 \<leftarrow> get_at buf (off - 5);
        put_at buf (off - 5) [evex_l5 l5] }
      else Some buf)"

fun x86_apply :: "x86_relaxation \<Rightarrow> relax_site \<Rightarrow> relax_site option" where
  "x86_apply MovIndirectToLea (buf, off, add) = do {
     buf \<leftarrow> put_at buf (at off - 2) [0x8d];
     Some (buf, off, add) }"
| "x86_apply MovIndirectToAbsolute (buf, off, add) = do {
     buf \<leftarrow> put_at buf (at off - 2) [0xc7];
     buf \<leftarrow> patch_mod_rm buf (at off) 0xc0;
     Some (buf, off, 0) }"
| "x86_apply (RexMovIndirectToAbsolute inst_offset) (buf, off, add) = do {
     buf \<leftarrow> patch_rex buf (at off) inst_offset;
     buf \<leftarrow> put_at buf (at off - 2) [0xc7];
     buf \<leftarrow> patch_mod_rm buf (at off) 0xc0;
     Some (buf, off, 0) }"
| "x86_apply (RexAddIndirectToAbsolute inst_offset) (buf, off, add) = do {
     buf \<leftarrow> patch_add_prefix buf (at off) inst_offset;
     buf \<leftarrow> put_at buf (at off - 2) [0x81];
     buf \<leftarrow> patch_mod_rm buf (at off) 0xc0;
     Some (buf, off, 0) }"
| "x86_apply (RexSubIndirectToAbsolute inst_offset) (buf, off, add) = do {
     buf \<leftarrow> patch_rex buf (at off) inst_offset;
     buf \<leftarrow> put_at buf (at off - 2) [0x81];
     buf \<leftarrow> patch_mod_rm buf (at off) 0xe8;
     Some (buf, off, 0) }"
| "x86_apply (RexCmpIndirectToAbsolute inst_offset) (buf, off, add) = do {
     buf \<leftarrow> patch_rex buf (at off) inst_offset;
     buf \<leftarrow> put_at buf (at off - 2) [0x81];
     buf \<leftarrow> patch_mod_rm buf (at off) 0xf8;
     Some (buf, off, 0) }"
| "x86_apply CallIndirectToRelative (buf, off, add) = do {
     buf \<leftarrow> put_at buf (at off - 2) [0x67, 0xe8];
     Some (buf, off, add) }"
| "x86_apply JmpIndirectToRelative (buf, off, add) = do {
     buf \<leftarrow> put_at buf (at off - 2) [0xe9, 0, 0, 0, 0, 0x90];
     Some (buf, off - 1, add) }"
| "x86_apply TlsGdToLocalExec (buf, off, add) = do {
     buf \<leftarrow> put_at buf (at off - 4)
              [0x64, 0x48, 0x8b, 0x04, 0x25, 0, 0, 0, 0, 0x48, 0x8d, 0x80];
     Some (buf, off + 8, 0) }"
| "x86_apply TlsGdToLocalExecLarge (buf, off, add) = do {
     buf \<leftarrow> put_at buf (at off - 3)
              [0x64, 0x48, 0x8b, 0x04, 0x25, 0, 0, 0, 0, 0x48, 0x8d, 0x80, 0, 0, 0, 0,
               0x66, 0x0f, 0x1f, 0x44, 0, 0];
     Some (buf, off + 9, 0) }"
| "x86_apply TlsGdToInitialExec (buf, off, add) = do {
     buf \<leftarrow> put_at buf (at off - 4)
              [0x64, 0x48, 0x8b, 0x04, 0x25, 0, 0, 0, 0, 0x48, 0x03, 0x05];
     Some (buf, off + 8, add) }"
| "x86_apply TlsLdToLocalExec (buf, off, add) = do {
     buf \<leftarrow> put_at buf (at off - 3)
              [0x66, 0x66, 0x66, 0x64, 0x48, 0x8b, 0x04, 0x25, 0, 0, 0, 0];
     Some (buf, off + 5, add) }"
| "x86_apply TlsLdToLocalExecNoPlt (buf, off, add) = do {
     buf \<leftarrow> put_at buf (at off - 3)
              [0x66, 0x66, 0x66, 0x66, 0x64, 0x48, 0x8b, 0x04, 0x25, 0, 0, 0, 0];
     Some (buf, off + 5, add) }"
| "x86_apply TlsLdToLocalExec64 (buf, off, add) = do {
     buf \<leftarrow> put_at buf (at off - 3)
              [0x66, 0x66, 0x66, 0x66, 0x2e, 0x0f, 0x1f, 0x84, 0, 0, 0, 0, 0,
               0x64, 0x48, 0x8b, 0x04, 0x25, 0, 0, 0, 0];
     Some (buf, off + 15, add) }"
| "x86_apply (TlsDescToLocalExec inst_offset) (buf, off, add) = do {
     rex \<leftarrow> get_at buf (at off - 3);
     modrm \<leftarrow> get_at buf (at off - 1);
     let rex_r = shr rex 2 AND 1;
     let reg = shr modrm 3 AND 0x7;
     if inst_offset = 3 \<or> inst_offset = 4 then do {
       let rex = (if inst_offset = 3 then (if rex_r = 0 then 0x48 else 0x49)
                  else (if rex_r = 0 then 0x18 else 0x19));
       buf \<leftarrow> put_at buf (at off - 3) [rex, 0xc7, 0xc0 OR reg, 0, 0, 0, 0];
       Some (buf, off, 0) }
     else Some (buf, off, add) }"
| "x86_apply TlsDescToInitialExec (buf, off, add) = do {
     rex \<leftarrow> get_at buf (at off - 3);
     modrm \<leftarrow> get_at buf (at off - 1);
     let rex_r = shr rex 2 AND 1;
     let reg = shr modrm 3 AND 0x7;
     let rex = (if rex_r = 0 then 0x48 else 0x4c);
     buf \<leftarrow> put_at buf (at off - 3) [rex, 0x8b, 0x05 OR shl reg 3, 0, 0, 0, 0];
     Some (buf, off, add) }"
| "x86_apply SkipTlsDescCall (buf, off, add) = do {
     buf \<leftarrow> put_at buf (at off) [0x66, 0x90];
     Some (buf, off, add) }"
| "x86_apply X86NoOp (buf, off, add) = Some (buf, off, add)"

definition x86_next_modifier :: "x86_relaxation \<Rightarrow> relocation_modifier" where
  "x86_next_modifier k =
     (case k of
        TlsGdToInitialExec \<Rightarrow> SkipNextRelocation
      | TlsGdToLocalExec \<Rightarrow> SkipNextRelocation
      | TlsGdToLocalExecLarge \<Rightarrow> SkipNextRelocation
      | TlsLdToLocalExec \<Rightarrow> SkipNextRelocation
      | TlsLdToLocalExecNoPlt \<Rightarrow> SkipNextRelocation
      | TlsLdToLocalExec64 \<Rightarrow> SkipNextRelocation
      | _ \<Rightarrow> Normal)"

text \<open>
  The new relocation type matters to \<^verbatim>\<open>relaxation_byte_range\<close> only for \<^verbatim>\<open>NoOp\<close>: the parameter
  \<open>tlsdesc_call\<close> says whether it is \<^verbatim>\<open>R_X86_64_TLSDESC_CALL\<close>.
\<close>

fun x86_byte_range :: "bool \<Rightarrow> x86_relaxation \<Rightarrow> relaxation_byte_range" where
  "x86_byte_range tlsdesc_call MovIndirectToLea = byte_range_new 2 6"
| "x86_byte_range tlsdesc_call MovIndirectToAbsolute = byte_range_new 2 6"
| "x86_byte_range tlsdesc_call (RexMovIndirectToAbsolute _) = byte_range_new 3 7"
| "x86_byte_range tlsdesc_call (RexAddIndirectToAbsolute n) =
     (if n = 6 then byte_range_new 6 10 else byte_range_new 3 7)"
| "x86_byte_range tlsdesc_call (RexSubIndirectToAbsolute _) = byte_range_new 3 7"
| "x86_byte_range tlsdesc_call (RexCmpIndirectToAbsolute _) = byte_range_new 3 7"
| "x86_byte_range tlsdesc_call CallIndirectToRelative = byte_range_new 2 6"
| "x86_byte_range tlsdesc_call JmpIndirectToRelative = byte_range_new 2 6"
| "x86_byte_range tlsdesc_call TlsGdToLocalExec = byte_range_new 4 16"
| "x86_byte_range tlsdesc_call TlsGdToLocalExecLarge = byte_range_new 3 22"
| "x86_byte_range tlsdesc_call TlsGdToInitialExec = byte_range_new 4 16"
| "x86_byte_range tlsdesc_call TlsLdToLocalExec = byte_range_new 3 12"
| "x86_byte_range tlsdesc_call TlsLdToLocalExecNoPlt = byte_range_new 3 13"
| "x86_byte_range tlsdesc_call TlsLdToLocalExec64 = byte_range_new 3 22"
| "x86_byte_range tlsdesc_call SkipTlsDescCall = byte_range_new 0 2"
| "x86_byte_range tlsdesc_call (TlsDescToLocalExec _) = byte_range_new 3 7"
| "x86_byte_range tlsdesc_call TlsDescToInitialExec = byte_range_new 3 7"
| "x86_byte_range tlsdesc_call X86NoOp =
     (if tlsdesc_call then byte_range_new 0 2 else byte_range_new 0 0)"

definition X86_MAX_RELAX_MODIFY_BEFORE :: nat where "X86_MAX_RELAX_MODIFY_BEFORE = 6"
definition X86_MAX_RELAX_MODIFY_AFTER :: nat where "X86_MAX_RELAX_MODIFY_AFTER = 19"

lemma patch_rex_same_outside:
  "patch_rex buf off n = Some buf' \<Longrightarrow> lo \<le> off - 3 \<Longrightarrow> off \<le> hi \<Longrightarrow> same_outside lo hi buf buf'"
  by (auto simp: patch_rex_def split: if_splits option.splits bind_splits
      intro: put_at_same_outside)

lemma patch_mod_rm_same_outside:
  "patch_mod_rm buf off b = Some buf' \<Longrightarrow> lo \<le> off - 1 \<Longrightarrow> off \<le> hi \<Longrightarrow> same_outside lo hi buf buf'"
  by (auto simp: patch_mod_rm_def split: bind_splits intro: put_at_same_outside)

lemma patch_add_prefix_same_outside:
  "patch_add_prefix buf off n = Some buf' \<Longrightarrow> lo \<le> off - (if n = 6 then 5 else 3) \<Longrightarrow> off \<le> hi \<Longrightarrow>
   same_outside lo hi buf buf'"
  by (auto simp: patch_add_prefix_def split: if_splits bind_splits intro: put_at_same_outside)

lemma patch_op_mod_rm_same_outside:
  assumes "put_at a i [op] = Some b" "patch_mod_rm b off base = Some c"
    and "lo \<le> i" "i < hi" "lo \<le> off - 1" "off \<le> hi"
  shows "same_outside lo hi a c"
  using assms
  by (intro same_outside_trans [OF put_at_same_outside [OF assms(1)]
        patch_mod_rm_same_outside [OF assms(2)]]) simp_all

lemma patch_rex_op_mod_rm_same_outside:
  assumes "patch_rex a off n = Some b" "put_at b (off - 2) [op] = Some c"
    "patch_mod_rm c off base = Some d" and "lo \<le> off - 3" "off \<le> hi"
  shows "same_outside lo hi a d"
  using assms
  by (intro same_outside_trans [OF patch_rex_same_outside [OF assms(1)]
        patch_op_mod_rm_same_outside [OF assms(2,3)]]) simp_all

lemma patch_prefix_op_mod_rm_same_outside:
  assumes "patch_add_prefix a off n = Some b" "put_at b (off - 2) [op] = Some c"
    "patch_mod_rm c off base = Some d" and "lo \<le> off - (if n = 6 then 5 else 3)" "off \<le> hi"
  shows "same_outside lo hi a d"
  using assms
  by (intro same_outside_trans [OF patch_add_prefix_same_outside [OF assms(1)]
        patch_op_mod_rm_same_outside [OF assms(2,3)]]) (simp_all split: if_splits)

lemmas x86_outside =
  put_at_same_outside patch_op_mod_rm_same_outside patch_rex_op_mod_rm_same_outside
  patch_prefix_op_mod_rm_same_outside

lemma x86_apply_window:
  "x86_apply k (buf, off, add) = Some (buf', off', add') \<Longrightarrow>
   covered (x86_byte_range t k) off buf buf'"
  by (cases k)
    (auto simp: covered_def byte_range_new_def Let_def split: bind_splits if_splits
      intro: x86_outside)

interpretation x86: relaxer x86_apply "x86_byte_range t" X86_MAX_RELAX_MODIFY_BEFORE
  X86_MAX_RELAX_MODIFY_AFTER for t
proof unfold_locales
  fix k buf off add buf' off' add'
  assume "x86_apply k (buf, off, add) = Some (buf', off', add')"
  then show "covered (x86_byte_range t k) off buf buf'" by (rule x86_apply_window)
next
  fix k
  show "offset_shift (x86_byte_range t k) \<le> X86_MAX_RELAX_MODIFY_BEFORE"
    "num_bytes (x86_byte_range t k) \<le> offset_shift (x86_byte_range t k) + X86_MAX_RELAX_MODIFY_AFTER"
    by (cases k; simp add: X86_MAX_RELAX_MODIFY_BEFORE_def X86_MAX_RELAX_MODIFY_AFTER_def
        byte_range_new_def)+
qed

text \<open>
  The operands of an instruction. A register number is three bits of the \<^verbatim>\<open>ModRM\<close> byte and, above
  them, a bit of the \<^verbatim>\<open>REX\<close> prefix: \<open>reg_operand\<close> is the register of the \<open>reg\<close> field,
  \<open>rm_operand\<close> that of the \<open>rm\<close> field when the addressing mode is a register (\<open>mode_register\<close>).
\<close>

definition reg_operand :: "u8 \<Rightarrow> u8 \<Rightarrow> u8" where
  "reg_operand rex mod_rm = shl (shr rex 2 AND 1) 3 OR (shr mod_rm 3 AND 7)"

definition rm_operand :: "u8 \<Rightarrow> u8 \<Rightarrow> u8" where
  "rm_operand rex mod_rm = shl (rex AND 1) 3 OR (mod_rm AND 7)"

definition mode_register :: "u8 \<Rightarrow> bool" where
  "mode_register mod_rm \<longleftrightarrow> shr mod_rm 6 = 3"

definition opcode_extension :: "u8 \<Rightarrow> u8" where
  "opcode_extension mod_rm = shr mod_rm 3 AND 7"

lemma rex_3_operand:
  assumes "\<not> bit rex 0" and "base AND 7 = 0"
  shows "rm_operand (rex_3 rex) ((shr mod_rm 3 AND 0x7) OR base) = reg_operand rex mod_rm"
proof (rule word8_eqI)
  have b: "\<not> bit base n" if "n < 3" for n
  proof -
    have "bit (base AND 7) n = False" using assms(2) by simp
    moreover have "bit (7 :: u8) n" using that by (auto simp: numeral_eq_Suc less_Suc_eq)
    ultimately show ?thesis by (simp add: bit_and_iff)
  qed
  show "\<forall>n<8. bit (rm_operand (rex_3 rex) ((shr mod_rm 3 AND 7) OR base)) n
      = bit (reg_operand rex mod_rm) n"
    unfolding rm_operand_def reg_operand_def rex_3_def each_bit
    using assms(1) b [of 0] b [of 1] b [of 2] by (simp add: bit_eval)
qed

lemma mod_rm_base:
  assumes "base \<in> {0xc0, 0xe8, 0xf8}"
  shows "shr ((x AND 7) OR base) 6 = (3 :: u8)"
    and "shr ((x AND 7) OR base) 3 AND 7 = shr base 3 AND (7 :: u8)"
proof -
  have "shr ((x AND 7) OR b) 6 = (3 :: u8) \<and> shr ((x AND 7) OR b) 3 AND 7 = shr b 3 AND (7 :: u8)"
    if "b = 0xc0 \<or> b = 0xe8 \<or> b = 0xf8" for b :: u8
    using that by (elim disjE; hypsubst; intro conjI word8_eqI; unfold each_bit; simp add: bit_eval)
  with assms show "shr ((x AND 7) OR base) 6 = (3 :: u8)"
    "shr ((x AND 7) OR base) 3 AND 7 = shr base 3 AND (7 :: u8)" by auto
qed

text \<open>The result of the relaxations of an instruction with a \<^verbatim>\<open>REX\<close> prefix.\<close>

fun rex_relaxation :: "x86_relaxation \<Rightarrow> (u8 \<times> u8) option" where
  "rex_relaxation (RexMovIndirectToAbsolute n) = (if n = 3 then Some (0xc7, 0xc0) else None)"
| "rex_relaxation (RexAddIndirectToAbsolute n) = (if n = 3 then Some (0x81, 0xc0) else None)"
| "rex_relaxation (RexSubIndirectToAbsolute n) = (if n = 3 then Some (0x81, 0xe8) else None)"
| "rex_relaxation (RexCmpIndirectToAbsolute n) = (if n = 3 then Some (0x81, 0xf8) else None)"
| "rex_relaxation _ = None"

lemma rex_relaxation_apply:
  "rex_relaxation k = Some (opc, base) \<Longrightarrow>
   x86_apply k (buf, off, add) = do {
     rex \<leftarrow> get_at buf (at off - 3);
     a \<leftarrow> put_at buf (at off - 3) [rex_3 rex];
     b \<leftarrow> put_at a (at off - 2) [opc];
     mod_rm \<leftarrow> get_at b (at off - 1);
     c \<leftarrow> put_at b (at off - 1) [(shr mod_rm 3 AND 0x7) OR base];
     Some (c, off, 0) }"
  by (cases k) (simp_all add: patch_rex_def patch_add_prefix_def patch_mod_rm_def split: if_splits)

lemma rex_relaxation_bytes:
  assumes k: "rex_relaxation k = Some (opc, base)"
    and ap: "x86_apply k (buf, off, add) = Some (buf', off', add')"
  obtains rex mod_rm where
    "get_at buf (at off - 3) = Some rex" "get_at buf (at off - 1) = Some mod_rm"
    "get_at buf' (at off - 3) = Some (rex_3 rex)" "get_at buf' (at off - 2) = Some opc"
    "get_at buf' (at off - 1) = Some ((shr mod_rm 3 AND 0x7) OR base)"
    "off' = off" "add' = 0"
proof -
  obtain rex a b mod_rm where *: "get_at buf (at off - 3) = Some rex"
      "put_at buf (at off - 3) [rex_3 rex] = Some a" "put_at a (at off - 2) [opc] = Some b"
      "get_at b (at off - 1) = Some mod_rm"
      "put_at b (at off - 1) [(shr mod_rm 3 AND 0x7) OR base] = Some buf'" "off' = off" "add' = 0"
    using ap unfolding rex_relaxation_apply [OF k] by (auto simp: bind_eq_Some_conv)
  show ?thesis
    by (rule that [of rex mod_rm])
      (use * in \<open>simp_all add: get_at_put_at [OF *(2)] get_at_put_at [OF *(3)]
         get_at_put_at [OF *(5)]\<close>)
qed

section \<open>The table\<close>

datatype x86_reloc =
    R_X86_64_64 | R_X86_64_PC32 | R_X86_64_PC64 | R_X86_64_GOT32 | R_X86_64_GOT64
  | R_X86_64_GOTOFF64 | R_X86_64_PLT32 | R_X86_64_PLTOFF64 | R_X86_64_GOTPCREL
  | R_X86_64_GOTPC64 | R_X86_64_GOTPC32 | R_X86_64_32 | R_X86_64_32S | R_X86_64_16
  | R_X86_64_PC16 | R_X86_64_8 | R_X86_64_PC8 | R_X86_64_TLSGD | R_X86_64_TLSLD
  | R_X86_64_DTPOFF32 | R_X86_64_DTPOFF64 | R_X86_64_GOTTPOFF | R_X86_64_CODE_4_GOTTPOFF
  | R_X86_64_CODE_5_GOTTPOFF | R_X86_64_CODE_6_GOTTPOFF | R_X86_64_GOTPCRELX
  | R_X86_64_REX_GOTPCRELX | R_X86_64_CODE_4_GOTPCRELX | R_X86_64_CODE_5_GOTPCRELX
  | R_X86_64_CODE_6_GOTPCRELX | R_X86_64_TPOFF32 | R_X86_64_GOTPC32_TLSDESC
  | R_X86_64_CODE_4_GOTPC32_TLSDESC | R_X86_64_CODE_5_GOTPC32_TLSDESC
  | R_X86_64_CODE_6_GOTPC32_TLSDESC | R_X86_64_TLSDESC_CALL | R_X86_64_NONE
  | X86_Unknown u32

type_synonym reloc_size_and_range = "relocation_size \<times> allowed_range"

text \<open>\<^verbatim>\<open>from_byte_size\<close> is evaluated at compile time.\<close>

definition RELOC_8_BYTE_UNSIGNED :: reloc_size_and_range where
  "RELOC_8_BYTE_UNSIGNED = (ByteSize 8, the (from_byte_size 8 Unsigned))"
definition RELOC_8_BYTE_SIGNED :: reloc_size_and_range where
  "RELOC_8_BYTE_SIGNED = (ByteSize 8, the (from_byte_size 8 Signed))"
definition RELOC_4_BYTE_UNSIGNED :: reloc_size_and_range where
  "RELOC_4_BYTE_UNSIGNED = (ByteSize 4, the (from_byte_size 4 Unsigned))"
definition RELOC_4_BYTE_SIGNED :: reloc_size_and_range where
  "RELOC_4_BYTE_SIGNED = (ByteSize 4, the (from_byte_size 4 Signed))"
definition RELOC_2_BYTE_SIGNED :: reloc_size_and_range where
  "RELOC_2_BYTE_SIGNED = (ByteSize 2, the (from_byte_size 2 Signed))"
definition RELOC_1_BYTE_SIGNED :: reloc_size_and_range where
  "RELOC_1_BYTE_SIGNED = (ByteSize 1, the (from_byte_size 1 Signed))"
definition RELOC_2_BYTE_MIXED :: reloc_size_and_range where
  "RELOC_2_BYTE_MIXED = (ByteSize 2, range_new (- (2 ^ 15)) (2 ^ 16 - 1 + 1))"
definition RELOC_1_BYTE_MIXED :: reloc_size_and_range where
  "RELOC_1_BYTE_MIXED = (ByteSize 1, range_new (- (2 ^ 7)) (2 ^ 8 - 1 + 1))"
definition RELOC_NONE :: reloc_size_and_range where
  "RELOC_NONE = (ByteSize 0, no_check)"

lemmas reloc_consts =
  RELOC_8_BYTE_UNSIGNED_def RELOC_8_BYTE_SIGNED_def RELOC_4_BYTE_UNSIGNED_def
  RELOC_4_BYTE_SIGNED_def RELOC_2_BYTE_SIGNED_def RELOC_1_BYTE_SIGNED_def
  RELOC_2_BYTE_MIXED_def RELOC_1_BYTE_MIXED_def RELOC_NONE_def

fun x86_row :: "x86_reloc \<Rightarrow> (x86_reloc relocation_kind \<times> reloc_size_and_range) option" where
  "x86_row R_X86_64_64 = Some (Absolute, RELOC_8_BYTE_UNSIGNED)"
| "x86_row R_X86_64_PC32 = Some (Relative, RELOC_4_BYTE_SIGNED)"
| "x86_row R_X86_64_PC64 = Some (Relative, RELOC_8_BYTE_SIGNED)"
| "x86_row R_X86_64_GOT32 = Some (GotRelGotBase, RELOC_4_BYTE_UNSIGNED)"
| "x86_row R_X86_64_GOT64 = Some (GotRelGotBase, RELOC_8_BYTE_UNSIGNED)"
| "x86_row R_X86_64_GOTOFF64 = Some (SymRelGotBase, RELOC_8_BYTE_SIGNED)"
| "x86_row R_X86_64_PLT32 = Some (PltRelative, RELOC_4_BYTE_SIGNED)"
| "x86_row R_X86_64_PLTOFF64 = Some (PltRelGotBase, RELOC_8_BYTE_SIGNED)"
| "x86_row R_X86_64_GOTPCREL = Some (GotRelative, RELOC_4_BYTE_SIGNED)"
| "x86_row R_X86_64_GOTPC64 = Some (Relative, RELOC_8_BYTE_SIGNED)"
| "x86_row R_X86_64_GOTPC32 = Some (Relative, RELOC_4_BYTE_SIGNED)"
| "x86_row R_X86_64_32 = Some (Absolute, RELOC_4_BYTE_UNSIGNED)"
| "x86_row R_X86_64_32S = Some (Absolute, RELOC_4_BYTE_SIGNED)"
| "x86_row R_X86_64_16 = Some (Absolute, RELOC_2_BYTE_MIXED)"
| "x86_row R_X86_64_PC16 = Some (Relative, RELOC_2_BYTE_SIGNED)"
| "x86_row R_X86_64_8 = Some (Absolute, RELOC_1_BYTE_MIXED)"
| "x86_row R_X86_64_PC8 = Some (Relative, RELOC_1_BYTE_SIGNED)"
| "x86_row R_X86_64_TLSGD = Some (TlsGd, RELOC_4_BYTE_SIGNED)"
| "x86_row R_X86_64_TLSLD = Some (TlsLd, RELOC_4_BYTE_SIGNED)"
| "x86_row R_X86_64_DTPOFF32 = Some (DtpOff, RELOC_4_BYTE_SIGNED)"
| "x86_row R_X86_64_DTPOFF64 = Some (DtpOff, RELOC_8_BYTE_SIGNED)"
| "x86_row R_X86_64_GOTTPOFF = Some (GotTpOff, RELOC_4_BYTE_SIGNED)"
| "x86_row R_X86_64_CODE_4_GOTTPOFF = Some (GotTpOff, RELOC_4_BYTE_SIGNED)"
| "x86_row R_X86_64_CODE_5_GOTTPOFF = Some (GotTpOff, RELOC_4_BYTE_SIGNED)"
| "x86_row R_X86_64_CODE_6_GOTTPOFF = Some (GotTpOff, RELOC_4_BYTE_SIGNED)"
| "x86_row R_X86_64_GOTPCRELX = Some (GotRelative, RELOC_4_BYTE_SIGNED)"
| "x86_row R_X86_64_REX_GOTPCRELX = Some (GotRelative, RELOC_4_BYTE_SIGNED)"
| "x86_row R_X86_64_CODE_4_GOTPCRELX = Some (GotRelative, RELOC_4_BYTE_SIGNED)"
| "x86_row R_X86_64_CODE_5_GOTPCRELX = Some (GotRelative, RELOC_4_BYTE_SIGNED)"
| "x86_row R_X86_64_CODE_6_GOTPCRELX = Some (GotRelative, RELOC_4_BYTE_SIGNED)"
| "x86_row R_X86_64_TPOFF32 = Some (TpOff, RELOC_4_BYTE_SIGNED)"
| "x86_row R_X86_64_GOTPC32_TLSDESC = Some (TlsDesc, RELOC_4_BYTE_SIGNED)"
| "x86_row R_X86_64_CODE_4_GOTPC32_TLSDESC = Some (TlsDesc, RELOC_4_BYTE_SIGNED)"
| "x86_row R_X86_64_CODE_5_GOTPC32_TLSDESC = Some (TlsDesc, RELOC_4_BYTE_SIGNED)"
| "x86_row R_X86_64_CODE_6_GOTPC32_TLSDESC = Some (TlsDesc, RELOC_4_BYTE_SIGNED)"
| "x86_row R_X86_64_TLSDESC_CALL = Some (TlsDescCall, RELOC_NONE)"
| "x86_row R_X86_64_NONE = Some (NoRelocation, RELOC_NONE)"
| "x86_row (X86_Unknown _) = None"

definition x86_relocation_from_raw :: "x86_reloc \<Rightarrow> x86_reloc relocation_kind_info option" where
  "x86_relocation_from_raw r =
     (case x86_row r of
        None \<Rightarrow> None
      | Some (k, sz, rng) \<Rightarrow>
          Some \<lparr>kind = k, rel_size = sz, page_mask = None, allowed = rng, rel_alignment = 1,
                bias = 0, thunkable = False\<rparr>)"

interpretation x86_table: relocation_table x86_relocation_from_raw "\<lambda>_. False"
proof unfold_locales
  fix r info
  assume "x86_relocation_from_raw r = Some info"
  then show "entry_ok info"
    by (cases r)
      (auto simp: x86_relocation_from_raw_def reloc_consts row_eval from_byte_size_def)
qed

lemma x86_entry:
  assumes "x86_relocation_from_raw r = Some info"
  shows "\<not> is_uleb_pair info"
    and "\<exists>n \<in> {0, 1, 2, 4, 8}. rel_size info = ByteSize n \<and> (allowed info = no_check \<longrightarrow> n = 0 \<or> n = 8)"
  using assms
  by (cases r;
      force simp: x86_relocation_from_raw_def reloc_consts is_uleb_pair_def from_byte_size_def
        from_bit_size_def range_new_def no_check_def i64_min_def)+

section \<open>Properties\<close>

text \<open>C4: An x86-64 relaxation keeps the length of the section and changes no byte outside the range
  that the diff tool assumes for it; no relaxation reaches further than 6 bytes before or 19 bytes
  after the offset of the relocation.\<close>

theorem x86_relaxation_window:
  assumes "x86_apply k (buf, off, add) = Some (buf', off', add')"
  shows "covered (x86_byte_range tlsdesc_call k) off buf buf'
    \<and> same_outside (at off - int X86_MAX_RELAX_MODIFY_BEFORE)
         (at off + int X86_MAX_RELAX_MODIFY_AFTER) buf buf'"
  using x86.window [OF assms] x86.max_window [OF assms] by blast

theorem x86_relaxation_window_witness:
  "covered (x86_byte_range False MovIndirectToLea) 3 [0x48, 0x8b, 0x05, 0, 0, 0, 0]
     [0x48, 0x8d, 0x05, 0, 0, 0, 0]
   \<and> same_outside (at 3 - int X86_MAX_RELAX_MODIFY_BEFORE) (at 3 + int X86_MAX_RELAX_MODIFY_AFTER)
       [0x48, 0x8b, 0x05, 0, 0, 0, 0] [0x48, 0x8d, 0x05, 0, 0, 0, 0]"
  by (rule x86_relaxation_window [where off' = 3 and add' = 0 and add = 0]) (simp add: put_at_def)

text \<open>Turning an indirect \<^verbatim>\<open>mov\<close>, \<^verbatim>\<open>add\<close>, \<^verbatim>\<open>sub\<close> or \<^verbatim>\<open>cmp\<close> with a \<^verbatim>\<open>REX\<close> prefix into its absolute form
  keeps the register: the new instruction addresses by register, its \<^verbatim>\<open>rm\<close> operand is the old \<^verbatim>\<open>reg\<close>
  operand, its opcode and opcode extension are those of the operation, and the addend becomes 0.
  The unused bit \<^verbatim>\<open>REX.B\<close> of the old prefix must be clear.\<close>

theorem x86_rex_relaxation_register:
  assumes "rex_relaxation k = Some (opc, base)"
    and "x86_apply k (buf, off, add) = Some (buf', off', add')"
    and "get_at buf (at off - 3) = Some rex" "get_at buf (at off - 1) = Some mod_rm"
    and "\<not> bit rex 0"
  shows "\<exists>rex' mod_rm'. get_at buf' (at off - 3) = Some rex' \<and> get_at buf' (at off - 1) = Some mod_rm'
    \<and> get_at buf' (at off - 2) = Some opc \<and> mode_register mod_rm'
    \<and> rm_operand rex' mod_rm' = reg_operand rex mod_rm
    \<and> opcode_extension mod_rm' = shr base 3 AND 7 \<and> off' = off \<and> add' = 0"
proof -
  obtain "get_at buf' (at off - 3) = Some (rex_3 rex)" "get_at buf' (at off - 2) = Some opc"
    "get_at buf' (at off - 1) = Some ((shr mod_rm 3 AND 0x7) OR base)" "off' = off" "add' = 0"
    using rex_relaxation_bytes [OF assms(1,2)] assms(3,4) by auto
  moreover have base: "base \<in> {0xc0, 0xe8, 0xf8}"
    using assms(1) by (cases k) (auto split: if_splits)
  moreover have "mode_register ((shr mod_rm 3 AND 0x7) OR base)"
    using mod_rm_base(1) [OF base] by (simp add: mode_register_def)
  moreover have "opcode_extension ((shr mod_rm 3 AND 0x7) OR base) = shr base 3 AND 7"
    using mod_rm_base(2) [OF base] by (simp add: opcode_extension_def)
  moreover have "rm_operand (rex_3 rex) ((shr mod_rm 3 AND 0x7) OR base) = reg_operand rex mod_rm"
    using base assms(5) by (intro rex_3_operand) auto
  ultimately show ?thesis by blast
qed

theorem x86_rex_relaxation_register_witness:
  "\<exists>rex' mod_rm'. get_at [0x49, 0xc7, 0xc3, 0, 0, 0, 0 :: u8] (at 3 - 3) = Some rex'
    \<and> get_at [0x49, 0xc7, 0xc3, 0, 0, 0, 0 :: u8] (at 3 - 1) = Some mod_rm'
    \<and> get_at [0x49, 0xc7, 0xc3, 0, 0, 0, 0 :: u8] (at 3 - 2) = Some 0xc7 \<and> mode_register mod_rm'
    \<and> rm_operand rex' mod_rm' = reg_operand 0x4c 0x1d
    \<and> opcode_extension mod_rm' = shr 0xc0 3 AND 7 \<and> (3::u64) = 3 \<and> (0::u64) = 0"
  by (rule x86_rex_relaxation_register [where k = "RexMovIndirectToAbsolute 3"
        and buf = "[0x4c, 0x8b, 0x1d, 0, 0, 0, 0]" and add = 9])
    (simp_all add: patch_rex_def patch_mod_rm_def put_at_def get_at_def rex_3_def shr_def)

text \<open>No x86-64 relocation truncates silently. After a successful write, extending the written
  bytes with their sign or with zeros gives the full 64-bit value back.\<close>

theorem x86_write_recovers:
  assumes "x86_relocation_from_raw r = Some info" "write_to_buffer uleb info v out = Inr out'"
  shows "\<exists>n. rel_size info = ByteSize n \<and> n \<le> length out \<and> drop n out' = drop n out
    \<and> (0 < n \<longrightarrow> signed_take_bit (8 * n - 1) (of_le (take n out')) = v \<or> of_le (take n out') = v)"
proof -
  obtain n where n: "n \<in> {0, 1, 2, 4, 8}" "rel_size info = ByteSize n"
      and full: "allowed info = no_check \<longrightarrow> n = 0 \<or> n = 8"
    using x86_entry(2) [OF assms(1)] by blast
  have w: "write_bytes n v out = Inr out'"
    using assms(2) n(2) x86_entry(1) [OF assms(1)]
    by (cases rule: write_to_buffer_Inr_cases) auto
  then have len: "n \<le> length out" and out': "out' = to_le n v @ drop n out"
    by (auto simp: write_bytes_eq split: if_splits)
  have le: "(of_le (take n out') :: u64) = take_bit (8 * n) v"
    by (simp add: out' of_le_to_le)
  have ext: "signed_take_bit (8 * n - 1) (take_bit (8 * n) v) = signed_take_bit (8 * n - 1) v"
    if "0 < n" using that by (intro bit_word_eqI) (auto simp: bit_eval min_def)
  have "signed_take_bit (8 * n - 1) v = v \<or> take_bit (8 * n) v = v" if "0 < n"
  proof (cases "allowed info = no_check")
    case True
    with full that have "n = 8" by simp
    moreover have "take_bit 64 v = v" by (rule word64_eqI) (simp add: bit_eval)
    ultimately show ?thesis by simp
  next
    case False
    with x86_table.value_fits [OF assms(1) _ assms(2)] n(2) show ?thesis by (simp add: reach_def)
  qed
  with n(2) len out' le ext show ?thesis by auto
qed

theorem x86_write_recovers_witness:
  "\<exists>n. ByteSize 4 = ByteSize n \<and> n \<le> length [0, 0, 0, 0, 7 :: u8]
    \<and> drop n [0xf8, 0xff, 0xff, 0xff, 7] = drop n [0, 0, 0, 0, 7 :: u8]
    \<and> (signed_take_bit (8 * n - 1) (of_le (take n [0xf8, 0xff, 0xff, 0xff, 7])) = (-8 :: u64)
          \<or> of_le (take n [0xf8, 0xff, 0xff, 0xff, 7]) = (-8 :: u64))"
proof -
  have info: "x86_relocation_from_raw R_X86_64_PC32
      = Some \<lparr>kind = Relative, rel_size = ByteSize 4, page_mask = None,
              allowed = range_new (- (2 ^ 31)) (2 ^ 31), rel_alignment = 1, bias = 0,
              thunkable = False\<rparr>"
    by (simp add: x86_relocation_from_raw_def reloc_consts from_byte_size_def from_bit_size_def)
  show ?thesis
    using x86_write_recovers [OF info, of "\<lambda>_. []" "-8" "[0, 0, 0, 0, 7]"
        "[0xf8, 0xff, 0xff, 0xff, 7]"]
    by (simp add: write_to_buffer_def verify_def write_bytes_eq to_le_def upt_rec)
qed

end
