(* ===== verification/Reloc_AArch64.thy ===== *)
theory Reloc_AArch64
  imports Reloc_Table Relax_Site
begin

text \<open>
  The AArch64 relocation table and relaxations: \<^verbatim>\<open>relocation_type_from_raw\<close> and
  \<^verbatim>\<open>impl RelaxationKind\<close> of \<^verbatim>\<open>crates/reld-reloc/src/aarch64.rs\<close>.

  The relocation types are the \<^verbatim>\<open>R_AARCH64_*\<close> constants of the \<^verbatim>\<open>object\<close> crate; \<open>A64_Unknown\<close> is every
  other number. They are grouped as the comments of the \<^verbatim>\<open>match\<close> group them, with one function for
  the arms of a group.
\<close>

section \<open>Relocation types\<close>

text \<open>Miscellaneous and data relocations (5.7.4, 5.7.5).\<close>

datatype a64_data_reloc =
    R_AARCH64_NONE | R_AARCH64_ABS64 | R_AARCH64_ABS32 | R_AARCH64_ABS16 | R_AARCH64_PREL64
  | R_AARCH64_PREL32 | R_AARCH64_PREL16 | R_AARCH64_PLT32

text \<open>Static relocations (5.7.6): inline data and addresses.\<close>

datatype a64_static_reloc =
    R_AARCH64_MOVW_UABS_G0 | R_AARCH64_MOVW_UABS_G0_NC | R_AARCH64_MOVW_UABS_G1
  | R_AARCH64_MOVW_UABS_G1_NC | R_AARCH64_MOVW_UABS_G2 | R_AARCH64_MOVW_UABS_G2_NC
  | R_AARCH64_MOVW_UABS_G3 | R_AARCH64_MOVW_SABS_G0 | R_AARCH64_MOVW_SABS_G1
  | R_AARCH64_MOVW_SABS_G2 | R_AARCH64_LD_PREL_LO19 | R_AARCH64_ADR_PREL_LO21
  | R_AARCH64_ADR_PREL_PG_HI21 | R_AARCH64_ADR_PREL_PG_HI21_NC
  | R_AARCH64_ADD_ABS_LO12_NC | R_AARCH64_LDST8_ABS_LO12_NC
  | R_AARCH64_LDST16_ABS_LO12_NC | R_AARCH64_LDST32_ABS_LO12_NC
  | R_AARCH64_LDST64_ABS_LO12_NC | R_AARCH64_LDST128_ABS_LO12_NC

text \<open>Control flow and inline PC-relative offsets.\<close>

datatype a64_flow_reloc =
    R_AARCH64_TSTBR14 | R_AARCH64_CONDBR19 | R_AARCH64_JUMP26 | R_AARCH64_CALL26
  | R_AARCH64_MOVW_PREL_G0 | R_AARCH64_MOVW_PREL_G0_NC | R_AARCH64_MOVW_PREL_G1
  | R_AARCH64_MOVW_PREL_G1_NC | R_AARCH64_MOVW_PREL_G2 | R_AARCH64_MOVW_PREL_G2_NC
  | R_AARCH64_MOVW_PREL_G3

text \<open>GOT-relative relocations.\<close>

datatype a64_got_reloc =
    R_AARCH64_MOVW_GOTOFF_G0 | R_AARCH64_MOVW_GOTOFF_G0_NC | R_AARCH64_MOVW_GOTOFF_G1
  | R_AARCH64_MOVW_GOTOFF_G1_NC | R_AARCH64_MOVW_GOTOFF_G2 | R_AARCH64_MOVW_GOTOFF_G2_NC
  | R_AARCH64_MOVW_GOTOFF_G3 | R_AARCH64_GOTREL64 | R_AARCH64_GOTREL32
  | R_AARCH64_GOTPCREL32 | R_AARCH64_GOT_LD_PREL19 | R_AARCH64_LD64_GOTOFF_LO15
  | R_AARCH64_ADR_GOT_PAGE | R_AARCH64_LD64_GOT_LO12_NC | R_AARCH64_LD64_GOTPAGE_LO15

text \<open>General dynamic thread-local storage (5.7.11.1).\<close>

datatype a64_tlsgd_reloc =
    R_AARCH64_TLSGD_ADR_PREL21 | R_AARCH64_TLSGD_ADR_PAGE21 | R_AARCH64_TLSGD_ADD_LO12_NC
  | R_AARCH64_TLSGD_MOVW_G1 | R_AARCH64_TLSGD_MOVW_G0_NC

text \<open>Local dynamic thread-local storage (5.7.11.2).\<close>

datatype a64_tlsld_reloc =
    R_AARCH64_TLSLD_ADR_PREL21 | R_AARCH64_TLSLD_ADR_PAGE21 | R_AARCH64_TLSLD_ADD_LO12_NC
  | R_AARCH64_TLSLD_MOVW_G1 | R_AARCH64_TLSLD_MOVW_G0_NC | R_AARCH64_TLSLD_LD_PREL19
  | R_AARCH64_TLSLD_MOVW_DTPREL_G2 | R_AARCH64_TLSLD_MOVW_DTPREL_G1
  | R_AARCH64_TLSLD_MOVW_DTPREL_G1_NC | R_AARCH64_TLSLD_MOVW_DTPREL_G0
  | R_AARCH64_TLSLD_MOVW_DTPREL_G0_NC

datatype a64_dtprel_reloc =
    R_AARCH64_TLSLD_ADD_DTPREL_HI12 | R_AARCH64_TLSLD_ADD_DTPREL_LO12
  | R_AARCH64_TLSLD_ADD_DTPREL_LO12_NC | R_AARCH64_TLSLD_LDST8_DTPREL_LO12
  | R_AARCH64_TLSLD_LDST8_DTPREL_LO12_NC | R_AARCH64_TLSLD_LDST16_DTPREL_LO12
  | R_AARCH64_TLSLD_LDST16_DTPREL_LO12_NC | R_AARCH64_TLSLD_LDST32_DTPREL_LO12
  | R_AARCH64_TLSLD_LDST32_DTPREL_LO12_NC | R_AARCH64_TLSLD_LDST64_DTPREL_LO12
  | R_AARCH64_TLSLD_LDST64_DTPREL_LO12_NC | R_AARCH64_TLSLD_LDST128_DTPREL_LO12
  | R_AARCH64_TLSLD_LDST128_DTPREL_LO12_NC

text \<open>Initial exec thread-local storage (5.7.11.3).\<close>

datatype a64_tlsie_reloc =
    R_AARCH64_TLSIE_MOVW_GOTTPREL_G1 | R_AARCH64_TLSIE_MOVW_GOTTPREL_G0_NC
  | R_AARCH64_TLSIE_ADR_GOTTPREL_PAGE21 | R_AARCH64_TLSIE_LD64_GOTTPREL_LO12_NC
  | R_AARCH64_TLSIE_LD_GOTTPREL_PREL19

text \<open>Local exec thread-local storage (5.7.11.4).\<close>

datatype a64_tlsle_reloc =
    R_AARCH64_TLSLE_MOVW_TPREL_G2 | R_AARCH64_TLSLE_MOVW_TPREL_G1
  | R_AARCH64_TLSLE_MOVW_TPREL_G1_NC | R_AARCH64_TLSLE_MOVW_TPREL_G0
  | R_AARCH64_TLSLE_MOVW_TPREL_G0_NC | R_AARCH64_TLSLE_ADD_TPREL_HI12
  | R_AARCH64_TLSLE_ADD_TPREL_LO12 | R_AARCH64_TLSLE_ADD_TPREL_LO12_NC
  | R_AARCH64_TLSLE_LDST8_TPREL_LO12 | R_AARCH64_TLSLE_LDST8_TPREL_LO12_NC
  | R_AARCH64_TLSLE_LDST16_TPREL_LO12 | R_AARCH64_TLSLE_LDST16_TPREL_LO12_NC
  | R_AARCH64_TLSLE_LDST32_TPREL_LO12 | R_AARCH64_TLSLE_LDST32_TPREL_LO12_NC
  | R_AARCH64_TLSLE_LDST64_TPREL_LO12 | R_AARCH64_TLSLE_LDST64_TPREL_LO12_NC
  | R_AARCH64_TLSLE_LDST128_TPREL_LO12 | R_AARCH64_TLSLE_LDST128_TPREL_LO12_NC

text \<open>Thread-local storage descriptors (5.7.11.5) and the call marker.\<close>

datatype a64_tlsdesc_reloc =
    R_AARCH64_TLSDESC_LD_PREL19 | R_AARCH64_TLSDESC_ADR_PREL21
  | R_AARCH64_TLSDESC_ADR_PAGE21 | R_AARCH64_TLSDESC_LD64_LO12
  | R_AARCH64_TLSDESC_ADD_LO12 | R_AARCH64_TLSDESC_OFF_G1 | R_AARCH64_TLSDESC_OFF_G0_NC
  | R_AARCH64_TLSDESC_CALL

datatype a64_reloc =
    A64_Data a64_data_reloc
  | A64_Static a64_static_reloc
  | A64_Flow a64_flow_reloc
  | A64_Got a64_got_reloc
  | A64_TlsGd a64_tlsgd_reloc
  | A64_TlsLd a64_tlsld_reloc
  | A64_DtpRel a64_dtprel_reloc
  | A64_TlsIe a64_tlsie_reloc
  | A64_TlsLe a64_tlsle_reloc
  | A64_TlsDesc a64_tlsdesc_reloc
  | A64_Unknown u32

type_synonym a64_row =
  "a64_reloc relocation_kind \<times> relocation_size \<times> page_mask option \<times> allowed_range \<times> nat"

section \<open>The table\<close>

fun a64_data_row :: "a64_data_reloc \<Rightarrow> a64_row" where
  "a64_data_row R_AARCH64_NONE = (NoRelocation, ByteSize 0, None, no_check, 1)"
| "a64_data_row R_AARCH64_ABS64 = (Absolute, ByteSize 8, None, no_check, 1)"
| "a64_data_row R_AARCH64_ABS32 =
     (Absolute, ByteSize 4, None, range_new (- (2 ^ 31)) (2 ^ 32), 1)"
| "a64_data_row R_AARCH64_ABS16 =
     (Absolute, ByteSize 2, None, range_new (- (2 ^ 15)) (2 ^ 16), 1)"
| "a64_data_row R_AARCH64_PREL64 = (Relative, ByteSize 8, None, no_check, 1)"
| "a64_data_row R_AARCH64_PREL32 =
     (Relative, ByteSize 4, None, range_new (- (2 ^ 31)) (2 ^ 32), 1)"
| "a64_data_row R_AARCH64_PREL16 =
     (Relative, ByteSize 2, None, range_new (- (2 ^ 15)) (2 ^ 16), 1)"
| "a64_data_row R_AARCH64_PLT32 = (PltRelative, ByteSize 4, None, const_range 32 Signed, 1)"

fun a64_static_row :: "a64_static_reloc \<Rightarrow> a64_row" where
  "a64_static_row R_AARCH64_MOVW_UABS_G0 =
     (Absolute, bit_mask_aarch64 0 16 Movkz, None, const_range 16 Unsigned, 1)"
| "a64_static_row R_AARCH64_MOVW_UABS_G0_NC =
     (Absolute, bit_mask_aarch64 0 16 Movkz, None, no_check, 1)"
| "a64_static_row R_AARCH64_MOVW_UABS_G1 =
     (Absolute, bit_mask_aarch64 16 32 Movkz, None, const_range 32 Unsigned, 1)"
| "a64_static_row R_AARCH64_MOVW_UABS_G1_NC =
     (Absolute, bit_mask_aarch64 16 32 Movkz, None, no_check, 1)"
| "a64_static_row R_AARCH64_MOVW_UABS_G2 =
     (Absolute, bit_mask_aarch64 32 48 Movkz, None, const_range 48 Unsigned, 1)"
| "a64_static_row R_AARCH64_MOVW_UABS_G2_NC =
     (Absolute, bit_mask_aarch64 32 48 Movkz, None, no_check, 1)"
| "a64_static_row R_AARCH64_MOVW_UABS_G3 =
     (Absolute, bit_mask_aarch64 48 64 Movkz, None, no_check, 1)"
| "a64_static_row R_AARCH64_MOVW_SABS_G0 =
     (Absolute, bit_mask_aarch64 0 16 Movnz, None, const_range 17 Signed, 1)"
| "a64_static_row R_AARCH64_MOVW_SABS_G1 =
     (Absolute, bit_mask_aarch64 16 32 Movnz, None, const_range 33 Signed, 1)"
| "a64_static_row R_AARCH64_MOVW_SABS_G2 =
     (Absolute, bit_mask_aarch64 32 48 Movnz, None, const_range 49 Signed, 1)"
| "a64_static_row R_AARCH64_LD_PREL_LO19 =
     (Relative, bit_mask_aarch64 2 21 Ldr, None, const_range 21 Signed, 4)"
| "a64_static_row R_AARCH64_ADR_PREL_LO21 =
     (Relative, bit_mask_aarch64 0 21 Adr, None, const_range 21 Signed, 1)"
| "a64_static_row R_AARCH64_ADR_PREL_PG_HI21 =
     (Relative, bit_mask_aarch64 12 33 Adr, Some (SymbolPlusAddendAndPosition PAGE_MASK_4KB), const_range 33 Signed, 1)"
| "a64_static_row R_AARCH64_ADR_PREL_PG_HI21_NC =
     (Relative, bit_mask_aarch64 12 33 Adr, Some (SymbolPlusAddendAndPosition PAGE_MASK_4KB), no_check, 1)"
| "a64_static_row R_AARCH64_ADD_ABS_LO12_NC =
     (AbsoluteLowPart, bit_mask_aarch64 0 12 Add, None, no_check, 1)"
| "a64_static_row R_AARCH64_LDST8_ABS_LO12_NC =
     (AbsoluteLowPart, bit_mask_aarch64 0 12 LdSt, None, no_check, 1)"
| "a64_static_row R_AARCH64_LDST16_ABS_LO12_NC =
     (AbsoluteLowPart, bit_mask_aarch64 1 12 LdSt, None, no_check, 2)"
| "a64_static_row R_AARCH64_LDST32_ABS_LO12_NC =
     (AbsoluteLowPart, bit_mask_aarch64 2 12 LdSt, None, no_check, 4)"
| "a64_static_row R_AARCH64_LDST64_ABS_LO12_NC =
     (AbsoluteLowPart, bit_mask_aarch64 3 12 LdSt, None, no_check, 8)"
| "a64_static_row R_AARCH64_LDST128_ABS_LO12_NC =
     (AbsoluteLowPart, bit_mask_aarch64 4 12 LdSt, None, no_check, 16)"

fun a64_flow_row :: "a64_flow_reloc \<Rightarrow> a64_row" where
  "a64_flow_row R_AARCH64_TSTBR14 =
     (Relative, bit_mask_aarch64 2 16 TstBr, None, const_range 16 Signed, 4)"
| "a64_flow_row R_AARCH64_CONDBR19 =
     (Relative, bit_mask_aarch64 2 21 Bcond, None, const_range 21 Signed, 4)"
| "a64_flow_row R_AARCH64_JUMP26 =
     (PltRelative, bit_mask_aarch64 2 28 JumpCall, None, const_range 28 Signed, 4)"
| "a64_flow_row R_AARCH64_CALL26 =
     (PltRelative, bit_mask_aarch64 2 28 JumpCall, None, const_range 28 Signed, 4)"
| "a64_flow_row R_AARCH64_MOVW_PREL_G0 =
     (Relative, bit_mask_aarch64 0 16 Movnz, None, no_check, 1)"
| "a64_flow_row R_AARCH64_MOVW_PREL_G0_NC =
     (Relative, bit_mask_aarch64 0 16 Movkz, None, no_check, 1)"
| "a64_flow_row R_AARCH64_MOVW_PREL_G1 =
     (Relative, bit_mask_aarch64 16 32 Movnz, None, no_check, 1)"
| "a64_flow_row R_AARCH64_MOVW_PREL_G1_NC =
     (Relative, bit_mask_aarch64 16 32 Movkz, None, no_check, 1)"
| "a64_flow_row R_AARCH64_MOVW_PREL_G2 =
     (Relative, bit_mask_aarch64 32 48 Movnz, None, no_check, 1)"
| "a64_flow_row R_AARCH64_MOVW_PREL_G2_NC =
     (Relative, bit_mask_aarch64 32 48 Movkz, None, no_check, 1)"
| "a64_flow_row R_AARCH64_MOVW_PREL_G3 =
     (Relative, bit_mask_aarch64 48 64 Movnz, None, no_check, 1)"

fun a64_got_row :: "a64_got_reloc \<Rightarrow> a64_row" where
  "a64_got_row R_AARCH64_MOVW_GOTOFF_G0 =
     (GotRelGotBase, bit_mask_aarch64 0 16 Movnz, None, no_check, 1)"
| "a64_got_row R_AARCH64_MOVW_GOTOFF_G0_NC =
     (GotRelGotBase, bit_mask_aarch64 0 16 Movkz, None, no_check, 1)"
| "a64_got_row R_AARCH64_MOVW_GOTOFF_G1 =
     (GotRelGotBase, bit_mask_aarch64 16 32 Movnz, None, no_check, 1)"
| "a64_got_row R_AARCH64_MOVW_GOTOFF_G1_NC =
     (GotRelGotBase, bit_mask_aarch64 16 32 Movkz, None, no_check, 1)"
| "a64_got_row R_AARCH64_MOVW_GOTOFF_G2 =
     (GotRelGotBase, bit_mask_aarch64 32 48 Movnz, None, no_check, 1)"
| "a64_got_row R_AARCH64_MOVW_GOTOFF_G2_NC =
     (GotRelGotBase, bit_mask_aarch64 32 48 Movkz, None, no_check, 1)"
| "a64_got_row R_AARCH64_MOVW_GOTOFF_G3 =
     (GotRelGotBase, bit_mask_aarch64 48 64 Movnz, None, no_check, 1)"
| "a64_got_row R_AARCH64_GOTREL64 = (SymRelGotBase, ByteSize 4, None, no_check, 1)"
| "a64_got_row R_AARCH64_GOTREL32 = (SymRelGotBase, ByteSize 8, None, const_range 32 Signed, 1)"
| "a64_got_row R_AARCH64_GOTPCREL32 = (GotRelative, ByteSize 4, None, const_range 32 Signed, 1)"
| "a64_got_row R_AARCH64_GOT_LD_PREL19 =
     (GotRelative, bit_mask_aarch64 2 21 LdSt, None, const_range 21 Signed, 4)"
| "a64_got_row R_AARCH64_LD64_GOTOFF_LO15 =
     (GotRelGotBase, bit_mask_aarch64 3 15 LdSt, None, const_range 15 Unsigned, 8)"
| "a64_got_row R_AARCH64_ADR_GOT_PAGE =
     (GotRelative, bit_mask_aarch64 12 33 Adr, Some (GotEntryAndPosition PAGE_MASK_4KB), const_range 33 Signed, 1)"
| "a64_got_row R_AARCH64_LD64_GOT_LO12_NC = (Got, bit_mask_aarch64 3 12 LdSt, None, no_check, 8)"
| "a64_got_row R_AARCH64_LD64_GOTPAGE_LO15 =
     (GotRelGotBase, bit_mask_aarch64 3 15 LdSt, Some (GotBase PAGE_MASK_4KB), const_range 15 Unsigned, 8)"

fun a64_tlsgd_row :: "a64_tlsgd_reloc \<Rightarrow> a64_row" where
  "a64_tlsgd_row R_AARCH64_TLSGD_ADR_PREL21 =
     (TlsGd, bit_mask_aarch64 0 21 Adr, None, const_range 21 Signed, 1)"
| "a64_tlsgd_row R_AARCH64_TLSGD_ADR_PAGE21 =
     (TlsGd, bit_mask_aarch64 12 33 Adr, Some (GotEntryAndPosition PAGE_MASK_4KB), const_range 33 Signed, 1)"
| "a64_tlsgd_row R_AARCH64_TLSGD_ADD_LO12_NC =
     (TlsGdGot, bit_mask_aarch64 0 12 Add, None, no_check, 1)"
| "a64_tlsgd_row R_AARCH64_TLSGD_MOVW_G1 =
     (TlsGdGotBase, bit_mask_aarch64 16 33 Movnz, None, no_check, 1)"
| "a64_tlsgd_row R_AARCH64_TLSGD_MOVW_G0_NC =
     (TlsGdGotBase, bit_mask_aarch64 0 16 Movkz, None, no_check, 1)"

fun a64_tlsld_row :: "a64_tlsld_reloc \<Rightarrow> a64_row" where
  "a64_tlsld_row R_AARCH64_TLSLD_ADR_PREL21 =
     (TlsLd, bit_mask_aarch64 0 21 Adr, None, const_range 21 Signed, 1)"
| "a64_tlsld_row R_AARCH64_TLSLD_ADR_PAGE21 =
     (TlsLd, bit_mask_aarch64 12 33 Adr, Some (GotEntryAndPosition PAGE_MASK_4KB), const_range 33 Signed, 1)"
| "a64_tlsld_row R_AARCH64_TLSLD_ADD_LO12_NC =
     (TlsLdGot, bit_mask_aarch64 0 12 Add, None, no_check, 1)"
| "a64_tlsld_row R_AARCH64_TLSLD_MOVW_G1 =
     (TlsLdGotBase, bit_mask_aarch64 16 32 Movnz, None, no_check, 1)"
| "a64_tlsld_row R_AARCH64_TLSLD_MOVW_G0_NC =
     (TlsLdGotBase, bit_mask_aarch64 0 16 Movkz, None, no_check, 1)"
| "a64_tlsld_row R_AARCH64_TLSLD_LD_PREL19 =
     (TlsLd, bit_mask_aarch64 0 21 Ldr, None, const_range 21 Signed, 1)"
| "a64_tlsld_row R_AARCH64_TLSLD_MOVW_DTPREL_G2 =
     (DtpOff, bit_mask_aarch64 32 48 Movnz, None, no_check, 1)"
| "a64_tlsld_row R_AARCH64_TLSLD_MOVW_DTPREL_G1 =
     (DtpOff, bit_mask_aarch64 16 32 Movnz, None, no_check, 1)"
| "a64_tlsld_row R_AARCH64_TLSLD_MOVW_DTPREL_G1_NC =
     (DtpOff, bit_mask_aarch64 16 32 Movkz, None, no_check, 1)"
| "a64_tlsld_row R_AARCH64_TLSLD_MOVW_DTPREL_G0 =
     (DtpOff, bit_mask_aarch64 0 16 Movnz, None, no_check, 1)"
| "a64_tlsld_row R_AARCH64_TLSLD_MOVW_DTPREL_G0_NC =
     (DtpOff, bit_mask_aarch64 0 16 Movkz, None, no_check, 1)"

fun a64_dtprel_row :: "a64_dtprel_reloc \<Rightarrow> a64_row" where
  "a64_dtprel_row R_AARCH64_TLSLD_ADD_DTPREL_HI12 =
     (DtpOff, bit_mask_aarch64 12 24 Add, None, const_range 24 Unsigned, 1)"
| "a64_dtprel_row R_AARCH64_TLSLD_ADD_DTPREL_LO12 =
     (DtpOff, bit_mask_aarch64 0 12 Add, None, const_range 12 Unsigned, 1)"
| "a64_dtprel_row R_AARCH64_TLSLD_ADD_DTPREL_LO12_NC =
     (DtpOff, bit_mask_aarch64 0 12 Add, None, no_check, 1)"
| "a64_dtprel_row R_AARCH64_TLSLD_LDST8_DTPREL_LO12 =
     (DtpOff, bit_mask_aarch64 0 12 LdSt, None, const_range 12 Unsigned, 1)"
| "a64_dtprel_row R_AARCH64_TLSLD_LDST8_DTPREL_LO12_NC =
     (DtpOff, bit_mask_aarch64 0 12 LdSt, None, no_check, 1)"
| "a64_dtprel_row R_AARCH64_TLSLD_LDST16_DTPREL_LO12 =
     (DtpOff, bit_mask_aarch64 1 12 LdSt, None, const_range 12 Unsigned, 2)"
| "a64_dtprel_row R_AARCH64_TLSLD_LDST16_DTPREL_LO12_NC =
     (DtpOff, bit_mask_aarch64 1 12 LdSt, None, no_check, 2)"
| "a64_dtprel_row R_AARCH64_TLSLD_LDST32_DTPREL_LO12 =
     (DtpOff, bit_mask_aarch64 2 12 LdSt, None, const_range 12 Unsigned, 4)"
| "a64_dtprel_row R_AARCH64_TLSLD_LDST32_DTPREL_LO12_NC =
     (DtpOff, bit_mask_aarch64 2 12 LdSt, None, no_check, 4)"
| "a64_dtprel_row R_AARCH64_TLSLD_LDST64_DTPREL_LO12 =
     (DtpOff, bit_mask_aarch64 3 12 LdSt, None, const_range 12 Unsigned, 8)"
| "a64_dtprel_row R_AARCH64_TLSLD_LDST64_DTPREL_LO12_NC =
     (DtpOff, bit_mask_aarch64 3 12 LdSt, None, no_check, 8)"
| "a64_dtprel_row R_AARCH64_TLSLD_LDST128_DTPREL_LO12 =
     (DtpOff, bit_mask_aarch64 4 12 LdSt, None, const_range 12 Unsigned, 16)"
| "a64_dtprel_row R_AARCH64_TLSLD_LDST128_DTPREL_LO12_NC =
     (DtpOff, bit_mask_aarch64 4 12 LdSt, None, no_check, 16)"

fun a64_tlsie_row :: "a64_tlsie_reloc \<Rightarrow> a64_row" where
  "a64_tlsie_row R_AARCH64_TLSIE_MOVW_GOTTPREL_G1 =
     (GotTpOffGotBase, bit_mask_aarch64 16 32 Movnz, None, no_check, 1)"
| "a64_tlsie_row R_AARCH64_TLSIE_MOVW_GOTTPREL_G0_NC =
     (GotTpOffGotBase, bit_mask_aarch64 0 16 Movkz, None, no_check, 1)"
| "a64_tlsie_row R_AARCH64_TLSIE_ADR_GOTTPREL_PAGE21 =
     (GotTpOff, bit_mask_aarch64 12 33 Adr, Some (GotEntryAndPosition PAGE_MASK_4KB), const_range 33 Signed, 1)"
| "a64_tlsie_row R_AARCH64_TLSIE_LD64_GOTTPREL_LO12_NC =
     (GotTpOffGot, bit_mask_aarch64 3 12 LdrRegister, None, no_check, 8)"
| "a64_tlsie_row R_AARCH64_TLSIE_LD_GOTTPREL_PREL19 =
     (GotTpOff, bit_mask_aarch64 2 21 Ldr, None, const_range 21 Signed, 4)"

fun a64_tlsle_row :: "a64_tlsle_reloc \<Rightarrow> a64_row" where
  "a64_tlsle_row R_AARCH64_TLSLE_MOVW_TPREL_G2 =
     (TpOff, bit_mask_aarch64 32 48 Movnz, None, no_check, 1)"
| "a64_tlsle_row R_AARCH64_TLSLE_MOVW_TPREL_G1 =
     (TpOff, bit_mask_aarch64 16 32 Movnz, None, no_check, 1)"
| "a64_tlsle_row R_AARCH64_TLSLE_MOVW_TPREL_G1_NC =
     (TpOff, bit_mask_aarch64 16 32 Movkz, None, no_check, 1)"
| "a64_tlsle_row R_AARCH64_TLSLE_MOVW_TPREL_G0 =
     (TpOff, bit_mask_aarch64 0 16 Movnz, None, no_check, 1)"
| "a64_tlsle_row R_AARCH64_TLSLE_MOVW_TPREL_G0_NC =
     (TpOff, bit_mask_aarch64 0 16 Movkz, None, no_check, 1)"
| "a64_tlsle_row R_AARCH64_TLSLE_ADD_TPREL_HI12 =
     (TpOff, bit_mask_aarch64 12 24 Add, None, const_range 24 Unsigned, 1)"
| "a64_tlsle_row R_AARCH64_TLSLE_ADD_TPREL_LO12 =
     (TpOff, bit_mask_aarch64 0 12 Add, None, const_range 12 Unsigned, 1)"
| "a64_tlsle_row R_AARCH64_TLSLE_ADD_TPREL_LO12_NC =
     (TpOff, bit_mask_aarch64 0 12 Add, None, no_check, 1)"
| "a64_tlsle_row R_AARCH64_TLSLE_LDST8_TPREL_LO12 =
     (TpOff, bit_mask_aarch64 0 12 LdSt, None, const_range 12 Unsigned, 1)"
| "a64_tlsle_row R_AARCH64_TLSLE_LDST8_TPREL_LO12_NC =
     (TpOff, bit_mask_aarch64 0 12 LdSt, None, no_check, 1)"
| "a64_tlsle_row R_AARCH64_TLSLE_LDST16_TPREL_LO12 =
     (TpOff, bit_mask_aarch64 1 12 LdSt, None, const_range 12 Unsigned, 2)"
| "a64_tlsle_row R_AARCH64_TLSLE_LDST16_TPREL_LO12_NC =
     (TpOff, bit_mask_aarch64 1 12 LdSt, None, no_check, 2)"
| "a64_tlsle_row R_AARCH64_TLSLE_LDST32_TPREL_LO12 =
     (TpOff, bit_mask_aarch64 2 12 LdSt, None, const_range 12 Unsigned, 4)"
| "a64_tlsle_row R_AARCH64_TLSLE_LDST32_TPREL_LO12_NC =
     (TpOff, bit_mask_aarch64 2 12 LdSt, None, no_check, 4)"
| "a64_tlsle_row R_AARCH64_TLSLE_LDST64_TPREL_LO12 =
     (TpOff, bit_mask_aarch64 3 12 LdSt, None, const_range 12 Unsigned, 8)"
| "a64_tlsle_row R_AARCH64_TLSLE_LDST64_TPREL_LO12_NC =
     (TpOff, bit_mask_aarch64 3 12 LdSt, None, no_check, 8)"
| "a64_tlsle_row R_AARCH64_TLSLE_LDST128_TPREL_LO12 =
     (TpOff, bit_mask_aarch64 4 12 LdSt, None, const_range 12 Unsigned, 16)"
| "a64_tlsle_row R_AARCH64_TLSLE_LDST128_TPREL_LO12_NC =
     (TpOff, bit_mask_aarch64 4 12 LdSt, None, no_check, 16)"

fun a64_tlsdesc_row :: "a64_tlsdesc_reloc \<Rightarrow> a64_row" where
  "a64_tlsdesc_row R_AARCH64_TLSDESC_LD_PREL19 =
     (TlsDesc, bit_mask_aarch64 2 21 Ldr, None, const_range 21 Signed, 4)"
| "a64_tlsdesc_row R_AARCH64_TLSDESC_ADR_PREL21 =
     (TlsDesc, bit_mask_aarch64 0 21 Adr, None, const_range 21 Signed, 1)"
| "a64_tlsdesc_row R_AARCH64_TLSDESC_ADR_PAGE21 =
     (TlsDesc, bit_mask_aarch64 12 33 Adr, Some (GotEntryAndPosition PAGE_MASK_4KB), const_range 33 Signed, 1)"
| "a64_tlsdesc_row R_AARCH64_TLSDESC_LD64_LO12 =
     (TlsDescGot, bit_mask_aarch64 3 12 LdrRegister, None, no_check, 8)"
| "a64_tlsdesc_row R_AARCH64_TLSDESC_ADD_LO12 =
     (TlsDescGot, bit_mask_aarch64 0 12 Add, None, no_check, 1)"
| "a64_tlsdesc_row R_AARCH64_TLSDESC_OFF_G1 =
     (TlsDescGotBase, bit_mask_aarch64 16 32 Movnz, None, const_range 33 Signed, 1)"
| "a64_tlsdesc_row R_AARCH64_TLSDESC_OFF_G0_NC =
     (TlsDescGotBase, bit_mask_aarch64 0 16 Movkz, None, no_check, 1)"
| "a64_tlsdesc_row R_AARCH64_TLSDESC_CALL = (TlsDescCall, ByteSize 0, None, no_check, 1)"

fun a64_row_of :: "a64_reloc \<Rightarrow> a64_row option" where
  "a64_row_of (A64_Data r) = Some (a64_data_row r)"
| "a64_row_of (A64_Static r) = Some (a64_static_row r)"
| "a64_row_of (A64_Flow r) = Some (a64_flow_row r)"
| "a64_row_of (A64_Got r) = Some (a64_got_row r)"
| "a64_row_of (A64_TlsGd r) = Some (a64_tlsgd_row r)"
| "a64_row_of (A64_TlsLd r) = Some (a64_tlsld_row r)"
| "a64_row_of (A64_DtpRel r) = Some (a64_dtprel_row r)"
| "a64_row_of (A64_TlsIe r) = Some (a64_tlsie_row r)"
| "a64_row_of (A64_TlsLe r) = Some (a64_tlsle_row r)"
| "a64_row_of (A64_TlsDesc r) = Some (a64_tlsdesc_row r)"
| "a64_row_of (A64_Unknown _) = None"

definition a64_info :: "a64_row \<Rightarrow> bool \<Rightarrow> a64_reloc relocation_kind_info" where
  "a64_info row t =
     (case row of (k, sz, pmask, rng, al) \<Rightarrow>
        \<lparr>kind = k, rel_size = sz, page_mask = pmask, allowed = rng, rel_alignment = al, bias = 0,
         thunkable = t\<rparr>)"

definition aarch64_relocation_type_from_raw :: "a64_reloc \<Rightarrow> a64_reloc relocation_kind_info option" where
  "aarch64_relocation_type_from_raw r =
     map_option (\<lambda>row. a64_info row
         (r = A64_Flow R_AARCH64_CALL26 \<or> r = A64_Flow R_AARCH64_JUMP26))
       (a64_row_of r)"

section \<open>Well-formedness of the table\<close>

text \<open>
  Two entries are irregular. \<^verbatim>\<open>R_AARCH64_GOT_LD_PREL19\<close> writes its 19 bits with the 12-bit format
  \<^verbatim>\<open>LdSt\<close>; \<^verbatim>\<open>R_AARCH64_TLSLD_LD_PREL19\<close> takes bits 0 to 21 of the value, without an alignment, where
  the format has 19.
\<close>

definition a64_irregular :: "a64_reloc \<Rightarrow> bool" where
  "a64_irregular r \<longleftrightarrow>
     r = A64_Got R_AARCH64_GOT_LD_PREL19 \<or> r = A64_TlsLd R_AARCH64_TLSLD_LD_PREL19"

abbreviation a64_row_ok :: "a64_row \<Rightarrow> bool" where
  "a64_row_ok row \<equiv> entry_ok (a64_info row False)"

lemmas a64_row_eval = row_eval a64_info_def

lemma a64_data_row_ok: "a64_row_ok (a64_data_row r)"
  by (cases r) (simp_all add: a64_row_eval)

lemma a64_static_row_ok: "a64_row_ok (a64_static_row r)"
  by (cases r) (simp_all add: a64_row_eval)

lemma a64_flow_row_ok: "a64_row_ok (a64_flow_row r)"
  by (cases r) (simp_all add: a64_row_eval)

lemma a64_got_row_ok: "r \<noteq> R_AARCH64_GOT_LD_PREL19 \<Longrightarrow> a64_row_ok (a64_got_row r)"
  by (cases r) (simp_all add: a64_row_eval)

lemma a64_tlsgd_row_ok: "a64_row_ok (a64_tlsgd_row r)"
  by (cases r) (simp_all add: a64_row_eval)

lemma a64_tlsld_row_ok: "r \<noteq> R_AARCH64_TLSLD_LD_PREL19 \<Longrightarrow> a64_row_ok (a64_tlsld_row r)"
  by (cases r) (simp_all add: a64_row_eval)

lemma a64_dtprel_row_ok: "a64_row_ok (a64_dtprel_row r)"
  by (cases r) (simp_all add: a64_row_eval)

lemma a64_tlsie_row_ok: "a64_row_ok (a64_tlsie_row r)"
  by (cases r) (simp_all add: a64_row_eval)

lemma a64_tlsle_row_ok: "a64_row_ok (a64_tlsle_row r)"
  by (cases r) (simp_all add: a64_row_eval)

lemma a64_tlsdesc_row_ok: "a64_row_ok (a64_tlsdesc_row r)"
  by (cases r) (simp_all add: a64_row_eval)

lemmas a64_rows_ok =
  a64_data_row_ok a64_static_row_ok a64_flow_row_ok a64_got_row_ok a64_tlsgd_row_ok
  a64_tlsld_row_ok a64_dtprel_row_ok a64_tlsie_row_ok a64_tlsle_row_ok a64_tlsdesc_row_ok

lemma a64_info_thunkable: "a64_row_ok row \<Longrightarrow> entry_ok (a64_info row t)"
  by (simp add: entry_ok_def a64_info_def split: prod.splits)

interpretation a64_table: relocation_table aarch64_relocation_type_from_raw a64_irregular
proof unfold_locales
  fix r info
  assume "aarch64_relocation_type_from_raw r = Some info" "\<not> a64_irregular r"
  then show "entry_ok info"
    by (cases r) (auto simp: aarch64_relocation_type_from_raw_def a64_irregular_def
        intro!: a64_info_thunkable a64_rows_ok)
qed

section \<open>Relaxations\<close>

datatype a64_relaxation =
    A64NoOp | A64ReplaceWithNop | MovzX0Lsl16 | MovkX0 | MovzXnLsl16 | MovkXn | AdrpToAdr
  | AdrpX0 | LdrX0 | AddToAdr | LdrToAdr

text \<open>\<^verbatim>\<open>section_bytes[i] &= mask\<close>.\<close>

definition and_byte :: "u8 list \<Rightarrow> int \<Rightarrow> u8 \<Rightarrow> u8 list option" where
  "and_byte buf i m = do { b \<leftarrow> get_at buf i; put_at buf i [b AND m] }"

definition word_at :: "u8 list \<Rightarrow> int \<Rightarrow> u64 option" where
  "word_at buf i = map_option ucast (Option.bind (window buf i 4) u32_from_slice)"

fun a64_apply :: "a64_relaxation \<Rightarrow> relax_site \<Rightarrow> relax_site option" where
  "a64_apply A64NoOp (buf, off, add) = Some (buf, off, add)"
| "a64_apply A64ReplaceWithNop (buf, off, add) = do {
     buf \<leftarrow> put_at buf (at off) [0x1f, 0x20, 0x03, 0xd5];
     Some (buf, off, add) }"
| "a64_apply MovzX0Lsl16 (buf, off, add) = do {
     buf \<leftarrow> put_at buf (at off) [0x0, 0x0, 0xa0, 0xd2];
     Some (buf, off, add) }"
| "a64_apply MovkX0 (buf, off, add) = do {
     buf \<leftarrow> put_at buf (at off) [0x0, 0x0, 0x80, 0xf2];
     Some (buf, off, add) }"
| "a64_apply MovzXnLsl16 (buf, off, add) = do {
     raw \<leftarrow> word_at buf (at off);
     let reg = ucast (extract_bit_range raw 0 5);
     buf \<leftarrow> put_at buf (at off) [reg, 0x0, 0xa0, 0xd2];
     Some (buf, off, add) }"
| "a64_apply MovkXn (buf, off, add) = do {
     raw \<leftarrow> word_at buf (at off);
     let dst_reg = ucast (extract_bit_range raw 0 5);
     buf \<leftarrow> put_at buf (at off) [dst_reg, 0x0, 0x80, 0xf2];
     Some (buf, off, add) }"
| "a64_apply AdrpToAdr (buf, off, add) = do {
     buf \<leftarrow> and_byte buf (at off + 3) (NOT 0x80);
     Some (buf, off, add) }"
| "a64_apply AddToAdr (buf, off, add) = do {
     buf \<leftarrow> and_byte buf (at off + 3) (NOT 0x89);
     Some (buf, off, add) }"
| "a64_apply LdrToAdr (buf, off, add) = do {
     buf \<leftarrow> and_byte buf (at off + 3) (NOT 0x89);
     Some (buf, off, add) }"
| "a64_apply AdrpX0 (buf, off, add) = do {
     buf \<leftarrow> put_at buf (at off) [0x0, 0x0, 0x0, 0x90];
     Some (buf, off, add) }"
| "a64_apply LdrX0 (buf, off, add) = do {
     buf \<leftarrow> put_at buf (at off) [0x0, 0x0, 0x40, 0xf9];
     Some (buf, off, add) }"

definition a64_next_modifier :: "a64_relaxation \<Rightarrow> relocation_modifier" where
  "a64_next_modifier k = Normal"

definition a64_byte_range :: "a64_relaxation \<Rightarrow> relaxation_byte_range" where
  "a64_byte_range k = \<lparr>offset_shift = 0, num_bytes = 4\<rparr>"

lemma and_byte_same_outside:
  "and_byte buf i m = Some buf' \<Longrightarrow> lo \<le> i \<Longrightarrow> i < hi \<Longrightarrow> same_outside lo hi buf buf'"
  by (auto simp: and_byte_def bind_eq_Some_conv intro: put_at_same_outside)

interpretation a64_relax: relaxer a64_apply a64_byte_range 0 4
proof unfold_locales
  fix k buf off add buf' off' add'
  assume "a64_apply k (buf, off, add) = Some (buf', off', add')"
  then show "covered (a64_byte_range k) off buf buf'"
    by (cases k) (auto simp: covered_def a64_byte_range_def Let_def bind_eq_Some_conv
        intro: put_at_same_outside and_byte_same_outside)
qed (simp_all add: a64_byte_range_def)

lemma and_byte_at:
  assumes "and_byte buf i m = Some buf'"
  shows "\<exists>b. get_at buf i = Some b \<and> get_at buf' i = Some (b AND m)"
    and "j \<noteq> i \<Longrightarrow> get_at buf' j = get_at buf j"
  using assms by (auto simp: and_byte_def bind_eq_Some_conv get_at_put_at)

text \<open>The destination register \<^verbatim>\<open>Rd\<close> is the low five bits of the first byte.\<close>

definition rd_of :: "u8 list \<Rightarrow> int \<Rightarrow> u8 option" where
  "rd_of buf i = map_option (\<lambda>b. b AND 0x1f) (get_at buf i)"

lemma word_at_rd:
  assumes "word_at buf i = Some raw"
  shows "rd_of buf i = Some (ucast (extract_bit_range raw 0 5))"
proof -
  have len: "0 \<le> i" "nat i + 4 \<le> length buf"
    and raw: "raw = ucast (of_le (take 4 (drop (nat i) buf)) :: u32)"
    using assms by (auto simp: word_at_def window_def u32_from_slice_def min_def bind_eq_Some_conv
        split: if_splits)
  have b: "take 4 (drop (nat i) buf) = buf ! nat i # tl (take 4 (drop (nat i) buf))"
    using len by (cases "take 4 (drop (nat i) buf)")
      (auto simp: nth_via_drop dest: arg_cong [where f = "\<lambda>xs. xs ! 0"])
  have "buf ! nat i AND 0x1f = ucast (extract_bit_range raw 0 5)"
    unfolding raw
    by (subst b, subst of_le_Cons, intro word8_eqI, unfold each_bit)
      (simp add: bit_eval range_ok_def bit_push_bit_iff)
  then show ?thesis
    using len by (simp add: rd_of_def get_at_def)
qed

text \<open>The relaxations that build on the instruction they replace.\<close>

definition keeps_rd :: "a64_relaxation \<Rightarrow> bool" where
  "keeps_rd k \<longleftrightarrow> k \<in> {A64NoOp, MovzXnLsl16, MovkXn, AdrpToAdr, AddToAdr, LdrToAdr}"

section \<open>Properties\<close>

text \<open>Applying an AArch64 relocation of a bit-masked kind changes only bits of the immediate
  field of its instruction, for every relocation type of the table but the two irregular ones.\<close>

theorem aarch64_relocation_confined:
  assumes "aarch64_relocation_type_from_raw r = Some info" "\<not> a64_irregular r"
    and "write_to_buffer uleb info v out = Inr out'"
    and "\<not> is_uleb_pair info" "rel_size info = BitMasking m"
    and "n < 8 * length out" "\<not> bit (insn_field (instruction m)) n"
  shows "buf_bit out' n = buf_bit out n"
  by (rule a64_table.write_confined [OF assms])

definition a64_condbr19 :: "a64_reloc relocation_kind_info" where
  "a64_condbr19 = \<lparr>kind = Relative, rel_size = bit_mask_aarch64 2 21 Bcond, page_mask = None,
     allowed = range_new (- (2 ^ 20)) (2 ^ 20), rel_alignment = 4, bias = 0, thunkable = False\<rparr>"

lemma a64_condbr19_entry:
  "aarch64_relocation_type_from_raw (A64_Flow R_AARCH64_CONDBR19) = Some a64_condbr19"
  by (simp add: aarch64_relocation_type_from_raw_def a64_info_def a64_condbr19_def from_bit_size_def)

lemma a64_condbr19_run:
  "write_to_buffer (\<lambda>_. []) a64_condbr19 8 [0, 0, 0, 0x54] = Inr [0x40, 0, 0, 0x54]"
  by (simp add: write_to_buffer_def verify_def a64_condbr19_def bit_mask_defs write_bit_mask_def
      extract_bit_range_def shr_def shl_def to_le_def upt_rec)

theorem aarch64_relocation_confined_witness:
  "buf_bit [0x40, 0, 0, 0x54] 31 = buf_bit [0, 0, 0, 0x54] 31"
  by (rule aarch64_relocation_confined [OF a64_condbr19_entry _ a64_condbr19_run,
        where m = "bit_mask_new (AArch64 Bcond) 2 21"])
    (simp_all add: a64_irregular_def a64_condbr19_def is_uleb_pair_def bit_mask_defs bit_eval)

text \<open>An AArch64 relocation whose range is checked represents the value it accepts: the value is
  the sign or zero extension of the low bits that the relocation and its group reach, and the low
  bits it leaves out are zero.\<close>

theorem aarch64_checked_value:
  assumes "aarch64_relocation_type_from_raw r = Some info" "\<not> a64_irregular r"
    and "write_to_buffer uleb info v out = Inr out'"
  shows "(allowed info \<noteq> no_check \<longrightarrow>
      signed_take_bit (reach (rel_size info) - 1) v = v \<or> take_bit (reach (rel_size info)) v = v)
    \<and> (dropped (rel_size info) < 12 \<longrightarrow> take_bit (dropped (rel_size info)) v = 0)"
  using a64_table.value_fits [OF assms] a64_table.dropped_zero [OF assms] by blast

theorem aarch64_checked_value_witness:
  "(signed_take_bit (reach (rel_size a64_condbr19) - 1) 8 = (8 :: u64)
      \<or> take_bit (reach (rel_size a64_condbr19)) 8 = (8 :: u64))
    \<and> take_bit (dropped (rel_size a64_condbr19)) 8 = (0 :: u64)"
proof -
  have "allowed a64_condbr19 \<noteq> no_check" "dropped (rel_size a64_condbr19) < 12"
    by (simp_all add: a64_condbr19_def bit_mask_defs no_check_def range_new_def i64_min_def
        dropped_def)
  with aarch64_checked_value [OF a64_condbr19_entry _ a64_condbr19_run] show ?thesis
    by (simp add: a64_irregular_def)
qed

text \<open>The two irregular entries damage their instruction. \<^verbatim>\<open>R_AARCH64_TLSLD_LD_PREL19\<close> does not
  scale its offset, so an offset in range spills into the opcode above the 19-bit field;
  \<^verbatim>\<open>R_AARCH64_GOT_LD_PREL19\<close> puts the offset into the field of another format, where
  \<^verbatim>\<open>R_AARCH64_LD_PREL_LO19\<close> writes the same offset correctly.\<close>

theorem aarch64_irregular_entries:
  "(\<exists>i1 i2 i3.
     aarch64_relocation_type_from_raw (A64_TlsLd R_AARCH64_TLSLD_LD_PREL19) = Some i1
     \<and> write_to_buffer uleb i1 0x80000 [0, 0, 0, 0x58] = Inr [0, 0, 0, 0x59]
     \<and> aarch64_relocation_type_from_raw (A64_Got R_AARCH64_GOT_LD_PREL19) = Some i2
     \<and> write_to_buffer uleb i2 8 [0, 0, 0, 0x58] = Inr [0, 8, 0, 0x58]
     \<and> aarch64_relocation_type_from_raw (A64_Static R_AARCH64_LD_PREL_LO19) = Some i3
     \<and> write_to_buffer uleb i3 8 [0, 0, 0, 0x58] = Inr [0x40, 0, 0, 0x58])"
  by (intro exI conjI;
      (simp only: aarch64_relocation_type_from_raw_def a64_row_of.simps option.simps)?;
      (rule refl)?;
      simp add: write_to_buffer_def verify_def a64_info_def bit_mask_defs write_bit_mask_def
        extract_bit_range_def shr_def shl_def to_le_def upt_rec from_bit_size_def)

text \<open>The sizes of the two GOT-relative data relocations are exchanged: the 64-bit one writes four
  bytes without a check, so two offsets that differ only above bit 31 give the same bytes, and the
  32-bit one overwrites the four bytes behind its field.\<close>

theorem aarch64_gotrel_sizes:
  assumes "8 \<le> length out"
  shows "\<exists>i64 i32.
     aarch64_relocation_type_from_raw (A64_Got R_AARCH64_GOTREL64) = Some i64
     \<and> write_to_buffer uleb i64 (2 ^ 32) out = write_to_buffer uleb i64 0 out
     \<and> aarch64_relocation_type_from_raw (A64_Got R_AARCH64_GOTREL32) = Some i32
     \<and> write_to_buffer uleb i32 1 out = Inr ([1, 0, 0, 0, 0, 0, 0, 0] @ drop 8 out)"
  using assms
  by (intro exI conjI;
      (simp only: aarch64_relocation_type_from_raw_def a64_row_of.simps option.simps)?;
      (rule refl)?;
      simp add: write_to_buffer_def verify_def a64_info_def write_bytes_eq
        to_le_def upt_rec from_bit_size_def no_check_def i64_min_def i64_max_def)

theorem aarch64_gotrel_sizes_witness:
  "\<exists>i64 i32.
     aarch64_relocation_type_from_raw (A64_Got R_AARCH64_GOTREL64) = Some i64
     \<and> write_to_buffer (\<lambda>_. []) i64 (2 ^ 32) (replicate 8 0xff) = write_to_buffer (\<lambda>_. []) i64 0 (replicate 8 0xff)
     \<and> aarch64_relocation_type_from_raw (A64_Got R_AARCH64_GOTREL32) = Some i32
     \<and> write_to_buffer (\<lambda>_. []) i32 1 (replicate 8 0xff)
         = Inr ([1, 0, 0, 0, 0, 0, 0, 0] @ drop 8 (replicate 8 0xff))"
  by (rule aarch64_gotrel_sizes) simp

text \<open>An AArch64 relaxation changes only the four bytes of its instruction, and the relaxations
  that derive the new instruction from the old one keep its destination register.\<close>

theorem aarch64_relaxation_keeps_rd:
  assumes "a64_apply k (buf, off, add) = Some (buf', off', add')"
  shows "same_outside (at off) (at off + 4) buf buf'
    \<and> (keeps_rd k \<longrightarrow> rd_of buf' (at off) = rd_of buf (at off)) \<and> off' = off \<and> add' = add"
proof (intro conjI impI)
  show "same_outside (at off) (at off + 4) buf buf'"
    using a64_relax.max_window [OF assms] by simp
  show "rd_of buf' (at off) = rd_of buf (at off)" if "keeps_rd k"
  proof (cases "k \<in> {MovzXnLsl16, MovkXn}")
    case True
    then obtain raw b2 b3 where "word_at buf (at off) = Some raw"
        "put_at buf (at off) [ucast (extract_bit_range raw 0 5), 0, b2, b3] = Some buf'"
      using assms by (auto simp: bind_eq_Some_conv Let_def)
    moreover have "(ucast (extract_bit_range raw 0 5) :: u8) AND 0x1f = ucast (extract_bit_range raw 0 5)"
      for raw
      by (intro word8_eqI, unfold each_bit, simp add: bit_eval range_ok_def)
    ultimately show ?thesis by (simp add: word_at_rd) (simp add: rd_of_def get_at_put_at)
  next
    case False
    with that have "k = A64NoOp \<or> (\<exists>m. and_byte buf (at off + 3) m = Some buf')"
      using assms by (auto simp: keeps_rd_def bind_eq_Some_conv)
    then show ?thesis
      using assms and_byte_at(2) [of buf "at off + 3" _ buf' "at off"] by (auto simp: rd_of_def)
  qed
  show "off' = off" "add' = add"
    using assms by (cases k; auto simp: bind_eq_Some_conv Let_def)+
qed

theorem aarch64_relaxation_keeps_rd_witness:
  "same_outside (at 0) (at 0 + 4) [0x03, 0, 0, 0x90] [0x03, 0, 0, 0x10]
    \<and> rd_of [0x03, 0, 0, 0x10] (at 0) = rd_of [0x03, 0, 0, 0x90] (at 0)"
proof -
  have "a64_apply AdrpToAdr ([0x03, 0, 0, 0x90], 0, 0) = Some ([0x03, 0, 0, 0x10], 0, 0)"
    by (simp add: and_byte_def get_at_def put_at_def)
  from aarch64_relaxation_keeps_rd [OF this] show ?thesis by (simp add: keeps_rd_def)
qed


end
