(* ===== verification/Reloc_RiscV.thy ===== *)
theory Reloc_RiscV
  imports Reloc_Table Relax_Site
begin

text \<open>
  The RISC-V relocation table and relaxations: \<^verbatim>\<open>relocation_type_from_raw\<close>, \<^verbatim>\<open>impl RelaxationKind\<close>
  and \<^verbatim>\<open>distance_fits_jal\<close> of \<^verbatim>\<open>crates/reld-reloc/src/riscv64.rs\<close>. The relocation types are the
  \<^verbatim>\<open>R_RISCV_*\<close> constants of the \<^verbatim>\<open>object\<close> crate in three groups, in the order of the \<^verbatim>\<open>match\<close>.
\<close>

section \<open>Relocation types\<close>

text \<open>Data and instruction relocations.\<close>

datatype riscv_insn_reloc =
    R_RISCV_NONE | R_RISCV_32 | R_RISCV_64 | R_RISCV_BRANCH | R_RISCV_JAL | R_RISCV_CALL
  | R_RISCV_CALL_PLT | R_RISCV_GOT_HI20 | R_RISCV_TLS_GOT_HI20 | R_RISCV_TLS_GD_HI20
  | R_RISCV_PCREL_HI20 | R_RISCV_PCREL_LO12_I | R_RISCV_PCREL_LO12_S | R_RISCV_HI20
  | R_RISCV_LO12_I | R_RISCV_LO12_S | R_RISCV_TPREL_HI20 | R_RISCV_TPREL_LO12_I
  | R_RISCV_TPREL_LO12_S

text \<open>Additions and subtractions in place.\<close>

datatype riscv_arith_reloc =
    R_RISCV_TPREL_ADD | R_RISCV_ADD8 | R_RISCV_ADD16 | R_RISCV_ADD32 | R_RISCV_ADD64
  | R_RISCV_SUB8 | R_RISCV_SUB16 | R_RISCV_SUB32 | R_RISCV_SUB64

text \<open>The compressed formats, fields set in place, ULEB128 pairs and the unsupported types.\<close>

datatype riscv_other_reloc =
    R_RISCV_GOT32_PCREL | R_RISCV_ALIGN | R_RISCV_RVC_BRANCH | R_RISCV_RVC_JUMP
  | R_RISCV_RELAX | R_RISCV_SUB6 | R_RISCV_SET6 | R_RISCV_SET8 | R_RISCV_SET16
  | R_RISCV_SET32 | R_RISCV_32_PCREL | R_RISCV_PLT32 | R_RISCV_SET_ULEB128
  | R_RISCV_SUB_ULEB128 | R_RISCV_TLSDESC_HI20 | R_RISCV_TLSDESC_LOAD_LO12
  | R_RISCV_TLSDESC_ADD_LO12 | R_RISCV_TLSDESC_CALL

datatype riscv_reloc =
    RV_Insn riscv_insn_reloc
  | RV_Arith riscv_arith_reloc
  | RV_Other riscv_other_reloc
  | RV_Unknown u32

type_synonym riscv_row =
  "riscv_reloc relocation_kind \<times> relocation_size \<times> page_mask option \<times> allowed_range \<times> nat"

section \<open>The table\<close>

fun riscv_insn_row :: "riscv_insn_reloc \<Rightarrow> riscv_row" where
  "riscv_insn_row R_RISCV_NONE = (NoRelocation, ByteSize 0, None, no_check, 1)"
| "riscv_insn_row R_RISCV_32 = (Absolute, ByteSize 4, None, range_new (- (2 ^ 31)) (2 ^ 32), 1)"
| "riscv_insn_row R_RISCV_64 = (Absolute, ByteSize 8, None, no_check, 1)"
| "riscv_insn_row R_RISCV_BRANCH =
     (Relative, bit_mask_riscv 0 32 BType, None, range_new (- (2 ^ 12)) (2 ^ 12 - 1), 2)"
| "riscv_insn_row R_RISCV_JAL =
     (Relative, bit_mask_riscv 0 32 JType, None, range_new (- (2 ^ 20)) (2 ^ 20 - 1), 2)"
| "riscv_insn_row R_RISCV_CALL =
     (PltRelative, bit_mask_riscv 0 64 UiType, None, range_new (- (2 ^ 31)) (2 ^ 32), 1)"
| "riscv_insn_row R_RISCV_CALL_PLT =
     (PltRelative, bit_mask_riscv 0 64 UiType, None, range_new (- (2 ^ 31)) (2 ^ 32), 1)"
| "riscv_insn_row R_RISCV_GOT_HI20 =
     (GotRelative, bit_mask_riscv 0 32 UType, None, range_new (- (2 ^ 31)) (2 ^ 32), 1)"
| "riscv_insn_row R_RISCV_TLS_GOT_HI20 =
     (GotTpOff, bit_mask_riscv 0 32 UType, None, range_new (- (2 ^ 31)) (2 ^ 32), 1)"
| "riscv_insn_row R_RISCV_TLS_GD_HI20 =
     (TlsGd, bit_mask_riscv 0 32 UType, None, range_new (- (2 ^ 31)) (2 ^ 32), 1)"
| "riscv_insn_row R_RISCV_PCREL_HI20 =
     (Relative, bit_mask_riscv 0 32 UType, None, range_new (- (2 ^ 31)) (2 ^ 32), 1)"
| "riscv_insn_row R_RISCV_PCREL_LO12_I =
     (RelativeRiscVLow12, bit_mask_riscv 0 32 IType, None, range_new (- (2 ^ 31)) (2 ^ 32), 1)"
| "riscv_insn_row R_RISCV_PCREL_LO12_S =
     (RelativeRiscVLow12, bit_mask_riscv 0 32 SType, None, range_new (- (2 ^ 31)) (2 ^ 32), 1)"
| "riscv_insn_row R_RISCV_HI20 =
     (Absolute, bit_mask_riscv 0 32 UType, None, range_new (- (2 ^ 31)) (2 ^ 32), 1)"
| "riscv_insn_row R_RISCV_LO12_I =
     (Absolute, bit_mask_riscv 0 32 IType, None, range_new (- (2 ^ 31)) (2 ^ 32), 1)"
| "riscv_insn_row R_RISCV_LO12_S =
     (Absolute, bit_mask_riscv 0 32 SType, None, range_new (- (2 ^ 31)) (2 ^ 32), 1)"
| "riscv_insn_row R_RISCV_TPREL_HI20 =
     (TpOff, bit_mask_riscv 0 32 UType, None, range_new (- (2 ^ 31)) (2 ^ 32), 1)"
| "riscv_insn_row R_RISCV_TPREL_LO12_I =
     (TpOff, bit_mask_riscv 0 32 IType, None, range_new (- (2 ^ 31)) (2 ^ 32), 1)"
| "riscv_insn_row R_RISCV_TPREL_LO12_S =
     (TpOff, bit_mask_riscv 0 32 SType, None, range_new (- (2 ^ 31)) (2 ^ 32), 1)"

fun riscv_arith_row :: "riscv_arith_reloc \<Rightarrow> riscv_row" where
  "riscv_arith_row R_RISCV_TPREL_ADD = (NoRelocation, ByteSize 0, None, no_check, 1)"
| "riscv_arith_row R_RISCV_ADD8 = (AbsoluteAddition, ByteSize 1, None, no_check, 1)"
| "riscv_arith_row R_RISCV_ADD16 = (AbsoluteAddition, ByteSize 2, None, no_check, 1)"
| "riscv_arith_row R_RISCV_ADD32 = (AbsoluteAddition, ByteSize 4, None, no_check, 1)"
| "riscv_arith_row R_RISCV_ADD64 = (AbsoluteAddition, ByteSize 8, None, no_check, 1)"
| "riscv_arith_row R_RISCV_SUB8 = (AbsoluteSubtraction, ByteSize 1, None, no_check, 1)"
| "riscv_arith_row R_RISCV_SUB16 = (AbsoluteSubtraction, ByteSize 2, None, no_check, 1)"
| "riscv_arith_row R_RISCV_SUB32 = (AbsoluteSubtraction, ByteSize 4, None, no_check, 1)"
| "riscv_arith_row R_RISCV_SUB64 = (AbsoluteSubtraction, ByteSize 8, None, no_check, 1)"

fun riscv_other_row :: "riscv_other_reloc \<Rightarrow> riscv_row option" where
  "riscv_other_row R_RISCV_GOT32_PCREL =
     Some (GotRelative, ByteSize 4, None, range_new (- (2 ^ 31)) (2 ^ 32), 1)"
| "riscv_other_row R_RISCV_ALIGN = Some (AlignmentReq, ByteSize 0, None, no_check, 1)"
| "riscv_other_row R_RISCV_RVC_BRANCH =
     Some (Relative, bit_mask_riscv 0 16 CbType, None, range_new (- (2 ^ 8)) (2 ^ 8 - 1), 2)"
| "riscv_other_row R_RISCV_RVC_JUMP =
     Some (Relative, bit_mask_riscv 0 16 CjType, None, range_new (- (2 ^ 11)) (2 ^ 11 - 1), 2)"
| "riscv_other_row R_RISCV_RELAX = Some (NoRelocation, ByteSize 0, None, no_check, 1)"
| "riscv_other_row R_RISCV_SUB6 = Some (AbsoluteSubtractionWord6, ByteSize 1, None, no_check, 1)"
| "riscv_other_row R_RISCV_SET6 = Some (AbsoluteSetWord6, ByteSize 1, None, no_check, 1)"
| "riscv_other_row R_RISCV_SET8 = Some (AbsoluteSet, ByteSize 1, None, no_check, 1)"
| "riscv_other_row R_RISCV_SET16 = Some (AbsoluteSet, ByteSize 2, None, no_check, 1)"
| "riscv_other_row R_RISCV_SET32 = Some (AbsoluteSet, ByteSize 4, None, no_check, 1)"
| "riscv_other_row R_RISCV_32_PCREL =
     Some (Relative, ByteSize 4, None, range_new (- (2 ^ 31)) (2 ^ 32), 1)"
| "riscv_other_row R_RISCV_PLT32 =
     Some (PltRelative, ByteSize 4, None, range_new (- (2 ^ 31)) (2 ^ 32), 1)"
| "riscv_other_row R_RISCV_SET_ULEB128 = Some (Relative, ByteSize 0, None, no_check, 1)"
| "riscv_other_row R_RISCV_SUB_ULEB128 =
     Some (PairSubtractionULEB128 (RV_Other R_RISCV_SET_ULEB128), ByteSize 8, None, no_check, 1)"
| "riscv_other_row R_RISCV_TLSDESC_HI20 = None"
| "riscv_other_row R_RISCV_TLSDESC_LOAD_LO12 = None"
| "riscv_other_row R_RISCV_TLSDESC_ADD_LO12 = None"
| "riscv_other_row R_RISCV_TLSDESC_CALL = None"

fun riscv_row_of :: "riscv_reloc \<Rightarrow> riscv_row option" where
  "riscv_row_of (RV_Insn r) = Some (riscv_insn_row r)"
| "riscv_row_of (RV_Arith r) = Some (riscv_arith_row r)"
| "riscv_row_of (RV_Other r) = riscv_other_row r"
| "riscv_row_of (RV_Unknown _) = None"

definition riscv_info :: "riscv_row \<Rightarrow> riscv_reloc relocation_kind_info" where
  "riscv_info row =
     (case row of (k, sz, pmask, rng, al) \<Rightarrow>
        \<lparr>kind = k, rel_size = sz, page_mask = pmask, allowed = rng, rel_alignment = al, bias = 0,
         thunkable = False\<rparr>)"

definition riscv_relocation_type_from_raw :: "riscv_reloc \<Rightarrow> riscv_reloc relocation_kind_info option" where
  "riscv_relocation_type_from_raw r = map_option riscv_info (riscv_row_of r)"

lemmas riscv_row_eval = row_eval riscv_info_def

lemma riscv_insn_row_ok: "entry_ok (riscv_info (riscv_insn_row r))"
  by (cases r) (simp_all add: riscv_row_eval)

lemma riscv_arith_row_ok: "entry_ok (riscv_info (riscv_arith_row r))"
  by (cases r) (simp_all add: riscv_row_eval)

lemma riscv_other_row_ok: "riscv_other_row r = Some row \<Longrightarrow> entry_ok (riscv_info row)"
  by (cases r) (auto simp: riscv_row_eval)

interpretation rv_table: relocation_table riscv_relocation_type_from_raw "\<lambda>_. False"
proof unfold_locales
  fix r info
  assume "riscv_relocation_type_from_raw r = Some info"
  then show "entry_ok info"
    by (cases r) (auto simp: riscv_relocation_type_from_raw_def riscv_insn_row_ok
        riscv_arith_row_ok intro: riscv_other_row_ok)
qed

section \<open>Relaxations\<close>

definition RS1_MASK :: u32 where "RS1_MASK = shl 0x1f 15"

text \<open>\<^verbatim>\<open>JAL_RANGE\<close> is an inclusive range of \<^verbatim>\<open>i64\<close>.\<close>

definition distance_fits_jal :: "u64 \<Rightarrow> bool" where
  "distance_fits_jal distance \<longleftrightarrow> - (2 ^ 20) \<le> sint distance \<and> sint distance \<le> 2 ^ 20 - 1"

datatype riscv_relaxation =
  RVNoOp | RVReplaceWithNop | CallToJal | Hi20ToCLui | Hi20Delete | Lo12Rs1ToZero

definition u32_at :: "u8 list \<Rightarrow> int \<Rightarrow> u32 option" where
  "u32_at buf i = (if 0 \<le> i \<and> nat i \<le> length buf then u32_from_slice (drop (nat i) buf) else None)"

definition u16_at :: "u8 list \<Rightarrow> int \<Rightarrow> u16 option" where
  "u16_at buf i = do { b0 \<leftarrow> get_at buf i; b1 \<leftarrow> get_at buf (i + 1); Some (of_le [b0, b1]) }"

fun riscv_apply :: "riscv_relaxation \<Rightarrow> relax_site \<Rightarrow> relax_site option" where
  "riscv_apply RVNoOp (buf, off, add) = Some (buf, off, add)"
| "riscv_apply RVReplaceWithNop (buf, off, add) = do {
     buf \<leftarrow> put_at buf (at off) [0x01, 0x0, 0x01, 0x0];
     Some (buf, off, add) }"
| "riscv_apply CallToJal (buf, off, add) = do {
     auipc_word \<leftarrow> u32_at buf (at off);
     let rd = shr auipc_word 7 AND 0x1f;
     let jal_base = 0x6f OR shl rd 7;
     buf \<leftarrow> put_at buf (at off) (to_le 4 jal_base);
     Some (buf, off, add) }"
| "riscv_apply Hi20ToCLui (buf, off, add) = do {
     lui_lo \<leftarrow> u16_at buf (at off);
     let rd = shr lui_lo 7 AND 0x1f;
     let clui_base = 0x6001 OR shl rd 7;
     buf \<leftarrow> put_at buf (at off) (to_le 2 clui_base);
     Some (buf, off, add) }"
| "riscv_apply Hi20Delete (buf, off, add) = Some (buf, off, add)"
| "riscv_apply Lo12Rs1ToZero (buf, off, add) = do {
     word \<leftarrow> u32_at buf (at off);
     let word = word AND NOT RS1_MASK;
     buf \<leftarrow> put_at buf (at off) (to_le 4 word);
     Some (buf, off, add) }"

definition riscv_next_modifier :: "riscv_relaxation \<Rightarrow> relocation_modifier" where
  "riscv_next_modifier k =
     (case k of CallToJal \<Rightarrow> SkipNextRelocation | Hi20Delete \<Rightarrow> SkipNextRelocation | _ \<Rightarrow> Normal)"

definition hi20_is_zero :: "u64 \<Rightarrow> bool" where
  "hi20_is_zero value = (let hi20 = shr (value + 0x800) 12 in hi20 AND 0xfffff = 0)"

definition hi20_fits_clui :: "u64 \<Rightarrow> bool" where
  "hi20_fits_clui value =
     (let hi20 = shr (value + 0x800) 12;
          hi20_signed = hi20;
          as_6bit = sar (shl (ucast hi20_signed :: u8) 2) 2
      in scast as_6bit = hi20_signed \<and> hi20_signed \<noteq> 0)"

definition rd_valid_for_clui :: "u32 \<Rightarrow> bool" where
  "rd_valid_for_clui rd \<longleftrightarrow> rd \<noteq> 0 \<and> rd \<noteq> 2"

definition clui_rel_info :: "riscv_reloc relocation_kind_info" where
  "clui_rel_info =
     \<lparr>kind = Absolute, rel_size = bit_mask_riscv 0 32 CluiType, page_mask = None,
      allowed = range_new (- (2 ^ 31)) (2 ^ 32), rel_alignment = 1, bias = 0, thunkable = False\<rparr>"

definition riscv_byte_range :: "riscv_relaxation \<Rightarrow> relaxation_byte_range" where
  "riscv_byte_range k = \<lparr>offset_shift = 0, num_bytes = 4\<rparr>"

interpretation rv_relax: relaxer riscv_apply riscv_byte_range 0 4
proof unfold_locales
  fix k buf off add buf' off' add'
  assume "riscv_apply k (buf, off, add) = Some (buf', off', add')"
  then show "covered (riscv_byte_range k) off buf buf'"
    by (cases k) (auto simp: covered_def riscv_byte_range_def Let_def bind_eq_Some_conv
        intro: put_at_same_outside)
qed (simp_all add: riscv_byte_range_def)

section \<open>The two halves of a 32-bit address\<close>

text \<open>
  What the processor adds up: \<^verbatim>\<open>lui\<close> and \<^verbatim>\<open>auipc\<close> sign-extend the upper immediate from 32 bits,
  the second instruction sign-extends its 12 bits.
\<close>

definition upper_part :: "u64 \<Rightarrow> u64" where
  "upper_part v = scast (riscv_imm_u v)"

definition lower_part :: "u64 \<Rightarrow> u64" where
  "lower_part v = fst (riscv_dec_itype (riscv_imm_i v))"

lemma lower_part_eq: "lower_part v = signed_take_bit 11 v"
  unfolding lower_part_def riscv_dec_itype_def riscv_imm_i_def Let_def fst_conv
  by (intro word64_eqI, unfold each_bit, simp add: bit_eval)

lemma upper_part_eq: "upper_part v = signed_take_bit 31 ((v + 0x800) AND NOT 0xfff)"
  unfolding upper_part_def riscv_imm_u_def
  by (intro word64_eqI, unfold each_bit, simp add: bit_eval range_ok_def)

lemma low_high_split: "(v + 0x800) AND NOT 0xfff = v - signed_take_bit 11 (v :: u64)"
  using round_split [of 11 v] by (simp add: mask_eq_exp_minus_1)

lemma upper_lower:
  assumes "- (2 ^ 31) - 0x800 \<le> sint v" "sint v < 2 ^ 31 - 0x800"
  shows "upper_part v + lower_part v = v"
proof -
  have "sint (v + 0x800) = sint v + 0x800"
    using assms by (simp add: sint_word_ariths signed_take_bit_int_eq_self)
  with assms have "signed_take_bit 31 (v + 0x800) = v + 0x800"
    by (intro signed_take_bit_self) simp_all
  moreover have "signed_take_bit 31 ((v + 0x800) AND NOT 0xfff)
      = signed_take_bit 31 (v + 0x800) AND NOT 0xfff"
    by (intro word64_eqI, unfold each_bit, simp add: bit_eval)
  ultimately have "upper_part v = v - signed_take_bit 11 v"
    by (simp only: upper_part_eq low_high_split)
  then show ?thesis by (simp add: lower_part_eq)
qed

text \<open>The compressed \<^verbatim>\<open>c.lui\<close> and the deleted \<^verbatim>\<open>lui\<close>.\<close>

definition clui_part :: "u64 \<Rightarrow> u64" where
  "clui_part v = shl (signed_take_bit 5 (shr (v + 0x800) 12)) 12"

lemma hi20_fits_clui_bits:
  assumes "hi20_fits_clui v"
  shows "signed_take_bit 5 (shr (v + 0x800) 12) = shr (v + 0x800) 12"
proof -
  have "scast (sar (shl (ucast (shr (v + 0x800) 12) :: u8) 2) 2) = shr (v + 0x800) 12"
    using assms by (simp add: hi20_fits_clui_def Let_def)
  moreover have "scast (sar (shl (ucast x :: u8) 2) 2) = signed_take_bit 5 x" for x :: u64
    by (intro word64_eqI, unfold each_bit, simp add: bit_eval)
  ultimately show ?thesis by simp
qed

lemma clui_lower:
  assumes "hi20_fits_clui v"
  shows "clui_part v + lower_part v = v"
proof -
  have "clui_part v = shl (shr (v + 0x800) 12) 12"
    by (simp add: clui_part_def hi20_fits_clui_bits [OF assms])
  also have "\<dots> = (v + 0x800) AND NOT 0xfff"
    by (intro word64_eqI, unfold each_bit, simp add: bit_eval)
  finally show ?thesis unfolding low_high_split lower_part_eq by simp
qed

lemma deleted_lui:
  assumes "hi20_is_zero v" "- (2 ^ 31) - 0x800 \<le> sint v" "sint v < 2 ^ 31 - 0x800"
  shows "lower_part v = v"
proof -
  have z: "shr (v + 0x800) 12 AND 0xfffff = 0"
    using assms(1) by (simp add: hi20_is_zero_def Let_def)
  have "signed_take_bit 31 ((v + 0x800) AND NOT 0xfff)
      = signed_take_bit 31 (shl (shr (v + 0x800) 12 AND 0xfffff) 12)"
    by (intro word64_eqI, unfold each_bit, simp add: bit_eval)
  then have "upper_part v = 0"
    by (simp add: upper_part_eq z shl_def)
  then show ?thesis using upper_lower [OF assms(2,3)] by simp
qed

lemma hi20_fits_clui_iff:
  "hi20_fits_clui v \<longleftrightarrow> 1 \<le> unat (shr (v + 0x800) 12) \<and> unat (shr (v + 0x800) 12) \<le> 31"
proof -
  define h where "h = shr (v + 0x800) 12"
  have top: "\<not> bit h 63" by (simp add: h_def bit_eval bit_imp_le_length) (auto dest: bit_imp_le_length)
  have as6: "scast (sar (shl (ucast x :: u8) 2) 2) = signed_take_bit 5 x" for x :: u64
    by (intro word64_eqI, unfold each_bit, simp add: bit_eval)
  have "signed_take_bit 5 h = h \<longleftrightarrow> take_bit 5 h = h"
  proof
    assume e: "signed_take_bit 5 h = h"
    have "bit h 63 = bit h 5"
      using arg_cong [OF e, of "\<lambda>x. bit x 63"] by (simp add: bit_eval)
    with top have b5: "\<not> bit h 5" by simp
    have "bit h n = (n < 5 \<and> bit h n)" for n
      using arg_cong [OF e, of "\<lambda>x. bit x n"] b5
      by (cases "n < 5"; cases "n = 5") (auto simp: bit_eval min_def split: if_splits)
    then show "take_bit 5 h = h" by (intro bit_word_eqI) (simp add: bit_eval)
  next
    assume e: "take_bit 5 h = h"
    have "\<not> bit h n" if "5 \<le> n" for n
      using arg_cong [OF e, of "\<lambda>x. bit x n"] that by (simp add: bit_eval)
    then show "signed_take_bit 5 h = h"
      by (intro bit_word_eqI) (auto simp: bit_eval min_def)
  qed
  moreover have "take_bit 5 h = h \<longleftrightarrow> unat h < 2 ^ 5"
  proof
    assume "take_bit 5 h = h"
    then have "unat h = take_bit 5 (unat h)" by (metis unsigned_take_bit_eq)
    then show "unat h < 2 ^ 5" by (metis take_bit_nat_less_exp)
  qed (rule take_bit_of_small)
  moreover have "h \<noteq> 0 \<longleftrightarrow> 1 \<le> unat h" by (simp add: unat_gt_0 Suc_le_eq)
  ultimately show ?thesis
    unfolding hi20_fits_clui_def Let_def as6 h_def [symmetric] by auto
qed

section \<open>A call that becomes a jump\<close>

definition jal_info :: "riscv_reloc relocation_kind_info" where
  "jal_info = riscv_info (riscv_insn_row R_RISCV_JAL)"

lemma jal_info_eval:
  "jal_info = \<lparr>kind = Relative, rel_size = BitMasking (bit_mask_new (RiscV JType) 0 32),
     page_mask = None, allowed = range_new (- (2 ^ 20)) (2 ^ 20 - 1), rel_alignment = 2, bias = 0,
     thunkable = False\<rparr>"
  by (simp add: jal_info_def riscv_info_def bit_mask_riscv_def)

lemma even_distance:
  "aligned_to 2 d \<longleftrightarrow> \<not> bit d 0"
  using bit_unsigned_iff [where 'a = nat, of d 0] by (simp add: aligned_to_def bit_0)

lemma distance_in_range:
  assumes "distance_fits_jal d" "aligned_to 2 d"
  shows "range_contains (allowed jal_info) (sint d)"
proof -
  have "even (sint d)" using assms(2) bit_sint [of 0 d] by (simp add: even_distance bit_0)
  moreover have "odd ((2::int) ^ 20 - 1)" by simp
  ultimately have "sint d \<noteq> 2 ^ 20 - 1" by metis
  with assms(1) show ?thesis by (simp add: distance_fits_jal_def jal_info_eval)
qed

lemma jtype_distance:
  assumes "distance_fits_jal d" "aligned_to 2 d"
  shows "riscv_dec_jtype (keep_set JTYPE_IMMEDIATE_MASK riscv_imm_j (extract_bit_range d 0 32) neg w)
    = (d, bit d 20)"
proof -
  have "signed_take_bit 20 d = d"
    using assms(1) by (intro signed_take_bit_self) (simp_all add: distance_fits_jal_def)
  moreover have "signed_take_bit 20 (extract_bit_range d 0 32) = signed_take_bit 20 d"
    by (intro word64_eqI, unfold each_bit, simp add: bit_eval range_ok_def)
  moreover have "d AND NOT 1 = d"
    using assms(2)
    by (intro and_not_of_clear bit_word_eqI) (auto simp: bit_eval even_distance bit_1_iff intro!: gr0I)
  moreover have "bit (extract_bit_range d 0 32) 20 = bit d 20"
    by (simp add: bit_eval range_ok_def)
  ultimately show ?thesis by (simp only: riscv_read_back_j)
qed

lemma written_word:
  assumes "patches f (e :: u32 \<Rightarrow> u32)" "f buf = Some buf'"
  shows "u32_from_slice buf' = Some (e (of_le (take 4 buf)))"
  using patches_result [OF assms] patches_Some(1) [OF assms] by (simp add: u_from_slice_Some)

lemma utype_written:
  assumes "write_to_value (RiscV UType) v neg buf = Some buf'"
  shows "\<exists>w. u32_from_slice buf' = Some w \<and> w AND NOT UTYPE_IMMEDIATE_MASK = riscv_imm_u v"
proof -
  have "riscv_write_to_value UType v neg buf = Some buf'" using assms by simp
  from written_word [OF riscv_write_patches(1) this] show ?thesis
    using rv_u.keep_set_imm [of v neg "of_le (take 4 buf)"] unat_bound64 [of v] by simp
qed

lemma low12_written:
  assumes "i \<in> {IType, SType}" "write_to_value (RiscV i) v neg buf = Some buf'"
  shows "riscv_read_value i buf' = Some (lower_part v, bit v 11)"
  using riscv_read_back [of i v neg buf buf'] assms by (auto simp: lower_part_eq)

section \<open>Properties\<close>

text \<open>The two instructions of a RISC-V address add up to it. The upper immediate written for a
  value, extended from 32 bits, plus the 12-bit immediate written for the same value into the load,
  store or addition that follows, read back with its sign, is the value, for every value within
  the reach of the pair.\<close>

theorem riscv_address_pair:
  assumes "write_to_value (RiscV UType) v neg lui = Some lui'"
    and "i \<in> {IType, SType}" "write_to_value (RiscV i) v neg' insn = Some insn'"
    and "- (2 ^ 31) - 0x800 \<le> sint v" "sint v < 2 ^ 31 - 0x800"
  shows "\<exists>upper lower s. u32_from_slice lui' = Some upper \<and> riscv_read_value i insn' = Some (lower, s)
    \<and> scast (upper AND NOT UTYPE_IMMEDIATE_MASK) + lower = v"
  using utype_written [OF assms(1)] low12_written [OF assms(2,3)] upper_lower [OF assms(4,5)]
  by (auto simp: upper_part_def)

theorem riscv_address_pair_witness:
  "\<exists>upper lower s. u32_from_slice [0x37, 0x25, 0x34, 0x12] = Some upper
    \<and> riscv_read_value IType [0x13, 0x05, 0x85, 0x80] = Some (lower, s)
    \<and> scast (upper AND NOT UTYPE_IMMEDIATE_MASK) + lower = (0x12341808 :: u64)"
  by (rule riscv_address_pair [where neg = False and neg' = False
        and lui = "[0x37, 0x05, 0, 0]" and insn = "[0x13, 0x05, 0x05, 0]"])
    (simp_all add: riscv_write_utype_def riscv_write_itype_def extract_bit_range_def shr_def shl_def
      riscv_masks to_le_def upt_rec mask_and_set_def)

text \<open>The range the table accepts for the upper half of an address is wider than what the pair can
  represent: the value \<open>2 ^ 31 - 0x800\<close> passes the check of each of these relocation types, and the
  two written immediates do not add up to it.\<close>

theorem riscv_hi20_range_gap:
  "\<exists>v. upper_part v + lower_part v \<noteq> v
    \<and> list_all (\<lambda>r. \<exists>info. riscv_relocation_type_from_raw (RV_Insn r) = Some info
          \<and> verify info (sint v) = Inr ())
        [R_RISCV_CALL, R_RISCV_CALL_PLT, R_RISCV_GOT_HI20, R_RISCV_TLS_GOT_HI20,
         R_RISCV_TLS_GD_HI20, R_RISCV_PCREL_HI20, R_RISCV_HI20, R_RISCV_TPREL_HI20]"
proof (intro exI conjI)
  let ?v = "0x7FFFF800 :: u64"
  show "upper_part ?v + lower_part ?v \<noteq> ?v"
    by (simp add: upper_part_def riscv_imm_u_def lower_part_eq extract_bit_range_def shr_def shl_def)
  show "list_all (\<lambda>r. \<exists>info. riscv_relocation_type_from_raw (RV_Insn r) = Some info
          \<and> verify info (sint ?v) = Inr ())
        [R_RISCV_CALL, R_RISCV_CALL_PLT, R_RISCV_GOT_HI20, R_RISCV_TLS_GOT_HI20,
         R_RISCV_TLS_GD_HI20, R_RISCV_PCREL_HI20, R_RISCV_HI20, R_RISCV_TPREL_HI20]"
    by (simp add: riscv_relocation_type_from_raw_def riscv_info_def verify_def)
qed

text \<open>Shortening the upper half is sound. Where \<^verbatim>\<open>hi20_is_zero\<close> allows deleting the \<^verbatim>\<open>lui\<close>, the
  12-bit immediate alone is the value; where \<^verbatim>\<open>hi20_fits_clui\<close> allows the compressed \<^verbatim>\<open>c.lui\<close>, its
  sign-extended immediate and the 12-bit immediate add up to the value.\<close>

theorem riscv_hi20_relaxation_sound:
  "(hi20_is_zero v \<and> - (2 ^ 31) - 0x800 \<le> sint v \<and> sint v < 2 ^ 31 - 0x800 \<longrightarrow> lower_part v = v)
   \<and> (hi20_fits_clui v \<longrightarrow> clui_part v + lower_part v = v)"
  using deleted_lui clui_lower by blast

theorem riscv_hi20_relaxation_sound_witness:
  "hi20_is_zero 0x7ff \<and> lower_part 0x7ff = 0x7ff
   \<and> hi20_fits_clui 0x5123 \<and> clui_part 0x5123 + lower_part 0x5123 = 0x5123"
proof -
  have "hi20_is_zero 0x7ff" by (simp add: hi20_is_zero_def shr_def)
  moreover have "hi20_fits_clui 0x5123" by (simp add: hi20_fits_clui_iff shr_def)
  ultimately show ?thesis
    using riscv_hi20_relaxation_sound [of "0x7ff"] riscv_hi20_relaxation_sound [of "0x5123"] by simp
qed

text \<open>\<^verbatim>\<open>hi20_fits_clui\<close> accepts exactly the upper halves 1 to 31. Its documentation also names the
  negative ones, which the logical shift of an unsigned value never produces.\<close>

theorem riscv_hi20_fits_clui_values:
  "hi20_fits_clui v \<longleftrightarrow> unat (shr (v + 0x800) 12) \<in> {1..31}"
  by (simp add: hi20_fits_clui_iff)



text \<open>A RISC-V relocation whose range is checked represents the value it accepts, and a successful
  write of a bit-masked one leaves every bit outside the immediate field as it was.\<close>

theorem riscv_relocation_write:
  assumes "riscv_relocation_type_from_raw r = Some info" "write_to_buffer uleb info v out = Inr out'"
  shows "(allowed info \<noteq> no_check \<longrightarrow>
      signed_take_bit (reach (rel_size info) - 1) v = v \<or> take_bit (reach (rel_size info)) v = v)
    \<and> (\<forall>m n. \<not> is_uleb_pair info \<and> rel_size info = BitMasking m \<and> n < 8 * length out
        \<and> \<not> bit (insn_field (instruction m)) n \<longrightarrow> buf_bit out' n = buf_bit out n)"
  using rv_table.value_fits [OF assms(1) _ assms(2)] rv_table.write_confined [OF assms(1) _ assms(2)]
  by blast

lemma jal_entry: "riscv_relocation_type_from_raw (RV_Insn R_RISCV_JAL) = Some jal_info"
  by (simp add: riscv_relocation_type_from_raw_def jal_info_def)

lemma jal_run: "write_to_buffer (\<lambda>_. []) jal_info (-4) [0xef, 0, 0, 0] = Inr [0xef, 0xf0, 0xdf, 0xff]"
  by (simp add: write_to_buffer_def verify_def jal_info_eval write_bit_mask_def bit_mask_new_def
      is_negative_def extract_bit_def extract_bit_range_def shr_def shl_def riscv_masks to_le_def
      upt_rec mask_and_set_def)

theorem riscv_relocation_write_witness:
  "(signed_take_bit (reach (rel_size jal_info) - 1) (-4) = (-4 :: u64)
      \<or> take_bit (reach (rel_size jal_info)) (-4) = (-4 :: u64))
    \<and> buf_bit [0xef, 0xf0, 0xdf, 0xff] 0 = buf_bit [0xef, 0, 0, 0] 0"
proof -
  note th = riscv_relocation_write [OF jal_entry jal_run]
  have "allowed jal_info \<noteq> no_check" "\<not> is_uleb_pair jal_info"
      "rel_size jal_info = BitMasking (bit_mask_new (RiscV JType) 0 32)"
    by (simp_all add: jal_info_eval no_check_def range_new_def i64_min_def is_uleb_pair_def)
  with th show ?thesis by (simp add: bit_mask_new_def riscv_masks)
qed


end
