(* ===== verification/Reloc_LoongArch.thy ===== *)
theory Reloc_LoongArch
  imports Reloc_Table Relax_Site
begin

text \<open>
  The LoongArch64 relocation table and relaxations: \<^verbatim>\<open>relocation_type_from_raw\<close> and
  \<^verbatim>\<open>impl RelaxationKind\<close> of \<^verbatim>\<open>crates/reld-reloc/src/loongarch64.rs\<close>. The relocation types are the
  \<^verbatim>\<open>R_LARCH_*\<close> constants of the \<^verbatim>\<open>object\<close> crate, grouped as the comments of the \<^verbatim>\<open>match\<close> group them.
\<close>

section \<open>Relocation types\<close>

text \<open>Addition and subtraction relocations.\<close>

datatype larch_arith_reloc =
    R_LARCH_NONE | R_LARCH_32 | R_LARCH_64 | R_LARCH_ADD6 | R_LARCH_ADD8 | R_LARCH_ADD16
  | R_LARCH_ADD24 | R_LARCH_ADD32 | R_LARCH_ADD64 | R_LARCH_SUB6 | R_LARCH_SUB8
  | R_LARCH_SUB16 | R_LARCH_SUB24 | R_LARCH_SUB32 | R_LARCH_SUB64 | R_LARCH_ADD_ULEB128
  | R_LARCH_SUB_ULEB128

text \<open>General relocations.\<close>

datatype larch_general_reloc =
    R_LARCH_ABS_HI20 | R_LARCH_ABS_LO12 | R_LARCH_ABS64_HI12 | R_LARCH_ABS64_LO20
  | R_LARCH_PCALA_HI20 | R_LARCH_PCALA_LO12 | R_LARCH_PCALA64_HI12 | R_LARCH_PCALA64_LO20
  | R_LARCH_32_PCREL | R_LARCH_PCREL20_S2 | R_LARCH_64_PCREL | R_LARCH_PCADD_HI20

text \<open>GOT-relative relocations.\<close>

datatype larch_got_reloc =
    R_LARCH_GOT_PC_HI20 | R_LARCH_GOT_PC_LO12 | R_LARCH_GOT64_PC_HI12
  | R_LARCH_GOT64_PC_LO20

text \<open>Control flow relocations.\<close>

datatype larch_flow_reloc =
    R_LARCH_B16 | R_LARCH_B21 | R_LARCH_B26 | R_LARCH_CALL36 | R_LARCH_CALL30

text \<open>Traditional thread-local storage.\<close>

datatype larch_tls_reloc =
    R_LARCH_TLS_LE_HI20 | R_LARCH_TLS_LE_LO12 | R_LARCH_TLS_LE64_LO20
  | R_LARCH_TLS_LE64_HI12 | R_LARCH_TLS_LE_HI20_R | R_LARCH_TLS_LE_LO12_R
  | R_LARCH_TLS_IE_PC_HI20 | R_LARCH_TLS_IE_PC_LO12 | R_LARCH_TLS_IE64_PC_LO20
  | R_LARCH_TLS_IE64_PC_HI12 | R_LARCH_TLS_IE_HI20 | R_LARCH_TLS_IE_LO12
  | R_LARCH_TLS_IE64_HI12 | R_LARCH_TLS_IE64_LO20 | R_LARCH_TLS_LD_PC_HI20
  | R_LARCH_TLS_LD_HI20 | R_LARCH_TLS_GD_PC_HI20 | R_LARCH_TLS_GD_HI20

text \<open>Thread-local storage descriptors.\<close>

datatype larch_tlsdesc_reloc =
    R_LARCH_TLS_DESC_PC_HI20 | R_LARCH_TLS_DESC_PC_LO12 | R_LARCH_TLS_DESC64_PC_HI12
  | R_LARCH_TLS_DESC64_PC_LO20 | R_LARCH_TLS_DESC_LD | R_LARCH_TLS_DESC_CALL

text \<open>Debug info, unused and miscellaneous relocations.\<close>

datatype larch_misc_reloc =
    R_LARCH_TLS_DTPREL32 | R_LARCH_TLS_DTPREL64 | R_LARCH_TLS_LD_PCREL20_S2
  | R_LARCH_TLS_GD_PCREL20_S2 | R_LARCH_TLS_DESC_PCREL20_S2 | R_LARCH_RELAX
  | R_LARCH_TLS_LE_ADD_R | R_LARCH_ALIGN

datatype larch_reloc =
    LA_Arith larch_arith_reloc
  | LA_General larch_general_reloc
  | LA_Got larch_got_reloc
  | LA_Flow larch_flow_reloc
  | LA_Tls larch_tls_reloc
  | LA_TlsDesc larch_tlsdesc_reloc
  | LA_Misc larch_misc_reloc
  | LA_Unknown u32

type_synonym larch_row =
  "larch_reloc relocation_kind \<times> relocation_size \<times> page_mask option \<times> allowed_range \<times> nat \<times> u64"

section \<open>The table\<close>

fun larch_arith_row :: "larch_arith_reloc \<Rightarrow> larch_row" where
  "larch_arith_row R_LARCH_NONE = (NoRelocation, ByteSize 0, None, no_check, 1, 0)"
| "larch_arith_row R_LARCH_32 =
     (Absolute, ByteSize 4, None, range_new (- (2 ^ 31)) (2 ^ 32), 1, 0)"
| "larch_arith_row R_LARCH_64 = (Absolute, ByteSize 8, None, no_check, 1, 0)"
| "larch_arith_row R_LARCH_ADD6 = (AbsoluteAdditionWord6, ByteSize 1, None, no_check, 1, 0)"
| "larch_arith_row R_LARCH_ADD8 = (AbsoluteAddition, ByteSize 1, None, no_check, 1, 0)"
| "larch_arith_row R_LARCH_ADD16 = (AbsoluteAddition, ByteSize 2, None, no_check, 1, 0)"
| "larch_arith_row R_LARCH_ADD24 = (AbsoluteAddition, ByteSize 3, None, no_check, 1, 0)"
| "larch_arith_row R_LARCH_ADD32 = (AbsoluteAddition, ByteSize 4, None, no_check, 1, 0)"
| "larch_arith_row R_LARCH_ADD64 = (AbsoluteAddition, ByteSize 8, None, no_check, 1, 0)"
| "larch_arith_row R_LARCH_SUB6 = (AbsoluteSubtractionWord6, ByteSize 1, None, no_check, 1, 0)"
| "larch_arith_row R_LARCH_SUB8 = (AbsoluteSubtraction, ByteSize 1, None, no_check, 1, 0)"
| "larch_arith_row R_LARCH_SUB16 = (AbsoluteSubtraction, ByteSize 2, None, no_check, 1, 0)"
| "larch_arith_row R_LARCH_SUB24 = (AbsoluteSubtraction, ByteSize 3, None, no_check, 1, 0)"
| "larch_arith_row R_LARCH_SUB32 = (AbsoluteSubtraction, ByteSize 4, None, no_check, 1, 0)"
| "larch_arith_row R_LARCH_SUB64 = (AbsoluteSubtraction, ByteSize 8, None, no_check, 1, 0)"
| "larch_arith_row R_LARCH_ADD_ULEB128 = (Relative, ByteSize 0, None, no_check, 1, 0)"
| "larch_arith_row R_LARCH_SUB_ULEB128 =
     (PairSubtractionULEB128 (LA_Arith R_LARCH_ADD_ULEB128), ByteSize 8, None, no_check, 1, 0)"

fun larch_general_row :: "larch_general_reloc \<Rightarrow> larch_row" where
  "larch_general_row R_LARCH_ABS_HI20 =
     (Absolute, bit_mask_loongarch64 12 32 Shift5, None, no_check, 1, 0)"
| "larch_general_row R_LARCH_ABS_LO12 =
     (Absolute, bit_mask_loongarch64 0 12 Shift10, None, no_check, 1, 0)"
| "larch_general_row R_LARCH_ABS64_HI12 =
     (Absolute, bit_mask_loongarch64 52 64 Shift10, None, no_check, 1, 0)"
| "larch_general_row R_LARCH_ABS64_LO20 =
     (Absolute, bit_mask_loongarch64 32 52 Shift5, None, no_check, 1, 0)"
| "larch_general_row R_LARCH_PCALA_HI20 =
     (Relative, bit_mask_loongarch64 12 32 Shift5, Some (SymbolPlusAddendAndPosition PAGE_MASK_4KB), no_check, 1, SIZE_2KB)"
| "larch_general_row R_LARCH_PCALA_LO12 =
     (AbsoluteLowPart, bit_mask_loongarch64 0 12 Shift10, None, no_check, 1, 0)"
| "larch_general_row R_LARCH_PCALA64_HI12 =
     (RelativeLoongArchHigh, bit_mask_loongarch64 52 64 Shift10, None, no_check, 1, 0)"
| "larch_general_row R_LARCH_PCALA64_LO20 =
     (RelativeLoongArchHigh, bit_mask_loongarch64 32 52 Shift5, None, no_check, 1, 0)"
| "larch_general_row R_LARCH_32_PCREL = (Relative, ByteSize 4, None, const_range 32 Signed, 1, 0)"
| "larch_general_row R_LARCH_PCREL20_S2 =
     (Relative, bit_mask_loongarch64 2 22 Shift5, None, const_range 22 Signed, 4, 0)"
| "larch_general_row R_LARCH_64_PCREL = (Relative, ByteSize 8, None, no_check, 1, 0)"
| "larch_general_row R_LARCH_PCADD_HI20 =
     (Relative, bit_mask_loongarch64 12 32 Shift5, None, no_check, 1, SIZE_2KB)"

fun larch_got_row :: "larch_got_reloc \<Rightarrow> larch_row" where
  "larch_got_row R_LARCH_GOT_PC_HI20 =
     (GotRelative, bit_mask_loongarch64 12 32 Shift5, Some (GotEntryAndPosition PAGE_MASK_4KB), no_check, 1, SIZE_2KB)"
| "larch_got_row R_LARCH_GOT_PC_LO12 =
     (Got, bit_mask_loongarch64 0 12 Shift10, None, no_check, 1, 0)"
| "larch_got_row R_LARCH_GOT64_PC_HI12 =
     (GotRelativeLoongArch64, bit_mask_loongarch64 52 64 Shift10, None, no_check, 1, 0)"
| "larch_got_row R_LARCH_GOT64_PC_LO20 =
     (GotRelativeLoongArch64, bit_mask_loongarch64 32 52 Shift5, None, no_check, 1, 0)"

fun larch_flow_row :: "larch_flow_reloc \<Rightarrow> larch_row" where
  "larch_flow_row R_LARCH_B16 =
     (Relative, bit_mask_loongarch64 2 18 Shift10, None, const_range 18 Signed, 4, 0)"
| "larch_flow_row R_LARCH_B21 =
     (Relative, bit_mask_loongarch64 2 23 Branch21, None, const_range 23 Signed, 4, 0)"
| "larch_flow_row R_LARCH_B26 =
     (PltRelative, bit_mask_loongarch64 2 28 Branch26, None, const_range 28 Signed, 4, 0)"
| "larch_flow_row R_LARCH_CALL36 =
     (PltRelative, bit_mask_loongarch64 2 38 Call36, None, const_range 38 Signed, 4, 0)"
| "larch_flow_row R_LARCH_CALL30 =
     (Relative, bit_mask_loongarch64 2 19 Call30, None, no_check, 1, 0)"

fun larch_tls_row :: "larch_tls_reloc \<Rightarrow> larch_row" where
  "larch_tls_row R_LARCH_TLS_LE_HI20 =
     (TpOff, bit_mask_loongarch64 12 32 Shift5, None, no_check, 1, 0)"
| "larch_tls_row R_LARCH_TLS_LE_LO12 =
     (TpOff, bit_mask_loongarch64 0 12 Shift10, None, no_check, 1, 0)"
| "larch_tls_row R_LARCH_TLS_LE64_LO20 =
     (TpOff, bit_mask_loongarch64 32 52 Shift5, None, no_check, 1, 0)"
| "larch_tls_row R_LARCH_TLS_LE64_HI12 =
     (TpOff, bit_mask_loongarch64 52 64 Shift10, None, no_check, 1, 0)"
| "larch_tls_row R_LARCH_TLS_LE_HI20_R =
     (TpOff, bit_mask_loongarch64 12 32 Shift5, None, no_check, 1, SIZE_2KB)"
| "larch_tls_row R_LARCH_TLS_LE_LO12_R =
     (TpOff, bit_mask_loongarch64 0 12 Shift10, None, no_check, 1, 0)"
| "larch_tls_row R_LARCH_TLS_IE_PC_HI20 =
     (GotTpOff, bit_mask_loongarch64 12 32 Shift5, Some (GotEntryAndPosition PAGE_MASK_4KB), no_check, 1, SIZE_2KB)"
| "larch_tls_row R_LARCH_TLS_IE_PC_LO12 =
     (GotTpOffGot, bit_mask_loongarch64 0 12 Shift10, None, no_check, 1, 0)"
| "larch_tls_row R_LARCH_TLS_IE64_PC_LO20 =
     (GotTpOffLoongArch64, bit_mask_loongarch64 32 52 Shift5, None, no_check, 1, 0)"
| "larch_tls_row R_LARCH_TLS_IE64_PC_HI12 =
     (GotTpOffLoongArch64, bit_mask_loongarch64 52 64 Shift10, None, no_check, 1, 0)"
| "larch_tls_row R_LARCH_TLS_IE_HI20 =
     (GotTpOffGot, bit_mask_loongarch64 12 32 Shift5, None, no_check, 1, 0)"
| "larch_tls_row R_LARCH_TLS_IE_LO12 =
     (GotTpOffGot, bit_mask_loongarch64 0 12 Shift10, None, no_check, 1, 0)"
| "larch_tls_row R_LARCH_TLS_IE64_HI12 =
     (GotTpOffGot, bit_mask_loongarch64 52 64 Shift10, None, no_check, 1, 0)"
| "larch_tls_row R_LARCH_TLS_IE64_LO20 =
     (GotTpOffGot, bit_mask_loongarch64 32 52 Shift5, None, no_check, 1, 0)"
| "larch_tls_row R_LARCH_TLS_LD_PC_HI20 =
     (TlsGd, bit_mask_loongarch64 12 32 Shift5, Some (GotEntryAndPosition PAGE_MASK_4KB), no_check, 1, SIZE_2KB)"
| "larch_tls_row R_LARCH_TLS_LD_HI20 =
     (TlsGdGot, bit_mask_loongarch64 12 32 Shift5, None, no_check, 1, 0)"
| "larch_tls_row R_LARCH_TLS_GD_PC_HI20 =
     (TlsGd, bit_mask_loongarch64 12 32 Shift5, Some (GotEntryAndPosition PAGE_MASK_4KB), no_check, 1, SIZE_2KB)"
| "larch_tls_row R_LARCH_TLS_GD_HI20 =
     (TlsGdGot, bit_mask_loongarch64 12 32 Shift5, None, no_check, 1, 0)"

fun larch_tlsdesc_row :: "larch_tlsdesc_reloc \<Rightarrow> larch_row" where
  "larch_tlsdesc_row R_LARCH_TLS_DESC_PC_HI20 =
     (TlsDesc, bit_mask_loongarch64 12 32 Shift5, Some (GotEntryAndPosition PAGE_MASK_4KB), no_check, 1, SIZE_2KB)"
| "larch_tlsdesc_row R_LARCH_TLS_DESC_PC_LO12 =
     (TlsDescGot, bit_mask_loongarch64 0 12 Shift10, None, no_check, 1, 0)"
| "larch_tlsdesc_row R_LARCH_TLS_DESC64_PC_HI12 =
     (TlsDescLoongArch64, bit_mask_loongarch64 52 64 Shift10, None, no_check, 1, 0)"
| "larch_tlsdesc_row R_LARCH_TLS_DESC64_PC_LO20 =
     (TlsDescLoongArch64, bit_mask_loongarch64 32 52 Shift5, None, no_check, 1, 0)"
| "larch_tlsdesc_row R_LARCH_TLS_DESC_LD = (NoRelocation, ByteSize 0, None, no_check, 1, 0)"
| "larch_tlsdesc_row R_LARCH_TLS_DESC_CALL = (TlsDescCall, ByteSize 0, None, no_check, 1, 0)"

fun larch_misc_row :: "larch_misc_reloc \<Rightarrow> larch_row option" where
  "larch_misc_row R_LARCH_TLS_DTPREL32 = Some (DtpOff, ByteSize 4, None, no_check, 1, 0)"
| "larch_misc_row R_LARCH_TLS_DTPREL64 = Some (DtpOff, ByteSize 8, None, no_check, 1, 0)"
| "larch_misc_row R_LARCH_TLS_LD_PCREL20_S2 = None"
| "larch_misc_row R_LARCH_TLS_GD_PCREL20_S2 = None"
| "larch_misc_row R_LARCH_TLS_DESC_PCREL20_S2 = None"
| "larch_misc_row R_LARCH_RELAX = Some (NoRelocation, ByteSize 0, None, no_check, 1, 0)"
| "larch_misc_row R_LARCH_TLS_LE_ADD_R = Some (NoRelocation, ByteSize 0, None, no_check, 1, 0)"
| "larch_misc_row R_LARCH_ALIGN = Some (NoRelocation, ByteSize 0, None, no_check, 1, 0)"

fun larch_row_of :: "larch_reloc \<Rightarrow> larch_row option" where
  "larch_row_of (LA_Arith r) = Some (larch_arith_row r)"
| "larch_row_of (LA_General r) = Some (larch_general_row r)"
| "larch_row_of (LA_Got r) = Some (larch_got_row r)"
| "larch_row_of (LA_Flow r) = Some (larch_flow_row r)"
| "larch_row_of (LA_Tls r) = Some (larch_tls_row r)"
| "larch_row_of (LA_TlsDesc r) = Some (larch_tlsdesc_row r)"
| "larch_row_of (LA_Misc r) = larch_misc_row r"
| "larch_row_of (LA_Unknown _) = None"

definition larch_info :: "larch_row \<Rightarrow> larch_reloc relocation_kind_info" where
  "larch_info row =
     (case row of (k, sz, pmask, rng, al, b) \<Rightarrow>
        \<lparr>kind = k, rel_size = sz, page_mask = pmask, allowed = rng, rel_alignment = al, bias = b,
         thunkable = False\<rparr>)"

definition larch_relocation_type_from_raw :: "larch_reloc \<Rightarrow> larch_reloc relocation_kind_info option" where
  "larch_relocation_type_from_raw r = map_option larch_info (larch_row_of r)"

text \<open>
  Three control flow entries are irregular: \<^verbatim>\<open>R_LARCH_B16\<close> writes 16 bits with the 12-bit format
  \<^verbatim>\<open>Shift10\<close>, \<^verbatim>\<open>R_LARCH_CALL30\<close> leaves out two low bits without demanding an alignment, and the
  rounding of \<^verbatim>\<open>R_LARCH_CALL36\<close> can carry out of the 36 bits.
\<close>

definition larch_irregular :: "larch_reloc \<Rightarrow> bool" where
  "larch_irregular r \<longleftrightarrow>
     r = LA_Flow R_LARCH_B16 \<or> r = LA_Flow R_LARCH_CALL30 \<or> r = LA_Flow R_LARCH_CALL36"

lemmas larch_row_eval = row_eval larch_info_def

lemma larch_arith_row_ok: "entry_ok (larch_info (larch_arith_row r))"
  by (cases r) (simp_all add: larch_row_eval)

lemma larch_general_row_ok: "entry_ok (larch_info (larch_general_row r))"
  by (cases r) (simp_all add: larch_row_eval)

lemma larch_got_row_ok: "entry_ok (larch_info (larch_got_row r))"
  by (cases r) (simp_all add: larch_row_eval)

lemma larch_flow_row_ok:
  "\<not> larch_irregular (LA_Flow r) \<Longrightarrow> entry_ok (larch_info (larch_flow_row r))"
  by (cases r) (simp_all add: larch_row_eval larch_irregular_def)

lemma larch_tls_row_ok: "entry_ok (larch_info (larch_tls_row r))"
  by (cases r) (simp_all add: larch_row_eval)

lemma larch_tlsdesc_row_ok: "entry_ok (larch_info (larch_tlsdesc_row r))"
  by (cases r) (simp_all add: larch_row_eval)

lemma larch_misc_row_ok: "larch_misc_row r = Some row \<Longrightarrow> entry_ok (larch_info row)"
  by (cases r) (auto simp: larch_row_eval)

interpretation la_table: relocation_table larch_relocation_type_from_raw larch_irregular
proof unfold_locales
  fix r info
  assume "larch_relocation_type_from_raw r = Some info" "\<not> larch_irregular r"
  then show "entry_ok info"
    by (cases r) (auto simp: larch_relocation_type_from_raw_def larch_arith_row_ok
        larch_general_row_ok larch_got_row_ok larch_flow_row_ok larch_tls_row_ok
        larch_tlsdesc_row_ok intro: larch_misc_row_ok)
qed

section \<open>Relaxations\<close>

datatype larch_relaxation = LANoOp | LAReplaceWithNop

fun larch_apply :: "larch_relaxation \<Rightarrow> relax_site \<Rightarrow> relax_site option" where
  "larch_apply LANoOp (buf, off, add) = Some (buf, off, add)"
| "larch_apply LAReplaceWithNop (buf, off, add) = do {
     buf \<leftarrow> put_at buf (at off) [0x03, 0x40, 0x0, 0x0];
     Some (buf, off, add) }"

definition larch_next_modifier :: "larch_relaxation \<Rightarrow> relocation_modifier" where
  "larch_next_modifier k = Normal"

definition larch_byte_range :: "larch_relaxation \<Rightarrow> relaxation_byte_range" where
  "larch_byte_range k = \<lparr>offset_shift = 0, num_bytes = 4\<rparr>"

interpretation la_relax: relaxer larch_apply larch_byte_range 0 4
proof unfold_locales
  fix k buf off add buf' off' add'
  assume "larch_apply k (buf, off, add) = Some (buf', off', add')"
  then show "covered (larch_byte_range k) off buf buf'"
    by (cases k) (auto simp: covered_def larch_byte_range_def bind_eq_Some_conv
        intro: put_at_same_outside)
qed (simp_all add: larch_byte_range_def)

section \<open>The parts of a 64-bit address\<close>

text \<open>
  \<^verbatim>\<open>lu12i.w\<close>, \<^verbatim>\<open>ori\<close>, \<^verbatim>\<open>lu32i.d\<close> and \<^verbatim>\<open>lu52i.d\<close> build an address from its bits 12-31, 0-11, 32-51 and
  52-63, each an immediate written by its own relocation.
\<close>

lemma join_parts:
  "shl (extract_bit_range v 52 64) 52 OR shl (extract_bit_range v 32 52) 32
    OR shl (extract_bit_range v 12 32) 12 OR extract_bit_range v 0 12 = (v :: u64)"
  by (intro word64_eqI, unfold each_bit, simp add: bit_eval range_ok_def)

lemma larch_part_read_back:
  assumes "write_bit_mask (bit_mask_new (LoongArch64 i) a b) v out = Inr out'"
    and "i = Shift5 \<or> i = Shift10" "range_ok a b" "b - a = loongarch64_width i"
  shows "loongarch64_read_value i out' = Some (extract_bit_range v a b, False)"
proof -
  let ?x = "extract_bit_range v a b"
  have "loongarch64_write_to_value i ?x (is_negative v) out = Some out'"
    using assms(1) by (simp add: write_bit_mask_Inr_iff bit_mask_new_def)
  moreover have w: "unat ?x < 2 ^ loongarch64_width i"
    using extract_bit_range_bound [OF assms(3), of v] assms(4) by simp
  ultimately have "loongarch64_read_value i out' = Some (insn_norm (LoongArch64 i) ?x (is_negative v))"
    by (intro loongarch64_read_back) (use assms(2) in auto)
  moreover have "take_bit (loongarch64_width i) ?x = ?x"
    using w by (rule take_bit_of_small)
  ultimately show ?thesis using assms(2) by auto
qed

section \<open>The call of two instructions\<close>

text \<open>
  What \<^verbatim>\<open>pcaddu18i\<close> and \<^verbatim>\<open>jirl\<close> add to the program counter: 20 signed bits shifted by 18, and 16
  signed bits shifted by 2.
\<close>

definition call36_target :: "u64 \<Rightarrow> u64" where
  "call36_target w =
     shl (signed_take_bit 19 (shr w 5)) 18 + shl (signed_take_bit 15 (shr w 42)) 2"

lemma call36_target_written:
  assumes "unat x < 2 ^ 36"
  shows "call36_target (keep_set CALL36_CLEAR la_imm_call36 x neg w)
     = shl (signed_take_bit 19 (shr (x + 0x8000) 16)) 18 + shl (signed_take_bit 15 x) 2"
proof -
  have "take_bit 37 (x + 0x8000) = x + 0x8000"
    using add_8000_small [of x 36] assms by (intro take_bit_of_small) simp
  then obtain s where s: "x + 0x8000 = take_bit 37 s" by metis
  have "signed_take_bit 19 (shr (keep_set CALL36_CLEAR la_imm_call36 x neg w) 5)
      = signed_take_bit 19 (shr (x + 0x8000) 16)"
    unfolding keep_set_def la_imms s
    by (intro word64_eqI, unfold each_bit, simp add: bit_eval)
  moreover have "signed_take_bit 15 (shr (keep_set CALL36_CLEAR la_imm_call36 x neg w) 42)
      = signed_take_bit 15 x"
    unfolding keep_set_def la_imms s
    by (intro word64_eqI, unfold each_bit, simp add: bit_eval)
  ultimately show ?thesis by (simp only: call36_target_def)
qed

lemma call36_sum:
  assumes u: "- (2 ^ 35) - 0x8000 \<le> sint u" "sint u < 2 ^ 35 - 0x8000"
    and x: "x = take_bit 36 u"
  shows "shl (signed_take_bit 19 (shr (x + 0x8000) 16)) 18 + shl (signed_take_bit 15 x) 2
    = shl (u :: u64) 2"
proof -
  have e: "take_bit 36 (x + 0x8000) = take_bit 36 (u + 0x8000)"
    unfolding x by (rule take_bit_word_add) simp
  have b: "bit (x + 0x8000) n = bit (u + 0x8000) n" if "n < 36" for n
    using arg_cong [OF e, of "\<lambda>y. bit y n"] that by (simp add: bit_eval)
  have hi: "shl (signed_take_bit 19 (shr (x + 0x8000) 16)) 16
      = signed_take_bit 35 (u + 0x8000) AND NOT (mask 16)"
    by (intro word64_eqI, unfold each_bit, simp add: bit_eval b)
  have "sint (u + 0x8000) = sint u + 0x8000"
    using u by (simp add: sint_word_ariths signed_take_bit_int_eq_self)
  with u have "signed_take_bit 35 (u + 0x8000) = u + 0x8000"
    by (intro signed_take_bit_self) simp_all
  with hi have hi': "shl (signed_take_bit 19 (shr (x + 0x8000) 16)) 16 = u - signed_take_bit 15 u"
    using round_split [of 15 u] by simp
  have lo: "signed_take_bit 15 x = signed_take_bit 15 u"
    unfolding x by (intro word64_eqI, unfold each_bit, simp add: bit_eval)
  have "shl y 18 = shl (shl y 16) 2" for y :: u64
    by (intro word64_eqI, unfold each_bit, simp add: bit_eval)
  moreover have "shl y 2 + shl z 2 = shl (y + z) 2" for y z :: u64
    by (simp add: shl_def push_bit_eq_mult algebra_simps)
  ultimately show ?thesis by (simp add: hi' lo)
qed

lemma sar_shl_2:
  assumes "aligned_to 4 v"
  shows "shl (sar v 2) 2 = (v :: u64)"
proof -
  have z: "take_bit 2 v = 0" using aligned_low_bits [of 2 4 v] assms by simp
  have "\<not> bit v 0" "\<not> bit v 1"
    using arg_cong [OF z, of "\<lambda>x. bit x 0"] arg_cong [OF z, of "\<lambda>x. bit x 1"]
    by (simp_all add: bit_take_bit_word del: bit_0)
  then show ?thesis
    by (intro word64_eqI, unfold each_bit, simp add: bit_eval)
qed

definition call36_info :: "larch_reloc relocation_kind_info" where
  "call36_info = larch_info (larch_flow_row R_LARCH_CALL36)"

lemma call36_info_eval:
  "call36_info = \<lparr>kind = PltRelative, rel_size = BitMasking (bit_mask_new (LoongArch64 Call36) 2 38),
     page_mask = None, allowed = range_new (- (2 ^ 37)) (2 ^ 37), rel_alignment = 4, bias = 0,
     thunkable = False\<rparr>"
  by (simp add: call36_info_def larch_info_def bit_mask_loongarch64_def from_bit_size_def)

lemma call36_entry: "larch_relocation_type_from_raw (LA_Flow R_LARCH_CALL36) = Some call36_info"
  by (simp add: larch_relocation_type_from_raw_def call36_info_def)

lemma sint_sar_2: "sint (sar (v :: u64) 2) = sint v div 4"
  by (simp add: sar_def sint_signed_drop_bit_eq drop_bit_eq_div)

lemma replicate_8: "replicate 8 x = [x, x, x, x, x, x, x, x]"
  by (simp add: numeral_eq_Suc)

section \<open>Properties\<close>

text \<open>The four relocations of an absolute LoongArch64 address write its parts without overlap or
  gap: reading the four immediates back and joining them gives the address.\<close>

theorem larch_absolute_address:
  assumes "write_bit_mask (bit_mask_new (LoongArch64 Shift5) 12 32) v abs_hi = Inr abs_hi'"
    and "write_bit_mask (bit_mask_new (LoongArch64 Shift10) 0 12) v abs_lo = Inr abs_lo'"
    and "write_bit_mask (bit_mask_new (LoongArch64 Shift5) 32 52) v abs64_lo = Inr abs64_lo'"
    and "write_bit_mask (bit_mask_new (LoongArch64 Shift10) 52 64) v abs64_hi = Inr abs64_hi'"
  shows "\<exists>a b c d. loongarch64_read_value Shift5 abs_hi' = Some (a, False)
    \<and> loongarch64_read_value Shift10 abs_lo' = Some (b, False)
    \<and> loongarch64_read_value Shift5 abs64_lo' = Some (c, False)
    \<and> loongarch64_read_value Shift10 abs64_hi' = Some (d, False)
    \<and> shl d 52 OR shl c 32 OR shl a 12 OR b = v"
  using larch_part_read_back [OF assms(1)] larch_part_read_back [OF assms(2)]
    larch_part_read_back [OF assms(3)] larch_part_read_back [OF assms(4)] join_parts [of v]
  by (simp add: range_ok_def del: loongarch64_read_value.simps)

theorem larch_absolute_address_witness:
  "\<exists>a b c d. loongarch64_read_value Shift5 [0x80, 0xac, 0x8a, 0x14] = Some (a, False)
    \<and> loongarch64_read_value Shift10 [0x84, 0xe0, 0xa1, 0x03] = Some (b, False)
    \<and> loongarch64_read_value Shift5 [0x84, 0x0f, 0x00, 0x16] = Some (c, False)
    \<and> loongarch64_read_value Shift10 [0x84, 0x04, 0x00, 0x03] = Some (d, False)
    \<and> shl d 52 OR shl c 32 OR shl a 12 OR b = (0x0010007c45564878 :: u64)"
  by (rule larch_absolute_address [where abs_hi = "[0, 0, 0, 0x14]" and abs_lo = "[0x84, 0, 0x80, 0x03]"
        and abs64_lo = "[4, 0, 0, 0x16]" and abs64_hi = "[0x84, 0, 0, 3]"])
    (simp_all add: write_bit_mask_def bit_mask_new_def extract_bit_range_def shr_def shl_def to_le_def
      upt_rec mask_and_set_def)

text \<open>A LoongArch64 call of two instructions reaches its target: after \<^verbatim>\<open>R_LARCH_CALL36\<close> is applied,
  what the two instructions add to the program counter is the relocation's value, for every value
  that the pair can represent.\<close>

theorem larch_call36_target:
  assumes "write_to_buffer uleb call36_info v out = Inr out'"
    and "sint v < 2 ^ 37 - 0x20000"
  shows "\<exists>w. u64_from_slice out' = Some w \<and> call36_target w = v"
proof -
  let ?x = "extract_bit_range v 2 38"
  have al: "aligned_to 4 v" and lo: "- (2 ^ 37) \<le> sint v"
    using write_to_buffer_InrD [OF assms(1)] by (simp_all add: call36_info_eval)
  have "write_to_value (LoongArch64 Call36) ?x (is_negative v) out = Some out'"
    using assms(1)
    by (cases rule: write_to_buffer_Inr_cases)
      (simp_all add: call36_info_eval is_uleb_pair_def write_bit_mask_Inr_iff bit_mask_new_def)
  then have w: "loongarch64_write_to_value Call36 ?x (is_negative v) out = Some out'" by simp
  have x: "unat ?x < 2 ^ 36"
    using extract_bit_range_bound [of 2 38 v] by (simp add: range_ok_def)
  have eq: "?x = take_bit 36 (sar v 2)"
    by (intro word64_eqI, unfold each_bit, simp add: bit_eval range_ok_def)
  have word: "u64_from_slice out' = Some (keep_set CALL36_CLEAR la_imm_call36 ?x (is_negative v)
      (of_le (take 8 out)))"
    using patches_result [OF loongarch64_write_patches(6) w]
      patches_Some(1) [OF loongarch64_write_patches(6) w]
    by (simp add: u64_from_slice_def)
  have "call36_target (keep_set CALL36_CLEAR la_imm_call36 ?x (is_negative v) (of_le (take 8 out)))
      = shl (sar v 2) 2"
    using assms(2) lo
    by (simp only: call36_target_written [OF x])
      (rule call36_sum [OF _ _ eq]; simp add: sint_sar_2)
  with word sar_shl_2 [OF al] show ?thesis by simp
qed

theorem larch_call36_target_witness:
  "\<exists>w. u64_from_slice [0x01, 0x00, 0x00, 0x1e, 0x21, 0xf8, 0xff, 0x4f] = Some w
    \<and> call36_target w = (-8 :: u64)"
  by (rule larch_call36_target [where uleb = "\<lambda>_. []"
        and out = "[0x01, 0x00, 0x00, 0x1e, 0x21, 0x00, 0x00, 0x4c]"])
    (simp_all add: write_to_buffer_def verify_def call36_info_eval write_bit_mask_def
      bit_mask_new_def extract_bit_range_def shr_def shl_def to_le_def upt_rec mask_and_set_def
      CALL36_CLEAR_def)

text \<open>\<^verbatim>\<open>read_value\<close> is not the inverse of \<^verbatim>\<open>write_to_value\<close> for the two call formats: reading back a
  written 0 or 1 gives something else.\<close>

theorem larch_call_read_back:
  "\<exists>b36 b30. loongarch64_write_to_value Call36 0 False (replicate 8 0) = Some b36
     \<and> loongarch64_read_value Call36 b36 = Some (0xffff8000, False)
     \<and> loongarch64_write_to_value Call30 1 False (replicate 8 0) = Some b30
     \<and> loongarch64_read_value Call30 b30 = Some (0x4000, False)"
  by (simp add: replicate_8 mask_and_set_def CALL30_CLEAR_def CALL36_CLEAR_def shr_def shl_def
      to_le_def upt_rec u64_from_slice_def of_le_def loongarch64_dec_call36_def
      loongarch64_dec_call30_def)

text \<open>LoongArch64 relocations outside the three irregular control flow entries change only bits of
  the immediate field, and a checked value is represented.\<close>

theorem larch_relocation_write:
  assumes "larch_relocation_type_from_raw r = Some info" "\<not> larch_irregular r"
    and "write_to_buffer uleb info v out = Inr out'"
  shows "(allowed info \<noteq> no_check \<longrightarrow>
      signed_take_bit (reach (rel_size info) - 1) v = v \<or> take_bit (reach (rel_size info)) v = v)
    \<and> (\<forall>m n. \<not> is_uleb_pair info \<and> rel_size info = BitMasking m \<and> n < 8 * length out
        \<and> \<not> bit (insn_field (instruction m)) n \<longrightarrow> buf_bit out' n = buf_bit out n)"
  using la_table.value_fits [OF assms] la_table.write_confined [OF assms] by blast

definition b26_info :: "larch_reloc relocation_kind_info" where
  "b26_info = larch_info (larch_flow_row R_LARCH_B26)"

lemma b26_entry: "larch_relocation_type_from_raw (LA_Flow R_LARCH_B26) = Some b26_info"
  by (simp add: larch_relocation_type_from_raw_def b26_info_def)

lemma b26_run: "write_to_buffer (\<lambda>_. []) b26_info (-4) [0, 0, 0, 0x50] = Inr [0xff, 0xff, 0xff, 0x53]"
  by (simp add: write_to_buffer_def verify_def b26_info_def larch_info_def from_bit_size_def
      bit_mask_loongarch64_def write_bit_mask_def bit_mask_new_def extract_bit_range_def shr_def
      shl_def to_le_def upt_rec mask_and_set_def)

theorem larch_relocation_write_witness:
  "(signed_take_bit (reach (rel_size b26_info) - 1) (-4) = (-4 :: u64)
      \<or> take_bit (reach (rel_size b26_info)) (-4) = (-4 :: u64))
    \<and> buf_bit [0xff, 0xff, 0xff, 0x53] 30 = buf_bit [0, 0, 0, 0x50] 30"
proof -
  note th = larch_relocation_write [OF b26_entry _ b26_run]
  have "allowed b26_info \<noteq> no_check" "\<not> is_uleb_pair b26_info"
      "rel_size b26_info = BitMasking (bit_mask_new (LoongArch64 Branch26) 2 28)"
    by (simp_all add: b26_info_def larch_info_def bit_mask_loongarch64_def from_bit_size_def no_check_def range_new_def i64_min_def is_uleb_pair_def)
  with th show ?thesis by (simp add: bit_mask_new_def larch_irregular_def)
qed


end
