(* ===== verification/Reloc_Ppc64.thy ===== *)
theory Reloc_Ppc64
  imports Reloc_Table Relax_Site
begin

text \<open>
  PowerPC64 relocations: \<^verbatim>\<open>relocation_type_from_raw\<close> and \<^verbatim>\<open>impl RelaxationKind\<close> of
  \<^verbatim>\<open>crates/reld-reloc/src/ppc64.rs\<close>. The relocation types are the \<^verbatim>\<open>R_PPC64_*\<close> constants of the
  \<^verbatim>\<open>object\<close> crate that the code supports; \<open>Ppc64_Unknown\<close> is every other number.
\<close>

datatype ppc64_reloc =
    R_PPC64_ADDR64 | R_PPC64_ADDR32 | R_PPC64_REL64 | R_PPC64_REL32 | R_PPC64_REL24
  | R_PPC64_REL14 | R_PPC64_REL16_HA | R_PPC64_REL16_LO | R_PPC64_TOC16_HA | R_PPC64_TOC16_LO
  | R_PPC64_TOC16_LO_DS | Ppc64_Unknown u32

type_synonym ppc64_row =
  "ppc64_reloc relocation_kind \<times> relocation_size \<times> allowed_range \<times> nat \<times> u64"

fun ppc64_row_of :: "ppc64_reloc \<Rightarrow> ppc64_row option" where
  "ppc64_row_of R_PPC64_ADDR64 = Some (Absolute, ByteSize 8, no_check, 1, 0)"
| "ppc64_row_of R_PPC64_ADDR32 =
     Some (Absolute, ByteSize 4, range_new (- (2 ^ 31)) (2 ^ 32), 1, 0)"
| "ppc64_row_of R_PPC64_REL64 = Some (Relative, ByteSize 8, no_check, 1, 0)"
| "ppc64_row_of R_PPC64_REL32 = Some (Relative, ByteSize 4, const_range 32 Signed, 1, 0)"
| "ppc64_row_of R_PPC64_REL24 =
     Some (Relative, bit_mask_ppc64 0 26 Branch24, const_range 26 Signed, 4, 0)"
| "ppc64_row_of R_PPC64_REL14 =
     Some (Relative, bit_mask_ppc64 0 16 Branch14, const_range 16 Signed, 4, 0)"
| "ppc64_row_of R_PPC64_REL16_HA =
     Some (Relative, bit_mask_ppc64 16 32 D, no_check, 1, 0x8000)"
| "ppc64_row_of R_PPC64_REL16_LO = Some (Relative, bit_mask_ppc64 0 16 D, no_check, 1, 0)"
| "ppc64_row_of R_PPC64_TOC16_HA =
     Some (SymRelGotBase, bit_mask_ppc64 16 32 D, no_check, 1, 0x8000)"
| "ppc64_row_of R_PPC64_TOC16_LO = Some (SymRelGotBase, bit_mask_ppc64 0 16 D, no_check, 1, 0)"
| "ppc64_row_of R_PPC64_TOC16_LO_DS =
     Some (SymRelGotBase, bit_mask_ppc64 0 16 Ds, no_check, 4, 0)"
| "ppc64_row_of (Ppc64_Unknown _) = None"

definition ppc64_info :: "ppc64_row \<Rightarrow> ppc64_reloc relocation_kind_info" where
  "ppc64_info row =
     (case row of (k, sz, rng, al, b) \<Rightarrow>
        \<lparr>kind = k, rel_size = sz, page_mask = None, allowed = rng, rel_alignment = al, bias = b,
         thunkable = False\<rparr>)"

definition ppc64_relocation_type_from_raw :: "ppc64_reloc \<Rightarrow> ppc64_reloc relocation_kind_info option" where
  "ppc64_relocation_type_from_raw r = map_option ppc64_info (ppc64_row_of r)"

interpretation ppc_table: relocation_table ppc64_relocation_type_from_raw "\<lambda>_. False"
proof unfold_locales
  fix r info
  assume "ppc64_relocation_type_from_raw r = Some info"
  then show "entry_ok info"
    by (cases r) (auto simp: ppc64_relocation_type_from_raw_def ppc64_info_def row_eval)
qed

datatype ppc64_relaxation = PpcNoOp

fun ppc64_apply :: "ppc64_relaxation \<Rightarrow> relax_site \<Rightarrow> relax_site option" where
  "ppc64_apply PpcNoOp (buf, off, add) = Some (buf, off, add)"

definition ppc64_next_modifier :: "ppc64_relaxation \<Rightarrow> relocation_modifier" where
  "ppc64_next_modifier k = Normal"

interpretation ppc_relax: relaxer ppc64_apply "\<lambda>k. byte_range_new 0 0" 0 0
proof unfold_locales
  fix k buf off add buf' off' add'
  assume "ppc64_apply k (buf, off, add) = Some (buf', off', add')"
  then show "covered (byte_range_new 0 0) off buf buf'" by (cases k) (simp add: covered_def)
qed (simp_all add: byte_range_new_def)

section \<open>The two halves of an offset\<close>

text \<open>
  \<^verbatim>\<open>addis\<close> adds its 16 signed bits shifted by 16, the second instruction its 16 signed bits. The
  upper half is written for the value plus the \<^verbatim>\<open>bias\<close> of the entry.
\<close>

definition half :: "u8 list \<Rightarrow> u64" where
  "half buf = signed_take_bit 15 (fst (the (ppc64_read_value D buf)))"

lemma d_form_written:
  assumes "write_bit_mask (bit_mask_new (Ppc64 D) a b) v out = Inr out'" "range_ok a b"
  shows "ppc64_read_value D out' = Some (extract_bit_range v a b AND 0xffff, False)"
proof -
  let ?x = "extract_bit_range v a b"
  have "ppc64_write_to_value D ?x (is_negative v) out = Some out'"
    using assms(1) by (simp add: write_bit_mask_Inr_iff bit_mask_new_def)
  then show ?thesis using ppc64_read_back_bytes [of D ?x] by simp
qed

lemma ha_lo_sum:
  assumes "- (2 ^ 31) - 0x8000 \<le> sint v" "sint v < 2 ^ 31 - 0x8000"
  shows "shl (signed_take_bit 15 (extract_bit_range (v + 0x8000) 16 32 AND 0xffff)) 16
    + signed_take_bit 15 (extract_bit_range v 0 16 AND 0xffff) = (v :: u64)"
proof -
  have "sint (v + 0x8000) = sint v + 0x8000"
    using assms by (simp add: sint_word_ariths signed_take_bit_int_eq_self)
  with assms have "signed_take_bit 31 (v + 0x8000) = v + 0x8000"
    by (intro signed_take_bit_self) simp_all
  moreover have "shl (signed_take_bit 15 (extract_bit_range (v + 0x8000) 16 32 AND 0xffff)) 16
      = signed_take_bit 31 (v + 0x8000) AND NOT (mask 16)"
    by (intro word64_eqI, unfold each_bit, simp add: bit_eval range_ok_def)
  moreover have "signed_take_bit 15 (extract_bit_range v 0 16 AND 0xffff) = signed_take_bit 15 v"
    by (intro word64_eqI, unfold each_bit, simp add: bit_eval range_ok_def)
  ultimately show ?thesis using round_split [of 15 v] by simp
qed

section \<open>Properties\<close>

text \<open>A PowerPC64 \<^verbatim>\<open>@ha\<close>/\<^verbatim>\<open>@lo\<close> pair adds up to its offset: with the bias that the table gives the
  \<^verbatim>\<open>@ha\<close> entry and no bias for the \<^verbatim>\<open>@lo\<close> entry, the two signed halves that the instructions add are
  the value, for both pairs of the table and every value the pair can represent.\<close>

theorem ppc64_ha_lo_pair:
  assumes "(ha, lo) \<in> {(R_PPC64_REL16_HA, R_PPC64_REL16_LO), (R_PPC64_TOC16_HA, R_PPC64_TOC16_LO)}"
    and "ppc64_relocation_type_from_raw ha = Some ha_info"
    and "ppc64_relocation_type_from_raw lo = Some lo_info"
    and "write_to_buffer uleb ha_info (v + bias ha_info) addis = Inr addis'"
    and "write_to_buffer uleb lo_info (v + bias lo_info) insn = Inr insn'"
    and "- (2 ^ 31) - 0x8000 \<le> sint v" "sint v < 2 ^ 31 - 0x8000"
  shows "shl (half addis') 16 + half insn' = v"
proof -
  have "write_bit_mask (bit_mask_new (Ppc64 D) 16 32) (v + 0x8000) addis = Inr addis'"
    using assms(4,1,2)
    by (cases rule: write_to_buffer_Inr_cases)
      (auto simp: ppc64_relocation_type_from_raw_def ppc64_info_def is_uleb_pair_def bit_mask_ppc64_def)
  moreover have "write_bit_mask (bit_mask_new (Ppc64 D) 0 16) v insn = Inr insn'"
    using assms(5,1,3)
    by (cases rule: write_to_buffer_Inr_cases)
      (auto simp: ppc64_relocation_type_from_raw_def ppc64_info_def is_uleb_pair_def bit_mask_ppc64_def)
  ultimately show ?thesis
    using ha_lo_sum [OF assms(6,7)] by (simp add: half_def d_form_written range_ok_def)
qed

theorem ppc64_ha_lo_pair_witness:
  "shl (half [0x02, 0x00, 0x4c, 0x3c]) 16 + half [0x88, 0xff, 0x42, 0x38] = (0x1ff88 :: u64)"
  by (rule ppc64_ha_lo_pair [where ha = R_PPC64_REL16_HA and lo = R_PPC64_REL16_LO
        and ha_info = "ppc64_info (Relative, bit_mask_ppc64 16 32 D, no_check, 1, 0x8000)"
        and lo_info = "ppc64_info (Relative, bit_mask_ppc64 0 16 D, no_check, 1, 0)"
        and addis = "[0, 0, 0x4c, 0x3c]" and insn = "[0, 0, 0x42, 0x38]" and uleb = "\<lambda>_. []"])
    (simp_all add: ppc64_relocation_type_from_raw_def ppc64_info_def write_to_buffer_def verify_def
      bit_mask_ppc64_def bit_mask_new_def write_bit_mask_def extract_bit_range_def shr_def shl_def
      no_check_def i64_min_def i64_max_def
      ppc64_write_to_value_def u32_from_slice_def of_le_def put_at_def to_le_def upt_rec)

text \<open>A successful PowerPC64 branch relocation leaves the opcode and link bits of the instruction
  alone and the field holds the whole offset: reading the field back with its sign gives it.\<close>

theorem ppc64_branch_offset:
  assumes "ppc64_relocation_type_from_raw R_PPC64_REL24 = Some info"
    and "write_to_buffer uleb info v out = Inr out'"
  shows "\<exists>x. ppc64_read_value Branch24 out' = Some (x, False) \<and> signed_take_bit 25 x = v
    \<and> (\<forall>n. n < 8 * length out \<and> \<not> bit (0x03fffffc :: u64) n \<longrightarrow> buf_bit out' n = buf_bit out n)"
proof -
  let ?x = "extract_bit_range v 0 26"
  have info: "info = \<lparr>kind = Relative, rel_size = BitMasking (bit_mask_new (Ppc64 Branch24) 0 26),
     page_mask = None, allowed = range_new (- (2 ^ 25)) (2 ^ 25), rel_alignment = 4, bias = 0,
     thunkable = False\<rparr>"
    using assms(1) by (simp add: ppc64_relocation_type_from_raw_def ppc64_info_def bit_mask_ppc64_def
        from_bit_size_def)
  have al: "take_bit 2 v = 0" and rng: "signed_take_bit 25 v = v"
    using write_to_buffer_InrD [OF assms(2)] aligned_low_bits [of 2 4 v]
    by (simp_all add: info signed_take_bit_self)
  have w: "ppc64_write_to_value Branch24 ?x (is_negative v) out = Some out'"
    using assms(2)
    by (cases rule: write_to_buffer_Inr_cases)
      (simp_all add: info is_uleb_pair_def write_bit_mask_Inr_iff bit_mask_new_def)
  have "\<not> bit v 0" "\<not> bit v 1"
    using arg_cong [OF al, of "\<lambda>x. bit x 0"] arg_cong [OF al, of "\<lambda>x. bit x 1"]
    by (simp_all add: bit_take_bit_word del: bit_0)
  then have "signed_take_bit 25 (?x AND 0x03fffffc) = signed_take_bit 25 v"
    by (intro word64_eqI, unfold each_bit, simp add: bit_eval range_ok_def)
  moreover have "ppc64_read_value Branch24 out' = Some (?x AND 0x03fffffc, False)"
    using ppc64_read_back_bytes [OF w] by simp
  moreover have "\<forall>n. n < 8 * length out \<and> \<not> bit (0x03fffffc :: u64) n \<longrightarrow> buf_bit out' n = buf_bit out n"
    using ppc_table.write_confined [OF assms(1) _ assms(2), of "bit_mask_new (Ppc64 Branch24) 0 26"]
    by (simp add: info is_uleb_pair_def bit_mask_new_def)
  ultimately show ?thesis using rng by simp
qed

theorem ppc64_branch_offset_witness:
  "\<exists>x. ppc64_read_value Branch24 [0xfd, 0xff, 0xff, 0x4b] = Some (x, False)
    \<and> signed_take_bit 25 x = (-4 :: u64)
    \<and> buf_bit [0xfd, 0xff, 0xff, 0x4b] 0 = buf_bit [0x01, 0, 0, 0x48] 0"
proof -
  have info: "ppc64_relocation_type_from_raw R_PPC64_REL24
      = Some (ppc64_info (Relative, bit_mask_ppc64 0 26 Branch24, const_range 26 Signed, 4, 0))"
    by (simp add: ppc64_relocation_type_from_raw_def)
  have "write_to_buffer (\<lambda>_. [])
      (ppc64_info (Relative, bit_mask_ppc64 0 26 Branch24, const_range 26 Signed, 4, 0)) (-4)
      [0x01, 0, 0, 0x48] = Inr [0xfd, 0xff, 0xff, 0x4b]"
    by (simp add: ppc64_info_def write_to_buffer_def verify_def from_bit_size_def
        bit_mask_ppc64_def bit_mask_new_def write_bit_mask_def extract_bit_range_def shr_def shl_def
        ppc64_write_to_value_def u32_from_slice_def of_le_def put_at_def to_le_def upt_rec)
  from ppc64_branch_offset [OF info this] show ?thesis by fastforce
qed

end
