(* ===== verification/Relax_Deltas.thy ===== *)
theory Relax_Deltas
  imports Prelude "HOL-Library.Monad_Syntax"
begin

text \<open>
  Deletion of bytes from an input section (\<^verbatim>\<open>reld-reloc/src/relaxation.rs\<close>): the sorted list of
  deletions of one section, the translation of offsets in both directions, the cursor that
  translates a run of offsets, the copy of the kept bytes into the output (\<^verbatim>\<open>elf_writer.rs\<close>) and the
  map from section numbers to deletion lists.

  The invariant \<open>deltas_ok\<close> says that deletions are not empty, do not overlap, do not wrap around
  the 64-bit offset and carry their running total. Under it, translation is a bijection between
  kept input offsets and output offsets, and the copied section holds each kept byte at its
  translated offset.
\<close>

section \<open>Deletions of one section\<close>

record relax_delta =
  input_offset :: u64
  cumulative_deleted :: u64
  bytes_deleted :: u32

type_synonym section_relax_deltas = "relax_delta list"

text \<open>\<^verbatim>\<open>SectionRelaxDeltas::new\<close>: the loop with the running total.\<close>

fun push_deltas :: "u64 \<Rightarrow> (u64 \<times> u32) list \<Rightarrow> section_relax_deltas" where
  "push_deltas running [] = []"
| "push_deltas running ((offset, bytes) # raw) =
     (let running = running + ucast bytes
      in \<lparr>input_offset = offset, cumulative_deleted = running, bytes_deleted = bytes\<rparr>
         # push_deltas running raw)"

definition deltas_new :: "(u64 \<times> u32) list \<Rightarrow> section_relax_deltas" where
  "deltas_new raw = push_deltas 0 raw"

definition total_deleted :: "section_relax_deltas \<Rightarrow> u64" where
  "total_deleted ds = (if ds = [] then 0 else cumulative_deleted (last ds))"

definition merge_additional :: "section_relax_deltas \<Rightarrow> (u64 \<times> u32) list \<Rightarrow> section_relax_deltas" where
  "merge_additional ds additional =
     (if additional = [] then ds
      else deltas_new (sort_key fst (map (\<lambda>d. (input_offset d, bytes_deleted d)) ds @ additional)))"

definition has_delta_at :: "section_relax_deltas \<Rightarrow> u64 \<Rightarrow> bool" where
  "has_delta_at ds offset \<longleftrightarrow> binary_search_by_key input_offset offset ds \<noteq> None"

definition delta_bytes_at :: "section_relax_deltas \<Rightarrow> u64 \<Rightarrow> u32" where
  "delta_bytes_at ds offset =
     (case binary_search_by_key input_offset offset ds of
        None \<Rightarrow> 0
      | Some i \<Rightarrow> bytes_deleted (ds ! i))"

definition input_to_output_offset :: "section_relax_deltas \<Rightarrow> u64 \<Rightarrow> u64" where
  "input_to_output_offset ds offset =
     (if ds = [] then offset
      else let idx = partition_point (\<lambda>d. input_offset d < offset) ds
        in if idx = 0 then offset else offset - cumulative_deleted (ds ! (idx - 1)))"

definition output_to_input_offset :: "section_relax_deltas \<Rightarrow> u64 \<Rightarrow> u64" where
  "output_to_input_offset ds offset =
     (if ds = [] then offset
      else let lo = partition_point (\<lambda>d.
             input_offset d + ucast (bytes_deleted d) - cumulative_deleted d \<le> offset) ds
        in if lo = 0 then offset else offset + cumulative_deleted (ds ! (lo - 1)))"

definition opt_input_to_output :: "section_relax_deltas option \<Rightarrow> u64 \<Rightarrow> u64" where
  "opt_input_to_output deltas offset =
     (case deltas of Some d \<Rightarrow> input_to_output_offset d offset | None \<Rightarrow> offset)"

section \<open>The cursor\<close>

record relax_cursor =
  cursor_deltas :: section_relax_deltas
  cursor_index :: nat
  current_cumulative :: u64

definition deltas_cursor :: "section_relax_deltas \<Rightarrow> relax_cursor" where
  "deltas_cursor ds = \<lparr>cursor_deltas = ds, cursor_index = 0, current_cumulative = 0\<rparr>"

text \<open>The loop of \<^verbatim>\<open>translate\<close> and the result it computes.\<close>

function cursor_advance :: "relax_cursor \<Rightarrow> u64 \<Rightarrow> relax_cursor" where
  "cursor_advance c offset =
     (if cursor_index c < length (cursor_deltas c)
         \<and> input_offset (cursor_deltas c ! cursor_index c) < offset
      then cursor_advance
             (c\<lparr>current_cumulative := cumulative_deleted (cursor_deltas c ! cursor_index c),
                cursor_index := cursor_index c + 1\<rparr>) offset
      else c)"
  by pat_completeness auto
termination
  by (relation "measure (\<lambda>(c, _). length (cursor_deltas c) - cursor_index c)") auto

declare cursor_advance.simps [simp del]

definition cursor_translate :: "relax_cursor \<Rightarrow> u64 \<Rightarrow> u64 \<times> relax_cursor" where
  "cursor_translate c offset =
     (let c = cursor_advance c offset in (offset - current_cumulative c, c))"

fun translate_run :: "relax_cursor \<Rightarrow> u64 list \<Rightarrow> u64 list" where
  "translate_run c [] = []"
| "translate_run c (offset # offsets) =
     (let (out, c) = cursor_translate c offset in out # translate_run c offsets)"

section \<open>Copying the kept bytes\<close>

text \<open>
  The loop of \<^verbatim>\<open>populate_section_output\<close> over the deletions, and the copy of what follows the last
  one. A slice with its start behind its end panics, as does one past the end of its buffer.
\<close>

fun copy_kept ::
    "section_relax_deltas \<Rightarrow> u8 list \<Rightarrow> nat \<Rightarrow> nat \<Rightarrow> u8 list \<Rightarrow> (nat \<times> nat \<times> u8 list) option" where
  "copy_kept [] input input_pos output_pos out = Some (input_pos, output_pos, out)"
| "copy_kept (delta # ds) input input_pos output_pos out =
     (let skip_start = unat (input_offset delta);
          next_pos = skip_start + unat (bytes_deleted delta)
      in if skip_start < input_pos then None
         else if skip_start - input_pos = 0 then copy_kept ds input next_pos output_pos out
         else do {
           bytes \<leftarrow> window input (int input_pos) (skip_start - input_pos);
           out \<leftarrow> put_at out (int output_pos) bytes;
           copy_kept ds input next_pos (output_pos + (skip_start - input_pos)) out })"

definition copy_relaxed :: "section_relax_deltas \<Rightarrow> u8 list \<Rightarrow> u8 list \<Rightarrow> (nat \<times> u8 list) option" where
  "copy_relaxed ds input out = do {
     (input_pos, output_pos, out) \<leftarrow> copy_kept ds input 0 0 out;
     if length input < input_pos then None
     else if length input - input_pos = 0 then Some (output_pos, out)
     else do {
       bytes \<leftarrow> window input (int input_pos) (length input - input_pos);
       out \<leftarrow> put_at out (int output_pos) bytes;
       Some (output_pos + (length input - input_pos), out) } }"

section \<open>The invariant\<close>

text \<open>
  Pairs from \<open>pos\<close> on: non-empty, ascending, disjoint, within 64 bits. The debug assertions of
  \<^verbatim>\<open>new\<close> and \<^verbatim>\<open>merge_additional\<close> demand the ascending part.
\<close>

fun raw_from :: "nat \<Rightarrow> (u64 \<times> u32) list \<Rightarrow> bool" where
  "raw_from pos [] \<longleftrightarrow> True"
| "raw_from pos ((offset, bytes) # raw) \<longleftrightarrow>
     pos \<le> unat offset \<and> 0 < unat bytes \<and> unat offset + unat bytes < 2 ^ 64
     \<and> raw_from (unat offset + unat bytes) raw"

fun deltas_from :: "nat \<Rightarrow> nat \<Rightarrow> section_relax_deltas \<Rightarrow> bool" where
  "deltas_from pos cum [] \<longleftrightarrow> True"
| "deltas_from pos cum (d # ds) \<longleftrightarrow>
     pos \<le> unat (input_offset d) \<and> 0 < unat (bytes_deleted d)
     \<and> unat (input_offset d) + unat (bytes_deleted d) < 2 ^ 64
     \<and> unat (cumulative_deleted d) = cum + unat (bytes_deleted d)
     \<and> deltas_from (unat (input_offset d) + unat (bytes_deleted d)) (cum + unat (bytes_deleted d)) ds"

abbreviation deltas_ok :: "section_relax_deltas \<Rightarrow> bool" where
  "deltas_ok ds \<equiv> deltas_from 0 0 ds"

text \<open>The abstract view: which input bytes a list deletes.\<close>

definition is_deleted :: "section_relax_deltas \<Rightarrow> nat \<Rightarrow> bool" where
  "is_deleted ds i \<longleftrightarrow>
     list_ex (\<lambda>d. unat (input_offset d) \<le> i \<and> i < unat (input_offset d) + unat (bytes_deleted d)) ds"

definition kept_below :: "section_relax_deltas \<Rightarrow> nat \<Rightarrow> nat" where
  "kept_below ds i = length (filter (\<lambda>j. \<not> is_deleted ds j) [0..<i])"

section \<open>Translation as a walk over the deletions\<close>

fun shift_from :: "u64 \<Rightarrow> section_relax_deltas \<Rightarrow> u64 \<Rightarrow> u64" where
  "shift_from cum [] i = i - cum"
| "shift_from cum (d # ds) i =
     (if input_offset d < i then shift_from (cumulative_deleted d) ds i else i - cum)"

fun unshift_from :: "u64 \<Rightarrow> section_relax_deltas \<Rightarrow> u64 \<Rightarrow> u64" where
  "unshift_from cum [] i = i + cum"
| "unshift_from cum (d # ds) i =
     (if input_offset d + ucast (bytes_deleted d) - cumulative_deleted d \<le> i
      then unshift_from (cumulative_deleted d) ds i else i + cum)"

lemma last_before_Suc:
  "(if n = 0 then x else f (ys ! (n - 1))) =
     (let zs = y # ys in if Suc n = 1 then x else f (zs ! n))"
  by (cases n) auto

lemma shift_from_index:
  "shift_from cum ds i =
     (let idx = partition_point (\<lambda>d. input_offset d < i) ds
      in if idx = 0 then i - cum else i - cumulative_deleted (ds ! (idx - 1)))"
  by (induction ds arbitrary: cum) (auto simp: Let_def nth_Cons split: nat.splits)

lemma unshift_from_index:
  "unshift_from cum ds i =
     (let lo = partition_point (\<lambda>d.
         input_offset d + ucast (bytes_deleted d) - cumulative_deleted d \<le> i) ds
      in if lo = 0 then i + cum else i + cumulative_deleted (ds ! (lo - 1)))"
  by (induction ds arbitrary: cum) (auto simp: Let_def nth_Cons split: nat.splits)

lemma input_to_output_shift: "input_to_output_offset ds i = shift_from 0 ds i"
  by (simp add: input_to_output_offset_def shift_from_index Let_def)

lemma output_to_input_unshift: "output_to_input_offset ds i = unshift_from 0 ds i"
  by (simp add: output_to_input_offset_def unshift_from_index Let_def)

text \<open>The cursor walks the same list, but never goes back.\<close>

abbreviation cursor_rest :: "relax_cursor \<Rightarrow> section_relax_deltas" where
  "cursor_rest c \<equiv> drop (cursor_index c) (cursor_deltas c)"

definition cursor_moves :: "relax_cursor \<Rightarrow> u64 \<Rightarrow> bool" where
  "cursor_moves c i \<longleftrightarrow> cursor_index c < length (cursor_deltas c)
     \<and> input_offset (cursor_deltas c ! cursor_index c) < i"

lemma cursor_stays: "\<not> cursor_moves c i \<Longrightarrow> cursor_advance c i = c"
  by (simp only: cursor_moves_def cursor_advance.simps [of c i] if_False)

lemma cursor_steps:
  "cursor_moves c i \<Longrightarrow> cursor_advance c i =
      cursor_advance (c\<lparr>current_cumulative := cumulative_deleted (cursor_deltas c ! cursor_index c),
                        cursor_index := cursor_index c + 1\<rparr>) i"
  by (simp only: cursor_moves_def cursor_advance.simps [of c i] if_True simp_thms)

lemma cursor_moves_rest:
  "cursor_moves c i \<Longrightarrow>
     cursor_rest c = (cursor_deltas c ! cursor_index c) # drop (Suc (cursor_index c)) (cursor_deltas c)"
  by (simp add: cursor_moves_def Cons_nth_drop_Suc)

lemma shift_from_moves:
  assumes "cursor_moves c i" "i \<le> j"
  shows "shift_from (current_cumulative c) (cursor_rest c) j =
     shift_from (cumulative_deleted (cursor_deltas c ! cursor_index c))
       (drop (Suc (cursor_index c)) (cursor_deltas c)) j"
  using assms by (simp add: cursor_moves_rest) (auto simp: cursor_moves_def)

lemma shift_from_stays:
  assumes "\<not> cursor_moves c i"
  shows "shift_from (current_cumulative c) (cursor_rest c) i = i - current_cumulative c"
proof (cases "cursor_rest c")
  case (Cons d ds)
  then have "cursor_index c < length (cursor_deltas c)"
    by (metis drop_eq_Nil2 list.discI not_le)
  with Cons assms show ?thesis
    by (auto simp: cursor_moves_def dest: nth_via_drop)
qed simp

lemma cursor_advance_value:
  "i - current_cumulative (cursor_advance c i) = shift_from (current_cumulative c) (cursor_rest c) i"
proof (induction c i rule: cursor_advance.induct)
  case (1 c i)
  show ?case
  proof (cases "cursor_moves c i")
    case True
    with 1 have "i - current_cumulative (cursor_advance c i) =
        shift_from (cumulative_deleted (cursor_deltas c ! cursor_index c))
          (drop (Suc (cursor_index c)) (cursor_deltas c)) i"
      by (simp add: cursor_steps [OF True]) (simp add: cursor_moves_def)
    then show ?thesis by (simp add: shift_from_moves [OF True])
  qed (simp add: cursor_stays shift_from_stays)
qed

lemma cursor_advance_later:
  "i \<le> j \<Longrightarrow>
     shift_from (current_cumulative (cursor_advance c i)) (cursor_rest (cursor_advance c i)) j
     = shift_from (current_cumulative c) (cursor_rest c) j"
proof (induction c i rule: cursor_advance.induct)
  case (1 c i)
  show ?case
  proof (cases "cursor_moves c i")
    case True
    with 1 have "shift_from (current_cumulative (cursor_advance c i)) (cursor_rest (cursor_advance c i)) j =
        shift_from (cumulative_deleted (cursor_deltas c ! cursor_index c))
          (drop (Suc (cursor_index c)) (cursor_deltas c)) j"
      by (simp add: cursor_steps [OF True]) (simp add: cursor_moves_def)
    then show ?thesis using True 1(2) by (simp add: shift_from_moves)
  qed (simp add: cursor_stays)
qed

lemma translate_run_shift:
  "sorted offsets \<Longrightarrow>
     translate_run c offsets = map (shift_from (current_cumulative c) (cursor_rest c)) offsets"
proof (induction offsets arbitrary: c)
  case (Cons i offsets)
  then show ?case
    by (auto simp: cursor_translate_def Let_def cursor_advance_value cursor_advance_later)
qed simp

section \<open>The invariant is kept\<close>

lemma unat_ucast_u32: "unat (ucast (n :: u32) :: u64) = unat n"
  using unsigned_less [where 'a = nat, of n]
  by (simp add: unsigned_ucast_eq take_bit_nat_eq_self)

lemma push_deltas_from:
  "raw_from pos raw \<Longrightarrow> unat running \<le> pos \<Longrightarrow> deltas_from pos (unat running) (push_deltas running raw)"
proof (induction raw arbitrary: pos running)
  case (Cons r raw)
  obtain off n where r: "r = (off, n)" by (cases r)
  have sum: "unat (running + ucast n) = unat running + unat n"
    using Cons.prems by (simp add: r unat_word_ariths unat_ucast_u32)
  have "deltas_from (unat off + unat n) (unat (running + ucast n)) (push_deltas (running + ucast n) raw)"
    by (rule Cons.IH) (use Cons.prems in \<open>simp_all add: r sum\<close>)
  with Cons.prems show ?case by (simp add: r sum Let_def)
qed simp

lemma deltas_from_raw:
  "deltas_from pos cum ds \<Longrightarrow> raw_from pos (map (\<lambda>d. (input_offset d, bytes_deleted d)) ds)"
  by (induction ds arbitrary: pos cum) auto

lemma raw_from_starts:
  "raw_from pos raw \<Longrightarrow> pos \<le> p \<Longrightarrow> list_all (\<lambda>(off, n). p \<le> unat off) raw \<Longrightarrow> raw_from p raw"
  by (cases raw) auto

lemma deltas_from_strict:
  "deltas_from pos cum ds \<Longrightarrow> strictly_by input_offset ds \<and> list_all (\<lambda>d. pos \<le> unat (input_offset d)) ds"
proof (induction ds arbitrary: pos cum)
  case (Cons d ds)
  then have "list_all (\<lambda>e. unat (input_offset d) + unat (bytes_deleted d) \<le> unat (input_offset e)) ds"
    and "strictly_by input_offset ds" "pos \<le> unat (input_offset d)" "0 < unat (bytes_deleted d)"
    by auto
  then show ?case by (force simp: list_all_iff word_less_nat_alt)
qed simp

section \<open>Kept bytes\<close>

lemma is_deleted_Cons [simp]:
  "is_deleted (d # ds) i \<longleftrightarrow>
     unat (input_offset d) \<le> i \<and> i < unat (input_offset d) + unat (bytes_deleted d) \<or> is_deleted ds i"
  by (auto simp: is_deleted_def)

lemma is_deleted_Nil [simp]: "\<not> is_deleted [] i"
  by (simp add: is_deleted_def)

lemma not_deleted_before: "deltas_from pos cum ds \<Longrightarrow> i < pos \<Longrightarrow> \<not> is_deleted ds i"
  by (induction ds arbitrary: pos cum) fastforce+

abbreviation kept_range :: "section_relax_deltas \<Rightarrow> nat \<Rightarrow> nat \<Rightarrow> nat list" where
  "kept_range ds a b \<equiv> filter (\<lambda>j. \<not> is_deleted ds j) [a..<b]"

lemma kept_range_before:
  assumes "deltas_from pos cum (d # ds)" "e \<le> unat (input_offset d)"
  shows "kept_range (d # ds) pos e = [pos..<e]"
  using assms not_deleted_before [of _ _ ds] by (intro filter_True) auto

lemma kept_range_over:
  assumes "deltas_from pos cum (d # ds)" "unat (input_offset d) + unat (bytes_deleted d) \<le> e"
  shows "kept_range (d # ds) pos e = [pos..<unat (input_offset d)]
    @ kept_range ds (unat (input_offset d) + unat (bytes_deleted d)) e"
proof -
  let ?o = "unat (input_offset d)" and ?n = "unat (bytes_deleted d)"
  have "[pos..<e] = [pos..<?o] @ [?o..<?o + ?n] @ [?o + ?n..<e]"
    using assms upt_add_eq_append [of pos ?o "e - ?o"] upt_add_eq_append [of ?o "?o + ?n" "e - ?o - ?n"]
    by simp
  moreover have "filter (\<lambda>j. \<not> is_deleted (d # ds) j) [?o..<?o + ?n] = []"
    by (auto simp: filter_empty_conv)
  moreover have "filter (\<lambda>j. \<not> is_deleted (d # ds) j) [?o + ?n..<e] = kept_range ds (?o + ?n) e"
    by (rule filter_cong) auto
  ultimately show ?thesis
    using kept_range_before [OF assms(1) order_refl] by simp
qed

text \<open>An offset that is not strictly inside a deletion.\<close>

definition at_boundary :: "section_relax_deltas \<Rightarrow> nat \<Rightarrow> bool" where
  "at_boundary ds i \<longleftrightarrow>
     list_all (\<lambda>d. i \<le> unat (input_offset d) \<or> unat (input_offset d) + unat (bytes_deleted d) \<le> i) ds"

lemma at_boundary_kept: "\<not> is_deleted ds i \<Longrightarrow> at_boundary ds i"
  by (auto simp: at_boundary_def is_deleted_def list_all_iff list_ex_iff)

lemma at_boundary_Nil [simp]: "at_boundary [] i"
  by (simp add: at_boundary_def)

lemma at_boundary_Cons [simp]:
  "at_boundary (d # ds) i \<longleftrightarrow>
     (i \<le> unat (input_offset d) \<or> unat (input_offset d) + unat (bytes_deleted d) \<le> i) \<and> at_boundary ds i"
  by (simp add: at_boundary_def)

lemma shift_from_kept:
  assumes "deltas_from pos (unat cum) ds" "unat cum \<le> pos" "pos \<le> unat i" "at_boundary ds (unat i)"
  shows "unat (shift_from cum ds i) = pos - unat cum + length (kept_range ds pos (unat i))"
  using assms
proof (induction ds arbitrary: pos cum)
  case Nil
  then show ?case by (simp add: unat_sub word_le_nat_alt)
next
  case (Cons d ds)
  let ?o = "unat (input_offset d)" and ?n = "unat (bytes_deleted d)"
  show ?case
  proof (cases "input_offset d < i")
    case True
    then have e: "?o + ?n \<le> unat i" using Cons.prems by (auto simp: word_less_nat_alt)
    have "unat (shift_from (cumulative_deleted d) ds i)
        = (?o + ?n) - (unat cum + ?n) + length (kept_range ds (?o + ?n) (unat i))"
      using Cons.prems e by (subst Cons.IH [of "?o + ?n"]) auto
    moreover have "length (kept_range (d # ds) pos (unat i))
        = (?o - pos) + length (kept_range ds (?o + ?n) (unat i))"
      by (simp only: kept_range_over [OF Cons.prems(1) e] length_append length_upt)
    ultimately show ?thesis using True Cons.prems(1,2) by (simp del: is_deleted_Cons)
  next
    case False
    then have "unat i \<le> ?o" by (simp add: word_le_nat_alt not_less)
    with False Cons.prems show ?thesis
      by (simp add: kept_range_before [OF Cons.prems(1)] unat_sub word_le_nat_alt
          del: is_deleted_Cons)
  qed
qed

lemma input_to_output_kept_below:
  "deltas_ok ds \<Longrightarrow> at_boundary ds (unat i) \<Longrightarrow>
     unat (input_to_output_offset ds i) = kept_below ds (unat i)"
  using shift_from_kept [of 0 0 ds i] by (simp add: input_to_output_shift kept_below_def)

section \<open>Both directions\<close>

lemma delta_key:
  assumes "deltas_from pos (unat cum) (d # ds)"
  shows "input_offset d + ucast (bytes_deleted d) - cumulative_deleted d = input_offset d - cum"
proof -
  have "cumulative_deleted d = cum + ucast (bytes_deleted d)"
    using assms unsigned_less [where 'a = nat, of "cumulative_deleted d"]
    by (intro word_unat_eq_iff [THEN iffD2]) (simp add: unat_word_ariths unat_ucast_u32)
  then show ?thesis by simp
qed

lemma unshift_of_shift:
  assumes "deltas_from pos (unat cum) ds" "unat cum \<le> pos" "pos \<le> unat i" "\<not> is_deleted ds (unat i)"
  shows "unshift_from cum ds (shift_from cum ds i) = i"
  using assms
proof (induction ds arbitrary: pos cum)
  case (Cons d ds)
  let ?o = "unat (input_offset d)" and ?n = "unat (bytes_deleted d)"
  have key: "unat (input_offset d - cum) = ?o - unat cum"
    using Cons.prems by (simp add: unat_sub word_le_nat_alt)
  show ?case
  proof (cases "input_offset d < i")
    case True
    then have e: "?o + ?n \<le> unat i" using Cons.prems by (auto simp: word_less_nat_alt)
    have "unat (shift_from (cumulative_deleted d) ds i)
        = (?o + ?n) - unat (cumulative_deleted d) + length (kept_range ds (?o + ?n) (unat i))"
      using Cons.prems e by (intro shift_from_kept at_boundary_kept) auto
    then have "input_offset d - cum \<le> shift_from (cumulative_deleted d) ds i"
      using Cons.prems(1) by (simp add: word_le_nat_alt key)
    moreover have "unshift_from (cumulative_deleted d) ds (shift_from (cumulative_deleted d) ds i) = i"
      using Cons.prems e by (intro Cons.IH [of "?o + ?n"]) auto
    ultimately show ?thesis using True by (simp add: delta_key [OF Cons.prems(1)])
  next
    case False
    with Cons.prems have "unat i < ?o" by (auto simp: word_less_nat_alt)
    moreover have "unat (i - cum) = unat i - unat cum"
      using Cons.prems by (simp add: unat_sub word_le_nat_alt)
    ultimately have "\<not> input_offset d - cum \<le> i - cum"
      using Cons.prems(2,3) by (simp add: word_le_nat_alt key)
    with False show ?thesis by (simp add: delta_key [OF Cons.prems(1)])
  qed
qed simp

lemma shift_of_unshift:
  assumes "deltas_from pos (unat cum) ds" "unat cum \<le> pos" "pos \<le> unat out + unat cum"
    and "unat out + sum_list (map (\<lambda>d. unat (bytes_deleted d)) ds) + unat cum < 2 ^ 64"
  shows "pos \<le> unat (unshift_from cum ds out) \<and> \<not> is_deleted ds (unat (unshift_from cum ds out))
    \<and> shift_from cum ds (unshift_from cum ds out) = out"
  using assms
proof (induction ds arbitrary: pos cum)
  case Nil
  then show ?case by (simp add: unat_word_ariths)
next
  case (Cons d ds)
  let ?o = "unat (input_offset d)" and ?n = "unat (bytes_deleted d)"
  have key: "unat (input_offset d - cum) = ?o - unat cum"
    using Cons.prems by (simp add: unat_sub word_le_nat_alt)
  show ?case
  proof (cases "input_offset d - cum \<le> out")
    case True
    then have "?o \<le> unat out + unat cum" by (simp add: word_le_nat_alt key)
    with Cons.prems have ih: "?o + ?n \<le> unat (unshift_from (cumulative_deleted d) ds out)
      \<and> \<not> is_deleted ds (unat (unshift_from (cumulative_deleted d) ds out))
      \<and> shift_from (cumulative_deleted d) ds (unshift_from (cumulative_deleted d) ds out) = out"
      by (intro Cons.IH [of "?o + ?n"]) auto
    with Cons.prems(1) have "input_offset d < unshift_from (cumulative_deleted d) ds out"
      by (simp add: word_less_nat_alt)
    with True ih Cons.prems show ?thesis by (simp add: delta_key [OF Cons.prems(1)])
  next
    case False
    have u: "unat (out + cum) = unat out + unat cum"
      using Cons.prems by (simp add: unat_word_ariths)
    with False have lt: "unat (out + cum) < ?o" by (simp add: word_le_nat_alt key)
    then have "\<not> is_deleted (d # ds) (unat (out + cum))"
      using Cons.prems(1) not_deleted_before [of "?o + ?n" _ ds] by auto
    moreover have "\<not> input_offset d < out + cum"
      using lt by (simp add: word_less_nat_alt)
    ultimately show ?thesis
      using False Cons.prems(3) u by (simp add: delta_key [OF Cons.prems(1)])
  qed
qed

text \<open>
  The output offset of the first byte of a deletion belongs, in the input, to the byte behind the
  deletion: going back never returns to a deleted byte.
\<close>

lemma deltas_from_room:
  "deltas_from pos cum ds \<Longrightarrow> pos < 2 ^ 64 \<Longrightarrow> pos + (\<Sum>d\<leftarrow>ds. unat (bytes_deleted d)) < 2 ^ 64"
  by (induction ds arbitrary: pos cum) fastforce+

lemma at_boundary_before: "deltas_from pos cum ds \<Longrightarrow> i \<le> pos \<Longrightarrow> at_boundary ds i"
  by (induction ds arbitrary: pos cum) fastforce+

lemma at_boundary_start:
  "deltas_from pos cum ds \<Longrightarrow> d \<in> set ds \<Longrightarrow>
     pos \<le> unat (input_offset d) \<and> at_boundary ds (unat (input_offset d))"
proof (induction ds arbitrary: pos cum)
  case (Cons e ds)
  show ?case
  proof (cases "d = e")
    case True
    with Cons.prems show ?thesis by (auto intro: at_boundary_before)
  next
    case False
    with Cons show ?thesis by fastforce
  qed
qed simp

lemma unshift_of_deleted_start:
  assumes "deltas_from pos (unat cum) ds" "unat cum \<le> pos" "d \<in> set ds"
  shows "unat (input_offset d) + unat (bytes_deleted d)
    \<le> unat (unshift_from cum ds (shift_from cum ds (input_offset d)))"
  using assms
proof (induction ds arbitrary: pos cum)
  case (Cons e ds)
  let ?o = "unat (input_offset e)" and ?n = "unat (bytes_deleted e)"
  have key: "unat (input_offset e - cum) = ?o - unat cum"
    using Cons.prems by (simp add: unat_sub word_le_nat_alt)
  have tail: "deltas_from (?o + ?n) (unat (cumulative_deleted e)) ds"
      "unat (cumulative_deleted e) = unat cum + ?n" "unat cum \<le> ?o" "?o + ?n < 2 ^ 64"
    using Cons.prems by auto
  show ?case
  proof (cases "d = e")
    case True
    have "?o + ?n \<le> unat (unshift_from (cumulative_deleted e) ds (input_offset e - cum))"
      using tail deltas_from_room [OF tail(1,4)]
      by (intro shift_of_unshift [THEN conjunct1]) (simp_all add: key)
    with True show ?thesis by (simp add: delta_key [OF Cons.prems(1)])
  next
    case False
    with Cons.prems have d: "d \<in> set ds" by simp
    note b = at_boundary_start [OF tail(1) d]
    have "unat (shift_from (cumulative_deleted e) ds (input_offset d))
        = (?o + ?n) - unat (cumulative_deleted e)
          + length (kept_range ds (?o + ?n) (unat (input_offset d)))"
      using tail b by (intro shift_from_kept) auto
    then have "input_offset e - cum \<le> shift_from (cumulative_deleted e) ds (input_offset d)"
      using tail by (simp add: word_le_nat_alt key)
    moreover have "input_offset e < input_offset d"
      using b Cons.prems(1) by (simp add: word_less_nat_alt)
    ultimately show ?thesis
      using tail d Cons.IH [of "?o + ?n" "cumulative_deleted e"]
      by (simp add: delta_key [OF Cons.prems(1)])
  qed
qed simp

section \<open>The copy\<close>

abbreviation kept_bytes :: "section_relax_deltas \<Rightarrow> u8 list \<Rightarrow> nat \<Rightarrow> nat \<Rightarrow> u8 list" where
  "kept_bytes ds input a b \<equiv> map ((!) input) (kept_range ds a b)"

definition deltas_end :: "nat \<Rightarrow> section_relax_deltas \<Rightarrow> nat" where
  "deltas_end pos ds =
     (if ds = [] then pos else unat (input_offset (last ds)) + unat (bytes_deleted (last ds)))"

lemma deltas_end_simps [simp]:
  "deltas_end pos [] = pos"
  "deltas_end pos (d # ds) = deltas_end (unat (input_offset d) + unat (bytes_deleted d)) ds"
  by (simp_all add: deltas_end_def)

lemma deltas_end_le: "deltas_from pos cum ds \<Longrightarrow> pos \<le> deltas_end pos ds"
  by (induction ds arbitrary: pos cum) fastforce+

lemma map_nth_upt: "b \<le> length xs \<Longrightarrow> map ((!) xs) [a..<b] = take (b - a) (drop a xs)"
  by (rule nth_equalityI) auto

lemma put_at_append:
  assumes "put_at out (int (length pre)) bytes = Some out'" "take (length pre) out = pre"
  shows "take (length pre + length bytes) out' = pre @ bytes
    \<and> drop (length pre + length bytes) out' = drop (length pre + length bytes) out"
  using assms by (auto simp: put_at_def split: if_splits)

lemma put_at_fits: "n + length bytes \<le> length out \<Longrightarrow> \<exists>out'. put_at out (int n) bytes = Some out'"
  by (simp add: put_at_def)

text \<open>One copy step: the bytes between two deletions are appended to what is written so far.\<close>

lemma copy_step:
  assumes "a \<le> b" "b \<le> length input" "take n out = pre" "n = length pre"
    and "n + (b - a) \<le> length out"
  shows "\<exists>bytes out'. window input (int a) (b - a) = Some bytes \<and> put_at out (int n) bytes = Some out'
    \<and> take (n + (b - a)) out' = pre @ map ((!) input) [a..<b]
    \<and> drop (n + (b - a)) out' = drop (n + (b - a)) out \<and> length out' = length out"
proof -
  have w: "window input (int a) (b - a) = Some (map ((!) input) [a..<b])"
    using assms by (simp add: window_def map_nth_upt)
  obtain out' where o: "put_at out (int n) (map ((!) input) [a..<b]) = Some out'"
    using put_at_fits [of n "map ((!) input) [a..<b]" out] assms by auto
  have "take (n + (b - a)) out' = pre @ map ((!) input) [a..<b]
      \<and> drop (n + (b - a)) out' = drop (n + (b - a)) out"
    using put_at_append [of out pre "map ((!) input) [a..<b]" out'] o assms(3,4)
    by (simp only: length_map length_upt simp_thms)
  with w o put_at_length [OF o] show ?thesis by blast
qed

text \<open>
  The whole loop: after it, the output is what was written before, the kept bytes up to the end of
  the last deletion, and the untouched rest.
\<close>

lemma copy_kept_spec:
  assumes "deltas_from pos cum ds" "deltas_end pos ds \<le> length input"
    and "take n out = pre" "n = length pre"
    and "n + length (kept_bytes ds input pos (deltas_end pos ds)) \<le> length out"
  shows "\<exists>out'. copy_kept ds input pos n out
      = Some (deltas_end pos ds, n + length (kept_bytes ds input pos (deltas_end pos ds)), out')
    \<and> take (n + length (kept_bytes ds input pos (deltas_end pos ds))) out'
      = pre @ kept_bytes ds input pos (deltas_end pos ds)
    \<and> drop (n + length (kept_bytes ds input pos (deltas_end pos ds))) out'
      = drop (n + length (kept_bytes ds input pos (deltas_end pos ds))) out
    \<and> length out' = length out"
  using assms
proof (induction ds arbitrary: pos cum n out pre)
  case (Cons d ds)
  let ?o = "unat (input_offset d)" and ?n = "unat (bytes_deleted d)"
  let ?e = "deltas_end (?o + ?n) ds"
  have tail: "deltas_from (?o + ?n) (cum + ?n) ds" "pos \<le> ?o" using Cons.prems(1) by auto
  have le: "?o + ?n \<le> ?e" by (rule deltas_end_le [OF tail(1)])
  then have split: "kept_range (d # ds) pos ?e = [pos..<?o] @ kept_range ds (?o + ?n) ?e"
    by (rule kept_range_over [OF Cons.prems(1)])
  have room: "n + (?o - pos) + length (kept_range ds (?o + ?n) ?e) \<le> length out"
    using Cons.prems(5)
    by (simp only: deltas_end_simps split length_map length_append length_upt add.assoc)
  have fits: "?e \<le> length input" "?o \<le> length input"
    using Cons.prems(2) le by simp_all
  obtain bytes mid where m: "window input (int pos) (?o - pos) = Some bytes"
      "put_at out (int n) bytes = Some mid"
      "take (n + (?o - pos)) mid = pre @ map ((!) input) [pos..<?o]"
      "drop (n + (?o - pos)) mid = drop (n + (?o - pos)) out" "length mid = length out"
    using copy_step [of pos ?o input n out pre] Cons.prems(3,4) tail(2) fits(2) room by fastforce
  obtain out' where o: "copy_kept ds input (?o + ?n) (n + (?o - pos)) mid
      = Some (?e, n + (?o - pos) + length (kept_bytes ds input (?o + ?n) ?e), out')"
      "take (n + (?o - pos) + length (kept_bytes ds input (?o + ?n) ?e)) out'
        = (pre @ map ((!) input) [pos..<?o]) @ kept_bytes ds input (?o + ?n) ?e"
      "drop (n + (?o - pos) + length (kept_bytes ds input (?o + ?n) ?e)) out'
        = drop (n + (?o - pos) + length (kept_bytes ds input (?o + ?n) ?e)) mid"
      "length out' = length mid"
    using Cons.IH [OF tail(1) fits(1) m(3)] Cons.prems(4) room m(5) by auto
  have same: "mid = out" if "?o - pos = 0"
  proof -
    have "bytes = []" using m(1) that by (auto simp: window_def split: if_splits)
    with m(2) show ?thesis by (auto simp: put_at_def split: if_splits)
  qed
  have "copy_kept (d # ds) input pos n out = copy_kept ds input (?o + ?n) (n + (?o - pos)) mid"
    using tail(2) m(1,2) same by (simp add: Let_def)
  moreover have "length (kept_bytes (d # ds) input pos ?e)
      = (?o - pos) + length (kept_bytes ds input (?o + ?n) ?e)"
    by (simp only: split length_map length_append length_upt)
  moreover have "kept_bytes (d # ds) input pos ?e
      = map ((!) input) [pos..<?o] @ kept_bytes ds input (?o + ?n) ?e"
    by (simp only: split map_append)
  moreover have "drop (n + (?o - pos) + length (kept_bytes ds input (?o + ?n) ?e)) mid
      = drop (n + (?o - pos) + length (kept_bytes ds input (?o + ?n) ?e)) out"
    using arg_cong [OF m(4), of "drop (length (kept_bytes ds input (?o + ?n) ?e))"]
    by (simp only: drop_drop add.commute)
  ultimately show ?case
    using o m(5) by (simp only: deltas_end_simps append_assoc add.assoc) blast
qed simp

lemma kept_range_tail:
  assumes "deltas_from pos cum ds" "deltas_end pos ds \<le> e"
  shows "kept_range ds pos e = kept_range ds pos (deltas_end pos ds) @ [deltas_end pos ds..<e]"
  using assms
proof (induction ds arbitrary: pos cum)
  case (Cons d ds)
  let ?p = "unat (input_offset d) + unat (bytes_deleted d)"
  have tail: "deltas_from ?p (cum + unat (bytes_deleted d)) ds" using Cons.prems(1) by simp
  have le: "?p \<le> deltas_end ?p ds" by (rule deltas_end_le [OF tail])
  with Cons.prems(2) have "?p \<le> e" by simp
  then show ?case
    using Cons.IH [OF tail] Cons.prems(2)
    by (simp only: deltas_end_simps kept_range_over [OF Cons.prems(1)] le append_assoc)
qed simp

lemma copy_relaxed_spec:
  assumes "deltas_ok ds" "deltas_end 0 ds \<le> length input"
    and "kept_below ds (length input) \<le> length out"
  shows "\<exists>out'. copy_relaxed ds input out = Some (kept_below ds (length input), out')
    \<and> out' = kept_bytes ds input 0 (length input) @ drop (kept_below ds (length input)) out"
proof -
  let ?e = "deltas_end 0 ds" and ?len = "length input"
  let ?k = "length (kept_range ds 0 ?e)"
  have split: "kept_range ds 0 ?len = kept_range ds 0 ?e @ [?e..<?len]"
    by (rule kept_range_tail [OF assms(1,2)])
  have total: "kept_below ds ?len = ?k + (?len - ?e)"
    by (simp only: kept_below_def split length_append length_upt)
  obtain mid where c: "copy_kept ds input 0 0 out = Some (?e, ?k, mid)"
      "take ?k mid = kept_bytes ds input 0 ?e" "drop ?k mid = drop ?k out" "length mid = length out"
    using copy_kept_spec [OF assms(1,2), of 0 out "[]"] assms(3) by (auto simp: total)
  obtain bytes out' where o: "window input (int ?e) (?len - ?e) = Some bytes"
      "put_at mid (int ?k) bytes = Some out'"
      "take (?k + (?len - ?e)) out' = kept_bytes ds input 0 ?e @ map ((!) input) [?e..<?len]"
      "drop (?k + (?len - ?e)) out' = drop (?k + (?len - ?e)) mid" "length out' = length mid"
    using copy_step [OF assms(2) order_refl c(2)] assms(3) c(4)
    by (simp only: total length_map) blast
  have same: "mid = out'" if "?len - ?e = 0"
  proof -
    have "bytes = []" using o(1) that by (auto simp: window_def split: if_splits)
    with o(2) show ?thesis by (auto simp: put_at_def split: if_splits)
  qed
  have "out' = take (?k + (?len - ?e)) out' @ drop (?k + (?len - ?e)) out'" by simp
  also have "\<dots> = kept_bytes ds input 0 ?len @ drop (kept_below ds ?len) out"
    using o(3,4) arg_cong [OF c(3), of "drop (?len - ?e)"]
    by (simp only: split map_append total drop_drop add.commute)
  finally have "out' = \<dots>" .
  moreover have "copy_relaxed ds input out = Some (kept_below ds ?len, out')"
    using c(1) o(1,2) same assms(2) by (auto simp: copy_relaxed_def total)
  ultimately show ?thesis by blast
qed

lemma nth_kept_bytes:
  assumes "i < e" "\<not> is_deleted ds i"
  shows "kept_below ds i < length (kept_bytes ds input 0 e)
    \<and> kept_bytes ds input 0 e ! kept_below ds i = input ! i"
proof -
  have "[0..<e] = [0..<i] @ i # [Suc i..<e]"
    using assms(1) by (metis le0 less_imp_le_nat upt_add_eq_append upt_conv_Cons le_add_diff_inverse)
  with assms(2) show ?thesis by (simp add: kept_below_def nth_append)
qed


lemma kept_range_count:
  assumes "deltas_from pos cum ds" "deltas_end pos ds \<le> e"
  shows "length (kept_range ds pos e) + (\<Sum>d\<leftarrow>ds. unat (bytes_deleted d)) = e - pos"
  using assms
proof (induction ds arbitrary: pos cum)
  case (Cons d ds)
  let ?p = "unat (input_offset d) + unat (bytes_deleted d)"
  have tail: "deltas_from ?p (cum + unat (bytes_deleted d)) ds" and le: "pos \<le> unat (input_offset d)"
    using Cons.prems(1) by simp_all
  have "?p \<le> e" using deltas_end_le [OF tail] Cons.prems(2) by simp
  then have "length (kept_range (d # ds) pos e) = (unat (input_offset d) - pos) + length (kept_range ds ?p e)"
    by (simp only: kept_range_over [OF Cons.prems(1)] length_append length_upt)
  moreover have "length (kept_range ds ?p e) + (\<Sum>d\<leftarrow>ds. unat (bytes_deleted d)) = e - ?p"
    using Cons.IH [OF tail] Cons.prems(2) by (simp only: deltas_end_simps)
  ultimately show ?case
    using \<open>?p \<le> e\<close> le unfolding list.map sum_list.Cons by linarith
qed simp

lemma total_deleted_sum:
  "deltas_from pos cum ds \<Longrightarrow> ds \<noteq> [] \<Longrightarrow>
     unat (total_deleted ds) = cum + (\<Sum>d\<leftarrow>ds. unat (bytes_deleted d))"
proof (induction ds arbitrary: pos cum)
  case (Cons d ds)
  then show ?case by (cases ds) (auto simp: total_deleted_def)
qed simp

section \<open>Merging\<close>

abbreviation covers :: "nat \<Rightarrow> u64 \<times> u32 \<Rightarrow> bool" where
  "covers i \<equiv> \<lambda>(off, n). unat off \<le> i \<and> i < unat off + unat n"

lemma is_deleted_push:
  "is_deleted (push_deltas running raw) i \<longleftrightarrow>
     list_ex (covers i) raw"
  by (induction raw arbitrary: running) (auto simp: Let_def)

lemma is_deleted_pairs:
  "is_deleted ds i \<longleftrightarrow> list_ex (covers i) (map (\<lambda>d. (input_offset d, bytes_deleted d)) ds)"
  by (induction ds) auto

lemma is_deleted_merge:
  "is_deleted (merge_additional ds raw) i \<longleftrightarrow> is_deleted ds i \<or> list_ex (covers i) raw"
proof (cases "raw = []")
  case False
  have "list_ex (covers i) (sort_key fst xs) = list_ex (covers i) xs" for xs
    by (simp add: list_ex_iff)
  with False show ?thesis
    by (simp only: merge_additional_def deltas_new_def is_deleted_push is_deleted_pairs [of ds]
        if_False list_ex_append)
qed (simp add: merge_additional_def)

section \<open>The map from sections to deletions\<close>

type_synonym 'd delta_map = "(nat \<times> 'd) list"

definition map_insert :: "'d delta_map \<Rightarrow> nat \<Rightarrow> 'd \<Rightarrow> 'd delta_map" where
  "map_insert entries section_index deltas = entries @ [(section_index, deltas)]"

definition map_get :: "'d delta_map \<Rightarrow> nat \<Rightarrow> 'd option" where
  "map_get entries section_index =
     map_option (\<lambda>i. snd (entries ! i)) (binary_search_by_key fst section_index entries)"

text \<open>\<^verbatim>\<open>get_mut\<close> with the change that the caller makes through the reference.\<close>

definition map_get_mut :: "'d delta_map \<Rightarrow> nat \<Rightarrow> ('d \<Rightarrow> 'd) \<Rightarrow> 'd delta_map" where
  "map_get_mut entries section_index change =
     (case binary_search_by_key fst section_index entries of
        None \<Rightarrow> entries
      | Some i \<Rightarrow> entries[i := (fst (entries ! i), change (snd (entries ! i)))])"

definition map_insert_sorted :: "'d delta_map \<Rightarrow> nat \<Rightarrow> 'd \<Rightarrow> 'd delta_map" where
  "map_insert_sorted entries section_index deltas =
     (let pos = partition_point (\<lambda>e. fst e < section_index) entries
      in take pos entries @ (section_index, deltas) # drop pos entries)"

text \<open>The update of an object's map by the relaxation loop of \<^verbatim>\<open>layout.rs\<close>.\<close>

definition record_deltas ::
    "section_relax_deltas delta_map \<Rightarrow> nat \<Rightarrow> (u64 \<times> u32) list \<Rightarrow> section_relax_deltas delta_map" where
  "record_deltas entries sec_idx raw =
     (case map_get entries sec_idx of
        Some _ \<Rightarrow> map_get_mut entries sec_idx (\<lambda>existing. merge_additional existing raw)
      | None \<Rightarrow> map_insert_sorted entries sec_idx (deltas_new raw))"

fun record_all ::
    "section_relax_deltas delta_map \<Rightarrow> (nat \<times> (u64 \<times> u32) list) list \<Rightarrow> section_relax_deltas delta_map" where
  "record_all entries [] = entries"
| "record_all entries ((sec_idx, raw) # rest) = record_all (record_deltas entries sec_idx raw) rest"

text \<open>
  What the relaxation loop needs of the map: a lookup after an insertion of a new key or after a
  change of the value of a key.
\<close>

locale keyed_store =
  fixes get :: "'m \<Rightarrow> 'k \<Rightarrow> 'v option"
    and add :: "'m \<Rightarrow> 'k \<Rightarrow> 'v \<Rightarrow> 'm"
    and change :: "'m \<Rightarrow> 'k \<Rightarrow> ('v \<Rightarrow> 'v) \<Rightarrow> 'm"
    and invar :: "'m \<Rightarrow> bool"
  assumes get_add: "invar m \<Longrightarrow> get m k = None \<Longrightarrow> get (add m k v) j = (if j = k then Some v else get m j)"
    and invar_add: "invar m \<Longrightarrow> get m k = None \<Longrightarrow> invar (add m k v)"
    and get_change: "invar m \<Longrightarrow> get (change m k f) j = (if j = k then map_option f (get m k) else get m j)"
    and invar_change: "invar m \<Longrightarrow> invar (change m k f)"
begin

text \<open>Adding a value for a new key, or changing the one that is there, is an update of the map.\<close>

lemma get_upsert:
  assumes "invar m"
  shows "get (case get m k of Some _ \<Rightarrow> change m k f | None \<Rightarrow> add m k v) j =
      (if j = k then Some (case get m k of Some old \<Rightarrow> f old | None \<Rightarrow> v) else get m j)"
    and "invar (case get m k of Some _ \<Rightarrow> change m k f | None \<Rightarrow> add m k v)"
  using assms by (auto simp: get_add get_change invar_add invar_change split: option.split)

end

lemma map_get_map_of: "map_get entries k = map_of entries k"
  by (induction entries) (auto simp: map_get_def binary_search_Cons option.map_comp comp_def)

lemma map_of_insert_sorted:
  "map_of entries k = None \<Longrightarrow>
     map_of (map_insert_sorted entries k v) j = (if j = k then Some v else map_of entries j)"
  by (induction entries) (auto simp: map_insert_sorted_def Let_def split: if_splits)

lemma strictly_by_insert_sorted:
  assumes "strictly_by fst entries" "k \<notin> fst ` set entries"
  shows "strictly_by fst (map_insert_sorted entries k v)"
proof -
  let ?pos = "partition_point (\<lambda>e. fst e < k) entries"
  have split: "take ?pos entries = takeWhile (\<lambda>e. fst e < k) entries"
      "drop ?pos entries = dropWhile (\<lambda>e. fst e < k) entries"
    by (simp_all only: partition_point_def takeWhile_eq_take [symmetric] dropWhile_eq_drop [symmetric])
  have "strictly_by fst (takeWhile (\<lambda>e. fst e < k) entries @ dropWhile (\<lambda>e. fst e < k) entries)"
    using assms(1) by simp
  moreover have "k < fst e" if "e \<in> set (dropWhile (\<lambda>e. fst e < k) entries)" for e
    using that assms
  proof (induction entries)
    case (Cons a entries)
    then show ?case by (cases "fst a < k") (auto split: if_splits dest: order.strict_trans)
  qed simp
  moreover have "fst e < k" if "e \<in> set (takeWhile (\<lambda>e. fst e < k) entries)" for e
    using set_takeWhileD [OF that] by simp
  ultimately show ?thesis
    unfolding map_insert_sorted_def Let_def split sorted_wrt_append sorted_wrt.simps
    by (metis fst_conv set_ConsD)
qed

lemma map_of_list_update:
  assumes "distinct (map fst entries)" "i < length entries"
  shows "map_of (entries[i := (fst (entries ! i), x)]) j
    = (if j = fst (entries ! i) then Some x else map_of entries j)"
  using assms
proof (induction entries arbitrary: i)
  case (Cons e entries)
  show ?case
  proof (cases i)
    case (Suc n)
    with Cons.prems have "fst (entries ! n) \<in> fst ` set entries" by simp
    with Cons.prems(1) have "fst (entries ! n) \<noteq> fst e"
      by (metis distinct.simps(2) list.set_map list.simps(9))
    with Suc Cons show ?thesis by auto
  qed (use Cons in simp)
qed simp

lemma strictly_by_distinct: "strictly_by fst entries \<Longrightarrow> distinct (map fst entries)"
  by (induction entries) auto

lemma map_get_change:
  assumes "strictly_by fst entries"
  shows "map_of (map_get_mut entries k f) j
      = (if j = k then map_option f (map_of entries k) else map_of entries j)"
proof (cases "binary_search_by_key fst k entries")
  case None
  then have "map_of entries k = None" by (simp add: binary_search_None_iff map_of_eq_None_iff)
  with None show ?thesis by (simp add: map_get_mut_def)
next
  case (Some i)
  then have "map_of entries k = Some (snd (entries ! i))"
    by (simp flip: map_get_map_of add: map_get_def)
  with Some binary_search_Some [OF Some] strictly_by_distinct [OF assms] show ?thesis
    by (auto simp: map_get_mut_def map_of_list_update)
qed

lemma map_get_mut_keys: "map fst (map_get_mut entries k f) = map fst entries"
  by (auto simp: map_get_mut_def map_update list_update_id dest: binary_search_Some
      split: option.split) (metis binary_search_Some list_update_id nth_map)

interpretation deltas_store: keyed_store map_get map_insert_sorted map_get_mut "strictly_by fst"
proof unfold_locales
  fix m :: "'d delta_map" and k j v f
  assume m: "strictly_by fst m"
  show "map_get (map_get_mut m k f) j = (if j = k then map_option f (map_get m k) else map_get m j)"
    by (simp add: map_get_map_of map_get_change [OF m])
  show "strictly_by fst (map_get_mut m k f)"
    using m map_get_mut_keys [of m k f] by (metis sorted_wrt_map)
  assume none: "map_get m k = None"
  then show "map_get (map_insert_sorted m k v) j = (if j = k then Some v else map_get m j)"
    by (simp add: map_get_map_of map_of_insert_sorted)
  show "strictly_by fst (map_insert_sorted m k v)"
    using none by (intro strictly_by_insert_sorted m) (simp add: map_get_map_of map_of_eq_None_iff)
qed

definition absorb :: "section_relax_deltas option \<Rightarrow> (u64 \<times> u32) list \<Rightarrow> section_relax_deltas option" where
  "absorb d raw = Some (case d of Some existing \<Rightarrow> merge_additional existing raw | None \<Rightarrow> deltas_new raw)"

lemma record_deltas_get:
  assumes "strictly_by fst entries"
  shows "map_get (record_deltas entries k raw) j = (if j = k then absorb (map_get entries k) raw else map_get entries j)"
    and "strictly_by fst (record_deltas entries k raw)"
  using deltas_store.get_upsert [OF assms] by (simp_all add: record_deltas_def absorb_def)

lemma record_all_get:
  "strictly_by fst entries \<Longrightarrow>
     map_get (record_all entries recs) j
       = foldl absorb (map_get entries j) (map snd (filter (\<lambda>r. fst r = j) recs))"
proof (induction recs arbitrary: entries)
  case (Cons r recs)
  obtain k raw where r: "r = (k, raw)" by (cases r)
  show ?case
    using Cons.IH [OF record_deltas_get(2) [OF Cons.prems, of k raw]]
    by (simp add: r record_deltas_get(1) [OF Cons.prems])
qed simp

section \<open>Properties\<close>

text \<open>C6: Merging more deletions keeps the invariant, the running totals included, whatever the order
  the new pairs come in, as long as they are not empty and disjoint from each other and from those
  that are there; the merged list deletes what either deleted.\<close>

theorem merge_keeps_invariant:
  assumes "deltas_ok ds"
    and "raw_from 0 (sort_key fst (map (\<lambda>d. (input_offset d, bytes_deleted d)) ds @ raw))"
  shows "deltas_ok (merge_additional ds raw)
    \<and> is_deleted (merge_additional ds raw) i = (is_deleted ds i \<or> list_ex (covers i) raw)"
  using assms push_deltas_from [OF assms(2), of 0]
  by (simp add: is_deleted_merge) (simp add: merge_additional_def deltas_new_def)

theorem merge_keeps_invariant_witness:
  "deltas_ok (merge_additional (deltas_new [(8, 2), (20, 4)]) [(30, 2), (12, 4)])
    \<and> is_deleted (merge_additional (deltas_new [(8, 2), (20, 4)]) [(30, 2), (12, 4)]) 13
      = (is_deleted (deltas_new [(8, 2), (20, 4)]) 13 \<or> list_ex (covers 13) [(30, 2), (12, 4)])"
  by (rule merge_keeps_invariant) (simp_all add: deltas_new_def Let_def)

text \<open>C8: The cursor is an optimisation without effect: for relocations in ascending order of offset
  it gives the same translations as the search for each of them.\<close>

theorem cursor_translates_like_search:
  assumes "sorted offsets"
  shows "translate_run (deltas_cursor ds) offsets = map (input_to_output_offset ds) offsets"
  using translate_run_shift [OF assms, of "deltas_cursor ds"]
  by (simp add: deltas_cursor_def input_to_output_shift [abs_def])

theorem cursor_translates_like_search_witness:
  "translate_run (deltas_cursor (deltas_new [(4, 4), (20, 2)])) [0, 4, 8, 8, 30]
    = map (input_to_output_offset (deltas_new [(4, 4), (20, 2)])) [0, 4, 8, 8, 30]"
  by (rule cursor_translates_like_search) simp

text \<open>C7: The relaxed section is copied without a panic and nothing is lost: the output holds every
  kept byte of the input at its translated offset, the kept bytes and the deleted ones add up to
  the input, and the padding behind them is left to the caller.\<close>

theorem copy_relaxed_refines:
  assumes "deltas_ok ds" "deltas_end 0 ds \<le> length input"
    and "length input - unat (total_deleted ds) \<le> length out"
  shows "\<exists>out'. copy_relaxed ds input out = Some (length input - unat (total_deleted ds), out')
    \<and> length out' = length out
    \<and> drop (length input - unat (total_deleted ds)) out' = drop (length input - unat (total_deleted ds)) out
    \<and> (\<forall>i. unat i < length input \<and> \<not> is_deleted ds (unat i)
          \<longrightarrow> out' ! unat (input_to_output_offset ds i) = input ! unat i)"
proof -
  have "unat (total_deleted ds) = (\<Sum>d\<leftarrow>ds. unat (bytes_deleted d))"
    using total_deleted_sum [OF assms(1)] by (cases "ds = []") (simp_all add: total_deleted_def)
  with kept_range_count [OF assms(1,2)]
  have k: "length input - unat (total_deleted ds) = kept_below ds (length input)"
    by (simp add: kept_below_def)
  obtain out' where o: "copy_relaxed ds input out = Some (kept_below ds (length input), out')"
      "out' = kept_bytes ds input 0 (length input) @ drop (kept_below ds (length input)) out"
    using copy_relaxed_spec [OF assms(1,2)] assms(3) k by metis
  have len: "length (kept_bytes ds input 0 (length input)) = kept_below ds (length input)"
    by (simp add: kept_below_def)
  have "out' ! unat (input_to_output_offset ds i) = input ! unat i"
    if "unat i < length input \<and> \<not> is_deleted ds (unat i)" for i
    using nth_kept_bytes [of "unat i" "length input" ds input] that
      input_to_output_kept_below [OF assms(1) at_boundary_kept]
    by (simp add: o(2) nth_append)
  then show ?thesis
    using o assms(3) by (auto simp: k len simp del: length_map)
qed

theorem copy_relaxed_refines_witness:
  "\<exists>out'. copy_relaxed (deltas_new [(1, 2)]) [10, 11, 12, 13] [0, 0, 0] = Some (2, out')
    \<and> drop 2 out' = [0] \<and> out' ! 1 = 13"
proof -
  let ?ds = "deltas_new [(1, 2)]"
  have ok: "deltas_ok ?ds" "deltas_end 0 ?ds \<le> length [10, 11, 12, 13 :: u8]"
      "length [10, 11, 12, 13 :: u8] - unat (total_deleted ?ds) \<le> length [0, 0, 0 :: u8]"
    by (simp_all add: deltas_new_def total_deleted_def)
  have eval: "length [10, 11, 12, 13 :: u8] - unat (total_deleted ?ds) = 2"
      "unat (input_to_output_offset ?ds 3) = 1" "\<not> is_deleted ?ds (unat (3 :: u64))"
    by (simp_all add: deltas_new_def total_deleted_def input_to_output_offset_def is_deleted_def)
  from copy_relaxed_refines [OF ok] obtain out' where o: "copy_relaxed ?ds [10, 11, 12, 13] [0, 0, 0] = Some (2, out')"
      "drop 2 out' = drop 2 [0, 0, 0 :: u8]"
      "\<forall>i. unat i < length [10, 11, 12, 13 :: u8] \<and> \<not> is_deleted ?ds (unat i)
          \<longrightarrow> out' ! unat (input_to_output_offset ?ds i) = [10, 11, 12, 13] ! unat i"
    unfolding eval(1) by blast
  have "out' ! 1 = 13"
    using spec [OF o(3), of 3] eval(2,3) by simp
  with o show ?thesis by auto
qed

text \<open>The two translations are inverse to each other: a kept input offset is recovered from its
  output offset, and every output offset comes from a kept input offset that translates to it.\<close>

theorem offset_round_trip:
  assumes "deltas_ok ds"
  shows "(\<not> is_deleted ds (unat i) \<longrightarrow>
        output_to_input_offset ds (input_to_output_offset ds i) = i)
    \<and> (unat out + (\<Sum>d\<leftarrow>ds. unat (bytes_deleted d)) < 2 ^ 64 \<longrightarrow>
        \<not> is_deleted ds (unat (output_to_input_offset ds out))
        \<and> input_to_output_offset ds (output_to_input_offset ds out) = out)"
  using unshift_of_shift [of 0 0 ds i] shift_of_unshift [of 0 0 ds out] assms
  by (simp add: input_to_output_shift output_to_input_unshift)

theorem offset_round_trip_witness:
  "output_to_input_offset (deltas_new [(4, 4), (20, 2)]) (input_to_output_offset (deltas_new [(4, 4), (20, 2)]) 22) = 22
    \<and> input_to_output_offset (deltas_new [(4, 4), (20, 2)]) (output_to_input_offset (deltas_new [(4, 4), (20, 2)]) 4) = 4"
proof -
  have "deltas_ok (deltas_new [(4, 4), (20, 2)])" by (simp add: deltas_new_def Let_def)
  from offset_round_trip [OF this, of 22 4] show ?thesis
    by (simp add: deltas_new_def Let_def is_deleted_def)
qed

text \<open>The sorted vector of an object behaves as a map from sections to deletions: however the
  relaxation passes interleave their results, each section ends up with its own results merged in
  the order of the passes.\<close>

theorem record_all_refines_map:
  assumes "strictly_by fst entries"
  shows "map_get (record_all entries recs) j
    = foldl absorb (map_of entries j) (map snd (filter (\<lambda>r. fst r = j) recs))"
  using record_all_get [OF assms] by (simp add: map_get_map_of)

theorem record_all_refines_map_witness:
  "map_get (record_all [] [(7, [(4, 4)]), (3, [(8, 2)]), (7, [(0, 2)])]) 7
    = foldl absorb (map_of [] 7) [[(4, 4)], [(0, 2)]]"
  using record_all_refines_map [of "[]" "[(7, [(4, 4)]), (3, [(8, 2)]), (7, [(0, 2)])]" 7] by simp

end
