(* ===== verification/Alignment.thy ===== *)
theory Alignment
  imports Prelude Bit_Misc
begin

text \<open>
  Alignments (\<^verbatim>\<open>reld-core/src/alignment.rs\<close>): powers of two up to \<open>2 ^ 16\<close>, kept as their
  exponent, and the rounding of addresses and sizes. The functions of the standard library that
  the code rounds with (\<^verbatim>\<open>is_power_of_two\<close>, \<^verbatim>\<open>trailing_zeros\<close>, \<^verbatim>\<open>next_multiple_of\<close>,
  \<^verbatim>\<open>next_power_of_two\<close>) come first.
\<close>

section \<open>Integer functions of the standard library\<close>

definition count_ones :: "u64 \<Rightarrow> nat" where
  "count_ones x = length (filter (bit x) [0..<64])"

definition is_power_of_two :: "u64 \<Rightarrow> bool" where
  "is_power_of_two x \<longleftrightarrow> count_ones x = 1"

definition trailing_zeros :: "u64 \<Rightarrow> nat" where
  "trailing_zeros x = length (takeWhile (\<lambda>i. \<not> bit x i) [0..<64])"

text \<open>\<^verbatim>\<open>next_multiple_of\<close> panics for a zero divisor; its sum wraps in the release profile.\<close>

definition next_multiple_of :: "u64 \<Rightarrow> u64 \<Rightarrow> u64 option" where
  "next_multiple_of x m =
     (if m = 0 then None else Some (if x mod m = 0 then x else x + (m - x mod m)))"

fun bit_length :: "nat \<Rightarrow> nat" where
  "bit_length n = (if n = 0 then 0 else Suc (bit_length (n div 2)))"

declare bit_length.simps [simp del]

definition next_power_of_two :: "u64 \<Rightarrow> u64" where
  "next_power_of_two x = (if x \<le> 1 then 1 else word_of_nat (2 ^ bit_length (unat (x - 1))))"

section \<open>Alignments\<close>

record alignment =
  exponent :: u8

definition MAX_ALIGNMENT_EXPONENT :: u8 where "MAX_ALIGNMENT_EXPONENT = 16"
definition NUM_ALIGNMENTS :: nat where "NUM_ALIGNMENTS = unat MAX_ALIGNMENT_EXPONENT + 1"

datatype alignment_error = InvalidAlignment u64 | UnsupportedAlignment u64 | UnsupportedExponent u32

definition alignment_new :: "u64 \<Rightarrow> alignment_error + alignment" where
  "alignment_new raw =
     (if \<not> is_power_of_two raw then Inl (InvalidAlignment raw)
      else let e = trailing_zeros raw
        in if unat MAX_ALIGNMENT_EXPONENT < e then Inl (UnsupportedAlignment raw)
           else Inr \<lparr>exponent = word_of_nat e\<rparr>)"

definition from_exponent :: "u32 \<Rightarrow> alignment_error + alignment" where
  "from_exponent e =
     (if ucast MAX_ALIGNMENT_EXPONENT < e then Inl (UnsupportedExponent e)
      else Inr \<lparr>exponent = ucast e\<rparr>)"

definition align_value :: "alignment \<Rightarrow> u64" where
  "align_value a = shl 1 (unat (exponent a))"

definition align_mask :: "alignment \<Rightarrow> u64" where
  "align_mask a = align_value a - 1"

text \<open>\<^verbatim>\<open>align_up_usize\<close> is the same function, \<^verbatim>\<open>usize\<close> being 64 bits wide.\<close>

definition align_up :: "alignment \<Rightarrow> u64 \<Rightarrow> u64 option" where
  "align_up a v = next_multiple_of v (align_value a)"

definition align_down :: "alignment \<Rightarrow> u64 \<Rightarrow> u64" where
  "align_down a v = v AND NOT (align_mask a)"

definition align_modulo :: "alignment \<Rightarrow> u64 \<Rightarrow> u64 \<Rightarrow> u64 option" where
  "align_modulo a ref_offset offset =
     (let mask = align_mask a in
      case align_up a offset of
        None \<Rightarrow> None
      | Some offset \<Rightarrow>
          Some (if offset AND mask = ref_offset AND mask then offset
                else let adjustment = (ref_offset AND mask) + align_value a - (offset AND mask);
                         adjustment = (if align_value a < adjustment then adjustment - align_value a
                                       else adjustment)
                  in offset + adjustment))"

abbreviation alignment_ok :: "alignment \<Rightarrow> bool" where
  "alignment_ok a \<equiv> exponent a \<le> MAX_ALIGNMENT_EXPONENT"

section \<open>Lemmas\<close>

lemma unat_exp_word: "k < 64 \<Longrightarrow> unat (2 ^ k :: u64) = 2 ^ k"
proof -
  assume "k < 64"
  then have "(2::nat) ^ k < 2 ^ 64" by (intro power_strict_increasing) simp_all
  then have "take_bit LENGTH(64) ((2::nat) ^ k) = 2 ^ k"
    by (intro take_bit_nat_eq_self) simp
  moreover have "(2 ^ k :: u64) = word_of_nat (2 ^ k)" by simp
  ultimately show "unat (2 ^ k :: u64) = 2 ^ k" by (simp only: unsigned_of_nat of_nat_id)
qed

lemma bit_length_bounds:
  "0 < n \<Longrightarrow> 2 ^ (bit_length n - 1) \<le> n \<and> n < 2 ^ bit_length n \<and> 0 < bit_length n"
proof (induction n rule: bit_length.induct)
  case (1 n)
  show ?case
  proof (cases "n div 2 = 0")
    case True
    with 1(2) have "n = 1" by (simp add: div_eq_0_iff)
    then show ?thesis by (simp add: bit_length.simps)
  next
    case False
    with 1 have ih: "2 ^ (bit_length (n div 2) - 1) \<le> n div 2" "n div 2 < 2 ^ bit_length (n div 2)"
        "0 < bit_length (n div 2)"
      by simp_all
    obtain m where m: "bit_length (n div 2) = Suc m" using ih(3) by (cases "bit_length (n div 2)") auto
    with 1(2) have "bit_length n = Suc (Suc m)" by (simp add: bit_length.simps [of n])
    with ih m show ?thesis by simp linarith
  qed
qed

text \<open>The next power of two of a value up to \<open>2 ^ 63\<close> is the least one that is not smaller.\<close>

lemma next_power_of_two_spec:
  assumes "unat x \<le> 2 ^ 63"
  shows "\<exists>k\<le>63. next_power_of_two x = 2 ^ k \<and> unat x \<le> 2 ^ k \<and> (unat x \<le> 1 \<or> 2 ^ k < 2 * unat x)"
proof (cases "x \<le> 1")
  case True
  then show ?thesis by (auto simp: next_power_of_two_def word_le_nat_alt intro: exI [of _ 0])
next
  case False
  then have x: "1 < unat x" by (simp add: word_le_nat_alt)
  let ?n = "unat (x - 1)"
  have n: "?n = unat x - 1" using False by (simp add: unat_sub word_le_nat_alt)
  with x have b: "2 ^ (bit_length ?n - 1) \<le> ?n" "?n < 2 ^ bit_length ?n" "0 < bit_length ?n"
    using bit_length_bounds [of ?n] by simp_all
  obtain m where m: "bit_length ?n = Suc m" using b(3) by (cases "bit_length ?n") auto
  have "(2::nat) ^ m < 2 ^ 63" using b(1) m n assms x by simp
  then have "m < 63" using power_less_imp_less_exp [of 2 m 63] by simp
  moreover have "next_power_of_two x = 2 ^ Suc m"
    using False m by (simp add: next_power_of_two_def)
  ultimately show ?thesis
    using b m n x by (intro exI [of _ "Suc m"]) (simp, linarith)
qed

lemma align_value_eq: "alignment_ok a \<Longrightarrow> align_value a = 2 ^ unat (exponent a)"
  by (simp add: align_value_def shl_def MAX_ALIGNMENT_EXPONENT_def word_le_nat_alt push_bit_eq_mult)

lemma align_value_unat:
  assumes "alignment_ok a"
  shows "unat (align_value a) = 2 ^ unat (exponent a)" "unat (exponent a) \<le> 16"
  using assms by (simp_all add: align_value_eq unat_exp_word MAX_ALIGNMENT_EXPONENT_def word_le_nat_alt)

lemma align_mask_eq: "alignment_ok a \<Longrightarrow> align_mask a = mask (unat (exponent a))"
  by (simp add: align_mask_def align_value_eq mask_eq_exp_minus_1)

lemma unat_and_mask: "unat (v AND mask k :: u64) = unat v mod 2 ^ k"
  by (simp flip: take_bit_eq_mask take_bit_eq_mod add: unsigned_take_bit_eq)

text \<open>Rounding up gives the least multiple that is not smaller, where it fits into 64 bits.\<close>

lemma next_multiple_of_spec:
  assumes "next_multiple_of x m = Some y" "unat x + unat m \<le> 2 ^ 64"
  shows "unat m dvd unat y \<and> unat x \<le> unat y \<and> unat y < unat x + unat m"
proof -
  from assms(1) have m: "0 < unat m"
    by (auto simp: next_multiple_of_def unat_gt_0 split: if_splits)
  let ?r = "unat x mod unat m"
  have r: "unat (x mod m) = ?r" by (simp add: unat_mod)
  show ?thesis
  proof (cases "x mod m = 0")
    case True
    with assms(1) m r show ?thesis
      by (auto simp: next_multiple_of_def split: if_splits)
  next
    case False
    then have "0 < ?r" using r by (metis unat_gt_0)
    have lt: "?r < unat m" using m by simp
    then have "unat (m - x mod m) = unat m - ?r"
      by (simp add: unat_sub word_le_nat_alt r)
    moreover have "?r \<le> unat x" by simp
    ultimately have y: "unat y = unat x + (unat m - ?r)"
      using assms False \<open>0 < ?r\<close> lt
      by (auto simp: next_multiple_of_def unat_word_ariths split: if_splits)
    have "unat x + (unat m - ?r) = (unat x - ?r) + unat m" using lt \<open>?r \<le> unat x\<close> by simp
    moreover have "unat m dvd unat x - ?r" by (rule dvd_minus_mod)
    ultimately have "unat m dvd unat y" using y by (metis dvd_add dvd_refl)
    moreover have "unat x \<le> unat y" "unat y < unat x + unat m"
      using y lt \<open>0 < ?r\<close> by linarith+
    ultimately show ?thesis by blast
  qed
qed

lemma count_ones_one:
  "count_ones x = 1 \<longleftrightarrow> (\<exists>k<64. x = 2 ^ k)"
proof
  assume "count_ones x = 1"
  then obtain k where k: "filter (bit x) [0..<64] = [k]"
    by (auto simp: count_ones_def length_Suc_conv)
  then have "set (filter (bit x) [0..<64]) = {k}" by simp
  then have b: "bit x n \<longleftrightarrow> n = k" if "n < 64" for n using that by auto
  have "k < 64" using arg_cong [OF k, of set] by auto
  moreover have "x = 2 ^ k"
    using b by (intro bit_word_eqI) (auto simp: bit_simps)
  ultimately show "\<exists>k<64. x = 2 ^ k" by blast
next
  assume "\<exists>k<64. x = 2 ^ k"
  then obtain k where k: "k < 64" "x = 2 ^ k" by blast
  have "filter (bit x) [0..<64] = filter (\<lambda>n. n = k) [0..<64]"
    using k by (intro filter_cong) (auto simp: bit_simps)
  also have "length \<dots> = 1"
  proof -
    have "[0..<64] = [0..<k] @ k # [Suc k..<64]"
      using k(1) by (metis le0 less_imp_le_nat upt_add_eq_append upt_conv_Cons le_add_diff_inverse)
    then show ?thesis by (simp add: filter_empty_conv)
  qed
  finally show "count_ones x = 1" by (simp add: count_ones_def)
qed

lemma trailing_zeros_power:
  assumes "k < 64"
  shows "trailing_zeros (2 ^ k) = k"
proof -
  have "[0..<64] = [0..<k] @ k # [Suc k..<64]"
    using assms by (metis le0 less_imp_le_nat upt_add_eq_append upt_conv_Cons le_add_diff_inverse)
  moreover have "bit (2 ^ k :: u64) n \<longleftrightarrow> n = k" if "n < 64" for n
    using that assms by (auto simp: bit_simps)
  ultimately show ?thesis
    using assms by (simp only: trailing_zeros_def) (subst takeWhile_append2; simp)
qed

lemma align_up_spec:
  assumes "alignment_ok a" "align_up a v = Some r" "unat v + 2 ^ unat (exponent a) \<le> 2 ^ 64"
  shows "2 ^ unat (exponent a) dvd unat r \<and> unat v \<le> unat r \<and> unat r < unat v + 2 ^ unat (exponent a)"
  using next_multiple_of_spec [of v "align_value a" r] assms
  by (simp add: align_up_def align_value_unat [OF assms(1)])

lemma align_up_total: "alignment_ok a \<Longrightarrow> align_up a v \<noteq> None"
  by (simp add: align_up_def next_multiple_of_def)
    (metis align_value_unat(1) less_numeral_extra(3) power_not_zero unsigned_0 zero_neq_numeral)

section \<open>Properties\<close>

text \<open>C9: An alignment is accepted exactly when it is a power of two up to \<open>2 ^ 16\<close>, it stands for that
  value, and the two kinds of rejection report the rejected value.\<close>

theorem alignment_new_spec:
  "alignment_new raw =
     (if \<not> is_power_of_two raw then Inl (InvalidAlignment raw)
      else if 2 ^ 16 < unat raw then Inl (UnsupportedAlignment raw)
      else Inr \<lparr>exponent = word_of_nat (trailing_zeros raw)\<rparr>)
   \<and> (case alignment_new raw of Inl _ \<Rightarrow> True
      | Inr a \<Rightarrow> align_value a = raw \<and> alignment_ok a \<and> from_exponent (ucast (exponent a)) = Inr a)
   \<and> (is_power_of_two raw \<longleftrightarrow> (\<exists>k<64. raw = 2 ^ k))"
proof (cases "is_power_of_two raw")
  case True
  then obtain k where k: "k < 64" "raw = 2 ^ k" using count_ones_one by (auto simp: is_power_of_two_def)
  have tz: "trailing_zeros raw = k" by (simp add: k trailing_zeros_power)
  have u: "unat raw = 2 ^ k" by (simp add: k unat_exp_word)
  have le: "(2::nat) ^ 16 < 2 ^ k \<longleftrightarrow> 16 < k" by (rule power_strict_increasing_iff) simp
  show ?thesis
  proof (cases "16 < k")
    case False
    then have e: "unat (word_of_nat k :: u8) = k"
      by (simp add: unsigned_of_nat take_bit_nat_eq_self)
    then have "alignment_ok \<lparr>exponent = word_of_nat k\<rparr>"
      using False by (simp add: word_le_nat_alt MAX_ALIGNMENT_EXPONENT_def)
    moreover from this have "align_value \<lparr>exponent = word_of_nat k\<rparr> = raw"
      by (simp add: align_value_eq e k(2) del: of_nat_power)
    moreover have "ucast (ucast (word_of_nat k :: u8) :: u32) = (word_of_nat k :: u8)"
      by (rule word8_eqI, unfold each_bit, simp add: bit_eval)
    moreover have "unat (ucast (word_of_nat k :: u8) :: u32) = k"
      using e False by (simp add: unsigned_ucast_eq take_bit_nat_eq_self)
    ultimately show ?thesis
      using True False k tz u le
      by (auto simp: alignment_new_def from_exponent_def MAX_ALIGNMENT_EXPONENT_def word_less_nat_alt
          intro: exI [of _ k])
  qed (use True k tz u le in \<open>auto simp: alignment_new_def MAX_ALIGNMENT_EXPONENT_def\<close>)
qed (use count_ones_one [of raw] in \<open>auto simp: alignment_new_def is_power_of_two_def\<close>)



end
