(* ===== verification/Riscv_Shrink.thy ===== *)
theory Riscv_Shrink
  imports Reloc_RiscV Relax_Deltas Alignment "HOL-Library.Multiset"
begin

text \<open>
  The size-reducing relaxations of RISC-V (\<^verbatim>\<open>reld-core/src/elf_riscv64.rs\<close>): the scan of a section's
  relocations that decides which bytes to delete, and the choice of the instruction rewrite when
  the relocations are applied to the shortened section.

  A relocation is the record of the four values that the scan reads of it; the symbol resolver is
  the closure that the caller passes.
\<close>

record shrink_rel =
  sr_type :: riscv_reloc
  sr_offset :: u64
  sr_symbol :: "nat option"
  sr_addend :: u64

record relax_symbol_info =
  output_address :: u64
  is_interposable :: bool

record shrink_state =
  raw_deltas :: "(u64 \<times> u32) list"
  min_unrelaxed_margin :: "u64 option"
  prev_call :: "(u64 \<times> nat) option"
  prev_hi20 :: "(u64 \<times> nat \<times> u64) option"
  new_cumulative_delta :: u64

definition forget :: "shrink_state \<Rightarrow> shrink_state" where
  "forget st = st\<lparr>prev_call := None, prev_hi20 := None\<rparr>"

definition push_delta :: "u64 \<Rightarrow> u32 \<Rightarrow> shrink_state \<Rightarrow> shrink_state" where
  "push_delta off n st =
     st\<lparr>raw_deltas := raw_deltas st @ [(off, n)],
        new_cumulative_delta := new_cumulative_delta st + ucast n\<rparr>"

definition note_margin :: "u64 \<Rightarrow> shrink_state \<Rightarrow> shrink_state" where
  "note_margin margin st =
     st\<lparr>min_unrelaxed_margin :=
          Some (case min_unrelaxed_margin st of None \<Rightarrow> margin | Some m \<Rightarrow> min m margin)\<rparr>"

definition delta_exists :: "section_relax_deltas option \<Rightarrow> u64 \<Rightarrow> bool" where
  "delta_exists existing off = (case existing of None \<Rightarrow> False | Some d \<Rightarrow> has_delta_at d off)"

section \<open>Alignment sleds\<close>

text \<open>Cumulative bytes deleted strictly before an input offset by earlier passes.\<close>

definition existing_cum :: "section_relax_deltas option \<Rightarrow> u64 \<Rightarrow> u64" where
  "existing_cum existing off =
     (case existing of
        None \<Rightarrow> 0
      | Some d \<Rightarrow>
          let idx = partition_point (\<lambda>e. input_offset e < off) d
          in if idx = 0 then 0 else cumulative_deleted (d ! (idx - 1)))"

text \<open>The arm of \<^verbatim>\<open>R_RISCV_ALIGN\<close>; rounding to a multiple of a zero alignment panics.\<close>

definition shrink_align ::
    "u64 \<Rightarrow> section_relax_deltas option \<Rightarrow> shrink_rel \<Rightarrow> shrink_state \<Rightarrow> shrink_state option" where
  "shrink_align section_address existing rel st =
     (let addend = sr_addend rel; input_offset = sr_offset rel in
      if addend = 0 \<or> delta_exists existing input_offset then Some (forget st)
      else let output_offset = input_offset - existing_cum existing input_offset - new_cumulative_delta st;
               p = section_address + output_offset;
               alignment = next_power_of_two addend
        in case next_multiple_of p alignment of
             None \<Rightarrow> None
           | Some desired \<Rightarrow>
               let actual = p + addend in
               Some (forget (if desired < actual
                             then push_delta input_offset (ucast (actual - desired)) st else st)))"

section \<open>Calls\<close>

definition JAL_MAX :: u64 where "JAL_MAX = 2 ^ 20 - 1"

definition unsigned_abs :: "u64 \<Rightarrow> u64" where
  "unsigned_abs d = (if is_negative d then - d else d)"

definition shrink_call ::
    "u64 \<Rightarrow> (nat \<Rightarrow> relax_symbol_info option) \<Rightarrow> u64 \<Rightarrow> nat \<Rightarrow> shrink_state \<Rightarrow> shrink_state" where
  "shrink_call section_address resolve call_offset symb st =
     (case resolve symb of
        None \<Rightarrow> st
      | Some info \<Rightarrow>
          if is_interposable info then st
          else let distance = output_address info - (section_address + call_offset) in
            if distance_fits_jal distance then push_delta (call_offset + 4) 4 st
            else note_margin (unsigned_abs distance - JAL_MAX) st)"

section \<open>Upper immediates\<close>

definition hi20_margin :: "u64 \<Rightarrow> u64" where
  "hi20_margin value =
     (let hi20 = shr (value + 0x800) 12 in
      if 31 < sint hi20 then (hi20 - 31) * 0x1000
      else if sint hi20 < -32 then - 1
      else 0x1000)"

definition shrink_hi20 ::
    "u8 list \<Rightarrow> (nat \<Rightarrow> relax_symbol_info option) \<Rightarrow> u64 \<Rightarrow> nat \<Rightarrow> u64 \<Rightarrow> shrink_state \<Rightarrow> shrink_state option" where
  "shrink_hi20 section_bytes resolve hi20_offset symb addend st =
     (case resolve symb of
        None \<Rightarrow> Some st
      | Some info \<Rightarrow>
          if is_interposable info \<or> \<not> hi20_offset + 4 \<le> word_of_nat (length section_bytes) then Some st
          else do {
            lui_word \<leftarrow> u32_at section_bytes (at hi20_offset);
            let rd = shr lui_word 7 AND 0x1f;
            let value = output_address info + addend;
            Some (if hi20_is_zero value then push_delta hi20_offset 4 st
                  else if rd_valid_for_clui rd
                  then if hi20_fits_clui value then push_delta (hi20_offset + 2) 2 st
                       else note_margin (hi20_margin value) st
                  else st) })"

section \<open>The scan\<close>

text \<open>The arm of \<^verbatim>\<open>R_RISCV_RELAX\<close>: the first of the two candidates that is still pending counts.\<close>

definition shrink_relax ::
    "u64 \<Rightarrow> u8 list \<Rightarrow> section_relax_deltas option \<Rightarrow> (nat \<Rightarrow> relax_symbol_info option)
      \<Rightarrow> shrink_rel \<Rightarrow> shrink_state \<Rightarrow> shrink_state option" where
  "shrink_relax section_address section_bytes existing resolve rel st =
     (let try_hi20 =
        (case prev_hi20 st of
           Some (hi20_offset, symb, addend) \<Rightarrow>
             if sr_offset rel = hi20_offset
                \<and> \<not> (delta_exists existing hi20_offset \<or> delta_exists existing (hi20_offset + 2))
             then shrink_hi20 section_bytes resolve hi20_offset symb addend st
             else Some st
         | None \<Rightarrow> Some st)
      in map_option forget
        (case prev_call st of
           Some (call_offset, symb) \<Rightarrow>
             if sr_offset rel = call_offset \<and> \<not> delta_exists existing (call_offset + 4)
             then Some (shrink_call section_address resolve call_offset symb st)
             else try_hi20
         | None \<Rightarrow> try_hi20))"

definition shrink_step ::
    "u64 \<Rightarrow> u8 list \<Rightarrow> section_relax_deltas option \<Rightarrow> (nat \<Rightarrow> relax_symbol_info option)
      \<Rightarrow> shrink_rel \<Rightarrow> shrink_state \<Rightarrow> shrink_state option" where
  "shrink_step section_address section_bytes existing resolve rel st =
     (case sr_type rel of
        RV_Other R_RISCV_ALIGN \<Rightarrow> shrink_align section_address existing rel st
      | RV_Insn R_RISCV_CALL \<Rightarrow>
          Some (st\<lparr>prev_call := map_option (\<lambda>symb. (sr_offset rel, symb)) (sr_symbol rel), prev_hi20 := None\<rparr>)
      | RV_Insn R_RISCV_CALL_PLT \<Rightarrow>
          Some (st\<lparr>prev_call := map_option (\<lambda>symb. (sr_offset rel, symb)) (sr_symbol rel), prev_hi20 := None\<rparr>)
      | RV_Insn R_RISCV_HI20 \<Rightarrow>
          Some (st\<lparr>prev_hi20 := map_option (\<lambda>symb. (sr_offset rel, symb, sr_addend rel)) (sr_symbol rel),
                   prev_call := None\<rparr>)
      | RV_Other R_RISCV_RELAX \<Rightarrow>
          shrink_relax section_address section_bytes existing resolve rel st
      | _ \<Rightarrow> Some (forget st))"

fun shrink_scan ::
    "u64 \<Rightarrow> u8 list \<Rightarrow> section_relax_deltas option \<Rightarrow> (nat \<Rightarrow> relax_symbol_info option)
      \<Rightarrow> shrink_rel list \<Rightarrow> shrink_state \<Rightarrow> shrink_state option" where
  "shrink_scan section_address section_bytes existing resolve [] st = Some st"
| "shrink_scan section_address section_bytes existing resolve (rel # rels) st = do {
     st \<leftarrow> shrink_step section_address section_bytes existing resolve rel st;
     shrink_scan section_address section_bytes existing resolve rels st }"

definition shrink_start :: shrink_state where
  "shrink_start = \<lparr>raw_deltas = [], min_unrelaxed_margin = None, prev_call = None,
     prev_hi20 = None, new_cumulative_delta = 0\<rparr>"

definition collect_relaxation_deltas ::
    "u64 \<Rightarrow> u8 list \<Rightarrow> shrink_rel list \<Rightarrow> section_relax_deltas option
      \<Rightarrow> (nat \<Rightarrow> relax_symbol_info option) \<Rightarrow> ((u64 \<times> u32) list \<times> u64 option) option" where
  "collect_relaxation_deltas section_address section_bytes rels existing resolve =
     map_option (\<lambda>st. (raw_deltas st, min_unrelaxed_margin st))
       (shrink_scan section_address section_bytes existing resolve rels shrink_start)"

section \<open>Applying the relocations of a shortened section\<close>

text \<open>
  \<^verbatim>\<open>is_jalr_deleted\<close>, whose \<open>None\<close> is a panic, and the arms of \<^verbatim>\<open>new_relaxation\<close> for an executable section. A relaxation is its
  kind with the table entry that replaces that of the relocation, and whether it is mandatory. The
  arm of calls always relaxes, so its \<open>None\<close> is a panic; the \<open>None\<close> of the other two means that
  the instruction stays.
\<close>

definition is_jalr_deleted :: "u8 list \<Rightarrow> nat \<Rightarrow> bool option" where
  "is_jalr_deleted section_bytes off =
     (if length section_bytes < off + 8 then Some True
      else do {
        auipc_word \<leftarrow> u32_at section_bytes (int off);
        next_word \<leftarrow> u32_at section_bytes (int (off + 4));
        let auipc_rd = shr auipc_word 7 AND 0x1f;
        Some (\<not> (next_word AND 0x7f = 0x67 \<and> shr next_word 15 AND 0x1f = auipc_rd)) })"

type_synonym riscv_choice = "riscv_relaxation \<times> riscv_reloc relocation_kind_info \<times> bool"

definition rv_rel_info :: "riscv_reloc \<Rightarrow> riscv_reloc relocation_kind_info option" where
  "rv_rel_info r = riscv_relocation_type_from_raw r"

definition relax_call :: "u8 list \<Rightarrow> nat \<Rightarrow> riscv_reloc \<Rightarrow> bool \<Rightarrow> bool \<Rightarrow> riscv_choice option" where
  "relax_call section_bytes off r non_zero_address static =
     (if non_zero_address then do {
        deleted \<leftarrow> is_jalr_deleted section_bytes off;
        if deleted then do {
          info \<leftarrow> rv_rel_info (RV_Insn R_RISCV_JAL);
          Some (CallToJal, info, static) }
        else do {
          info \<leftarrow> rv_rel_info r;
          Some (RVNoOp, info\<lparr>kind := Relative\<rparr>, static) } }
      else do {
        info \<leftarrow> rv_rel_info (RV_Insn R_RISCV_NONE);
        Some (RVReplaceWithNop, info, static) })"

definition relax_hi20 :: "section_relax_deltas option \<Rightarrow> u64 \<Rightarrow> riscv_choice option" where
  "relax_hi20 relax_deltas offset_in_section =
     (case relax_deltas of
        None \<Rightarrow> None
      | Some deltas \<Rightarrow>
          let input_off = output_to_input_offset deltas offset_in_section in
          if has_delta_at deltas input_off then do {
            info \<leftarrow> rv_rel_info (RV_Insn R_RISCV_NONE);
            Some (Hi20Delete, info, False) }
          else if has_delta_at deltas (input_off + 2) then Some (Hi20ToCLui, clui_rel_info, False)
          else None)"

definition relax_lo12 ::
    "section_relax_deltas option \<Rightarrow> u8 list \<Rightarrow> u64 \<Rightarrow> riscv_reloc \<Rightarrow> riscv_choice option" where
  "relax_lo12 relax_deltas section_bytes offset_in_section r =
     (case relax_deltas of
        None \<Rightarrow> None
      | Some deltas \<Rightarrow>
          let input_off = output_to_input_offset deltas offset_in_section in
          if 4 \<le> input_off \<and> delta_bytes_at deltas (input_off - 4) = 4
             \<and> offset_in_section + 4 \<le> word_of_nat (length section_bytes)
          then do {
            word \<leftarrow> u32_at section_bytes (at offset_in_section);
            let rd = shr word 7 AND 0x1f;
            let rs1 = shr word 15 AND 0x1f;
            if rd = rs1 then do {
              info \<leftarrow> rv_rel_info r;
              Some (Lo12Rs1ToZero, info, False) }
            else None }
          else None)"

section \<open>What a relocation may delete\<close>

definition claims :: "shrink_rel \<Rightarrow> u64 \<times> u32 \<Rightarrow> bool" where
  "claims r p \<longleftrightarrow>
     (case sr_type r of
        RV_Other R_RISCV_ALIGN \<Rightarrow>
          fst p = sr_offset r \<and> 0 < unat (snd p) \<and> unat (snd p) \<le> unat (sr_addend r)
      | RV_Insn R_RISCV_CALL \<Rightarrow> p = (sr_offset r + 4, 4)
      | RV_Insn R_RISCV_CALL_PLT \<Rightarrow> p = (sr_offset r + 4, 4)
      | RV_Insn R_RISCV_HI20 \<Rightarrow> p = (sr_offset r, 4) \<or> p = (sr_offset r + 2, 2)
      | _ \<Rightarrow> False)"

definition rel_extent :: "shrink_rel \<Rightarrow> nat" where
  "rel_extent r =
     (case sr_type r of
        RV_Other R_RISCV_ALIGN \<Rightarrow> unat (sr_addend r)
      | RV_Insn R_RISCV_CALL \<Rightarrow> 8
      | RV_Insn R_RISCV_CALL_PLT \<Rightarrow> 8
      | RV_Insn R_RISCV_HI20 \<Rightarrow> 4
      | _ \<Rightarrow> 0)"

text \<open>
  Relocations as an assembler emits them: in ascending order, their instructions and sleds apart,
  sleds shorter than 4 GiB, within the 64-bit offset. \<^verbatim>\<open>R_RISCV_RELAX\<close> only marks its predecessor.
\<close>

fun rels_spaced :: "nat \<Rightarrow> shrink_rel list \<Rightarrow> bool" where
  "rels_spaced pos [] \<longleftrightarrow> True"
| "rels_spaced pos (r # rs) \<longleftrightarrow>
     (if sr_type r = RV_Other R_RISCV_RELAX then rels_spaced pos rs
      else pos \<le> unat (sr_offset r) \<and> unat (sr_offset r) + rel_extent r < 2 ^ 64
        \<and> (sr_type r = RV_Other R_RISCV_ALIGN \<longrightarrow> unat (sr_addend r) < 2 ^ 32)
        \<and> rels_spaced (unat (sr_offset r) + rel_extent r) rs)"

definition pairs_of :: "section_relax_deltas option \<Rightarrow> (u64 \<times> u32) list" where
  "pairs_of existing =
     (case existing of None \<Rightarrow> [] | Some ds \<Rightarrow> map (\<lambda>d. (input_offset d, bytes_deleted d)) ds)"

lemma pairs_of_simps [simp]:
  "pairs_of None = []"
  "pairs_of (Some ds) = map (\<lambda>d. (input_offset d, bytes_deleted d)) ds"
  by (simp_all add: pairs_of_def)

lemma delta_exists_iff: "delta_exists existing off \<longleftrightarrow> off \<in> fst ` set (pairs_of existing)"
  by (cases existing) (force simp: delta_exists_def has_delta_at_def binary_search_None_iff)+

lemma unat_offset_add:
  "unat (off :: u64) + n < 2 ^ 64 \<Longrightarrow> n < 2 ^ 64 \<Longrightarrow> unat (off + word_of_nat n) = unat off + n"
  by (simp add: unat_word_ariths unsigned_of_nat take_bit_nat_eq_self)

lemma claims_extent:
  assumes "claims r p" "unat (sr_offset r) + rel_extent r < 2 ^ 64"
  shows "unat (sr_offset r) \<le> unat (fst p)"
    and "unat (fst p) + unat (snd p) \<le> unat (sr_offset r) + rel_extent r"
    and "0 < unat (snd p)" "sr_type r \<noteq> RV_Other R_RISCV_RELAX"
  using assms unat_offset_add [of "sr_offset r" 4] unat_offset_add [of "sr_offset r" 2]
  by (auto simp: claims_def rel_extent_def split: riscv_reloc.splits riscv_other_reloc.splits
      riscv_insn_reloc.splits)

lemma rels_spaced_from: "rels_spaced pos rs \<Longrightarrow> r \<in> set rs \<Longrightarrow>
    sr_type r \<noteq> RV_Other R_RISCV_RELAX \<Longrightarrow>
    pos \<le> unat (sr_offset r) \<and> unat (sr_offset r) + rel_extent r < 2 ^ 64"
  by (induction rs arbitrary: pos) (fastforce split: if_splits)+

lemma rels_spaced_apart:
  assumes "rels_spaced pos rs" "r \<in> set rs" "q \<in> set rs" "r \<noteq> q"
    and "sr_type r \<noteq> RV_Other R_RISCV_RELAX" "sr_type q \<noteq> RV_Other R_RISCV_RELAX"
  shows "unat (sr_offset r) + rel_extent r \<le> unat (sr_offset q)
    \<or> unat (sr_offset q) + rel_extent q \<le> unat (sr_offset r)"
  using assms
proof (induction rs arbitrary: pos)
  case (Cons a rs)
  show ?case
  proof (cases "sr_type a = RV_Other R_RISCV_RELAX")
    case True
    with Cons show ?thesis by auto
  next
    case False
    with Cons.prems(1) have s: "rels_spaced (unat (sr_offset a) + rel_extent a) rs" by simp
    from Cons.prems(2,3,4) consider "r = a" "q \<in> set rs" | "q = a" "r \<in> set rs" | "r \<in> set rs" "q \<in> set rs"
      by auto
    then show ?thesis
      using rels_spaced_from [OF s] Cons.IH [OF s] Cons.prems(4-6) by cases auto
  qed
qed simp

section \<open>Sorting disjoint deletions\<close>

definition apart :: "u64 \<times> u32 \<Rightarrow> u64 \<times> u32 \<Rightarrow> bool" where
  "apart p q \<longleftrightarrow> unat (fst p) + unat (snd p) \<le> unat (fst q) \<or> unat (fst q) + unat (snd q) \<le> unat (fst p)"

definition deletable :: "u64 \<times> u32 \<Rightarrow> bool" where
  "deletable p \<longleftrightarrow> 0 < unat (snd p) \<and> unat (fst p) + unat (snd p) < 2 ^ 64"

lemma raw_from_sorted:
  assumes "sorted (map fst ps)" "distinct ps" "\<And>p q. p \<in> set ps \<Longrightarrow> q \<in> set ps \<Longrightarrow> p \<noteq> q \<Longrightarrow> apart p q"
    and "list_all deletable ps" "list_all (\<lambda>p. pos \<le> unat (fst p)) ps"
  shows "raw_from pos ps"
  using assms
proof (induction ps arbitrary: pos)
  case (Cons p ps)
  have "unat (fst p) + unat (snd p) \<le> unat (fst q)" if q: "q \<in> set ps" for q
  proof -
    have "fst p \<le> fst q" "q \<noteq> p" using Cons.prems(1,2) q by auto
    moreover have "apart p q" using Cons.prems(3) [of p q] q \<open>q \<noteq> p\<close> by auto
    moreover have "0 < unat (snd q)" using Cons.prems(4) q by (auto simp: deletable_def list_all_iff)
    ultimately show ?thesis by (auto simp: apart_def word_le_nat_alt)
  qed
  then have "raw_from (unat (fst p) + unat (snd p)) ps"
    using Cons.prems by (intro Cons.IH) (auto simp: list_all_iff)
  with Cons.prems show ?case by (cases p) (simp add: deletable_def)
qed simp

lemma raw_from_sort_key:
  assumes "distinct ps" "list_all deletable ps"
    and "\<And>p q. p \<in> set ps \<Longrightarrow> q \<in> set ps \<Longrightarrow> p \<noteq> q \<Longrightarrow> apart p q"
  shows "raw_from 0 (sort_key fst ps)"
  using assms by (intro raw_from_sorted) (simp_all add: list_all_iff)

lemma raw_from_lower: "raw_from pos ps \<Longrightarrow> p \<in> set ps \<Longrightarrow> pos \<le> unat (fst p)"
  by (induction ps arbitrary: pos rule: list.induct) fastforce+

lemma raw_from_deletable: "raw_from pos ps \<Longrightarrow> p \<in> set ps \<Longrightarrow> deletable p"
  by (induction ps arbitrary: pos rule: list.induct) (fastforce simp: deletable_def)+

lemma raw_from_distinct: "raw_from pos ps \<Longrightarrow> distinct ps"
proof (induction ps arbitrary: pos)
  case (Cons a ps)
  then show ?case by (cases a) (fastforce dest: raw_from_lower)
qed simp

lemma raw_from_apart:
  "raw_from pos ps \<Longrightarrow> p \<in> set ps \<Longrightarrow> q \<in> set ps \<Longrightarrow> p \<noteq> q \<Longrightarrow> apart p q"
proof (induction ps arbitrary: pos)
  case (Cons a ps)
  then show ?case by (cases a) (fastforce simp: apart_def dest: raw_from_lower)
qed simp

section \<open>The invariant of the scan\<close>

definition fresh_for :: "section_relax_deltas option \<Rightarrow> shrink_rel \<Rightarrow> bool" where
  "fresh_for existing r \<longleftrightarrow> list_all (\<lambda>q. \<not> claims r q) (pairs_of existing)"

definition ends_by :: "nat \<Rightarrow> (u64 \<times> u32) list \<Rightarrow> bool" where
  "ends_by pos raw \<longleftrightarrow> list_all (\<lambda>p. unat (fst p) + unat (snd p) \<le> pos) raw"

abbreviation is_call :: "shrink_rel \<Rightarrow> bool" where
  "is_call r \<equiv> sr_type r = RV_Insn R_RISCV_CALL \<or> sr_type r = RV_Insn R_RISCV_CALL_PLT"

text \<open>
  A pending candidate belongs to a relocation of \<open>pend\<close>, all its bytes are before \<open>pos\<close>, and all
  deletions so far are before it.
\<close>

definition shrink_inv :: "shrink_rel set \<Rightarrow> nat \<Rightarrow> shrink_state \<Rightarrow> bool" where
  "shrink_inv pend pos st \<longleftrightarrow>
     raw_from 0 (raw_deltas st) \<and> ends_by pos (raw_deltas st) \<and> pos < 2 ^ 64
     \<and> (case prev_call st of None \<Rightarrow> True
        | Some (off, _) \<Rightarrow> unat off + 8 \<le> pos \<and> ends_by (unat off) (raw_deltas st)
            \<and> (\<exists>r\<in>pend. is_call r \<and> sr_offset r = off))
     \<and> (case prev_hi20 st of None \<Rightarrow> True
        | Some (off, _, _) \<Rightarrow> unat off + 4 \<le> pos \<and> ends_by (unat off) (raw_deltas st)
            \<and> (\<exists>r\<in>pend. sr_type r = RV_Insn R_RISCV_HI20 \<and> sr_offset r = off))"

abbreviation deleted_sum :: "(u64 \<times> u32) list \<Rightarrow> u64" where
  "deleted_sum raw \<equiv> (\<Sum>p\<leftarrow>raw. ucast (snd p))"

text \<open>What a step adds: deletions that relocations of \<open>from\<close> may ask for and have not got yet.\<close>

definition shrink_adds ::
    "section_relax_deltas option \<Rightarrow> shrink_rel set \<Rightarrow> shrink_state \<Rightarrow> shrink_state \<Rightarrow> bool" where
  "shrink_adds existing from_rels st st' \<longleftrightarrow>
     (\<exists>extra. raw_deltas st' = raw_deltas st @ extra
       \<and> new_cumulative_delta st' = new_cumulative_delta st + deleted_sum extra
       \<and> (\<forall>p\<in>set extra. \<exists>r\<in>from_rels. claims r p \<and> fresh_for existing r))"

lemma shrink_adds_refl: "raw_deltas st' = raw_deltas st \<Longrightarrow> new_cumulative_delta st' = new_cumulative_delta st
    \<Longrightarrow> shrink_adds existing rs st st'"
  by (simp add: shrink_adds_def)

lemma shrink_adds_trans:
  assumes "shrink_adds existing A st st'" "shrink_adds existing B st' st''" "A \<subseteq> C" "B \<subseteq> C"
  shows "shrink_adds existing C st st''"
proof -
  obtain e1 e2 where
      "raw_deltas st' = raw_deltas st @ e1" "raw_deltas st'' = raw_deltas st' @ e2"
      "new_cumulative_delta st' = new_cumulative_delta st + deleted_sum e1"
      "new_cumulative_delta st'' = new_cumulative_delta st' + deleted_sum e2"
      "\<forall>p\<in>set e1. \<exists>r\<in>A. claims r p \<and> fresh_for existing r"
      "\<forall>p\<in>set e2. \<exists>r\<in>B. claims r p \<and> fresh_for existing r"
    using assms(1,2) by (auto simp: shrink_adds_def)
  with assms(3,4) show ?thesis
    unfolding shrink_adds_def by (intro exI [of _ "e1 @ e2"]) (auto, blast+)
qed

lemma raw_from_snoc:
  "raw_from pos raw \<Longrightarrow> ends_by (unat off) raw \<Longrightarrow> pos \<le> unat off \<Longrightarrow> 0 < unat n \<Longrightarrow>
     unat off + unat n < 2 ^ 64 \<Longrightarrow> raw_from pos (raw @ [(off, n)])"
  by (induction raw arbitrary: pos) (auto simp: ends_by_def)

lemma ends_by_mono: "ends_by pos raw \<Longrightarrow> pos \<le> pos' \<Longrightarrow> ends_by pos' raw"
  by (fastforce simp: ends_by_def list_all_iff)

lemma ends_by_snoc: "ends_by pos (raw @ [p]) \<longleftrightarrow> ends_by pos raw \<and> unat (fst p) + unat (snd p) \<le> pos"
  by (simp add: ends_by_def)

text \<open>The one way to delete: behind everything so far, before the end of a relocation's extent.\<close>

lemma push_delta_inv:
  assumes "shrink_inv pend pos st" "ends_by (unat off) (raw_deltas st)" "0 < unat n"
    and "unat off + unat n \<le> pos'" "pos \<le> pos'" "pos' < 2 ^ 64"
  shows "shrink_inv pend' pos' (forget (push_delta off n st))"
  using assms raw_from_snoc [of 0 "raw_deltas st" off n]
  by (simp add: shrink_inv_def forget_def push_delta_def ends_by_snoc) (blast intro: ends_by_mono)

lemma push_delta_adds:
  "r \<in> rs \<Longrightarrow> claims r (off, n) \<Longrightarrow> fresh_for existing r \<Longrightarrow>
     shrink_adds existing rs st (forget (push_delta off n st))"
  unfolding shrink_adds_def by (intro exI [of _ "[(off, n)]"]) (auto simp: forget_def push_delta_def)

lemma forget_inv:
  assumes "shrink_inv pend pos st" "raw_deltas st' = raw_deltas st" "pos \<le> pos'" "pos' < 2 ^ 64"
  shows "shrink_inv pend' pos' (forget st')"
  using assms by (auto simp: shrink_inv_def forget_def intro: ends_by_mono)

lemma forget_adds: "raw_deltas st' = raw_deltas st \<Longrightarrow> new_cumulative_delta st' = new_cumulative_delta st
    \<Longrightarrow> shrink_adds existing rs st (forget st')"
  by (simp add: shrink_adds_def forget_def)

lemma note_margin_same [simp]:
  "raw_deltas (note_margin m st) = raw_deltas st"
  "new_cumulative_delta (note_margin m st) = new_cumulative_delta st"
  by (simp_all add: note_margin_def)

lemma fresh_for_call:
  "is_call r \<Longrightarrow> \<not> delta_exists existing (sr_offset r + 4) \<Longrightarrow> fresh_for existing r"
  unfolding fresh_for_def delta_exists_iff list_all_iff by (force simp: claims_def)

lemma fresh_for_hi20:
  "sr_type r = RV_Insn R_RISCV_HI20 \<Longrightarrow>
     \<not> (delta_exists existing (sr_offset r) \<or> delta_exists existing (sr_offset r + 2)) \<Longrightarrow> fresh_for existing r"
  unfolding fresh_for_def delta_exists_iff list_all_iff by (force simp: claims_def)

lemma fresh_for_align:
  "sr_type r = RV_Other R_RISCV_ALIGN \<Longrightarrow> \<not> delta_exists existing (sr_offset r) \<Longrightarrow> fresh_for existing r"
  unfolding fresh_for_def delta_exists_iff list_all_iff by (force simp: claims_def)

section \<open>The steps keep it\<close>

lemma u32_at_fits: "unat i + 4 \<le> length buf \<Longrightarrow> \<exists>w. u32_at buf (at i) = Some w"
  by (simp add: u32_at_def u32_from_slice_def)

lemma shrink_call_step:
  assumes "shrink_inv pend pos st" "prev_call st = Some (off, s)" "\<not> delta_exists existing (off + 4)"
  shows "shrink_inv {} pos (forget (shrink_call sa resolve off s st))
    \<and> shrink_adds existing pend st (forget (shrink_call sa resolve off s st))"
proof -
  from assms obtain r where r: "r \<in> pend" "is_call r" "sr_offset r = off"
      and b: "unat off + 8 \<le> pos" "ends_by (unat off) (raw_deltas st)" "pos < 2 ^ 64"
    by (auto simp: shrink_inv_def)
  have o4: "unat (off + 4) = unat off + 4" using unat_offset_add [of off 4] b by simp
  have inv: "shrink_inv {} pos (forget (push_delta (off + 4) 4 st))"
    using b ends_by_mono [OF b(2)] by (intro push_delta_inv [OF assms(1)]) (simp_all add: o4)
  moreover have "shrink_adds existing pend st (forget (push_delta (off + 4) 4 st))"
    using r fresh_for_call [OF r(2)] assms(3) by (intro push_delta_adds [OF r(1)]) (auto simp: claims_def)
  ultimately show ?thesis
    using forget_inv [OF assms(1)] b(3)
    by (auto simp: shrink_call_def Let_def forget_adds split: option.split)
qed

lemma shrink_hi20_step:
  assumes "shrink_inv pend pos st" "prev_hi20 st = Some (off, s, a)"
    and "\<not> (delta_exists existing off \<or> delta_exists existing (off + 2))"
    and "length section_bytes < 2 ^ 64"
  shows "\<exists>st'. shrink_hi20 section_bytes resolve off s a st = Some st' \<and> shrink_inv {} pos (forget st')
    \<and> shrink_adds existing pend st (forget st')"
proof -
  from assms obtain r where r: "r \<in> pend" "sr_type r = RV_Insn R_RISCV_HI20" "sr_offset r = off"
      and b: "unat off + 4 \<le> pos" "ends_by (unat off) (raw_deltas st)" "pos < 2 ^ 64"
    by (auto simp: shrink_inv_def)
  have o: "unat (off + 4) = unat off + 4" "unat (off + 2) = unat off + 2"
    using unat_offset_add [of off 4] unat_offset_add [of off 2] b by simp_all
  have fresh: "fresh_for existing r" using fresh_for_hi20 [OF r(2)] assms(3) r(3) by simp
  have inv: "shrink_inv {} pos (forget (push_delta off 4 st))"
      "shrink_inv {} pos (forget (push_delta (off + 2) 2 st))"
    using b ends_by_mono [OF b(2)] by (intro push_delta_inv [OF assms(1)]; simp add: o)+
  have adds: "shrink_adds existing pend st (forget (push_delta off 4 st))"
      "shrink_adds existing pend st (forget (push_delta (off + 2) 2 st))"
    using r by (intro push_delta_adds [OF r(1) _ fresh]; simp add: claims_def)+
  have keep: "shrink_inv {} pos (forget st)" "\<And>m. shrink_inv {} pos (forget (note_margin m st))"
    using forget_inv [OF assms(1)] b(3) by auto
  show ?thesis
  proof (cases "\<exists>info. resolve s = Some info \<and> \<not> is_interposable info
      \<and> off + 4 \<le> word_of_nat (length section_bytes)")
    case True
    then have "unat off + 4 \<le> length section_bytes"
      using assms(4) by (auto simp: word_le_nat_alt o unsigned_of_nat take_bit_nat_eq_self)
    then obtain w where "u32_at section_bytes (at off) = Some w" using u32_at_fits by blast
    with True inv adds keep show ?thesis
      by (auto simp: shrink_hi20_def Let_def forget_adds)
  next
    case False
    then have "shrink_hi20 section_bytes resolve off s a st = Some st"
      by (auto simp: shrink_hi20_def split: option.split)
    with keep show ?thesis by (auto intro: forget_adds)
  qed
qed

lemma shrink_inv_weaken: "shrink_inv A pos st \<Longrightarrow> A \<subseteq> B \<Longrightarrow> shrink_inv B pos st"
  unfolding shrink_inv_def by (auto split: option.splits)

lemma shrink_inv_forget: "prev_call st = None \<Longrightarrow> prev_hi20 st = None \<Longrightarrow> forget st = st"
  by (simp add: forget_def)

lemma forget_forget [simp]: "forget (forget st) = forget st"
  by (simp add: forget_def)

lemma shrink_relax_step:
  assumes "shrink_inv pend pos st" "length section_bytes < 2 ^ 64"
  shows "\<exists>st'. shrink_relax sa section_bytes existing resolve rel st = Some st' \<and> shrink_inv {} pos st'
    \<and> shrink_adds existing pend st st'"
proof -
  have pos: "pos < 2 ^ 64" using assms(1) by (simp add: shrink_inv_def)
  have keep: "shrink_inv {} pos (forget st) \<and> shrink_adds existing pend st (forget st)"
    using forget_inv [OF assms(1), of st pos] pos by (simp add: forget_adds)
  have hi: "\<exists>st'. map_option forget (case prev_hi20 st of
         Some (off, s, a) \<Rightarrow>
           if sr_offset rel = off \<and> \<not> (delta_exists existing off \<or> delta_exists existing (off + 2))
           then shrink_hi20 section_bytes resolve off s a st else Some st
       | None \<Rightarrow> Some st) = Some st' \<and> shrink_inv {} pos st' \<and> shrink_adds existing pend st st'"
    using keep shrink_hi20_step [OF assms(1) _ _ assms(2), of _ _ _ existing resolve]
    by (auto split: option.split)
  show ?thesis
  proof (cases "\<exists>off s. prev_call st = Some (off, s) \<and> sr_offset rel = off \<and> \<not> delta_exists existing (off + 4)")
    case True
    then show ?thesis
      using shrink_call_step [OF assms(1)] by (auto simp: shrink_relax_def)
  next
    case False
    then have "shrink_relax sa section_bytes existing resolve rel st = map_option forget (case prev_hi20 st of
         Some (off, s, a) \<Rightarrow>
           if sr_offset rel = off \<and> \<not> (delta_exists existing off \<or> delta_exists existing (off + 2))
           then shrink_hi20 section_bytes resolve off s a st else Some st
       | None \<Rightarrow> Some st)"
      unfolding shrink_relax_def Let_def by (auto split: option.split)
    with hi show ?thesis by simp
  qed
qed

text \<open>A sled: where the code behind it would start, and where it is to start.\<close>

definition sled_start :: "u64 \<Rightarrow> section_relax_deltas option \<Rightarrow> shrink_rel \<Rightarrow> shrink_state \<Rightarrow> u64" where
  "sled_start sa existing r st = sa + (sr_offset r - existing_cum existing (sr_offset r) - new_cumulative_delta st)"

lemma next_power_of_two_pos: "unat x < 2 ^ 32 \<Longrightarrow> next_power_of_two x \<noteq> 0 \<and> unat x \<le> unat (next_power_of_two x)"
proof -
  assume "unat x < 2 ^ 32"
  then obtain k where k: "k \<le> 63" "next_power_of_two x = 2 ^ k" "unat x \<le> 2 ^ k"
    using next_power_of_two_spec [of x] by auto
  then have "unat (next_power_of_two x) = 2 ^ k" by (simp add: unat_exp_word)
  with k show ?thesis by (metis power_not_zero unat_0 zero_neq_numeral)
qed

text \<open>Deletions of earlier passes: each inside the extent of one of the section's relocations.\<close>

definition existing_ok :: "shrink_rel list \<Rightarrow> section_relax_deltas option \<Rightarrow> bool" where
  "existing_ok rels existing \<longleftrightarrow>
     (case existing of None \<Rightarrow> True | Some ds \<Rightarrow> deltas_ok ds)
     \<and> list_all (\<lambda>p. list_ex (\<lambda>r. claims r p) rels) (pairs_of existing)"

definition new_ok :: "shrink_rel list \<Rightarrow> section_relax_deltas option \<Rightarrow> (u64 \<times> u32) list \<Rightarrow> bool" where
  "new_ok rels existing raw \<longleftrightarrow>
     raw_from 0 raw \<and> (\<forall>p\<in>set raw. \<exists>r\<in>set rels. claims r p \<and> fresh_for existing r)"

lemma existing_raw_from: "existing_ok rels existing \<Longrightarrow> raw_from 0 (pairs_of existing)"
  by (cases existing) (auto simp: existing_ok_def intro: deltas_from_raw)

lemma claims_apart:
  assumes "rels_spaced 0 rels" "r \<in> set rels" "q \<in> set rels" "r \<noteq> q" "claims r p" "claims q p'"
  shows "apart p p'"
proof -
  have "sr_type r \<noteq> RV_Other R_RISCV_RELAX" "sr_type q \<noteq> RV_Other R_RISCV_RELAX"
    using assms(5,6) by (auto simp: claims_def)
  then have "unat (sr_offset r) + rel_extent r < 2 ^ 64" "unat (sr_offset q) + rel_extent q < 2 ^ 64"
      "unat (sr_offset r) + rel_extent r \<le> unat (sr_offset q)
        \<or> unat (sr_offset q) + rel_extent q \<le> unat (sr_offset r)"
    using rels_spaced_from [OF assms(1)] rels_spaced_apart [OF assms(1-4)] assms(2,3) by blast+
  with claims_extent [OF assms(5)] claims_extent [OF assms(6)] show ?thesis
    unfolding apart_def by linarith
qed

lemma existing_new_apart:
  assumes "rels_spaced 0 rels" "existing_ok rels existing" "new_ok rels existing raw"
    and "p \<in> set (pairs_of existing)" "q \<in> set raw"
  shows "apart p q"
proof -
  obtain r where r: "r \<in> set rels" "claims r p"
    using assms(2,4) unfolding existing_ok_def list_all_iff list_ex_iff by blast
  obtain r' where r': "r' \<in> set rels" "claims r' q" "fresh_for existing r'"
    using assms(3,5) unfolding new_ok_def by blast
  have "r \<noteq> r'" using r(2) r'(3) assms(4) unfolding fresh_for_def list_all_iff by blast
  then show ?thesis using claims_apart [OF assms(1) r(1) r'(1) _ r(2) r'(2)] by blast
qed

lemma apart_sym: "apart p q \<longleftrightarrow> apart q p"
  by (auto simp: apart_def)

lemma apart_self: "deletable p \<Longrightarrow> \<not> apart p p"
  by (simp add: apart_def deletable_def)

text \<open>Old and new deletions together, or any part of the old with the new, sort to a valid list.\<close>

lemma union_raw_from:
  assumes "rels_spaced 0 rels" "existing_ok rels existing" "new_ok rels existing raw"
  shows "raw_from 0 (sort_key fst (filter P (pairs_of existing) @ raw))"
proof (rule raw_from_sort_key)
  let ?old = "filter P (pairs_of existing)"
  note old = existing_raw_from [OF assms(2)]
  have new: "raw_from 0 raw" using assms(3) by (simp add: new_ok_def)
  have cross: "apart p q" if "p \<in> set ?old" "q \<in> set raw" for p q
    using existing_new_apart [OF assms] that by simp
  show "list_all deletable (?old @ raw)"
    using raw_from_deletable [OF old] raw_from_deletable [OF new] by (auto simp: list_all_iff)
  have "set ?old \<inter> set raw = {}"
    using cross apart_self raw_from_deletable [OF new] by blast
  then show "distinct (?old @ raw)"
    using raw_from_distinct [OF old] raw_from_distinct [OF new] by simp
  show "apart p q" if "p \<in> set (?old @ raw)" "q \<in> set (?old @ raw)" "p \<noteq> q" for p q
    using that cross raw_from_apart [OF old] raw_from_apart [OF new] apart_sym [of p q]
    unfolding set_append Un_iff set_filter mem_Collect_eq by blast
qed

lemma raw_from_sum:
  "raw_from pos ps \<Longrightarrow> ends_by b ps \<Longrightarrow> pos \<le> b \<Longrightarrow> pos + (\<Sum>p\<leftarrow>ps. unat (snd p)) \<le> b"
  by (induction ps arbitrary: pos) (fastforce simp: ends_by_def)+

lemma deleted_sum_unat:
  "(\<Sum>p\<leftarrow>raw. unat (snd p)) < 2 ^ 64 \<Longrightarrow> unat (deleted_sum raw) = (\<Sum>p\<leftarrow>raw. unat (snd p))"
  by (induction raw) (simp_all add: unat_word_ariths unat_ucast_u32)

lemma existing_cum_sum:
  "deltas_from pos (unat cum) ds \<Longrightarrow>
     unat (let idx = partition_point (\<lambda>e. input_offset e < off) ds
       in if idx = 0 then cum else cumulative_deleted (ds ! (idx - 1)))
     = unat cum + (\<Sum>d\<leftarrow>takeWhile (\<lambda>e. input_offset e < off) ds. unat (bytes_deleted d))"
proof (induction ds arbitrary: pos cum)
  case (Cons d ds)
  then have "deltas_from (unat (input_offset d) + unat (bytes_deleted d)) (unat (cumulative_deleted d)) ds"
      "unat (cumulative_deleted d) = unat cum + unat (bytes_deleted d)"
    by simp_all
  with Cons.IH [OF this(1)] show ?case
    by (auto simp: Let_def nth_Cons split: nat.splits)
qed simp

lemma sum_list_sort_key: "sum_list (map f (sort_key k xs)) = (sum_list (map f xs) :: nat)"
proof -
  have "mset (map f (sort_key k xs)) = mset (map f xs)" by simp
  then show ?thesis by (metis sum_mset_sum_list)
qed

text \<open>What was and is being deleted before an offset fits before it.\<close>

lemma cumulative_bound:
  assumes "rels_spaced 0 rels" "existing_ok rels existing" "new_ok rels existing raw"
    and "ends_by (unat off) raw" "ends_by (unat off) (filter (\<lambda>p. fst p < off) (pairs_of existing))"
  shows "unat (existing_cum existing off) + unat (deleted_sum raw) \<le> unat off"
proof -
  let ?old = "filter (\<lambda>p. fst p < off) (pairs_of existing)"
  have "(\<Sum>p\<leftarrow>sort_key fst (?old @ raw). unat (snd p)) \<le> unat off"
    using raw_from_sum [OF union_raw_from [OF assms(1-3), of "\<lambda>p. fst p < off"], of "unat off"] assms(4,5)
    unfolding ends_by_def list_all_iff set_sort set_append by fastforce
  moreover have "(\<Sum>p\<leftarrow>sort_key fst (?old @ raw). unat (snd p)) = (\<Sum>p\<leftarrow>?old @ raw. unat (snd p))"
    by (rule sum_list_sort_key)
  moreover have "unat (existing_cum existing off) = (\<Sum>p\<leftarrow>?old. unat (snd p))"
  proof (cases existing)
    case (Some ds)
    then have ok: "deltas_ok ds" using assms(2) by (simp add: existing_ok_def)
    have "filter (\<lambda>p. fst p < off) (map (\<lambda>d. (input_offset d, bytes_deleted d)) ds)
        = map (\<lambda>d. (input_offset d, bytes_deleted d)) (takeWhile (\<lambda>e. input_offset e < off) ds)"
      using deltas_from_strict [OF ok] by (simp add: filter_map comp_def takeWhile_strictly_by)
    with existing_cum_sum [of 0 0 ds off] ok Some show ?thesis
      by (simp add: existing_cum_def comp_def)
  qed (simp add: existing_cum_def)
  ultimately have "unat (existing_cum existing off) + (\<Sum>p\<leftarrow>raw. unat (snd p)) \<le> unat off" by simp
  then show ?thesis using deleted_sum_unat [of raw] unsigned_less [where 'a = nat, of off] by simp
qed

text \<open>The section and its sleds lie within the 64-bit address space.\<close>

definition within_space :: "u64 \<Rightarrow> shrink_rel list \<Rightarrow> bool" where
  "within_space sa rels \<longleftrightarrow> list_all (\<lambda>r. unat sa + unat (sr_offset r) + 2 ^ 33 \<le> 2 ^ 64) rels"

lemma existing_before:
  assumes "rels_spaced 0 rels" "existing_ok rels existing" "r \<in> set rels"
    and "sr_type r = RV_Other R_RISCV_ALIGN"
  shows "ends_by (unat (sr_offset r)) (filter (\<lambda>p. fst p < sr_offset r) (pairs_of existing))"
  unfolding ends_by_def list_all_iff
proof
  fix p assume "p \<in> set (filter (\<lambda>p. fst p < sr_offset r) (pairs_of existing))"
  then have p: "p \<in> set (pairs_of existing)" "unat (fst p) < unat (sr_offset r)"
    by (auto simp: word_less_nat_alt)
  obtain q where q: "q \<in> set rels" "claims q p"
    using assms(2) p(1) unfolding existing_ok_def list_all_iff list_ex_iff by blast
  have "sr_type q \<noteq> RV_Other R_RISCV_RELAX" using q(2) by (auto simp: claims_def)
  moreover from this have b: "unat (sr_offset q) + rel_extent q < 2 ^ 64"
    using rels_spaced_from [OF assms(1) q(1)] by blast
  moreover have "r \<noteq> q" using q(2) p(2) assms(4) by (auto simp: claims_def)
  ultimately have "unat (sr_offset r) + rel_extent r \<le> unat (sr_offset q)
      \<or> unat (sr_offset q) + rel_extent q \<le> unat (sr_offset r)"
    using rels_spaced_apart [OF assms(1,3) q(1)] assms(4) by auto
  with claims_extent [OF q(2) b] p(2) show "unat (fst p) + unat (snd p) \<le> unat (sr_offset r)"
    by linarith
qed

text \<open>
  The address of a sled does not wrap, and it is rounded up to the next multiple of the alignment,
  which is within the sled when the sled is longer than needed.
\<close>

lemma sled_desired:
  assumes "rels_spaced 0 rels" "existing_ok rels existing" "new_ok rels existing (raw_deltas st)"
    and "new_cumulative_delta st = deleted_sum (raw_deltas st)" "within_space sa rels"
    and "r \<in> set rels" "sr_type r = RV_Other R_RISCV_ALIGN" "unat (sr_addend r) < 2 ^ 32"
    and "ends_by (unat (sr_offset r)) (raw_deltas st)"
  defines "p \<equiv> sled_start sa existing r st"
  shows "\<exists>desired. next_multiple_of p (next_power_of_two (sr_addend r)) = Some desired
    \<and> unat (next_power_of_two (sr_addend r)) dvd unat desired \<and> p \<le> desired
    \<and> unat (p + sr_addend r) = unat p + unat (sr_addend r)"
proof -
  let ?a = "sr_addend r" and ?m = "next_power_of_two (sr_addend r)"
  have "unat (existing_cum existing (sr_offset r)) + unat (new_cumulative_delta st) \<le> unat (sr_offset r)"
    using cumulative_bound [OF assms(1-3,9) existing_before [OF assms(1,2,6)]] assms(4,7) by simp
  then have "unat (sr_offset r - existing_cum existing (sr_offset r) - new_cumulative_delta st) \<le> unat (sr_offset r)"
    by (simp add: unat_sub word_le_nat_alt)
  moreover have "unat sa + unat (sr_offset r) + 2 ^ 33 \<le> 2 ^ 64"
    using assms(5,6) by (simp add: within_space_def list_all_iff)
  ultimately have p: "unat p + 2 ^ 33 \<le> 2 ^ 64"
    by (simp add: p_def sled_start_def unat_word_ariths)
  obtain k where k: "k \<le> 63" "?m = 2 ^ k" "unat ?a \<le> 1 \<or> 2 ^ k < 2 * unat ?a"
      "unat ?a \<le> 2 ^ k"
    using next_power_of_two_spec [of ?a] assms(8) by auto
  then have m: "unat ?m = 2 ^ k" by (simp add: unat_exp_word)
  have "(2::nat) ^ k \<le> 2 ^ 33"
  proof (cases "unat ?a \<le> 1")
    case True
    then have "?m = 1" by (simp add: next_power_of_two_def word_le_nat_alt)
    with m show ?thesis by simp
  next
    case False
    with k(3) assms(8) show ?thesis by simp
  qed
  with p m have room: "unat p + unat ?m \<le> 2 ^ 64" by simp
  obtain desired where d: "next_multiple_of p ?m = Some desired"
    using next_power_of_two_pos [OF assms(8)] by (auto simp: next_multiple_of_def)
  have "unat (p + ?a) = unat p + unat ?a"
    using p assms(8) by (simp add: unat_word_ariths)
  with next_multiple_of_spec [OF d room] d show ?thesis by (auto simp: word_le_nat_alt)
qed

lemma shrink_align_step:
  assumes "shrink_inv pend pos st" "sr_type r = RV_Other R_RISCV_ALIGN" "rels_spaced pos (r # rs)"
    and "rels_spaced 0 rels" "existing_ok rels existing" "new_ok rels existing (raw_deltas st)"
    and "new_cumulative_delta st = deleted_sum (raw_deltas st)" "within_space sa rels" "r \<in> set rels"
  shows "\<exists>st'. shrink_align sa existing r st = Some st'
    \<and> shrink_inv {} (unat (sr_offset r) + rel_extent r) st' \<and> shrink_adds existing {r} st st'"
proof -
  let ?pos = "unat (sr_offset r) + rel_extent r" and ?p = "sled_start sa existing r st"
  from assms(2,3) have sp: "pos \<le> unat (sr_offset r)" "?pos < 2 ^ 64" "unat (sr_addend r) < 2 ^ 32"
      "rel_extent r = unat (sr_addend r)"
    by (auto simp: rel_extent_def)
  have e: "ends_by (unat (sr_offset r)) (raw_deltas st)"
    using assms(1) sp(1) by (auto simp: shrink_inv_def intro: ends_by_mono)
  have keep: "shrink_inv {} ?pos (forget st)" "shrink_adds existing {r} st (forget st)"
    using forget_inv [OF assms(1), of st ?pos] sp by (simp_all add: forget_adds)
  show ?thesis
  proof (cases "sr_addend r = 0 \<or> delta_exists existing (sr_offset r)")
    case False
    obtain desired where d: "next_multiple_of ?p (next_power_of_two (sr_addend r)) = Some desired"
        "?p \<le> desired" "unat (?p + sr_addend r) = unat ?p + unat (sr_addend r)"
      using sled_desired [OF assms(4-9,2) sp(3) e] by blast
    let ?n = "?p + sr_addend r - desired"
    have step: "shrink_align sa existing r st
        = Some (forget (if desired < ?p + sr_addend r then push_delta (sr_offset r) (ucast ?n) st else st))"
      using False d(1) by (simp add: shrink_align_def Let_def sled_start_def)
    show ?thesis
    proof (cases "desired < ?p + sr_addend r")
      case True
      then have "unat ?n = unat ?p + unat (sr_addend r) - unat desired"
        using d(3) by (simp add: unat_sub word_le_nat_alt word_less_nat_alt)
      with True d(2,3) have n: "0 < unat ?n" "unat ?n \<le> unat (sr_addend r)"
        by (simp_all add: word_le_nat_alt word_less_nat_alt)
      with sp(3) have c: "unat (ucast ?n :: u32) = unat ?n"
        by (simp add: unsigned_ucast_eq take_bit_nat_eq_self)
      have "shrink_inv {} ?pos (forget (push_delta (sr_offset r) (ucast ?n) st))"
        using e n sp by (intro push_delta_inv [OF assms(1)]) (simp_all add: c)
      moreover have "shrink_adds existing {r} st (forget (push_delta (sr_offset r) (ucast ?n) st))"
        using n False assms(2) by (intro push_delta_adds) (auto simp: claims_def c fresh_for_align)
      ultimately show ?thesis using True by (simp add: step)
    qed (use keep in \<open>simp add: step\<close>)
  qed (use keep in \<open>auto simp: shrink_align_def\<close>)
qed

lemma shrink_step_other:
  assumes "sr_type r \<noteq> RV_Other R_RISCV_ALIGN" "sr_type r \<noteq> RV_Other R_RISCV_RELAX" "\<not> is_call r"
    and "sr_type r \<noteq> RV_Insn R_RISCV_HI20"
  shows "shrink_step sa section_bytes existing resolve r st = Some (forget st)"
  using assms
  by (simp add: shrink_step_def split: riscv_reloc.split riscv_insn_reloc.split riscv_other_reloc.split)

lemma shrink_step_spec:
  assumes "shrink_inv pend pos st" "rels_spaced pos (r # rs)" "length section_bytes < 2 ^ 64"
    and "rels_spaced 0 rels" "existing_ok rels existing" "new_ok rels existing (raw_deltas st)"
    and "new_cumulative_delta st = deleted_sum (raw_deltas st)" "within_space sa rels" "r \<in> set rels"
  shows "\<exists>st' pos'. shrink_step sa section_bytes existing resolve r st = Some st'
    \<and> shrink_inv (insert r pend) pos' st' \<and> rels_spaced pos' rs
    \<and> shrink_adds existing (insert r pend) st st'"
proof -
  let ?pos = "unat (sr_offset r) + rel_extent r"
  consider (align) "sr_type r = RV_Other R_RISCV_ALIGN" | (relax) "sr_type r = RV_Other R_RISCV_RELAX"
    | (call) "is_call r" | (hi) "sr_type r = RV_Insn R_RISCV_HI20"
    | (other) "sr_type r \<noteq> RV_Other R_RISCV_ALIGN" "sr_type r \<noteq> RV_Other R_RISCV_RELAX" "\<not> is_call r"
        "sr_type r \<noteq> RV_Insn R_RISCV_HI20"
    by blast
  then show ?thesis
  proof cases
    case align
    with assms(2) have "rels_spaced ?pos rs" by simp
    with shrink_align_step [OF assms(1) align assms(2,4-9)] show ?thesis
      using shrink_inv_weaken [of "{}"] shrink_adds_trans [OF _ shrink_adds_refl]
      by (auto simp: shrink_step_def align) blast
  next
    case relax
    with assms(2) have "rels_spaced pos rs" by simp
    with shrink_relax_step [OF assms(1,3), of sa existing resolve r] show ?thesis
      using shrink_inv_weaken [of "{}"] shrink_adds_trans [OF _ shrink_adds_refl]
      by (auto simp: shrink_step_def relax) blast
  next
    case call
    then have "rels_spaced ?pos rs" "pos \<le> unat (sr_offset r)" "?pos < 2 ^ 64" "rel_extent r = 8"
      using assms(2) by (auto simp: rel_extent_def)
    with assms(1) call show ?thesis
      by (intro exI [of _ "st\<lparr>prev_call := map_option (\<lambda>s. (sr_offset r, s)) (sr_symbol r), prev_hi20 := None\<rparr>"]
            exI [of _ ?pos])
        (auto simp: shrink_step_def shrink_inv_def shrink_adds_refl split: option.split intro: ends_by_mono)
  next
    case hi
    then have "rels_spaced ?pos rs" "pos \<le> unat (sr_offset r)" "?pos < 2 ^ 64" "rel_extent r = 4"
      using assms(2) by (auto simp: rel_extent_def)
    with assms(1) hi show ?thesis
      by (intro exI [of _ "st\<lparr>prev_hi20 := map_option (\<lambda>s. (sr_offset r, s, sr_addend r)) (sr_symbol r),
              prev_call := None\<rparr>"] exI [of _ ?pos])
        (auto simp: shrink_step_def shrink_inv_def shrink_adds_refl split: option.split intro: ends_by_mono)
  next
    case other
    then have "rels_spaced ?pos rs" "pos \<le> ?pos" "?pos < 2 ^ 64" using assms(2) by auto
    with forget_inv [OF assms(1), of st ?pos] shrink_step_other [OF other] show ?thesis
      by (auto intro: forget_adds)
  qed
qed

lemma new_ok_step:
  assumes "shrink_inv pend' pos' st'" "shrink_adds existing from_rels st st'" "new_ok rels existing (raw_deltas st)"
    and "from_rels \<subseteq> set rels" "new_cumulative_delta st = deleted_sum (raw_deltas st)"
  shows "new_ok rels existing (raw_deltas st') \<and> new_cumulative_delta st' = deleted_sum (raw_deltas st')"
  using assms unfolding new_ok_def shrink_inv_def shrink_adds_def by fastforce

lemma shrink_scan_spec:
  assumes "rels_spaced 0 rels" "existing_ok rels existing" "within_space sa rels" "length section_bytes < 2 ^ 64"
    and "shrink_inv pend pos st" "rels_spaced pos (rs @ suf)" "set rs \<union> pend \<subseteq> set rels"
    and "new_ok rels existing (raw_deltas st)" "new_cumulative_delta st = deleted_sum (raw_deltas st)"
  shows "\<exists>st' pos'. shrink_scan sa section_bytes existing resolve rs st = Some st'
    \<and> shrink_inv (set rs \<union> pend) pos' st' \<and> rels_spaced pos' suf
    \<and> shrink_adds existing (set rs \<union> pend) st st'
    \<and> new_ok rels existing (raw_deltas st') \<and> new_cumulative_delta st' = deleted_sum (raw_deltas st')"
  using assms(5-9)
proof (induction rs arbitrary: pend pos st)
  case Nil
  then show ?case by (auto simp: shrink_adds_refl)
next
  case (Cons r rs)
  from Cons.prems(3) have r: "r \<in> set rels" by simp
  obtain st1 pos1 where st1: "shrink_step sa section_bytes existing resolve r st = Some st1"
      "shrink_inv (insert r pend) pos1 st1" "rels_spaced pos1 (rs @ suf)"
      "shrink_adds existing (insert r pend) st st1"
    using shrink_step_spec [OF Cons.prems(1) _ assms(4,1,2) Cons.prems(4,5) assms(3) r, of "rs @ suf" resolve]
      Cons.prems(2) unfolding append_Cons by blast
  have ok1: "new_ok rels existing (raw_deltas st1)" "new_cumulative_delta st1 = deleted_sum (raw_deltas st1)"
    using new_ok_step [OF st1(2,4) Cons.prems(4) _ Cons.prems(5)] Cons.prems(3) by auto
  obtain st' pos' where st': "shrink_scan sa section_bytes existing resolve rs st1 = Some st'"
      "shrink_inv (set rs \<union> insert r pend) pos' st'" "rels_spaced pos' suf"
      "shrink_adds existing (set rs \<union> insert r pend) st1 st'"
      "new_ok rels existing (raw_deltas st')" "new_cumulative_delta st' = deleted_sum (raw_deltas st')"
    using Cons.IH [OF st1(2,3) _ ok1] Cons.prems(3) by auto
  have "shrink_adds existing (set rs \<union> insert r pend) st st'"
    by (rule shrink_adds_trans [OF st1(4) st'(4)]) auto
  moreover have "set rs \<union> insert r pend = set (r # rs) \<union> pend" by auto
  ultimately show ?case using st1(1) st' by auto
qed

lemma shrink_start_inv: "shrink_inv {} 0 shrink_start \<and> new_ok rels existing (raw_deltas shrink_start)
    \<and> new_cumulative_delta shrink_start = deleted_sum (raw_deltas shrink_start)"
  by (simp add: shrink_inv_def shrink_start_def new_ok_def ends_by_def)

lemma pairs_push [simp]: "map (\<lambda>d. (input_offset d, bytes_deleted d)) (push_deltas running raw) = raw"
  by (induction raw arbitrary: running) (auto simp: Let_def)

lemma absorb_ok:
  assumes "rels_spaced 0 rels" "existing_ok rels existing" "new_ok rels existing raw"
  shows "existing_ok rels (absorb existing raw)"
proof -
  have u: "raw_from 0 (sort_key fst (pairs_of existing @ raw))"
    using union_raw_from [OF assms, of "\<lambda>_. True"] by simp
  have raw: "raw_from 0 raw" and cl: "list_all (\<lambda>p. list_ex (\<lambda>r. claims r p) rels) raw"
    using assms(3) by (auto simp: new_ok_def list_all_iff list_ex_iff)
  have all: "list_all (\<lambda>p. list_ex (\<lambda>r. claims r p) rels) (sort_key fst (pairs_of existing @ raw))"
    using assms(2) cl unfolding existing_ok_def list_all_iff set_sort set_append by blast
  show ?thesis
  proof (cases existing)
    case None
    then show ?thesis
      using push_deltas_from [OF raw, of 0] cl
      by (simp add: existing_ok_def absorb_def deltas_new_def)
  next
    case (Some ds)
    show ?thesis
    proof (cases "raw = []")
      case True
      with Some assms(2) show ?thesis by (simp add: absorb_def merge_additional_def)
    next
      case False
      with Some u all show ?thesis
        using push_deltas_from [OF u, of 0]
        by (simp add: existing_ok_def absorb_def merge_additional_def deltas_new_def del: pairs_push)
          (simp add: deltas_new_def)
    qed
  qed
qed

text \<open>The passes of \<^verbatim>\<open>relaxation_scan_pass\<close> over one section, each with the addresses of its own layout.\<close>

fun relaxation_passes ::
    "u8 list \<Rightarrow> shrink_rel list \<Rightarrow> section_relax_deltas option
      \<Rightarrow> (u64 \<times> (nat \<Rightarrow> relax_symbol_info option)) list \<Rightarrow> section_relax_deltas option option" where
  "relaxation_passes section_bytes rels existing [] = Some existing"
| "relaxation_passes section_bytes rels existing ((section_address, resolve) # passes) =
     (case collect_relaxation_deltas section_address section_bytes rels existing resolve of
        None \<Rightarrow> None
      | Some (raw, _) \<Rightarrow>
          relaxation_passes section_bytes rels (if raw = [] then existing else absorb existing raw) passes)"

lemma collect_new_ok:
  assumes "rels_spaced 0 rels" "existing_ok rels existing" "within_space sa rels" "length section_bytes < 2 ^ 64"
  shows "\<exists>raw margin. collect_relaxation_deltas sa section_bytes rels existing resolve = Some (raw, margin)
    \<and> new_ok rels existing raw"
  using shrink_scan_spec [OF assms, of "{}" 0 shrink_start rels "[]" resolve] shrink_start_inv assms(1)
  by (auto simp: collect_relaxation_deltas_def)

section \<open>Sleds of a first pass\<close>

lemma shift_push:
  "list_all (\<lambda>p. fst p < i) before \<Longrightarrow> list_all (\<lambda>p. i \<le> fst p) behind \<Longrightarrow>
     shift_from cum (push_deltas cum (before @ behind)) i = i - (cum + deleted_sum before)"
proof (induction before arbitrary: cum)
  case Nil
  then show ?case by (cases behind) (auto simp: Let_def)
next
  case (Cons p before)
  then show ?case by (cases p) (simp add: Let_def add.assoc)
qed

lemma input_to_output_new:
  "list_all (\<lambda>p. fst p < i) before \<Longrightarrow> list_all (\<lambda>p. i \<le> fst p) behind \<Longrightarrow>
     input_to_output_offset (deltas_new (before @ behind)) i = i - deleted_sum before"
  by (simp add: input_to_output_shift deltas_new_def shift_push)

lemma ends_before:
  assumes "raw_from pos raw" "ends_by (unat i) raw"
  shows "list_all (\<lambda>p. fst p < i) raw"
  using assms raw_from_deletable [OF assms(1)]
  by (fastforce simp: ends_by_def list_all_iff deletable_def word_less_nat_alt)

lemma shrink_scan_append:
  "shrink_scan sa section_bytes existing resolve (xs @ ys) st =
     Option.bind (shrink_scan sa section_bytes existing resolve xs st)
       (shrink_scan sa section_bytes existing resolve ys)"
proof (induction xs arbitrary: st)
  case (Cons x xs)
  then show ?case by (cases "shrink_step sa section_bytes existing resolve x st") simp_all
qed simp

text \<open>
  After the first pass, the code behind a sled starts at the aligned address, or at the end of the
  whole sled where the sled is too short for that.
\<close>

lemma first_pass_sled:
  assumes "rels_spaced 0 rels" "within_space sa rels" "length section_bytes < 2 ^ 64"
    and "collect_relaxation_deltas sa section_bytes rels None resolve = Some (raw, margin)"
    and "r \<in> set rels" "sr_type r = RV_Other R_RISCV_ALIGN" "sr_addend r \<noteq> 0"
  shows "\<exists>desired. next_multiple_of (sa + input_to_output_offset (deltas_new raw) (sr_offset r))
        (next_power_of_two (sr_addend r)) = Some desired
    \<and> unat (next_power_of_two (sr_addend r)) dvd unat desired
    \<and> sa + input_to_output_offset (deltas_new raw) (sr_offset r + sr_addend r)
        = min (sa + input_to_output_offset (deltas_new raw) (sr_offset r) + sr_addend r) desired"
proof -
  let ?off = "sr_offset r" and ?a = "sr_addend r"
  have none: "existing_ok rels None" by (simp add: existing_ok_def)
  obtain pre post where rels: "rels = pre @ r # post" using assms(5) by (meson split_list)
  have spaced: "rels_spaced 0 (pre @ r # post)" using assms(1) by (simp add: rels)
  obtain st1 pos1 where st1: "shrink_scan sa section_bytes None resolve pre shrink_start = Some st1"
      "shrink_inv (set pre) pos1 st1" "rels_spaced pos1 (r # post)"
      "new_ok rels None (raw_deltas st1)" "new_cumulative_delta st1 = deleted_sum (raw_deltas st1)"
    using shrink_scan_spec [OF assms(1) none assms(2,3) _ spaced, of "{}" shrink_start resolve]
      shrink_start_inv by (auto simp: rels)
  have sp: "pos1 \<le> unat ?off" "unat ?off + unat ?a < 2 ^ 64" "unat ?a < 2 ^ 32"
      "rels_spaced (unat ?off + unat ?a) post" "rel_extent r = unat ?a"
    using st1(3) assms(6) by (auto simp: rel_extent_def)
  have e: "ends_by (unat ?off) (raw_deltas st1)"
    using st1(2) sp(1) by (auto simp: shrink_inv_def intro: ends_by_mono)
  let ?p = "sled_start sa None r st1"
  obtain desired where d: "next_multiple_of ?p (next_power_of_two ?a) = Some desired"
      "unat (next_power_of_two ?a) dvd unat desired" "?p \<le> desired"
      "unat (?p + ?a) = unat ?p + unat ?a"
    using sled_desired [OF assms(1) none st1(4,5) assms(2,5,6) sp(3) e] by blast
  define own where "own = (if desired < ?p + ?a then [(?off, ucast (?p + ?a - desired) :: u32)] else [])"
  obtain st2 where st2: "shrink_align sa None r st1 = Some st2"
      "shrink_inv {} (unat ?off + unat ?a) st2" "shrink_adds None {r} st1 st2"
    using shrink_align_step [OF st1(2) assms(6) st1(3) assms(1) none st1(4,5) assms(2,5)] sp(5) by auto
  have raw2: "raw_deltas st2 = raw_deltas st1 @ own"
    using st2(1) d(1) assms(7)
    by (auto simp: shrink_align_def Let_def delta_exists_def own_def forget_def push_delta_def sled_start_def)
  have ok2: "new_ok rels None (raw_deltas st2)" "new_cumulative_delta st2 = deleted_sum (raw_deltas st2)"
    using new_ok_step [OF st2(2,3) st1(4) _ st1(5)] assms(5) by auto
  have sp2: "rels_spaced (unat ?off + unat ?a) (post @ [])" using sp(4) by simp
  obtain st3 later where st3: "shrink_scan sa section_bytes None resolve post st2 = Some st3"
      "raw_deltas st3 = raw_deltas st2 @ later" "\<forall>p\<in>set later. \<exists>q\<in>set post. claims q p"
    using shrink_scan_spec [OF assms(1) none assms(2,3) st2(2) sp2 _ ok2, of resolve] rels
    unfolding shrink_adds_def by fastforce
  have scan: "shrink_scan sa section_bytes None resolve (pre @ r # post) shrink_start = Some st3"
    using st1(1) st2(1) st3(1) assms(6) by (simp add: shrink_scan_append shrink_step_def)
  then have raw: "raw = raw_deltas st1 @ own @ later"
    using assms(4) st3(2) raw2 by (auto simp: collect_relaxation_deltas_def rels)
  have end_off: "unat (?off + ?a) = unat ?off + unat ?a"
    using sp(2) by (simp add: unat_word_ariths)
  have later: "?off + ?a \<le> fst p" if mem: "p \<in> set later" for p
  proof -
    obtain q where q: "q \<in> set post" "claims q p" using st3(3) mem by blast
    then have "sr_type q \<noteq> RV_Other R_RISCV_RELAX" by (auto simp: claims_def)
    then have "unat ?off + unat ?a \<le> unat (sr_offset q)" "unat (sr_offset q) + rel_extent q < 2 ^ 64"
      using rels_spaced_from [OF sp(4) q(1)] by blast+
    with claims_extent(1) [OF q(2)] show ?thesis by (simp add: word_le_nat_alt end_off)
  qed
  have "list_all (\<lambda>p. fst p < ?off) (raw_deltas st1)"
    using st1(4) e by (intro ends_before) (auto simp: new_ok_def)
  moreover have "?off < ?off + ?a"
    using assms(7) by (simp add: word_less_nat_alt end_off unat_gt_0)
  ultimately have before: "list_all (\<lambda>p. fst p < ?off + ?a) (raw_deltas st1)"
      "list_all (\<lambda>p. fst p < ?off) (raw_deltas st1)" "list_all (\<lambda>p. fst p < ?off + ?a) own"
      "list_all (\<lambda>p. ?off \<le> fst p) (own @ later)"
    using later by (auto simp: list_all_iff own_def intro: order.strict_trans order.trans less_imp_le)
  have start: "sa + input_to_output_offset (deltas_new raw) ?off = ?p"
    using input_to_output_new [OF before(2,4)]
    by (simp add: raw sled_start_def existing_cum_def st1(5))
  have "input_to_output_offset (deltas_new ((raw_deltas st1 @ own) @ later)) (?off + ?a)
      = ?off + ?a - deleted_sum (raw_deltas st1 @ own)"
    using before(1,3) later by (intro input_to_output_new) (auto simp: list_all_iff)
  then have stop: "sa + input_to_output_offset (deltas_new raw) (?off + ?a) = ?p + ?a - deleted_sum own"
    by (simp add: raw sled_start_def existing_cum_def st1(5) algebra_simps)
  have "deleted_sum own = (if desired < ?p + ?a then ?p + ?a - desired else 0)"
  proof (cases "desired < ?p + ?a")
    case True
    then have "unat (?p + ?a - desired) = unat ?p + unat ?a - unat desired"
      using d(4) by (simp add: unat_sub word_le_nat_alt word_less_nat_alt)
    then have "unat (?p + ?a - desired) < 2 ^ 32" using d(3) sp(3) by (simp add: word_le_nat_alt)
    then have "ucast (ucast (?p + ?a - desired) :: u32) = ?p + ?a - desired"
      by (intro word_unat_eq_iff [THEN iffD2])
        (simp add: unat_ucast_u32, simp add: unsigned_ucast_eq take_bit_nat_eq_self)
    with True show ?thesis by (simp add: own_def)
  qed (simp add: own_def)
  with stop have "sa + input_to_output_offset (deltas_new raw) (?off + ?a) = min (?p + ?a) desired"
    by (auto simp: min_def)
  with d(1,2) start show ?thesis by auto
qed

section \<open>Which deletions the rewrites recognise\<close>

lemma kept_below_Suc: "kept_below ds (Suc i) = kept_below ds i + (if is_deleted ds i then 0 else 1)"
  by (simp add: kept_below_def)

lemma kept_below_deleted:
  "(\<And>j. i \<le> j \<Longrightarrow> j < i + n \<Longrightarrow> is_deleted ds j) \<Longrightarrow> kept_below ds (i + n) = kept_below ds i"
proof (induction n)
  case (Suc n)
  then show ?case by (simp add: kept_below_Suc)
qed simp

lemma deleted_start_round_trip:
  assumes "deltas_ok ds" "d \<in> set ds"
    and "\<not> is_deleted ds (unat (input_offset d) + unat (bytes_deleted d))"
  shows "output_to_input_offset ds (input_to_output_offset ds (input_offset d))
    = input_offset d + ucast (bytes_deleted d)"
proof -
  let ?o = "unat (input_offset d)" and ?n = "unat (bytes_deleted d)"
  let ?e = "input_offset d + ucast (bytes_deleted d)"
  have "deletable (input_offset d, bytes_deleted d)"
    using assms(2) by (intro raw_from_deletable [OF deltas_from_raw [OF assms(1)]]) auto
  then have e: "unat ?e = ?o + ?n"
    by (simp add: deletable_def unat_word_ariths unat_ucast_u32)
  have "is_deleted ds j" if "?o \<le> j" "j < ?o + ?n" for j
    using assms(2) that by (auto simp: is_deleted_def list_ex_iff)
  then have "kept_below ds (?o + ?n) = kept_below ds ?o" by (rule kept_below_deleted)
  moreover have "unat (input_to_output_offset ds (input_offset d)) = kept_below ds ?o"
    using at_boundary_start [OF assms(1,2)] by (intro input_to_output_kept_below [OF assms(1)]) simp
  moreover have "unat (input_to_output_offset ds ?e) = kept_below ds (?o + ?n)"
    using input_to_output_kept_below [OF assms(1), of ?e] at_boundary_kept [OF assms(3)] by (simp add: e)
  ultimately have "input_to_output_offset ds (input_offset d) = input_to_output_offset ds ?e"
    by (simp add: word_unat_eq_iff)
  moreover have "unshift_from 0 ds (shift_from 0 ds ?e) = ?e"
    using assms by (intro unshift_of_shift [of 0]) (simp_all add: e)
  ultimately show ?thesis by (simp add: input_to_output_shift output_to_input_unshift)
qed

lemma has_delta_at_deleted: "deltas_ok ds \<Longrightarrow> has_delta_at ds off \<Longrightarrow> is_deleted ds (unat off)"
  using raw_from_deletable [OF deltas_from_raw, of 0 0 ds]
  by (fastforce simp: has_delta_at_def binary_search_None_iff is_deleted_def list_ex_iff deletable_def)

section \<open>Properties\<close>

text \<open>C11: However many passes run, and wherever the layouts between them move the section and its
  targets, the scan does not panic and the deletions of a section stay valid: not empty, disjoint,
  with exact running totals, and each inside the sled, the call or the \<^verbatim>\<open>lui\<close> of a relocation.\<close>

theorem relaxation_passes_valid:
  assumes "rels_spaced 0 rels" "existing_ok rels existing" "length section_bytes < 2 ^ 64"
    and "list_all (\<lambda>(sa, _). within_space sa rels) passes"
  shows "\<exists>deltas. relaxation_passes section_bytes rels existing passes = Some deltas \<and> existing_ok rels deltas"
  using assms(2,4)
proof (induction passes arbitrary: existing)
  case (Cons pass passes)
  obtain sa resolve where pass: "pass = (sa, resolve)" by (cases pass)
  from Cons.prems pass have "within_space sa rels" by simp
  then obtain raw margin where c: "collect_relaxation_deltas sa section_bytes rels existing resolve = Some (raw, margin)"
      "new_ok rels existing raw"
    using collect_new_ok [OF assms(1) Cons.prems(1) _ assms(3)] by blast
  have "existing_ok rels (if raw = [] then existing else absorb existing raw)"
    using absorb_ok [OF assms(1) Cons.prems(1) c(2)] Cons.prems(1) by simp
  from Cons.IH [OF this] Cons.prems(2) c(1) show ?case by (simp add: pass)
qed simp

text \<open>A call at 0 with its \<^verbatim>\<open>R_RISCV_RELAX\<close> and an 8-byte sled behind it.\<close>

definition call_and_sled :: "shrink_rel list" where
  "call_and_sled =
     [\<lparr>sr_type = RV_Insn R_RISCV_CALL, sr_offset = 0, sr_symbol = Some 0, sr_addend = 0\<rparr>,
      \<lparr>sr_type = RV_Other R_RISCV_RELAX, sr_offset = 0, sr_symbol = None, sr_addend = 0\<rparr>,
      \<lparr>sr_type = RV_Other R_RISCV_ALIGN, sr_offset = 8, sr_symbol = None, sr_addend = 6\<rparr>]"

definition target_at :: "u64 \<Rightarrow> nat \<Rightarrow> relax_symbol_info option" where
  "target_at addr = (\<lambda>_. Some \<lparr>output_address = addr, is_interposable = False\<rparr>)"

theorem relaxation_passes_valid_witness:
  "\<exists>deltas. relaxation_passes [] call_and_sled None [(0x1000, target_at 0x200000), (0x1000, target_at 0x2000)] = Some deltas
    \<and> existing_ok call_and_sled deltas"
  by (rule relaxation_passes_valid)
    (simp_all add: call_and_sled_def rel_extent_def existing_ok_def within_space_def)


lemma call_and_sled_pass1:
  "collect_relaxation_deltas 0x1000 [] call_and_sled None (target_at 0x200000) = Some ([(8, 6)], Some 0xff001)"
  by (simp add: collect_relaxation_deltas_def call_and_sled_def shrink_start_def shrink_step_def
      shrink_relax_def shrink_call_def target_at_def distance_fits_jal_def delta_exists_def note_margin_def
      unsigned_abs_def is_negative_def JAL_MAX_def forget_def shrink_align_def existing_cum_def
      next_power_of_two_def bit_length.simps next_multiple_of_def push_delta_def Let_def)


text \<open>Two ways to lose an alignment. A later pass that deletes bytes before a sled that an earlier
  pass has shortened does not look at the sled again, so the code behind it, aligned to 8 bytes
  after the first pass, is no longer; and a sled of 2 bytes, which compressed code uses for an
  alignment of 4, is taken for an alignment of 2 and removed at an address that is not a multiple
  of 4.\<close>

theorem alignment_lost:
  "relaxation_passes [] call_and_sled None [(0x1000, target_at 0x200000)] = Some (Some (deltas_new [(8, 6)]))
   \<and> (0x1000 + input_to_output_offset (deltas_new [(8, 6)]) 14) mod 8 = 0
   \<and> relaxation_passes [] call_and_sled None [(0x1000, target_at 0x200000), (0x1000, target_at 0x2000)]
     = Some (Some (deltas_new [(4, 4), (8, 6)]))
   \<and> (0x1000 + input_to_output_offset (deltas_new [(4, 4), (8, 6)]) 14) mod 8 = 4
   \<and> collect_relaxation_deltas 0x1000 []
       [\<lparr>sr_type = RV_Other R_RISCV_ALIGN, sr_offset = 2, sr_symbol = None, sr_addend = 2\<rparr>] None resolve
     = Some ([(2, 2)], None)"
proof (intro conjI)
  have pass2: "collect_relaxation_deltas 0x1000 [] call_and_sled (Some (deltas_new [(8, 6)])) (target_at 0x2000)
      = Some ([(4, 4)], None)"
    by (simp add: collect_relaxation_deltas_def call_and_sled_def shrink_start_def shrink_step_def
      shrink_relax_def shrink_call_def target_at_def distance_fits_jal_def delta_exists_def has_delta_at_def
      deltas_new_def binary_search_Cons forget_def shrink_align_def push_delta_def Let_def)
  show one: "relaxation_passes [] call_and_sled None [(0x1000, target_at 0x200000)] = Some (Some (deltas_new [(8, 6)]))"
    by (simp add: call_and_sled_pass1 absorb_def)
  show "relaxation_passes [] call_and_sled None [(0x1000, target_at 0x200000), (0x1000, target_at 0x2000)]
     = Some (Some (deltas_new [(4, 4), (8, 6)]))"
    by (simp add: call_and_sled_pass1 pass2 absorb_def merge_additional_def)
      (simp add: deltas_new_def Let_def)
  show "(0x1000 + input_to_output_offset (deltas_new [(8, 6)]) 14) mod 8 = 0"
    "(0x1000 + input_to_output_offset (deltas_new [(4, 4), (8, 6)]) 14) mod 8 = 4"
    by (simp_all add: deltas_new_def input_to_output_offset_def)
  show "collect_relaxation_deltas 0x1000 []
       [\<lparr>sr_type = RV_Other R_RISCV_ALIGN, sr_offset = 2, sr_symbol = None, sr_addend = 2\<rparr>] None resolve
     = Some ([(2, 2)], None)"
    by (simp add: collect_relaxation_deltas_def shrink_start_def shrink_step_def forget_def shrink_align_def
      existing_cum_def next_power_of_two_def bit_length.simps next_multiple_of_def push_delta_def
      delta_exists_def Let_def)
qed

text \<open>A shortened \<^verbatim>\<open>lui\<close> is recognised when its relocation is applied, a deleted one is not. The scan
  marks the \<^verbatim>\<open>lui\<close> at \<open>i\<close> with a deletion of two bytes at \<open>i + 2\<close> or of four bytes at \<open>i\<close>; the
  relocation asks for the deletions at the input offset that its output offset comes from, which is
  \<open>i\<close> in the first case but \<open>i + 4\<close>, behind the deleted instruction, in the second.\<close>

theorem hi20_deletion_not_recognised:
  assumes "deltas_ok ds" "d \<in> set ds"
  shows "(input_offset d = i + 2 \<and> \<not> is_deleted ds (unat i) \<longrightarrow>
        relax_hi20 (Some ds) (input_to_output_offset ds i) = Some (Hi20ToCLui, clui_rel_info, False))
    \<and> (input_offset d = i \<and> bytes_deleted d = 4 \<and> \<not> is_deleted ds (unat i + 4) \<and> \<not> is_deleted ds (unat (i + 6)) \<longrightarrow>
        relax_hi20 (Some ds) (input_to_output_offset ds i) = None)"
proof (intro conjI impI)
  assume a: "input_offset d = i + 2 \<and> \<not> is_deleted ds (unat i)"
  then have "output_to_input_offset ds (input_to_output_offset ds i) = i"
    using unshift_of_shift [of 0 0 ds i] assms(1) by (simp add: input_to_output_shift output_to_input_unshift)
  moreover have "\<not> has_delta_at ds i" using has_delta_at_deleted [OF assms(1)] a by blast
  moreover have "has_delta_at ds (i + 2)"
    using assms(2) a by (force simp: has_delta_at_def binary_search_None_iff)
  ultimately show "relax_hi20 (Some ds) (input_to_output_offset ds i) = Some (Hi20ToCLui, clui_rel_info, False)"
    by (simp add: relax_hi20_def Let_def)
next
  assume a: "input_offset d = i \<and> bytes_deleted d = 4 \<and> \<not> is_deleted ds (unat i + 4) \<and> \<not> is_deleted ds (unat (i + 6))"
  then have "output_to_input_offset ds (input_to_output_offset ds i) = i + 4"
    using deleted_start_round_trip [OF assms] by simp
  moreover have "unat (i + 4) = unat i + 4"
    using raw_from_deletable [OF deltas_from_raw [OF assms(1)], of "(i, 4)"] assms(2) a
      unat_offset_add [of i 4] by (force simp: deletable_def)
  moreover from this have "\<not> has_delta_at ds (i + 4)"
    using has_delta_at_deleted [OF assms(1), of "i + 4"] a by auto
  moreover have "\<not> has_delta_at ds (i + 6)"
    using has_delta_at_deleted [OF assms(1), of "i + 6"] a by auto
  ultimately show "relax_hi20 (Some ds) (input_to_output_offset ds i) = None"
    by (simp add: relax_hi20_def Let_def add.assoc)
qed

theorem hi20_deletion_not_recognised_witness:
  "relax_hi20 (Some (deltas_new [(10, 2)])) (input_to_output_offset (deltas_new [(10, 2)]) 8) = Some (Hi20ToCLui, clui_rel_info, False)
   \<and> relax_hi20 (Some (deltas_new [(8, 4)])) (input_to_output_offset (deltas_new [(8, 4)]) 8) = None"
proof -
  have "deltas_ok (deltas_new [(10, 2)])" "deltas_ok (deltas_new [(8, 4)])"
    by (simp_all add: deltas_new_def Let_def)
  note th = this [THEN hi20_deletion_not_recognised, of "hd (deltas_new [(10, 2)])" 8]
    this [THEN hi20_deletion_not_recognised, of "hd (deltas_new [(8, 4)])" 8]
  from th(1) th(4) show ?thesis
    by (simp add: deltas_new_def Let_def is_deleted_def)
qed

text \<open>What becomes of the load behind a deleted \<^verbatim>\<open>lui\<close>. For \<^verbatim>\<open>lui a0\<close> and \<^verbatim>\<open>lw a0, (a0)\<close> of the address
  \<open>0x10\<close> the scan deletes the \<^verbatim>\<open>lui\<close>; applying its relocation then clears the upper bits of the load,
  which turns it into a byte load \<^verbatim>\<open>lb a0, 16(zero)\<close>, where the rewrite meant for it gives
  \<^verbatim>\<open>lw a0, 16(zero)\<close>.\<close>

theorem deleted_lui_changes_load:
  "collect_relaxation_deltas 0x1000 [0x37, 0x05, 0, 0, 0x03, 0x25, 0x05, 0]
      [\<lparr>sr_type = RV_Insn R_RISCV_HI20, sr_offset = 0, sr_symbol = Some 0, sr_addend = 0\<rparr>,
       \<lparr>sr_type = RV_Other R_RISCV_RELAX, sr_offset = 0, sr_symbol = None, sr_addend = 0\<rparr>] None (target_at 0x10)
      = Some ([(0, 4)], None)
   \<and> relax_hi20 (Some (deltas_new [(0, 4)])) (input_to_output_offset (deltas_new [(0, 4)]) 0) = None
   \<and> riscv_write_to_value UType 0x10 False [0x03, 0x25, 0x05, 0] = Some [0x03, 0x05, 0, 0]
   \<and> riscv_write_to_value IType 0x10 False [0x03, 0x05, 0, 0] = Some [0x03, 0x05, 0, 0x01]
   \<and> relax_lo12 (Some (deltas_new [(0, 4)])) [0x03, 0x05, 0, 0] 0 (RV_Insn R_RISCV_LO12_I) = None
   \<and> map_option fst (relax_lo12 (Some (deltas_new [(0, 4)])) [0x03, 0x25, 0x05, 0] 0 (RV_Insn R_RISCV_LO12_I))
      = Some Lo12Rs1ToZero"
proof (intro conjI)
  show "collect_relaxation_deltas 0x1000 [0x37, 0x05, 0, 0, 0x03, 0x25, 0x05, 0]
      [\<lparr>sr_type = RV_Insn R_RISCV_HI20, sr_offset = 0, sr_symbol = Some 0, sr_addend = 0\<rparr>,
       \<lparr>sr_type = RV_Other R_RISCV_RELAX, sr_offset = 0, sr_symbol = None, sr_addend = 0\<rparr>] None (target_at 0x10)
      = Some ([(0, 4)], None)"
    by (simp add: collect_relaxation_deltas_def shrink_start_def shrink_step_def shrink_relax_def
      shrink_hi20_def target_at_def delta_exists_def u32_at_def u32_from_slice_def hi20_is_zero_def
      shr_def push_delta_def forget_def Let_def)
  show "relax_hi20 (Some (deltas_new [(0, 4)])) (input_to_output_offset (deltas_new [(0, 4)]) 0) = None"
    by (simp add: deltas_new_def relax_hi20_def input_to_output_offset_def output_to_input_offset_def
      has_delta_at_def binary_search_Cons)
  show "riscv_write_to_value UType 0x10 False [0x03, 0x25, 0x05, 0] = Some [0x03, 0x05, 0, 0]"
    "riscv_write_to_value IType 0x10 False [0x03, 0x05, 0, 0] = Some [0x03, 0x05, 0, 0x01]"
    by (simp_all add: riscv_write_utype_def riscv_write_itype_def riscv_masks extract_bit_range_def
      shr_def shl_def to_le_def upt_rec mask_and_set_def)
  show "relax_lo12 (Some (deltas_new [(0, 4)])) [0x03, 0x05, 0, 0] 0 (RV_Insn R_RISCV_LO12_I) = None"
    "map_option fst (relax_lo12 (Some (deltas_new [(0, 4)])) [0x03, 0x25, 0x05, 0] 0 (RV_Insn R_RISCV_LO12_I))
      = Some Lo12Rs1ToZero"
    by (simp_all add: deltas_new_def relax_lo12_def output_to_input_offset_def delta_bytes_at_def
      binary_search_Cons u32_at_def u32_from_slice_def of_le_def shr_def rv_rel_info_def
      riscv_relocation_type_from_raw_def)
qed

end
