(* ===== verification/Thunk_Blocks.thy ===== *)
theory Thunk_Blocks
  imports Prelude "HOL-Library.Multiset"
begin

text \<open>
  Range-extension thunks (\<^verbatim>\<open>reld-core/src/thunks.rs\<close>): where the primary code of each object lies,
  the single pass that spreads thunk blocks over the objects, the test that a branch needs no thunk,
  and the final list of a block's symbols.

  The callback that \<^verbatim>\<open>assign_thunk_blocks\<close> calls for an object is modelled by the list of its calls,
  in order.
\<close>

type_synonym file_id = u32
type_synonym thunk_block_id = u32
type_synonym symbol_id = u32

definition FIRST_THUNK_BLOCK :: thunk_block_id where "FIRST_THUNK_BLOCK = 0"
definition MAXIMUM_THUNK_BYTES_PER_BLOCK :: u64 where "MAXIMUM_THUNK_BYTES_PER_BLOCK = 2 * 1024 * 1024"

section \<open>Positions of the objects\<close>

text \<open>
  \<^verbatim>\<open>collect_primary_ranges\<close> over the files of one group after the other: an object takes the bytes
  that garbage collection left of its primary part, other files take none.
\<close>

datatype layout_file = Object (object_file_id: file_id) (post_gc_primary_bytes: u64) | NotObject

fun primary_ranges_of_files :: "u64 \<Rightarrow> layout_file list \<Rightarrow> (u64 \<times> u64) option list \<times> u64" where
  "primary_ranges_of_files offset [] = ([], offset)"
| "primary_ranges_of_files offset (Object fid n # files) =
     (let start = offset; stop = start + n; (ranges, offset) = primary_ranges_of_files stop files
      in (Some (start, stop) # ranges, offset))"
| "primary_ranges_of_files offset (NotObject # files) =
     (let (ranges, offset) = primary_ranges_of_files offset files in (None # ranges, offset))"

fun collect_primary_ranges :: "layout_file list list \<Rightarrow> u64 \<Rightarrow> (u64 \<times> u64) option list list" where
  "collect_primary_ranges [] offset = []"
| "collect_primary_ranges (files # groups) offset =
     (let (ranges, offset) = primary_ranges_of_files offset files
      in ranges # collect_primary_ranges groups offset)"

type_synonym placed_object = "file_id \<times> u64 \<times> u64"

text \<open>The objects that have primary code, in address order (\<^verbatim>\<open>assign_thunk_blocks_to_groups\<close>).\<close>

definition placed_files :: "layout_file list \<Rightarrow> (u64 \<times> u64) option list \<Rightarrow> placed_object list" where
  "placed_files files ranges =
     concat (map2 (\<lambda>file r.
       case (file, r) of
         (Object fid _, Some (start, stop)) \<Rightarrow> if start < stop then [(fid, start, stop)] else []
       | _ \<Rightarrow> []) files ranges)"

definition post_gc_bounds ::
    "layout_file list list \<Rightarrow> (u64 \<times> u64) option list list \<Rightarrow> placed_object list" where
  "post_gc_bounds groups ranges = concat (map2 placed_files groups ranges)"

section \<open>Assignment of blocks\<close>

type_synonym assign_call = "file_id \<times> thunk_block_id \<times> bool"

record thunk_state =
  num_blocks :: nat
  prev_block_id :: thunk_block_id
  prev_block_pos :: u64
  pending_next :: "(thunk_block_id \<times> file_id \<times> u64) option"
  assign_calls :: "assign_call list"

definition assign :: "file_id \<Rightarrow> thunk_block_id \<Rightarrow> bool \<Rightarrow> thunk_state \<Rightarrow> thunk_state" where
  "assign fid bid is_owner st = st\<lparr>assign_calls := assign_calls st @ [(fid, bid, is_owner)]\<rparr>"

definition thunk_step :: "u64 \<Rightarrow> placed_object \<Rightarrow> thunk_state \<Rightarrow> thunk_state" where
  "thunk_step max_branch_range obj st =
     (case obj of (fid, start, stop) \<Rightarrow>
       (case pending_next st of
          Some (next_id, first_fid, first_start) \<Rightarrow>
            if max_branch_range \<le> stop - first_start
            then (assign fid next_id True (assign first_fid next_id False st))
                   \<lparr>prev_block_id := next_id, prev_block_pos := stop, pending_next := None\<rparr>
            else (assign fid next_id False st)\<lparr>pending_next := Some (next_id, first_fid, first_start)\<rparr>
        | None \<Rightarrow>
            if max_branch_range \<le> stop - prev_block_pos st
            then st\<lparr>num_blocks := num_blocks st + 1,
                    pending_next := Some (word_of_nat (num_blocks st), fid, start)\<rparr>
            else assign fid (prev_block_id st) False st))"

definition thunk_start :: "placed_object \<Rightarrow> thunk_state" where
  "thunk_start obj =
     (case obj of (fid, _, stop) \<Rightarrow>
        assign fid FIRST_THUNK_BLOCK True
          \<lparr>num_blocks = 1, prev_block_id = FIRST_THUNK_BLOCK, prev_block_pos = stop,
           pending_next = None, assign_calls = []\<rparr>)"

definition thunk_finish :: "thunk_state \<Rightarrow> thunk_state" where
  "thunk_finish st =
     (case pending_next st of
        Some (next_id, first_fid, _) \<Rightarrow> assign first_fid next_id True st
      | None \<Rightarrow> st)"

definition assign_thunk_blocks :: "placed_object list \<Rightarrow> u64 \<Rightarrow> nat \<times> assign_call list" where
  "assign_thunk_blocks objects max_branch_range =
     (case objects of
        [] \<Rightarrow> (0, [])
      | obj # rest \<Rightarrow>
          let st = thunk_finish (fold (thunk_step max_branch_range) rest (thunk_start obj))
          in (num_blocks st, assign_calls st))"

section \<open>Thunks of a block\<close>

text \<open>
  \<^verbatim>\<open>provably_in_range\<close>: the source object, the primary range of the definition if it has one, and
  whether calls go through the procedure linkage table, which lies before the primary part.
\<close>

definition saturating_sub :: "u64 \<Rightarrow> u64 \<Rightarrow> u64" where
  "saturating_sub a b = (if a < b then 0 else a - b)"

definition provably_in_range :: "u64 \<Rightarrow> u64 \<Rightarrow> u64 \<Rightarrow> (u64 \<times> u64) option \<Rightarrow> bool \<Rightarrow> bool" where
  "provably_in_range branch_range src_start src_end definition_range has_plt =
     (case definition_range of
        Some (def_start, def_end) \<Rightarrow>
          let def_start = (if has_plt then 0 else def_start);
              span_start = min src_start def_start;
              span_end = max src_end def_end
          in saturating_sub span_end span_start < branch_range
      | None \<Rightarrow> src_end < branch_range)"

definition thunk_block_build :: "symbol_id list \<Rightarrow> symbol_id list" where
  "thunk_block_build symbols = remdups_adj (sort symbols)"

text \<open>The range beyond which thunks are allocated, in \<^verbatim>\<open>ThunkLayoutBuilder::new\<close>.\<close>

definition thunk_branch_range :: "u64 \<Rightarrow> u64 \<Rightarrow> u64 option" where
  "thunk_branch_range min_branch_range total_executable_bytes =
     (if total_executable_bytes < min_branch_range then None
      else Some (min_branch_range - MAXIMUM_THUNK_BYTES_PER_BLOCK))"

section \<open>Every object gets a block, every block an owner\<close>

definition call_file :: "assign_call \<Rightarrow> file_id" where "call_file c = fst c"
definition call_block :: "assign_call \<Rightarrow> thunk_block_id" where "call_block c = fst (snd c)"
definition call_owner :: "assign_call \<Rightarrow> bool" where "call_owner c = snd (snd c)"

abbreviation owners :: "assign_call list \<Rightarrow> assign_call list" where
  "owners calls \<equiv> filter call_owner calls"

definition waiting :: "thunk_state \<Rightarrow> file_id list" where
  "waiting st = (case pending_next st of None \<Rightarrow> [] | Some (_, f, _) \<Rightarrow> [f])"

definition placed_blocks :: "thunk_state \<Rightarrow> nat" where
  "placed_blocks st = num_blocks st - length (waiting st)"

definition thunk_inv :: "file_id list \<Rightarrow> thunk_state \<Rightarrow> bool" where
  "thunk_inv seen st \<longleftrightarrow>
     mset (map call_file (assign_calls st)) + mset (waiting st) = mset seen
     \<and> map call_block (owners (assign_calls st)) = map word_of_nat [0..<placed_blocks st]
     \<and> length (waiting st) < num_blocks st
     \<and> (\<forall>b f s. pending_next st = Some (b, f, s) \<longrightarrow> b = word_of_nat (placed_blocks st))"

lemma thunk_start_inv: "thunk_inv [fst obj] (thunk_start obj)"
  by (cases obj) (simp add: thunk_inv_def thunk_start_def assign_def waiting_def placed_blocks_def
      call_file_def call_block_def call_owner_def FIRST_THUNK_BLOCK_def)

lemma thunk_step_inv:
  assumes "thunk_inv seen st"
  shows "thunk_inv (seen @ [fst obj]) (thunk_step lim obj st)"
proof (cases "pending_next st")
  case None
  with assms show ?thesis
    by (cases obj) (auto simp: thunk_inv_def thunk_step_def assign_def waiting_def placed_blocks_def
        call_file_def call_block_def call_owner_def)
next
  case (Some p)
  obtain b f s where p: "p = (b, f, s)" by (cases p)
  have "[0..<num_blocks st] = [0..<num_blocks st - 1] @ [num_blocks st - 1]"
    using assms Some p by (cases "num_blocks st") (auto simp: thunk_inv_def waiting_def)
  with assms Some p show ?thesis
    by (cases obj) (auto simp: thunk_inv_def thunk_step_def assign_def waiting_def placed_blocks_def
        call_file_def call_block_def call_owner_def)
qed

lemma thunk_fold_inv:
  "thunk_inv seen st \<Longrightarrow> thunk_inv (seen @ map fst objs) (fold (thunk_step lim) objs st)"
proof (induction objs arbitrary: seen st)
  case (Cons obj objs)
  from Cons.IH [OF thunk_step_inv [OF Cons.prems]] show ?case by simp
qed simp

lemma thunk_finish_inv:
  assumes "thunk_inv seen st"
  shows "mset (map call_file (assign_calls (thunk_finish st))) = mset seen
    \<and> map call_block (owners (assign_calls (thunk_finish st))) = map word_of_nat [0..<num_blocks st]
    \<and> num_blocks (thunk_finish st) = num_blocks st"
proof (cases "pending_next st")
  case None
  with assms show ?thesis by (simp add: thunk_inv_def thunk_finish_def waiting_def placed_blocks_def)
next
  case (Some p)
  obtain b f s where p: "p = (b, f, s)" by (cases p)
  have "[0..<num_blocks st] = [0..<num_blocks st - 1] @ [num_blocks st - 1]"
    using assms Some p by (cases "num_blocks st") (auto simp: thunk_inv_def waiting_def)
  with assms Some p show ?thesis
    by (simp add: thunk_inv_def thunk_finish_def assign_def waiting_def placed_blocks_def
        call_file_def call_block_def call_owner_def)
qed

section \<open>How far a block can be\<close>

text \<open>Objects in address order without gaps, from a position on.\<close>

fun contiguous :: "u64 \<Rightarrow> placed_object list \<Rightarrow> bool" where
  "contiguous pos [] \<longleftrightarrow> True"
| "contiguous pos ((fid, start, stop) # objs) \<longleftrightarrow> start = pos \<and> start \<le> stop \<and> contiguous stop objs"

definition sizes_within :: "nat \<Rightarrow> placed_object list \<Rightarrow> bool" where
  "sizes_within S objs \<longleftrightarrow> list_all (\<lambda>(_, start, stop). unat stop \<le> unat start + S) objs"

text \<open>A position that is less than a distance away from both ends of an object.\<close>

definition near :: "nat \<Rightarrow> u64 \<Rightarrow> u64 \<Rightarrow> u64 \<Rightarrow> bool" where
  "near d w start stop \<longleftrightarrow>
     unat w < unat start + d \<and> unat start < unat w + d \<and> unat w < unat stop + d \<and> unat stop < unat w + d"

text \<open>An object has a block, and the block an owner, at whose end its thunks are, that is near.\<close>

definition served :: "nat \<Rightarrow> assign_call list \<Rightarrow> placed_object list \<Rightarrow> placed_object \<Rightarrow> bool" where
  "served d calls objs obj \<longleftrightarrow>
     (\<exists>b is_owner w sw ew. (fst obj, b, is_owner) \<in> set calls \<and> (w, b, True) \<in> set calls
        \<and> (w, sw, ew) \<in> set objs \<and> near d ew (fst (snd obj)) (snd (snd obj)))"

definition expects :: "u64 \<Rightarrow> thunk_state \<Rightarrow> placed_object \<Rightarrow> bool" where
  "expects upto_pos st obj \<longleftrightarrow>
     (\<exists>b f fs is_owner. pending_next st = Some (b, f, fs) \<and> fs \<le> fst (snd obj) \<and> snd (snd obj) \<le> upto_pos
        \<and> ((fst obj, b, is_owner) \<in> set (assign_calls st) \<or> f = fst obj))"

definition reach_inv :: "nat \<Rightarrow> nat \<Rightarrow> u64 \<Rightarrow> placed_object list \<Rightarrow> thunk_state \<Rightarrow> bool" where
  "reach_inv m S upto_pos seen st \<longleftrightarrow>
     (\<forall>obj\<in>set seen. fst (snd obj) \<le> snd (snd obj) \<and> snd (snd obj) \<le> upto_pos
        \<and> (served (m + S) (assign_calls st) seen obj \<or> expects upto_pos st obj))
     \<and> (case pending_next st of
          None \<Rightarrow> prev_block_pos st \<le> upto_pos
            \<and> (\<exists>w sw. (w, prev_block_id st, True) \<in> set (assign_calls st) \<and> (w, sw, prev_block_pos st) \<in> set seen)
        | Some (b, f, fs) \<Rightarrow> fs \<le> upto_pos \<and> unat upto_pos < unat fs + m \<and> (\<exists>e. (f, fs, e) \<in> set seen))"

lemma served_mono: "served d calls seen obj \<Longrightarrow> set calls \<subseteq> set calls' \<Longrightarrow> set seen \<subseteq> set seen' \<Longrightarrow>
    served d calls' seen' obj"
  unfolding served_def by blast

lemma reach_invI:
  assumes "\<And>obj. obj \<in> set seen \<Longrightarrow> fst (snd obj) \<le> snd (snd obj) \<and> snd (snd obj) \<le> upto_pos"
    and "\<And>obj. obj \<in> set seen \<Longrightarrow> served (m + S) (assign_calls st) seen obj \<or> expects upto_pos st obj"
    and "case pending_next st of
          None \<Rightarrow> prev_block_pos st \<le> upto_pos
            \<and> (\<exists>w sw. (w, prev_block_id st, True) \<in> set (assign_calls st) \<and> (w, sw, prev_block_pos st) \<in> set seen)
        | Some (b, f, fs) \<Rightarrow> fs \<le> upto_pos \<and> unat upto_pos < unat fs + m \<and> (\<exists>e. (f, fs, e) \<in> set seen)"
  shows "reach_inv m S upto_pos seen st"
  using assms unfolding reach_inv_def by blast

lemma thunk_step_reach:
  assumes inv: "reach_inv (unat lim) S upto_pos seen st" and S: "S < unat lim"
    and obj: "obj = (fid, upto_pos, stop)" "upto_pos \<le> stop" "unat stop \<le> unat upto_pos + S"
  shows "reach_inv (unat lim) S stop (seen @ [obj]) (thunk_step lim obj st)"
proof -
  define st' where "st' = thunk_step lim obj st"
  have bounds: "fst (snd o') \<le> snd (snd o') \<and> snd (snd o') \<le> stop" if "o' \<in> set (seen @ [obj])" for o'
    using that inv obj(1,2) unfolding reach_inv_def by (auto intro: order.trans)
  have seen_cases: "o' \<in> set seen \<or> o' = obj" if "o' \<in> set (seen @ [obj])" for o'
    using that by auto
  have old: "served (unat lim + S) (assign_calls st) seen o' \<or> expects upto_pos st o'" if "o' \<in> set seen" for o'
    using that inv unfolding reach_inv_def by blast
  have keep: "served (unat lim + S) (assign_calls st') (seen @ [obj]) o'"
    if "served (unat lim + S) (assign_calls st) seen o'" for o'
    by (rule served_mono [OF that])
      (auto simp: st'_def thunk_step_def assign_def split: option.split prod.split)
  have "reach_inv (unat lim) S stop (seen @ [obj]) st'"
  proof (cases "pending_next st")
  case None
  note st = inv [unfolded reach_inv_def None option.case]
  have pos: "prev_block_pos st \<le> stop" using st obj(2) by (auto intro: order.trans)
  have d: "unat (stop - prev_block_pos st) = unat stop - unat (prev_block_pos st)"
    using pos by (simp add: unat_sub)
  show ?thesis
  proof (cases "lim \<le> stop - prev_block_pos st")
    case True
    have calls: "assign_calls st' = assign_calls st" "pending_next st' = Some (word_of_nat (num_blocks st), fid, upto_pos)"
      using True None by (simp_all add: st'_def thunk_step_def obj(1))
    have "\<not> expects upto_pos st o'" for o' using None by (simp add: expects_def)
    moreover have "expects stop st' obj" unfolding expects_def calls using obj(1,2) by auto
    moreover have "unat stop < unat upto_pos + unat lim" using S obj(3) by simp
    ultimately have all: "served (unat lim + S) (assign_calls st') (seen @ [obj]) o' \<or> expects stop st' o'"
      if "o' \<in> set (seen @ [obj])" for o'
      using seen_cases [OF that] old keep by blast
    show ?thesis
      by (rule reach_invI [OF bounds all])
        (use S obj in \<open>auto simp: calls\<close>)
  next
    case False
    have calls: "assign_calls st' = assign_calls st @ [(fid, prev_block_id st, False)]"
        "pending_next st' = None" "prev_block_pos st' = prev_block_pos st" "prev_block_id st' = prev_block_id st"
      using False None by (simp_all add: st'_def thunk_step_def obj(1) assign_def)
    have close: "unat stop < unat (prev_block_pos st) + unat lim"
      using False d by (simp add: word_le_nat_alt)
    moreover have "unat (prev_block_pos st) \<le> unat upto_pos" "unat upto_pos \<le> unat stop"
      using st obj(2) by (simp_all add: word_le_nat_alt)
    ultimately have "near (unat lim + S) (prev_block_pos st) upto_pos stop"
      using S by (simp add: near_def)
    then have "served (unat lim + S) (assign_calls st') (seen @ [obj]) obj"
      using st unfolding served_def calls(1) obj(1) by (auto; blast)
    moreover have "\<not> expects upto_pos st o'" for o' using None by (simp add: expects_def)
    ultimately have all: "served (unat lim + S) (assign_calls st') (seen @ [obj]) o' \<or> expects stop st' o'"
      if "o' \<in> set (seen @ [obj])" for o'
      using seen_cases [OF that] old keep by blast
    show ?thesis
      by (rule reach_invI [OF bounds all]) (use st pos in \<open>auto simp: calls\<close>)
  qed
  next
  case (Some p)
  obtain b f fs where p: "p = (b, f, fs)" by (cases p)
  note st = inv [unfolded reach_inv_def Some p option.case prod.case]
  have le: "fs \<le> stop" using st obj(2) by (auto intro: order.trans)
  have d: "unat (stop - fs) = unat stop - unat fs" using le by (simp add: unat_sub)
  have n: "unat fs \<le> unat upto_pos" "unat upto_pos \<le> unat stop" using st obj(2) by (simp_all add: word_le_nat_alt)
  show ?thesis
  proof (cases "lim \<le> stop - fs")
    case True
    have calls: "assign_calls st' = assign_calls st @ [(f, b, False), (fid, b, True)]"
        "pending_next st' = None" "prev_block_pos st' = stop" "prev_block_id st' = b"
      using True Some p by (simp_all add: st'_def thunk_step_def obj(1) assign_def)
    have own: "(fid, b, True) \<in> set (assign_calls st')" "(fid, upto_pos, stop) \<in> set (seen @ [obj])"
      by (simp_all add: calls obj(1))
    have "served (unat lim + S) (assign_calls st') (seen @ [obj]) o'"
      if mem: "o' \<in> set seen" and e: "expects upto_pos st o'" for o'
    proof -
      obtain f' s' e' where o': "o' = (f', s', e')" by (cases o')
      from e Some p o' have "fs \<le> s'" "e' \<le> upto_pos" "\<exists>x. (f', b, x) \<in> set (assign_calls st')"
        by (auto simp: expects_def calls)
      moreover have "s' \<le> e'" using st mem o' by auto
      ultimately have "near (unat lim + S) stop s' e'"
        using st n obj(3) by (auto simp: near_def word_le_nat_alt)
      with own \<open>\<exists>x. (f', b, x) \<in> set (assign_calls st')\<close> show ?thesis
        unfolding served_def o' fst_conv snd_conv by blast
    qed
    moreover have "served (unat lim + S) (assign_calls st') (seen @ [obj]) obj"
      using own n S obj(3) unfolding served_def obj(1) fst_conv snd_conv near_def
      by (intro exI [of _ b] exI [of _ True] exI [of _ fid] exI [of _ upto_pos] exI [of _ stop]) auto
    ultimately have all: "served (unat lim + S) (assign_calls st') (seen @ [obj]) o' \<or> expects stop st' o'"
      if "o' \<in> set (seen @ [obj])" for o'
      using seen_cases [OF that] old keep by blast
    show ?thesis
      by (rule reach_invI [OF bounds all]) (use own in \<open>auto simp: calls\<close>)
  next
    case False
    have calls: "assign_calls st' = assign_calls st @ [(fid, b, False)]" "pending_next st' = Some (b, f, fs)"
      using False Some p by (simp_all add: st'_def thunk_step_def obj(1) assign_def)
    have "expects stop st' o'" if "expects upto_pos st o'" for o'
      using that obj(2) Some p unfolding expects_def calls by (auto intro: order.trans)
    moreover have "expects stop st' obj"
      unfolding expects_def calls using st obj(1) by auto
    moreover have "unat stop < unat fs + unat lim" using False d n by (simp add: word_le_nat_alt)
    moreover note close = this
    ultimately have all: "served (unat lim + S) (assign_calls st') (seen @ [obj]) o' \<or> expects stop st' o'"
      if "o' \<in> set (seen @ [obj])" for o'
      using seen_cases [OF that] old keep by blast
    show ?thesis
      by (rule reach_invI [OF bounds all]) (use st le close in \<open>auto simp: calls\<close>)
  qed
  qed
  then show ?thesis by (simp add: st'_def)
qed

lemma thunk_start_reach:
  assumes "obj = (fid, start, stop)" "start \<le> stop" "unat stop \<le> unat start + S" "S < unat lim"
  shows "reach_inv (unat lim) S stop [obj] (thunk_start obj)"
  using assms
  by (auto simp: reach_inv_def thunk_start_def assign_def served_def near_def word_le_nat_alt)

lemma thunk_fold_reach:
  "reach_inv (unat lim) S upto_pos seen st \<Longrightarrow> S < unat lim \<Longrightarrow> contiguous upto_pos objs \<Longrightarrow> sizes_within S objs \<Longrightarrow>
     \<exists>upto_pos'. reach_inv (unat lim) S upto_pos' (seen @ objs) (fold (thunk_step lim) objs st)"
proof (induction objs arbitrary: upto_pos seen st)
  case (Cons obj objs)
  obtain fid stop where obj: "obj = (fid, upto_pos, stop)" "upto_pos \<le> stop" "contiguous stop objs"
      "unat stop \<le> unat upto_pos + S" "sizes_within S objs"
    using Cons.prems(3,4) by (cases obj) (auto simp: sizes_within_def)
  from Cons.IH [OF thunk_step_reach [OF Cons.prems(1,2) obj(1,2,4)] Cons.prems(2) obj(3,5)]
  show ?case by simp
qed auto

lemma thunk_finish_reach:
  assumes inv: "reach_inv m S upto_pos seen st" and "obj \<in> set seen"
  shows "served (m + S) (assign_calls (thunk_finish st)) seen obj"
proof (cases "pending_next st")
  case None
  with assms show ?thesis by (auto simp: reach_inv_def thunk_finish_def expects_def)
next
  case (Some p)
  obtain b f fs where p: "p = (b, f, fs)" by (cases p)
  note st = inv [unfolded reach_inv_def Some p option.case prod.case]
  have calls: "assign_calls (thunk_finish st) = assign_calls st @ [(f, b, True)]"
    using Some p by (simp add: thunk_finish_def assign_def)
  obtain e where e: "(f, fs, e) \<in> set seen" using st by blast
  then have ends: "fs \<le> e" "e \<le> upto_pos" using st by auto
  from st assms(2) consider "served (m + S) (assign_calls st) seen obj" | "expects upto_pos st obj" by blast
  then show ?thesis
  proof cases
    case 1
    then show ?thesis by (rule served_mono) (auto simp: calls)
  next
    case 2
    obtain f' s' e' where o': "obj = (f', s', e')" by (cases obj)
    from 2 Some p o' have "fs \<le> s'" "e' \<le> upto_pos" "\<exists>x. (f', b, x) \<in> set (assign_calls (thunk_finish st))"
      by (auto simp: expects_def calls)
    moreover have "s' \<le> e'" using st assms(2) o' by auto
    ultimately have "near (m + S) e s' e'"
      using st ends by (auto simp: near_def word_le_nat_alt)
    moreover have "(f, b, True) \<in> set (assign_calls (thunk_finish st))" by (simp add: calls)
    ultimately show ?thesis
      using e \<open>\<exists>x. (f', b, x) \<in> set (assign_calls (thunk_finish st))\<close>
      unfolding served_def o' fst_conv snd_conv by blast
  qed
qed

section \<open>The positions are contiguous\<close>

definition file_bytes :: "layout_file \<Rightarrow> nat" where
  "file_bytes file = (case file of Object _ n \<Rightarrow> unat n | NotObject \<Rightarrow> 0)"

definition files_bytes :: "layout_file list \<Rightarrow> nat" where
  "files_bytes files = sum_list (map file_bytes files)"

definition files_within :: "nat \<Rightarrow> layout_file list \<Rightarrow> bool" where
  "files_within S files = list_all (\<lambda>file. file_bytes file \<le> S) files"

fun end_of :: "u64 \<Rightarrow> placed_object list \<Rightarrow> u64" where
  "end_of pos [] = pos"
| "end_of pos ((fid, start, stop) # objs) = end_of stop objs"

lemma contiguous_append:
  "contiguous pos (xs @ ys) \<longleftrightarrow> contiguous pos xs \<and> contiguous (end_of pos xs) ys"
  by (induction pos xs rule: end_of.induct) auto

lemma end_of_append: "end_of pos (xs @ ys) = end_of (end_of pos xs) ys"
  by (induction pos xs rule: end_of.induct) auto

lemma placed_files_simps [simp]:
  "placed_files [] ranges = []"
  "placed_files (NotObject # files) (r # ranges) = placed_files files ranges"
  "placed_files (Object fid n # files) (Some (start, stop) # ranges) =
     (if start < stop then [(fid, start, stop)] else []) @ placed_files files ranges"
  by (simp_all add: placed_files_def)

lemma unat_add_bound: "unat a + unat b < 2 ^ 64 \<Longrightarrow> unat (a + b :: u64) = unat a + unat b"
  by (subst unat_add_lem [symmetric]) simp

lemma primary_ranges_of_files_contiguous:
  assumes "unat offset + files_bytes files < 2 ^ 64" "files_within S files"
    and "primary_ranges_of_files offset files = (ranges, offset')"
  shows "contiguous offset (placed_files files ranges)
    \<and> end_of offset (placed_files files ranges) = offset'
    \<and> unat offset' = unat offset + files_bytes files
    \<and> sizes_within S (placed_files files ranges)"
  using assms
proof (induction offset files arbitrary: ranges offset' rule: primary_ranges_of_files.induct)
  case (2 offset fid n files)
  obtain ranges' where r: "primary_ranges_of_files (offset + n) files = (ranges', offset')"
      "ranges = Some (offset, offset + n) # ranges'"
    using 2(4) by (auto simp: Let_def split: prod.splits)
  have n: "unat (offset + n) = unat offset + unat n"
    using 2(2) by (intro unat_add_bound) (simp add: files_bytes_def file_bytes_def)
  then have le: "offset \<le> offset + n" by (simp add: word_le_nat_alt)
  have same: "offset + n = offset" if "\<not> offset < offset + n" using le that by simp
  from 2(1) [OF refl refl _ _ r(1)] 2(2,3) n
  have "contiguous (offset + n) (placed_files files ranges')
    \<and> end_of (offset + n) (placed_files files ranges') = offset'
    \<and> unat offset' = unat (offset + n) + files_bytes files
    \<and> sizes_within S (placed_files files ranges')"
    by (simp add: files_bytes_def file_bytes_def files_within_def)
  with n le same 2(3) r(2) show ?case
    by (auto simp: sizes_within_def files_bytes_def file_bytes_def files_within_def)
qed (auto simp: sizes_within_def files_bytes_def file_bytes_def files_within_def split: prod.splits)

lemma collect_primary_ranges_contiguous:
  assumes "unat offset + files_bytes (concat groups) < 2 ^ 64" "files_within S (concat groups)"
  shows "contiguous offset (post_gc_bounds groups (collect_primary_ranges groups offset))
    \<and> sizes_within S (post_gc_bounds groups (collect_primary_ranges groups offset))"
  using assms
proof (induction groups arbitrary: offset)
  case (Cons files groups)
  obtain ranges offset' where r: "primary_ranges_of_files offset files = (ranges, offset')"
    by fastforce
  have split: "unat offset + files_bytes files + files_bytes (concat groups) < 2 ^ 64"
      "files_within S files" "files_within S (concat groups)"
    using Cons.prems by (simp_all add: files_bytes_def files_within_def)
  have step: "contiguous offset (placed_files files ranges)"
      "end_of offset (placed_files files ranges) = offset'"
      "unat offset' = unat offset + files_bytes files"
      "sizes_within S (placed_files files ranges)"
    using primary_ranges_of_files_contiguous [OF _ split(2) r] split(1) by simp_all
  from Cons.IH [of offset'] split step(3)
  have "contiguous offset' (post_gc_bounds groups (collect_primary_ranges groups offset'))
    \<and> sizes_within S (post_gc_bounds groups (collect_primary_ranges groups offset'))" by simp
  with step r show ?case
    by (simp add: post_gc_bounds_def contiguous_append sizes_within_def)
qed (simp add: post_gc_bounds_def sizes_within_def)

lemma assigned_objects_served:
  assumes "contiguous pos objs" "sizes_within S objs" "S < unat lim" "obj \<in> set objs"
  shows "served (unat lim + S) (snd (assign_thunk_blocks objs lim)) objs obj"
proof -
  obtain first rest where objs: "objs = first # rest" using assms(4) by (cases objs) auto
  obtain fid stop where first: "first = (fid, pos, stop)" "pos \<le> stop" "contiguous stop rest"
      "unat stop \<le> unat pos + S" "sizes_within S rest"
    using assms(1,2) objs by (cases first) (auto simp: sizes_within_def)
  from thunk_fold_reach [OF thunk_start_reach [OF first(1,2,4) assms(3)] assms(3) first(3,5)]
  obtain upto_pos where
    "reach_inv (unat lim) S upto_pos objs (fold (thunk_step lim) rest (thunk_start first))"
    by (auto simp: objs)
  from thunk_finish_reach [OF this assms(4)] show ?thesis
    by (simp add: assign_thunk_blocks_def objs Let_def)
qed

section \<open>Theorems\<close>

text \<open>C13: \<^verbatim>\<open>assign_thunk_blocks\<close> loses no object and leaves no block without an owner: every object is
  assigned exactly once, as often as it is in the list, and the owners of the blocks, in the order of
  the calls, are one for each block number from 0 to the number of blocks returned, exclusive.\<close>

theorem thunk_blocks_all_assigned:
  "mset (map call_file (snd (assign_thunk_blocks objs lim))) = mset (map fst objs)
   \<and> map call_block (owners (snd (assign_thunk_blocks objs lim)))
     = map word_of_nat [0..<fst (assign_thunk_blocks objs lim)]"
proof (cases objs)
  case (Cons first rest)
  have "thunk_inv (map fst objs) (fold (thunk_step lim) rest (thunk_start first))"
    using thunk_fold_inv [OF thunk_start_inv [of first], of rest lim] Cons by simp
  from thunk_finish_inv [OF this] show ?thesis
    by (simp add: Cons assign_thunk_blocks_def Let_def)
qed (simp add: assign_thunk_blocks_def)

text \<open>C14: The positions and the assignment together: when the primary code fits into the address
  space and no object is larger than a bound below the branch range, every object with primary code is
  assigned to a block whose thunks, at the end of the owner of the block, are less than the branch range
  plus that bound away from both ends of the object. The excess over the branch range is what the
  slack \<^verbatim>\<open>MAXIMUM_THUNK_BYTES_PER_BLOCK\<close> has to cover besides the thunks themselves.\<close>

theorem thunk_block_reach:
  assumes "unat offset + files_bytes (concat groups) < 2 ^ 64"
    and "files_within S (concat groups)" "S < unat lim"
    and "objs = post_gc_bounds groups (collect_primary_ranges groups offset)" "obj \<in> set objs"
  shows "served (unat lim + S) (snd (assign_thunk_blocks objs lim)) objs obj"
  using collect_primary_ranges_contiguous [OF assms(1,2)] assms(3-5)
  by (auto intro: assigned_objects_served)

theorem thunk_block_reach_witness:
  "served 800
     (snd (assign_thunk_blocks [(0, 0, 100), (1, 100, 400), (3, 400, 700)] 500))
     [(0, 0, 100), (1, 100, 400), (3, 400, 700)] (3, 400, 700)"
  using thunk_block_reach [of 0 "[[Object 0 100, Object 1 300], [NotObject, Object 3 300]]" 300 500 _ "(3, 400, 700)"]
  by (simp add: post_gc_bounds_def files_bytes_def file_bytes_def files_within_def)

text \<open>A reference that \<^verbatim>\<open>provably_in_range\<close> lets go without a thunk is in range: from every
  place of the source object, the definition (anywhere in its object, before the end of its object when it
  may be called through the linkage table, or before the end of the source object when it is not in the
  primary part) is less than the branch range away.\<close>

theorem provably_in_range_sound:
  assumes "provably_in_range r src_start src_end definition_range has_plt"
    and "src_start \<le> place" "place \<le> src_end"
    and "case definition_range of
           Some (def_start, def_end) \<Rightarrow> target \<le> def_end \<and> (has_plt \<or> def_start \<le> target)
         | None \<Rightarrow> target \<le> src_end"
  shows "unat target < unat place + unat r \<and> unat place < unat target + unat r"
proof (cases definition_range)
  case None
  with assms show ?thesis
    by (auto simp: provably_in_range_def word_le_nat_alt word_less_nat_alt)
next
  case (Some d)
  obtain ds de where d: "d = (ds, de)" by (cases d)
  define lo where "lo = min src_start (if has_plt then 0 else ds)"
  define hi where "hi = max src_end de"
  have ends: "lo \<le> place" "lo \<le> target"
      "place \<le> hi" "target \<le> hi"
    using assms(2-4) Some d by (auto simp: lo_def hi_def min_le_iff_disj le_max_iff_disj)
  then have le: "lo \<le> hi" by (blast intro: order.trans)
  have "saturating_sub hi lo < r"
    using assms(1) by (simp add: provably_in_range_def Some d Let_def lo_def hi_def)
  then have "hi - lo < r"
    unfolding saturating_sub_def if_not_P [OF leD [OF le]] .
  moreover have "unat (hi - lo) = unat hi - unat lo"
    using le by (simp add: unat_sub)
  ultimately show ?thesis
    using ends unfolding word_le_nat_alt word_less_nat_alt by (intro conjI) linarith+
qed

theorem provably_in_range_sound_witness:
  "unat (2500 :: u64) < unat (1100 :: u64) + unat (5000 :: u64)
   \<and> unat (1100 :: u64) < unat (2500 :: u64) + unat (5000 :: u64)"
  using provably_in_range_sound [of 5000 1000 1200 "Some (2000, 3000)" False 1100 2500]
  by (simp add: provably_in_range_def saturating_sub_def)

end
