(* ===== verification/Thunk_Code.thy ===== *)
theory Thunk_Code
  imports Thunk_Blocks Reloc_AArch64 "HOL-Library.Signed_Division"
begin

text \<open>
  The code of a thunk and the branches to it: \<^verbatim>\<open>THUNK_TEMPLATE\<close>, \<^verbatim>\<open>thunk_config\<close> and
  \<^verbatim>\<open>write_thunk\<close> of \<^verbatim>\<open>reld-core/src/elf_aarch64.rs\<close>, the addresses that
  \<^verbatim>\<open>ObjectLayoutState::finalise_layout\<close> gives to the thunks of a block (\<^verbatim>\<open>layout.rs\<close>),
  \<^verbatim>\<open>write_thunks\<close> and \<^verbatim>\<open>maybe_get_thunk_for_relocation\<close> (\<^verbatim>\<open>elf_writer.rs\<close>).

  \<open>a64_step\<close> is not code of the linker: it is the meaning the Arm manual gives to the three
  instructions of a thunk, against which the bytes that the linker writes are read.
\<close>

section \<open>The thunk\<close>

definition THUNK_TEMPLATE :: "u8 list" where
  "THUNK_TEMPLATE =
     [0x10, 0x00, 0x00, 0x90,
      0x10, 0x02, 0x00, 0x91,
      0x00, 0x02, 0x1F, 0xD6]"

definition MIN_BRANCH_RANGE :: u64 where "MIN_BRANCH_RANGE = 128 * 1024 * 1024"

type_synonym part_id = u32

record thunk_config =
  primary_function_part_id :: part_id
  min_branch_range :: u64
  thunk_size :: u64

text \<open>The part of \<^verbatim>\<open>.text\<close> with an alignment of four bytes is an argument.\<close>

definition aarch64_thunk_config :: "part_id \<Rightarrow> thunk_config option" where
  "aarch64_thunk_config text_part =
     Some \<lparr>primary_function_part_id = text_part, min_branch_range = MIN_BRANCH_RANGE,
           thunk_size = word_of_nat (length THUNK_TEMPLATE)\<rparr>"

text \<open>Division of \<^verbatim>\<open>i64\<close> rounds towards zero.\<close>

definition i64_div :: "u64 \<Rightarrow> u64 \<Rightarrow> u64" where
  "i64_div a b = word_of_int (sint a sdiv sint b)"

text \<open>\<^verbatim>\<open>copy_from_slice\<close> panics unless the lengths agree.\<close>

definition write_thunk :: "u64 \<Rightarrow> u64 \<Rightarrow> u8 list \<Rightarrow> u8 list option" where
  "write_thunk thunk_address target_address buf =
     (if length buf \<noteq> length THUNK_TEMPLATE then None
      else
        let buf = THUNK_TEMPLATE;
            thunk_page = thunk_address AND NOT PAGE_MASK_4KB;
            target_page = target_address AND NOT PAGE_MASK_4KB;
            page_diff = target_page - thunk_page;
            page_count = i64_div page_diff SIZE_4KB AND 0x1FFFFF
        in case aarch64_write_to_value Adr page_count False (take 4 buf) of
             None \<Rightarrow> None
           | Some adrp \<Rightarrow>
             (case aarch64_write_to_value Add (target_address AND PAGE_MASK_4KB) False
                     (take 4 (drop 4 buf)) of
                None \<Rightarrow> None
              | Some add \<Rightarrow> Some (adrp @ add @ drop 8 buf)))"

section \<open>The addresses of the thunks of a block\<close>

text \<open>
  \<^verbatim>\<open>BTreeMap\<close>: its entries in the order of the keys; inserting an existing key replaces its value.
\<close>

fun btree_insert :: "'k::linorder \<Rightarrow> 'v \<Rightarrow> ('k \<times> 'v) list \<Rightarrow> ('k \<times> 'v) list" where
  "btree_insert k v [] = [(k, v)]"
| "btree_insert k v ((k', v') # entries) =
     (if k < k' then (k, v) # (k', v') # entries
      else if k = k' then (k, v) # entries
      else (k', v') # btree_insert k v entries)"

fun assign_thunk_addresses ::
    "u64 \<Rightarrow> symbol_id list \<Rightarrow> u64 \<Rightarrow> (symbol_id \<times> u64) list \<Rightarrow> (symbol_id \<times> u64) list \<times> u64" where
  "assign_thunk_addresses tsize [] addr addresses = (addresses, addr)"
| "assign_thunk_addresses tsize (symbol # symbols) addr addresses =
     assign_thunk_addresses tsize symbols (addr + tsize) (btree_insert symbol addr addresses)"

section \<open>Writing the thunks of a block\<close>

datatype thunk_error =
    ThunkNotYetAllocated
  | NoThunkAllocated int
  | NoResolution symbol_id
  | InsufficientAllocation

text \<open>
  \<^verbatim>\<open>write_thunks\<close> takes the bytes of each thunk off the front of the part's buffer; the result is
  what was written and what is left of the buffer. \<open>target\<close> is the address of the linkage table
  entry of the symbol, or its value, or none when the symbol has no resolution. The symbol table
  entries of the thunks are left out.
\<close>

fun write_thunks ::
    "(symbol_id \<Rightarrow> u64 option) \<Rightarrow> u64 \<Rightarrow> (symbol_id \<times> u64) list \<Rightarrow> u8 list
      \<Rightarrow> thunk_error fault + u8 list \<times> u8 list" where
  "write_thunks target tsize [] buf = Inr ([], buf)"
| "write_thunks target tsize ((symbol, thunk_address) # entries) buf =
     (case target symbol of
        None \<Rightarrow> Inl (Err (NoResolution symbol))
      | Some target_address \<Rightarrow>
          if length buf < unat tsize then Inl (Err InsufficientAllocation)
          else (case write_thunk thunk_address target_address (take (unat tsize) buf) of
                  None \<Rightarrow> Inl Panic
                | Some code \<Rightarrow>
                    (case write_thunks target tsize entries (drop (unat tsize) buf) of
                       Inl e \<Rightarrow> Inl e
                     | Inr (written, rest) \<Rightarrow> Inr (code @ written, rest))))"

section \<open>Branches through a thunk\<close>

record page_mask_value =
  mask_symbol_plus_addend :: u64
  mask_got_entry :: u64
  mask_place :: u64
  mask_got :: u64

definition page_mask_default :: page_mask_value where
  "page_mask_default =
     \<lparr>mask_symbol_plus_addend = - 1, mask_got_entry = - 1, mask_place = - 1, mask_got = - 1\<rparr>"

fun get_page_mask :: "page_mask option \<Rightarrow> page_mask_value" where
  "get_page_mask None = page_mask_default"
| "get_page_mask (Some (SymbolPlusAddendAndPosition m)) =
     page_mask_default\<lparr>mask_symbol_plus_addend := NOT m, mask_place := NOT m\<rparr>"
| "get_page_mask (Some (GotEntryAndPosition m)) =
     page_mask_default\<lparr>mask_got_entry := NOT m, mask_place := NOT m\<rparr>"
| "get_page_mask (Some (GotBase m)) = page_mask_default\<lparr>mask_got := NOT m\<rparr>"
| "get_page_mask (Some (Position m)) = page_mask_default\<lparr>mask_place := NOT m\<rparr>"

definition maybe_get_thunk_for_relocation ::
    "thunk_config option \<Rightarrow> (symbol_id \<times> u64) list list \<Rightarrow> thunk_block_id \<Rightarrow> part_id
      \<Rightarrow> 'r relocation_kind_info \<Rightarrow> symbol_id \<Rightarrow> u64 \<Rightarrow> u64 \<Rightarrow> thunk_error + u64 option" where
  "maybe_get_thunk_for_relocation cfg block_addresses object_block section_part
       info canonical_id place value =
     (case cfg of
        None \<Rightarrow> Inr None
      | Some config \<Rightarrow>
          if \<not> thunkable info then Inr None
          else if range_contains (allowed info) (sint value) then Inr None
          else
            let thunk_id = (if section_part = primary_function_part_id config
                            then object_block else FIRST_THUNK_BLOCK);
                thunk_address_opt =
                  (if unat thunk_id < length block_addresses
                   then map_of (block_addresses ! unat thunk_id) canonical_id else None)
            in (case thunk_address_opt of
                  Some thunk_address \<Rightarrow>
                    if thunk_address = 0 then Inl ThunkNotYetAllocated
                    else let pmask = get_page_mask (page_mask info)
                         in Inr (Some ((thunk_address + bias info AND mask_symbol_plus_addend pmask)
                                       - (place AND mask_place pmask)))
                | None \<Rightarrow> Inl (NoThunkAllocated (overrun (allowed info) (sint value)))))"

section \<open>The instructions\<close>

text \<open>
  ADRP, ADD (immediate) and BR on the general registers, and the target of B and BL, with the
  encodings of the Arm manual.
\<close>

datatype a64_outcome = Continue "nat \<Rightarrow> u64" | Branch u64

definition reg_at :: "u32 \<Rightarrow> nat \<Rightarrow> nat" where
  "reg_at w n = unat (shr w n AND 0x1F)"

definition adrp_offset :: "u32 \<Rightarrow> u64" where
  "adrp_offset w = shl (low_bits_signed (low_bits (shr (ucast w) 29) 2
                                         OR shl (low_bits (shr (ucast w) 5) 19) 2) 21) 12"

definition a64_step :: "u64 \<Rightarrow> u32 \<Rightarrow> (nat \<Rightarrow> u64) \<Rightarrow> a64_outcome option" where
  "a64_step pc w regs =
     (if w AND 0x9F000000 = 0x90000000
      then Some (Continue (regs(reg_at w 0 := (pc AND NOT 0xFFF) + adrp_offset w)))
      else if w AND 0xFFC00000 = 0x91000000
      then Some (Continue (regs(reg_at w 0 := regs (reg_at w 5) + low_bits (shr (ucast w) 10) 12)))
      else if w AND 0xFFFFFC1F = 0xD61F0000
      then Some (Branch (regs (reg_at w 5)))
      else None)"

fun a64_run :: "u64 \<Rightarrow> u32 list \<Rightarrow> (nat \<Rightarrow> u64) \<Rightarrow> u64 option" where
  "a64_run pc [] regs = None"
| "a64_run pc (w # ws) regs =
     (case a64_step pc w regs of
        Some (Continue regs') \<Rightarrow> a64_run (pc + 4) ws regs'
      | Some (Branch target) \<Rightarrow> Some target
      | None \<Rightarrow> None)"

fun words_of :: "u8 list \<Rightarrow> u32 list" where
  "words_of (a # b # c # d # bytes) = of_le [a, b, c, d] # words_of bytes"
| "words_of _ = []"

definition branch_target :: "u64 \<Rightarrow> u32 \<Rightarrow> u64 option" where
  "branch_target pc w =
     (if w AND 0x7C000000 = 0x14000000
      then Some (pc + shl (low_bits_signed (ucast w) 26) 2) else None)"

section \<open>A thunk reaches its target\<close>

definition page_of :: "u64 \<Rightarrow> u64" where
  "page_of a = a AND NOT PAGE_MASK_4KB"

text \<open>The page of the target is less than 4 GiB away from the page of the thunk.\<close>

definition thunk_can_reach :: "u64 \<Rightarrow> u64 \<Rightarrow> bool" where
  "thunk_can_reach thunk_address target_address \<longleftrightarrow>
     signed_take_bit 32 (page_of target_address - page_of thunk_address)
     = page_of target_address - page_of thunk_address"

lemma page_mask_eval: "PAGE_MASK_4KB = 0xFFF" "SIZE_4KB = 0x1000"
  by (simp_all add: PAGE_MASK_4KB_def SIZE_4KB_def shl_def)

lemma page_of_push: "page_of a = push_bit 12 (drop_bit 12 a)"
  by (rule word64_eqI) (unfold each_bit, simp add: bit_eval page_of_def page_mask_eval bit_push_bit_iff bit_drop_bit_eq)

lemma page_diff_low: "take_bit 12 (page_of a - page_of b) = 0"
proof -
  have "page_of a - page_of b = push_bit 12 (drop_bit 12 a - drop_bit 12 b)"
    by (simp add: page_of_push push_bit_eq_mult algebra_simps)
  then show ?thesis by (simp add: take_bit_push_bit)
qed

lemma sdiv_exact: "(4096 * q) sdiv 4096 = (q :: int)"
  by (cases "0 \<le> q") (auto simp: signed_divide_int_def abs_mult sgn_if)

lemma page_count_eval:
  assumes "take_bit 12 d = 0"
  shows "i64_div d SIZE_4KB AND 0x1FFFFF = take_bit 21 (drop_bit 12 d)"
proof -
  have low: "\<not> bit d n" if "n < 12" for n
    using arg_cong [OF assms, of "\<lambda>w. bit w n"] that by (simp add: bit_take_bit_iff)
  have "take_bit 12 (sint d) = 0"
    by (rule bit_eqI) (auto simp: bit_take_bit_iff bit_sint_iff low)
  then have "4096 dvd sint d" by (simp add: take_bit_eq_mod dvd_eq_mod_eq_0)
  then obtain q where q: "sint d = 4096 * q" by (elim dvdE)
  have "sint SIZE_4KB = 4096" by (simp add: page_mask_eval)
  then have div: "sint d sdiv sint SIZE_4KB = drop_bit 12 (sint d)"
    by (simp add: q sdiv_exact drop_bit_eq_div)
  show ?thesis
    unfolding i64_div_def div
    by (intro word64_eqI, unfold each_bit)
      (simp add: bit_eval bit_word_of_int_iff bit_drop_bit_eq bit_sint_iff)
qed

lemma words_of_le [simp]: "words_of (to_le 4 w @ rest) = w # words_of rest"
proof -
  obtain a b c d where bytes: "to_le 4 w = [a, b, c, d]"
    by (rule that) (simp add: to_le_def upt_rec)
  have "of_le (to_le 4 w) = w" by simp
  then have "of_le [a, b, c, d] = w" by (simp only: bytes)
  then show ?thesis by (simp add: bytes)
qed

definition thunk_words :: "u64 \<Rightarrow> u64 \<Rightarrow> u32 list" where
  "thunk_words thunk_address target_address =
     [aarch64_enc Adr (take_bit 21 (drop_bit 12 (page_of target_address - page_of thunk_address)))
        False 0x90000010,
      aarch64_enc Add (target_address AND 0xFFF) False 0x91000210,
      0xD61F0200]"

lemma write_thunk_eq:
  "write_thunk thunk_address target_address buf =
     (if length buf = 12
      then Some (concat (map (to_le 4) (thunk_words thunk_address target_address))) else None)"
proof -
  have t: "take 4 THUNK_TEMPLATE = to_le 4 (0x90000010 :: u32)"
      "take 4 (drop 4 THUNK_TEMPLATE) = to_le 4 (0x91000210 :: u32)"
      "drop 8 THUNK_TEMPLATE = to_le 4 (0xD61F0200 :: u32)" "length THUNK_TEMPLATE = 12"
    by (simp_all add: THUNK_TEMPLATE_def to_le_def upt_rec)
  have w: "aarch64_write_to_value i v False (to_le 4 x) = Some (to_le 4 (aarch64_enc i v False x))" for i v x
    using patches_step [OF aarch64_write_patches [of i v False], of "to_le 4 x"] by simp
  show ?thesis
    unfolding write_thunk_def Let_def t w option.case thunk_words_def
      page_count_eval [OF page_diff_low, unfolded page_of_def]
    by (simp add: page_of_def page_mask_eval)
qed

text \<open>What the three instructions do.\<close>

lemma thunk_adrp:
  assumes "take_bit 12 d = 0" "signed_take_bit 32 d = d"
    and "w = aarch64_enc Adr (take_bit 21 (drop_bit 12 d)) False 0x90000010"
  shows "w AND 0x9F000000 = 0x90000000" "reg_at w 0 = 16" "adrp_offset w = d"
proof -
  show "w AND 0x9F000000 = 0x90000000"
    unfolding assms(3) aarch64_enc.simps
    by (intro word32_eqI, unfold each_bit) (simp add: bit_eval range_ok_def bit_drop_bit_eq)
  have "shr w 0 AND 0x1F = 16"
    unfolding assms(3) aarch64_enc.simps
    by (intro word32_eqI, unfold each_bit) (simp add: bit_eval range_ok_def bit_drop_bit_eq)
  then show "reg_at w 0 = 16" by (simp add: reg_at_def)
  have low: "\<not> bit d n" if "n < 12" for n
    using arg_cong [OF assms(1), of "\<lambda>w. bit w n"] that by (simp add: bit_take_bit_iff)
  have "adrp_offset w = signed_take_bit 32 d"
    unfolding assms(3) aarch64_enc.simps adrp_offset_def
    by (intro word64_eqI, unfold each_bit) (simp add: bit_eval range_ok_def bit_drop_bit_eq low)
  with assms(2) show "adrp_offset w = d" by simp
qed

lemma thunk_add:
  assumes "w = aarch64_enc Add (t AND 0xFFF) False 0x91000210"
  shows "w AND 0x9F000000 \<noteq> 0x90000000" "w AND 0xFFC00000 = 0x91000000" "reg_at w 0 = 16"
    "reg_at w 5 = 16" "low_bits (shr (ucast w) 10) 12 = t AND 0xFFF"
proof -
  have "bit (w AND 0x9F000000) 24" "\<not> bit (0x90000000 :: u32) 24"
    unfolding assms aarch64_enc.simps by (simp_all add: bit_eval)
  then show "w AND 0x9F000000 \<noteq> 0x90000000" by auto
  show "w AND 0xFFC00000 = 0x91000000"
    unfolding assms aarch64_enc.simps
    by (intro word32_eqI, unfold each_bit) (simp add: bit_eval)
  have "shr w 0 AND 0x1F = 16" "shr w 5 AND 0x1F = 16"
    unfolding assms aarch64_enc.simps
    by (intro word32_eqI, unfold each_bit, simp add: bit_eval)+
  then show "reg_at w 0 = 16" "reg_at w 5 = 16" by (simp_all add: reg_at_def)
  show "low_bits (shr (ucast w) 10) 12 = t AND 0xFFF"
    unfolding assms aarch64_enc.simps
    by (intro word64_eqI, unfold each_bit) (simp add: bit_eval)
qed

lemma thunk_br: "reg_at 0xD61F0200 5 = 16"
  by (simp add: reg_at_def shr_def)

lemma thunk_words_run:
  assumes "thunk_can_reach thunk_address target_address"
  shows "a64_run thunk_address (thunk_words thunk_address target_address) regs = Some target_address"
proof -
  define d where "d = page_of target_address - page_of thunk_address"
  define adrp where "adrp = aarch64_enc Adr (take_bit 21 (drop_bit 12 d)) False 0x90000010"
  define add where "add = aarch64_enc Add (target_address AND 0xFFF) False 0x91000210"
  have "signed_take_bit 32 d = d" using assms by (simp add: thunk_can_reach_def d_def)
  note adrp = thunk_adrp [OF page_diff_low [of target_address thunk_address, folded d_def] this adrp_def]
  note add = thunk_add [OF add_def]
  have parts: "page_of x + (x AND 0xFFF) = x" for x
    unfolding page_of_def page_mask_eval and_not_minus by simp
  have "(thunk_address AND NOT 0xFFF) + d + (target_address AND 0xFFF) = target_address"
    using parts [of target_address] by (simp add: d_def page_of_def page_mask_eval)
  then show ?thesis
    unfolding thunk_words_def d_def [symmetric] adrp_def [symmetric] add_def [symmetric]
    by (simp add: a64_step_def adrp add thunk_br)
qed

section \<open>The thunks of a block\<close>

lemma thunk_block_build_strict: "sorted_wrt (<) (thunk_block_build symbols)"
  by (simp add: thunk_block_build_def strict_remdups_adj_sort)

lemma thunk_block_build_set [simp]: "set (thunk_block_build symbols) = set symbols"
  by (simp add: thunk_block_build_def)

lemma thunk_block_build_length: "length (thunk_block_build symbols) \<le> length symbols"
  by (metis length_sort remdups_adj_length thunk_block_build_def)

lemma btree_insert_last:
  "\<forall>k'\<in>fst ` set entries. k' < k \<Longrightarrow> btree_insert k v entries = entries @ [(k, v)]"
  by (induction entries) (auto simp: not_less_iff_gr_or_eq)

fun consecutive :: "u64 \<Rightarrow> u64 \<Rightarrow> symbol_id list \<Rightarrow> (symbol_id \<times> u64) list" where
  "consecutive tsize addr [] = []"
| "consecutive tsize addr (s # symbols) = (s, addr) # consecutive tsize (addr + tsize) symbols"

lemma assign_thunk_addresses_append:
  assumes "sorted_wrt (<) symbols" "\<forall>k\<in>fst ` set addresses. \<forall>s\<in>set symbols. k < s"
  shows "fst (assign_thunk_addresses tsize symbols addr addresses) = addresses @ consecutive tsize addr symbols"
  using assms
proof (induction symbols arbitrary: addr addresses)
  case (Cons s symbols)
  have "btree_insert s addr addresses = addresses @ [(s, addr)]"
    using Cons.prems(2) by (intro btree_insert_last) auto
  moreover have "\<forall>k\<in>fst ` set (addresses @ [(s, addr)]). \<forall>s\<in>set symbols. k < s"
    using Cons.prems by auto
  ultimately show ?case using Cons.IH [of "addresses @ [(s, addr)]" "addr + tsize"] Cons.prems(1) by simp
qed simp

text \<open>The addresses of the thunks of a block, as a table from symbols.\<close>

definition block_addresses :: "u64 \<Rightarrow> symbol_id list \<Rightarrow> (symbol_id \<times> u64) list" where
  "block_addresses base symbols =
     fst (assign_thunk_addresses (word_of_nat (length THUNK_TEMPLATE)) (thunk_block_build symbols) base [])"

lemma block_addresses_eq: "block_addresses base symbols = consecutive 12 base (thunk_block_build symbols)"
  by (simp add: block_addresses_def assign_thunk_addresses_append thunk_block_build_strict THUNK_TEMPLATE_def)

text \<open>A lookup in consecutive addresses finds a multiple of the size after the first address.\<close>

lemma consecutive_lookup:
  assumes "s \<in> set symbols"
  shows "\<exists>i<length symbols. map_of (consecutive tsize addr symbols) s = Some (addr + word_of_nat i * tsize)
      \<and> (s, addr + word_of_nat i * tsize) = consecutive tsize addr symbols ! i"
  using assms
proof (induction symbols arbitrary: addr)
  case (Cons s' symbols)
  show ?case
  proof (cases "s = s'")
    case True
    then show ?thesis by (intro exI [of _ 0]) simp
  next
    case False
    with Cons.prems have "s \<in> set symbols" by simp
    from Cons.IH [OF this, of "addr + tsize"] obtain i where
      "i < length symbols" "map_of (consecutive tsize (addr + tsize) symbols) s = Some (addr + tsize + word_of_nat i * tsize)"
      "(s, addr + tsize + word_of_nat i * tsize) = consecutive tsize (addr + tsize) symbols ! i" by blast
    with False show ?thesis
      by (intro exI [of _ "Suc i"]) (simp add: algebra_simps)
  qed
qed simp

lemma length_consecutive [simp]: "length (consecutive tsize addr symbols) = length symbols"
  by (induction symbols arbitrary: addr) simp_all

text \<open>Every entry is written at the place of its index.\<close>

lemma length_words_code [simp]: "length (concat (map (to_le 4) (thunk_words a t))) = 12"
  by (simp add: thunk_words_def)

lemma write_thunks_nth:
  assumes "write_thunks target 12 entries buf = Inr (written, rest)"
  shows "length written = 12 * length entries \<and> length written + length rest = length buf
    \<and> (\<forall>i<length entries. \<exists>t. target (fst (entries ! i)) = Some t
          \<and> take 12 (drop (12 * i) written) = concat (map (to_le 4) (thunk_words (snd (entries ! i)) t)))"
  using assms
proof (induction target "12 :: u64" entries buf arbitrary: written rest rule: write_thunks.induct)
  case (2 target s a entries buf)
  from 2(2) obtain t where t: "target s = Some t" by (auto split: option.splits)
  with 2(2) have len: "12 \<le> length buf" by (auto split: if_splits)
  with 2(2) t obtain written' where w:
      "write_thunks target 12 entries (drop 12 buf) = Inr (written', rest)"
      "written = concat (map (to_le 4) (thunk_words a t)) @ written'"
    by (auto simp: write_thunk_eq split: sum.splits)
  have "write_thunk a t (take (unat (12 :: u64)) buf) = Some (concat (map (to_le 4) (thunk_words a t)))"
    using len by (simp add: write_thunk_eq)
  from 2(1) [OF t _ this] len w(1)
  have ih: "length written' = 12 * length entries" "length written' + length rest = length (drop 12 buf)"
      "\<forall>i<length entries. \<exists>t. target (fst (entries ! i)) = Some t
        \<and> take 12 (drop (12 * i) written') = concat (map (to_le 4) (thunk_words (snd (entries ! i)) t))"
    by simp_all
  have "\<exists>t. target (fst (((s, a) # entries) ! i)) = Some t
      \<and> take 12 (drop (12 * i) written) = concat (map (to_le 4) (thunk_words (snd (((s, a) # entries) ! i)) t))"
    if "i < length ((s, a) # entries)" for i
    using that ih(3) t by (cases i) (simp_all add: w(2))
  with ih(1,2) len show ?case by (simp add: w(2))
qed simp

lemma words_of_concat: "words_of (concat (map (to_le 4) ws)) = ws"
  by (induction ws) simp_all

section \<open>The branch to a thunk\<close>

definition a64_call :: "a64_reloc relocation_kind_info" where
  "a64_call = \<lparr>kind = PltRelative, rel_size = bit_mask_aarch64 2 28 JumpCall, page_mask = None,
     allowed = range_new (- (2 ^ 27)) (2 ^ 27), rel_alignment = 4, bias = 0, thunkable = True\<rparr>"

lemma thunkable_is_call:
  "aarch64_relocation_type_from_raw r = Some info \<Longrightarrow> thunkable info \<Longrightarrow> info = a64_call"
  by (auto simp: aarch64_relocation_type_from_raw_def a64_info_def a64_call_def from_bit_size_def
      split: prod.splits)

lemma call_write:
  assumes "write_to_buffer uleb a64_call v out = Inr out'" "(of_le (take 4 out) :: u32) = w"
  shows "(of_le (take 4 out') :: u32) = aarch64_enc JumpCall (extract_bit_range v 2 28) neg w"
    "take_bit 2 v = 0" "signed_take_bit 27 v = v"
proof -
  from assms(1) have v: "aligned_to (rel_alignment a64_call) v" "range_contains (allowed a64_call) (sint v)"
    by (rule write_to_buffer_InrD)+
  then show "take_bit 2 v = 0" "signed_take_bit 27 v = v"
    using aligned_low_bits [of 2 4 v] by (simp_all add: a64_call_def signed_take_bit_self)
  from assms(1) have some: "aarch64_write_to_value JumpCall (extract_bit_range v 2 28) (is_negative v) out = Some out'"
    by (cases rule: write_to_buffer_Inr_cases)
      (auto simp: a64_call_def bit_mask_defs write_bit_mask_def is_uleb_pair_def or_panic_def
        split: option.splits)
  have len: "4 \<le> length out"
  proof (rule ccontr)
    assume "\<not> 4 \<le> length out"
    then have "aarch64_write_to_value JumpCall (extract_bit_range v 2 28) (is_negative v) out = None"
      using aarch64_write_patches [of JumpCall "extract_bit_range v 2 28" "is_negative v"]
      unfolding patches_def insn_bytes_eval by (meson not_le)
    with some show False by simp
  qed
  then have "out' = to_le 4 (aarch64_enc JumpCall (extract_bit_range v 2 28) (is_negative v) (of_le (take 4 out)))
      @ drop 4 out"
    using patches_step [OF aarch64_write_patches [of JumpCall "extract_bit_range v 2 28" "is_negative v"], of out] some
    by simp
  then show "(of_le (take 4 out') :: u32) = aarch64_enc JumpCall (extract_bit_range v 2 28) neg w"
    using assms(2) by simp
qed

lemma bit_of_and_eq: "w AND m = c \<Longrightarrow> bit m n \<Longrightarrow> bit (w :: 'a::len word) n = bit c n"
  by (metis bit_and_iff)

lemma call_decode:
  assumes w: "w AND 0x7FFFFFFF = 0x14000000"
    and v: "take_bit 2 v = 0" "signed_take_bit 27 v = v"
  shows "branch_target pc (aarch64_enc JumpCall (extract_bit_range v 2 28) neg w) = Some (pc + v)"
proof -
  define w' where "w' = aarch64_enc JumpCall (extract_bit_range v 2 28) neg w"
  have bits: "bit w n = bit (0x14000000 :: u32) n" if "n < 31" for n
  proof (rule bit_of_and_eq [OF w])
    have "(0x7FFFFFFF :: u32) = mask 31" by (simp add: mask_eq_exp_minus_1)
    with that show "bit (0x7FFFFFFF :: u32) n" by (simp only: bit_mask_word) simp
  qed
  have low: "\<not> bit v n" if "n < 2" for n
    using arg_cong [OF v(1), of "\<lambda>w. bit w n"] that by (simp add: bit_take_bit_iff)
  have op: "w' AND 0x7C000000 = 0x14000000"
    unfolding w'_def aarch64_enc.simps
    by (intro word32_eqI, unfold each_bit) (simp add: bit_eval range_ok_def bits)
  have "shl (low_bits_signed (ucast w') 26) 2 = signed_take_bit 27 v"
    unfolding w'_def aarch64_enc.simps
    by (intro word64_eqI, unfold each_bit) (simp add: bit_eval range_ok_def bits low)
  with op v(2) show ?thesis by (simp add: branch_target_def w'_def)
qed

text \<open>
  The bytes of a block move what lies behind it: \<open>block_pos\<close> is where the block begins, \<open>bytes\<close> its size.
\<close>

definition shifted :: "u64 \<Rightarrow> u64 \<Rightarrow> u64 \<Rightarrow> u64" where
  "shifted block_pos bytes pos = (if block_pos \<le> pos then pos + bytes else pos)"

lemma reach_arith:
  fixes w s l S e b M k p m :: nat
  assumes "w < s + (l + S)" "e < w + (l + S)" "S + b \<le> M" "l + M = m" "k \<le> b" "s \<le> p" "p < e"
  shows "\<bar>int (w + k) - int (if w \<le> p then p + b else p)\<bar> < int m"
  using assms by (cases "w \<le> p") auto

lemma sint_diff:
  assumes "\<bar>int (unat a) - int (unat b)\<bar> < 2 ^ 63"
  shows "sint (a - b :: u64) = int (unat a) - int (unat b)"
proof -
  have "a - b = word_of_int (int (unat a) - int (unat b))" by simp
  then have "sint (a - b) = signed_take_bit 63 (int (unat a) - int (unat b))"
    by (simp only: sint_sbintrunc') simp
  also have "\<dots> = int (unat a) - int (unat b)"
    using assms by (intro signed_take_bit_int_eq_self) auto
  finally show ?thesis .
qed

section \<open>Theorems\<close>

text \<open>C16: The thunks of a block do what they are for: after \<^verbatim>\<open>write_thunks\<close> over the addresses that
  the layout gave to the symbols of the block, every symbol has an address in the table, and executing
  the code at that address branches to the target of the symbol, provided that the page of the target
  is less than 4 GiB away.\<close>

theorem thunks_reach_targets:
  assumes "write_thunks target 12 (block_addresses base symbols) buf = Inr (written, rest)"
    and "length symbols < 2 ^ 60" "symbol \<in> set symbols"
    and "target symbol = Some t" "map_of (block_addresses base symbols) symbol = Some a" "thunk_can_reach a t"
  shows "a64_run a (words_of (take 12 (drop (unat (a - base)) written))) regs = Some t
    \<and> unat (a - base) + 12 \<le> length written"
proof -
  let ?symbols = "thunk_block_build symbols"
  have "symbol \<in> set ?symbols" using assms(3) by simp
  from consecutive_lookup [OF this, of 12 base] obtain i where i: "i < length ?symbols"
      "map_of (consecutive 12 base ?symbols) symbol = Some (base + word_of_nat i * 12)"
      "(symbol, base + word_of_nat i * 12) = consecutive 12 base ?symbols ! i" by blast
  have a: "a = base + word_of_nat i * 12" using i(2) assms(5) by (simp add: block_addresses_eq)
  have small: "12 * i < 2 ^ 64" using i(1) thunk_block_build_length [of symbols] assms(2) by simp
  have "a - base = word_of_nat (12 * i)" by (simp add: a)
  with small have off: "unat (a - base) = 12 * i"
    by (simp only: unsigned_of_nat) (simp add: take_bit_nat_eq_self)
  have nth: "fst (consecutive 12 base ?symbols ! i) = symbol" "snd (consecutive 12 base ?symbols ! i) = a"
    using i(3) [symmetric] by (simp_all add: a)
  from write_thunks_nth [OF assms(1) [unfolded block_addresses_eq]] i(1) nth assms(4)
  have "take 12 (drop (12 * i) written) = concat (map (to_le 4) (thunk_words a t))"
      "length written = 12 * length ?symbols"
    by auto
  with thunk_words_run [OF assms(6)] i(1) show ?thesis
    by (simp add: off words_of_concat)
qed

definition sample_code :: "u8 list" where
  "sample_code =
     [0x30, 0x1A, 0x09, 0x90, 0x10, 0xE2, 0x19, 0x91, 0, 2, 0x1F, 0xD6,
      0x10, 0, 0, 0xB0, 0x10, 2, 0, 0x91, 0, 2, 0x1F, 0xD6]"

definition sample_target :: "symbol_id \<Rightarrow> u64 option" where
  "sample_target s = Some (if s = 3 then 0x12345678 else 0x2000)"

lemma sample_addresses: "block_addresses 0x1000 [5, 3, 5] = [(3, 0x1000), (5, 0x100C)]"
  by (simp add: block_addresses_eq thunk_block_build_def)

lemma sample_written:
  "write_thunks sample_target 12 (block_addresses 0x1000 [5, 3, 5]) (replicate 24 0) = Inr (sample_code, [])"
  by (simp add: sample_addresses sample_target_def sample_code_def write_thunk_eq thunk_words_def
      page_of_def page_mask_eval extract_bit_range_def shl_def shr_def to_le_def upt_rec)

theorem thunks_reach_targets_witness:
  "a64_run 0x1000 (words_of (take 12 (drop (unat ((0x1000 :: u64) - 0x1000)) sample_code))) (\<lambda>_. 0) = Some 0x12345678
   \<and> unat ((0x1000 :: u64) - 0x1000) + 12 \<le> length sample_code"
  by (rule thunks_reach_targets [OF sample_written, of 3])
    (simp_all add: sample_addresses sample_target_def thunk_can_reach_def page_of_def page_mask_eval)

text \<open>C15: A branch that is out of range goes to the thunk of its symbol: if
  \<^verbatim>\<open>maybe_get_thunk_for_relocation\<close> replaces the value of an AArch64 relocation and the new value is
  written over a B or BL with an empty offset, the direct offset was outside the range, and the
  instruction branches to the address that the thunk has in the table of the block of the object (of the
  first block outside the primary part).\<close>

theorem branch_lands_on_thunk:
  assumes "aarch64_relocation_type_from_raw r = Some info"
    and "maybe_get_thunk_for_relocation (aarch64_thunk_config text_part) tables object_block part
           info symbol place value = Inr (Some v)"
    and "write_to_buffer uleb info v out = Inr out'"
    and "(of_le (take 4 out) :: u32) AND 0x7FFFFFFF = 0x14000000"
    and "block = (if part = text_part then object_block else FIRST_THUNK_BLOCK)"
  shows "\<not> range_contains (allowed info) (sint value) \<and> unat block < length tables
    \<and> branch_target place (of_le (take 4 out')) = map_of (tables ! unat block) symbol"
proof -
  have info: "info = a64_call"
    using assms(2) by (intro thunkable_is_call [OF assms(1)])
      (auto simp: maybe_get_thunk_for_relocation_def aarch64_thunk_config_def split: if_splits)
  from assms(2,5) obtain a where a: "\<not> range_contains (allowed info) (sint value)"
      "unat block < length tables" "map_of (tables ! unat block) symbol = Some a" "v = a - place"
    by (auto simp: maybe_get_thunk_for_relocation_def aarch64_thunk_config_def Let_def info a64_call_def
        page_mask_default_def split: if_splits option.splits)
  note call = call_write [OF assms(3) [unfolded info] refl]
  have "branch_target place (of_le (take 4 out')) = Some (place + v)"
    unfolding call(1) [of False] by (intro call_decode assms(4) call(2,3))
  with a show ?thesis by simp
qed

lemma a64_call_entry: "aarch64_relocation_type_from_raw (A64_Flow R_AARCH64_CALL26) = Some a64_call"
  by (simp add: aarch64_relocation_type_from_raw_def a64_info_def a64_call_def from_bit_size_def)

theorem branch_lands_on_thunk_witness:
  "\<not> range_contains (allowed a64_call) (sint (0x10000000 :: u64))
   \<and> unat (1 :: thunk_block_id) < length [[], [(7 :: symbol_id, 0x8000 :: u64)]]
   \<and> branch_target 0x1000 (of_le (take 4 [0, 0x1C, 0, 0x94]))
     = map_of ([[], [(7 :: symbol_id, 0x8000)]] ! unat (1 :: thunk_block_id)) 7"
  by (rule branch_lands_on_thunk [OF a64_call_entry, where text_part = 9 and part = 9 and object_block = 1
        and v = "0x7000" and out = "[0, 0, 0, 0x94]" and uleb = "\<lambda>_. []"])
    (simp_all add: maybe_get_thunk_for_relocation_def aarch64_thunk_config_def a64_call_def
      page_mask_default_def write_to_buffer_def verify_def bit_mask_defs write_bit_mask_def
      extract_bit_range_def shr_def shl_def to_le_def upt_rec of_le_Cons)

text \<open>The slack is enough: when a block is as near to an object as the assignment makes it, and the
  largest object and the bytes of the block together take no more than
  \<^verbatim>\<open>MAXIMUM_THUNK_BYTES_PER_BLOCK\<close>, the offset from every place of the object to every thunk of the
  block is in the range of a branch, although the block itself moves the objects behind it.\<close>

theorem thunk_branch_in_range:
  assumes "thunk_branch_range MIN_BRANCH_RANGE text_bytes = Some lim"
    and "near (unat lim + S) block_pos start stop" "start \<le> place" "place < stop"
    and "S + unat bytes \<le> unat MAXIMUM_THUNK_BYTES_PER_BLOCK" "k \<le> bytes"
    and "unat block_pos + unat bytes < 2 ^ 64" "unat stop + unat bytes < 2 ^ 64"
    and "aarch64_relocation_type_from_raw r = Some info" "thunkable info"
  shows "range_contains (allowed info) (sint (block_pos + k - shifted block_pos bytes place))"
proof -
  have lim: "unat lim + unat MAXIMUM_THUNK_BYTES_PER_BLOCK = 2 ^ 27"
    using assms(1) by (auto simp: thunk_branch_range_def MIN_BRANCH_RANGE_def
        MAXIMUM_THUNK_BYTES_PER_BLOCK_def split: if_splits)
  have k: "unat k \<le> unat bytes" "unat (block_pos + k) = unat block_pos + unat k"
    using assms(6,7) by (auto simp: word_le_nat_alt intro: unat_add_bound)
  have place: "unat start \<le> unat place" "unat place < unat stop"
    using assms(3,4) by (simp_all add: word_le_nat_alt word_less_nat_alt)
  have shift: "unat (shifted block_pos bytes place)
      = (if unat block_pos \<le> unat place then unat place + unat bytes else unat place)"
    using assms(8) place unfolding shifted_def
    by (auto simp: word_le_nat_alt intro: unat_add_bound)
  have n: "unat block_pos < unat start + (unat lim + S)" "unat stop < unat block_pos + (unat lim + S)"
    using assms(2) by (simp_all add: near_def)
  have d: "\<bar>int (unat (block_pos + k)) - int (unat (shifted block_pos bytes place))\<bar> < 2 ^ 27"
    unfolding shift k(2)
    using reach_arith [OF n assms(5) lim k(1) place] by simp
  then have "sint (block_pos + k - shifted block_pos bytes place)
      = int (unat (block_pos + k)) - int (unat (shifted block_pos bytes place))"
    by (intro sint_diff) simp
  with d have "- (2 ^ 27) \<le> sint (block_pos + k - shifted block_pos bytes place)"
    "sint (block_pos + k - shifted block_pos bytes place) < 2 ^ 27" by linarith+
  with thunkable_is_call [OF assms(9,10)] show ?thesis by (simp add: a64_call_def)
qed

theorem thunk_branch_in_range_witness:
  "range_contains (allowed a64_call) (sint (0x10000 + 12 - shifted 0x10000 24 0x20800))"
  by (rule thunk_branch_in_range [where text_bytes = "2 ^ 28" and lim = "0x7E00000" and S = "0x1000"
        and start = "0x20000" and stop = "0x21000", OF _ _ _ _ _ _ _ _ a64_call_entry])
    (simp_all add: thunk_branch_range_def MIN_BRANCH_RANGE_def MAXIMUM_THUNK_BYTES_PER_BLOCK_def
      near_def a64_call_def)

end
