(* ===== verification/Relr.thy ===== *)
theory Relr
  imports Prelude "HOL-Library.Multiset"
begin

text \<open>
  Relative relocations in the packed format RELR: \<^verbatim>\<open>RelrBitmap\<close>, \<^verbatim>\<open>RelrEncoder\<close> and
  \<^verbatim>\<open>got_relr_bitmap_relr_count\<close> of \<^verbatim>\<open>reld-core/src/elf.rs\<close>, the allocation that
  \<^verbatim>\<open>process_relocation\<close> makes with the same encoder, and \<^verbatim>\<open>write_address_relocation\<close> and
  \<^verbatim>\<open>write_got_relr_bitmap\<close> of \<^verbatim>\<open>elf_writer.rs\<close>. The reader of the format, \<open>relr_decode\<close>, and the loader
  are the specification: they follow the definition of \<^verbatim>\<open>SHT_RELR\<close>, not code of the linker.
\<close>

section \<open>The encoder\<close>

definition RELR_TYPE_BYTE_SIZE :: u64 where "RELR_TYPE_BYTE_SIZE = 8"
definition RELR_BITMAP_SLOTS :: u64 where "RELR_BITMAP_SLOTS = 8 * RELR_TYPE_BYTE_SIZE - 1"
definition RELR_ADDRESS_RANGE :: u64 where "RELR_ADDRESS_RANGE = RELR_BITMAP_SLOTS * RELR_TYPE_BYTE_SIZE"

lemmas relr_sizes = RELR_TYPE_BYTE_SIZE_def RELR_BITMAP_SLOTS_def RELR_ADDRESS_RANGE_def

record relr_bitmap =
  range_start :: u64
  range_end :: u64
  encoded :: u64

definition bitmap_after :: "u64 \<Rightarrow> relr_bitmap" where
  "bitmap_after address =
     (let start = address + RELR_TYPE_BYTE_SIZE
      in \<lparr>range_start = start, range_end = start + RELR_ADDRESS_RANGE, encoded = 1\<rparr>)"

definition bitmap_next :: "relr_bitmap \<Rightarrow> relr_bitmap" where
  "bitmap_next b =
     \<lparr>range_start = range_start b + RELR_ADDRESS_RANGE, range_end = range_end b + RELR_ADDRESS_RANGE,
      encoded = 1\<rparr>"

definition bitmap_insert :: "relr_bitmap \<Rightarrow> u64 \<Rightarrow> relr_bitmap option" where
  "bitmap_insert b address =
     (let offset = address - range_start b
      in if \<not> (range_start b \<le> address \<and> address < range_end b) \<or> offset mod RELR_TYPE_BYTE_SIZE \<noteq> 0
         then None
         else Some (b\<lparr>encoded := encoded b OR shl 1 (unat (offset div RELR_TYPE_BYTE_SIZE + 1))\<rparr>))"

datatype relr_state = NoRun | AddressOnly relr_bitmap | WithBitmap relr_bitmap

datatype relr_entry_encoding = New | Update

text \<open>
  One call of \<^verbatim>\<open>encode\<close>: the arguments of the callback and the state that follows when the callback
  succeeds (a failing callback ends the link).
\<close>

definition relr_encode :: "relr_state \<Rightarrow> u64 \<Rightarrow> u64 \<times> relr_entry_encoding \<times> relr_state" where
  "relr_encode st address =
     (case st of
        NoRun \<Rightarrow> (address, New, AddressOnly (bitmap_after address))
      | AddressOnly next_bitmap \<Rightarrow>
          (case bitmap_insert next_bitmap address of
             Some b \<Rightarrow> (encoded b, New, WithBitmap b)
           | None \<Rightarrow> (address, New, AddressOnly (bitmap_after address)))
      | WithBitmap bitmap \<Rightarrow>
          (case bitmap_insert bitmap address of
             Some b \<Rightarrow> (encoded b, Update, WithBitmap b)
           | None \<Rightarrow>
               (case bitmap_insert (bitmap_next bitmap) address of
                  Some b \<Rightarrow> (encoded b, New, WithBitmap b)
                | None \<Rightarrow> (address, New, AddressOnly (bitmap_after address)))))"

section \<open>Allocation\<close>

text \<open>
  What the layout of one section counts for its relative relocations, by their offsets in the
  section: entries of \<^verbatim>\<open>.relr.dyn\<close> and of the relative part of \<^verbatim>\<open>.rela.dyn\<close>.
\<close>

fun count_section :: "bool \<Rightarrow> relr_state \<Rightarrow> u64 list \<Rightarrow> nat \<times> nat" where
  "count_section relr_enabled st [] = (0, 0)"
| "count_section relr_enabled st (offset # offsets) =
     (if relr_enabled \<and> 2 dvd offset
      then (case relr_encode st offset of
              (_, encoding, st') \<Rightarrow>
                (case count_section relr_enabled st' offsets of
                   (relr, rela) \<Rightarrow> (if encoding = New then relr + 1 else relr, rela)))
      else (case count_section relr_enabled st offsets of (relr, rela) \<Rightarrow> (relr, rela + 1)))"

text \<open>The sections of an object, each with a run of its own.\<close>

fun count_sections :: "bool \<Rightarrow> u64 list list \<Rightarrow> nat \<times> nat" where
  "count_sections relr_enabled [] = (0, 0)"
| "count_sections relr_enabled (offsets # sections) =
     (case count_section relr_enabled NoRun offsets of
        (relr, rela) \<Rightarrow>
          (case count_sections relr_enabled sections of (relr', rela') \<Rightarrow> (relr + relr', rela + rela')))"

definition got_relr_bitmap_relr_count :: "u64 \<Rightarrow> u64" where
  "got_relr_bitmap_relr_count n =
     (if n = 0 then 0
      else let m = n - 1
           in 1 + (m div RELR_BITMAP_SLOTS + (if m mod RELR_BITMAP_SLOTS = 0 then 0 else 1)))"

section \<open>The writer\<close>

text \<open>
  The tables of \<^verbatim>\<open>TableWriter\<close> that hold relative relocations: what was written to them, and how many
  entries are left (\<open>relr_room\<close> is none when packing is off). \<^verbatim>\<open>current_relr_dyn\<close> is the index of the
  entry that an update overwrites.
\<close>

record address_writer =
  relr_room :: "nat option"
  relr_dyn :: "u64 list"
  current_relr_dyn :: "nat option"
  relr_writer :: relr_state
  rela_room :: nat
  rela_dyn_relative :: "(u64 \<times> u64) list"

datatype table_error = InsufficientAllocation | InternalErrorInRelr

text \<open>
  \<^verbatim>\<open>TableWriter::new\<close> on the entries that the layout allocated: an empty packed table counts as no
  packing.
\<close>

definition new_writer :: "bool \<Rightarrow> nat \<Rightarrow> nat \<Rightarrow> address_writer" where
  "new_writer pack_relative_relocs relr rela =
     \<lparr>relr_room = (if pack_relative_relocs \<and> relr \<noteq> 0 then Some relr else None), relr_dyn = [],
      current_relr_dyn = None, relr_writer = NoRun, rela_room = rela, rela_dyn_relative = []\<rparr>"

definition reset_relr_run :: "address_writer \<Rightarrow> address_writer" where
  "reset_relr_run w = w\<lparr>relr_writer := NoRun, current_relr_dyn := None\<rparr>"

definition relr_callback ::
    "u64 \<Rightarrow> relr_entry_encoding \<Rightarrow> nat \<Rightarrow> address_writer \<Rightarrow> table_error + address_writer" where
  "relr_callback value encoding room w =
     (case encoding of
        New \<Rightarrow>
          (case room of
             0 \<Rightarrow> Inl InsufficientAllocation
           | Suc room' \<Rightarrow>
               Inr (w\<lparr>relr_room := Some room', relr_dyn := relr_dyn w @ [value],
                      current_relr_dyn := Some (length (relr_dyn w))\<rparr>))
      | Update \<Rightarrow>
          (case current_relr_dyn w of
             None \<Rightarrow> Inl InternalErrorInRelr
           | Some i \<Rightarrow> Inr (w\<lparr>relr_dyn := (relr_dyn w)[i := value]\<rparr>)))"

text \<open>The result holds the value that goes to the place itself.\<close>

definition write_address_relocation ::
    "u64 \<Rightarrow> u64 \<Rightarrow> address_writer \<Rightarrow> table_error + u64 \<times> address_writer" where
  "write_address_relocation place relative_address w =
     (case relr_room w of
        Some room \<Rightarrow>
          if 2 dvd place
          then (case relr_encode (relr_writer w) place of
                  (value, encoding, st) \<Rightarrow>
                    (case relr_callback value encoding room w of
                       Inl e \<Rightarrow> Inl e
                     | Inr w \<Rightarrow> Inr (relative_address, w\<lparr>relr_writer := st\<rparr>)))
          else (case rela_room w of
                  0 \<Rightarrow> Inl InsufficientAllocation
                | Suc n \<Rightarrow> Inr (0, w\<lparr>rela_room := n,
                                rela_dyn_relative := rela_dyn_relative w @ [(place, relative_address)]\<rparr>))
      | None \<Rightarrow>
          (case rela_room w of
             0 \<Rightarrow> Inl InsufficientAllocation
           | Suc n \<Rightarrow> Inr (0, w\<lparr>rela_room := n,
                           rela_dyn_relative := rela_dyn_relative w @ [(place, relative_address)]\<rparr>)))"

text \<open>The relative relocations of a section, in order, and those of the sections.\<close>

fun write_section ::
    "(u64 \<times> u64) list \<Rightarrow> address_writer \<Rightarrow> table_error + (u64 \<times> u64) list \<times> address_writer" where
  "write_section [] w = Inr ([], w)"
| "write_section ((place, relative_address) # rels) w =
     (case write_address_relocation place relative_address w of
        Inl e \<Rightarrow> Inl e
      | Inr (value, w) \<Rightarrow>
          (case write_section rels w of
             Inl e \<Rightarrow> Inl e
           | Inr (values, w) \<Rightarrow> Inr ((place, value) # values, w)))"

fun write_sections ::
    "(u64 \<times> u64) list list \<Rightarrow> address_writer \<Rightarrow> table_error + (u64 \<times> u64) list \<times> address_writer" where
  "write_sections [] w = Inr ([], w)"
| "write_sections (rels # sections) w =
     (case write_section rels (reset_relr_run w) of
        Inl e \<Rightarrow> Inl e
      | Inr (values, w) \<Rightarrow>
          (case write_sections sections w of
             Inl e \<Rightarrow> Inl e
           | Inr (values', w) \<Rightarrow> Inr (values @ values', w)))"

text \<open>The loop of \<^verbatim>\<open>write_got_relr_bitmap\<close> over the remaining slots; nothing is written without packing.\<close>

function got_relr_bitmaps :: "u64 \<Rightarrow> u64 list \<Rightarrow> nat \<Rightarrow> table_error + u64 list \<times> nat" where
  "got_relr_bitmaps remaining entries room =
     (if remaining = 0 then Inr (entries, room)
      else let slots = min remaining RELR_BITMAP_SLOTS;
               bitmap = shl (shl 1 (unat slots) - 1) 1 OR 1
           in (case room of
                 0 \<Rightarrow> Inl InsufficientAllocation
               | Suc room' \<Rightarrow>
                   got_relr_bitmaps (if remaining < RELR_BITMAP_SLOTS then 0 else remaining - RELR_BITMAP_SLOTS)
                     (entries @ [bitmap]) room'))"
  by pat_completeness auto
termination
  by (relation "measure (\<lambda>(_, _, room). room)") auto

declare got_relr_bitmaps.simps [simp del]

definition write_got_relr_bitmap :: "u64 \<Rightarrow> u64 \<Rightarrow> address_writer \<Rightarrow> table_error + address_writer" where
  "write_got_relr_bitmap n base w =
     (if base = 0 \<or> n = 0 then Inr w
      else (case relr_room w of
              None \<Rightarrow> Inr w
            | Some 0 \<Rightarrow> Inl InsufficientAllocation
            | Some (Suc room) \<Rightarrow>
                (case got_relr_bitmaps (n - 1) (relr_dyn w @ [base]) room of
                   Inl e \<Rightarrow> Inl e
                 | Inr (entries, room) \<Rightarrow> Inr (w\<lparr>relr_dyn := entries, relr_room := Some room\<rparr>))))"

section \<open>The reader\<close>

text \<open>
  An even entry is the address of a word to relocate; an odd one is a bitmap of the 63 words that
  follow the last address or bitmap.
\<close>

definition bitmap_addresses :: "u64 \<Rightarrow> u64 \<Rightarrow> u64 list" where
  "bitmap_addresses pos entry =
     map (\<lambda>i. pos + 8 * word_of_nat i) (filter (\<lambda>i. bit entry (i + 1)) [0..<63])"

fun relr_decode :: "u64 \<Rightarrow> u64 list \<Rightarrow> u64 list" where
  "relr_decode pos [] = []"
| "relr_decode pos (entry # entries) =
     (if 2 dvd entry then entry # relr_decode (entry + 8) entries
      else bitmap_addresses pos entry @ relr_decode (pos + 504) entries)"

text \<open>Loading adds the base to the words of the packed list and stores base plus addend for the others.\<close>

definition load_relr :: "u64 \<Rightarrow> u64 list \<Rightarrow> (u64 \<Rightarrow> u64) \<Rightarrow> u64 \<Rightarrow> u64" where
  "load_relr base addresses mem = fold (\<lambda>a m. m(a := m a + base)) addresses mem"

definition load_rela :: "u64 \<Rightarrow> (u64 \<times> u64) list \<Rightarrow> (u64 \<Rightarrow> u64) \<Rightarrow> u64 \<Rightarrow> u64" where
  "load_rela base relas mem = fold (\<lambda>(a, addend) m. m(a := base + addend)) relas mem"

definition store_values :: "(u64 \<times> u64) list \<Rightarrow> (u64 \<Rightarrow> u64) \<Rightarrow> u64 \<Rightarrow> u64" where
  "store_values values mem = fold (\<lambda>(a, v) m. m(a := v)) values mem"

section \<open>Reading in pieces\<close>

fun relr_where :: "u64 \<Rightarrow> u64 list \<Rightarrow> u64" where
  "relr_where pos [] = pos"
| "relr_where pos (entry # entries) =
     relr_where (if 2 dvd entry then entry + 8 else pos + 504) entries"

lemma relr_decode_append:
  "relr_decode pos (xs @ ys) = relr_decode pos xs @ relr_decode (relr_where pos xs) ys"
  by (induction xs arbitrary: pos) auto

lemma relr_where_append: "relr_where pos (xs @ ys) = relr_where (relr_where pos xs) ys"
  by (induction xs arbitrary: pos) auto

lemma even_word_bit: "2 dvd (w :: 'a::len word) \<longleftrightarrow> \<not> bit w 0"
  by (simp add: bit_0)

section \<open>One insertion\<close>

definition bitmap_ok :: "relr_bitmap \<Rightarrow> bool" where
  "bitmap_ok b \<longleftrightarrow> range_end b = range_start b + 504 \<and> bit (encoded b) 0"

lemma bitmap_after_ok [simp]: "bitmap_ok (bitmap_after a)" "range_start (bitmap_after a) = a + 8"
    "encoded (bitmap_after a) = 1"
  by (simp_all add: bitmap_ok_def bitmap_after_def relr_sizes bit_1_iff)

lemma bitmap_next_ok [simp]: "bitmap_ok b \<Longrightarrow> bitmap_ok (bitmap_next b)"
    "range_start (bitmap_next b) = range_start b + 504" "encoded (bitmap_next b) = 1"
  by (simp_all add: bitmap_ok_def bitmap_next_def relr_sizes bit_1_iff)

lemma bitmap_insert_cases:
  assumes ok: "bitmap_ok b" and ins: "bitmap_insert b a = Some b'"
  obtains j where "j < 63" "a = range_start b + 8 * word_of_nat j"
    "b' = b\<lparr>encoded := encoded b OR push_bit (j + 1) 1\<rparr>" "bitmap_ok b'"
proof -
  let ?d = "a - range_start b"
  from ins have d: "range_start b \<le> a" "a < range_start b + 504" "?d mod 8 = 0"
      "b' = b\<lparr>encoded := encoded b OR shl 1 (unat (?d div 8 + 1))\<rparr>"
    using ok by (auto simp: bitmap_insert_def bitmap_ok_def relr_sizes Let_def split: if_splits)
  have "unat (range_start b + 504) \<le> unat (range_start b) + 504"
    by (simp add: unat_word_ariths)
  then have less: "unat ?d < 504"
    using d(1,2) by (simp add: unat_sub word_le_nat_alt word_less_nat_alt)
  define j where "j = unat ?d div 8"
  have j: "j < 63" using less by (simp add: j_def)
  have "unat ?d mod 8 = 0" using arg_cong [OF d(3), of unat] by (simp add: unat_mod_distrib)
  then have eq: "unat ?d = 8 * j" by (simp add: j_def) presburger
  have "?d = word_of_nat (unat ?d)" by simp
  then have "?d = word_of_nat (8 * j)" unfolding eq .
  then have a: "a = range_start b + 8 * word_of_nat j" by (simp add: algebra_simps)
  have "unat (?d div 8) = j" by (simp add: unat_div_distrib j_def)
  then have "unat (?d div 8 + 1) = j + 1"
    using j by (simp add: unat_word_ariths)
  then have "b' = b\<lparr>encoded := encoded b OR push_bit (j + 1) 1\<rparr>"
    using d(4) j by (simp add: shl_def)
  moreover from this ok have "bitmap_ok b'" by (simp add: bitmap_ok_def bit_or_iff)
  ultimately show thesis using that j a by blast
qed

lemma mset_filter_insert:
  "distinct xs \<Longrightarrow> j \<in> set xs \<Longrightarrow> \<not> P j \<Longrightarrow> mset (filter (\<lambda>i. P i \<or> i = j) xs) = add_mset j (mset (filter P xs))"
proof (induction xs)
  case (Cons x xs)
  show ?case
  proof (cases "x = j")
    case True
    with Cons.prems have "filter (\<lambda>i. P i \<or> i = j) xs = filter P xs" by (intro filter_cong) auto
    with True Cons.prems show ?thesis by (simp del: mset_filter)
  next
    case False
    with Cons show ?thesis by (simp del: mset_filter)
  qed
qed simp

lemma bit_or_push: "bit (e OR push_bit m 1 :: u64) n \<longleftrightarrow> bit e n \<or> n = m \<and> n < 64"
  by (auto simp: bit_or_iff bit_push_bit_iff bit_1_iff simp del: push_bit_of_1 dest: bit_imp_le_length)

lemma bitmap_addresses_set:
  "a \<in> set (bitmap_addresses pos e) \<longleftrightarrow> (\<exists>j<63. bit e (j + 1) \<and> a = pos + 8 * word_of_nat j)"
  by (auto simp: bitmap_addresses_def)

lemma bitmap_addresses_insert:
  assumes "j < 63" "\<not> bit e (j + 1)"
  shows "mset (bitmap_addresses pos (e OR push_bit (j + 1) 1))
    = add_mset (pos + 8 * word_of_nat j) (mset (bitmap_addresses pos e))"
proof -
  have "filter (\<lambda>i. bit (e OR push_bit (j + 1) 1) (i + 1)) [0..<63]
      = filter (\<lambda>i. bit e (i + 1) \<or> i = j) [0..<63]"
    by (rule filter_cong) (auto simp only: bit_or_push set_upt atLeastLessThan_iff add_right_cancel)
  moreover have "mset (filter (\<lambda>i. bit e (i + 1) \<or> i = j) [0..<63])
      = add_mset j (mset (filter (\<lambda>i. bit e (i + 1)) [0..<63]))"
    using assms by (intro mset_filter_insert) auto
  ultimately show ?thesis
    unfolding bitmap_addresses_def mset_map by (simp only: image_mset_add_mset)
qed

lemma bitmap_addresses_one: "bitmap_addresses pos 1 = []"
  by (simp add: bitmap_addresses_def bit_1_iff filter_empty_conv)

section \<open>The tables describe the places\<close>

text \<open>
  \<open>run_ok w\<close>: the state of the encoder describes the end of the table: where a bitmap would continue,
  or the bitmap that is its last entry.
\<close>

definition run_ok :: "address_writer \<Rightarrow> bool" where
  "run_ok w \<longleftrightarrow>
     (case relr_writer w of
        NoRun \<Rightarrow> True
      | AddressOnly b \<Rightarrow> bitmap_ok b \<and> encoded b = 1 \<and> relr_where 0 (relr_dyn w) = range_start b
      | WithBitmap b \<Rightarrow> bitmap_ok b \<and> current_relr_dyn w \<noteq> None
          \<and> (\<exists>es. relr_dyn w = es @ [encoded b] \<and> relr_where 0 es = range_start b
                 \<and> current_relr_dyn w = Some (length es)))"

definition described :: "address_writer \<Rightarrow> u64 multiset" where
  "described w = mset (relr_decode 0 (relr_dyn w)) + mset (map fst (rela_dyn_relative w))"

lemma bitmap_entry: "bitmap_ok b \<Longrightarrow> \<not> 2 dvd encoded b"
  by (simp add: bitmap_ok_def even_word_bit)

lemma relr_step:
  assumes "run_ok w" "2 dvd place" "place \<notin># mset (relr_decode 0 (relr_dyn w))"
    and "relr_encode (relr_writer w) place = (value, encoding, st)"
    and "relr_callback value encoding room w = Inr w'"
  shows "run_ok (w'\<lparr>relr_writer := st\<rparr>)
    \<and> mset (relr_decode 0 (relr_dyn w')) = add_mset place (mset (relr_decode 0 (relr_dyn w)))"
proof -
  have address: ?thesis
    if "value = place" "encoding = New" "st = AddressOnly (bitmap_after place)"
    using assms(2,5) that
    by (auto simp: relr_callback_def run_ok_def relr_decode_append relr_where_append split: nat.splits)
  have extend: ?thesis
    if b: "bitmap_ok b" "relr_where 0 (relr_dyn w) = range_start b" "encoded b = 1"
      and ins: "bitmap_insert b place = Some b'" and e: "value = encoded b'" "encoding = New" "st = WithBitmap b'"
    for b b'
  proof -
    obtain j where j: "j < 63" "place = range_start b + 8 * word_of_nat j"
        "b' = b\<lparr>encoded := encoded b OR push_bit (j + 1) 1\<rparr>" "bitmap_ok b'"
      by (rule bitmap_insert_cases [OF b(1) ins])
    have "mset (bitmap_addresses (range_start b) (encoded b')) = {#place#}"
      using bitmap_addresses_insert [OF j(1), of 1 "range_start b"] j b(3)
      by (simp add: bit_1_iff bitmap_addresses_one)
    with assms(5) b j(3,4) e bitmap_entry [OF j(4)] show ?thesis
      by (auto simp: relr_callback_def run_ok_def relr_decode_append split: nat.splits)
  qed
  show ?thesis
  proof (cases "relr_writer w")
    case NoRun
    with assms(4) show ?thesis by (intro address) (auto simp: relr_encode_def)
  next
    case (AddressOnly b)
    then have b: "bitmap_ok b" "relr_where 0 (relr_dyn w) = range_start b" "encoded b = 1"
      using assms(1) by (simp_all add: run_ok_def)
    show ?thesis
    proof (cases "bitmap_insert b place")
      case None
      with assms(4) AddressOnly show ?thesis by (intro address) (auto simp: relr_encode_def)
    next
      case (Some b')
      with assms(4) AddressOnly show ?thesis by (intro extend [OF b Some]) (auto simp: relr_encode_def)
    qed
  next
    case (WithBitmap b)
    then obtain es where b: "bitmap_ok b" "relr_dyn w = es @ [encoded b]" "relr_where 0 es = range_start b"
        "current_relr_dyn w = Some (length es)"
      using assms(1) by (auto simp: run_ok_def)
    note odd = bitmap_entry [OF b(1)]
    show ?thesis
    proof (cases "bitmap_insert b place")
      case (Some b')
      obtain j where j: "j < 63" "place = range_start b + 8 * word_of_nat j"
          "b' = b\<lparr>encoded := encoded b OR push_bit (j + 1) 1\<rparr>" "bitmap_ok b'"
        by (rule bitmap_insert_cases [OF b(1) Some])
      have "\<not> bit (encoded b) (j + 1)"
        using assms(3) b(2,3) odd j(1,2) by (auto simp: relr_decode_append bitmap_addresses_set)
      from bitmap_addresses_insert [OF j(1) this, of "range_start b"]
      have b': "mset (bitmap_addresses (range_start b) (encoded b'))
            = add_mset place (mset (bitmap_addresses (range_start b) (encoded b)))"
          "range_start b' = range_start b"
        by (simp_all add: j(2,3))
      have w': "value = encoded b'" "encoding = Update" "st = WithBitmap b'"
          "w' = w\<lparr>relr_dyn := es @ [encoded b']\<rparr>"
        using assms(4,5) WithBitmap Some b(2,4) by (auto simp: relr_encode_def relr_callback_def)
      then show ?thesis
        using b j(4) odd bitmap_entry [OF j(4)] b'
        by (simp add: run_ok_def relr_decode_append)
    next
      case None
      have after: "relr_where 0 (relr_dyn w) = range_start (bitmap_next b)"
        using b(2,3) odd by (simp add: relr_where_append)
      show ?thesis
      proof (cases "bitmap_insert (bitmap_next b) place")
        case None': None
        with assms(4) WithBitmap None show ?thesis by (intro address) (auto simp: relr_encode_def)
      next
        case (Some b')
        with assms(4) WithBitmap None b(1) after show ?thesis
          by (intro extend [OF _ _ _ Some]) (auto simp: relr_encode_def)
      qed
    qed
  qed
qed

definition recorded :: "address_writer \<Rightarrow> u64 \<times> u64 \<Rightarrow> u64 \<times> u64 \<Rightarrow> bool" where
  "recorded w rel value \<longleftrightarrow> fst value = fst rel
     \<and> (fst rel \<in> set (relr_decode 0 (relr_dyn w)) \<and> snd value = snd rel
        \<or> rel \<in> set (rela_dyn_relative w) \<and> snd value = 0)"

definition extends :: "address_writer \<Rightarrow> address_writer \<Rightarrow> bool" where
  "extends w w' \<longleftrightarrow> set (relr_decode 0 (relr_dyn w)) \<subseteq> set (relr_decode 0 (relr_dyn w'))
     \<and> set (rela_dyn_relative w) \<subseteq> set (rela_dyn_relative w')"

lemma extends_trans: "extends w w' \<Longrightarrow> extends w' w'' \<Longrightarrow> extends w w''"
  by (auto simp: extends_def)

lemma recorded_mono: "recorded w rel value \<Longrightarrow> extends w w' \<Longrightarrow> recorded w' rel value"
  by (auto simp: recorded_def extends_def)

lemma write_address_step:
  assumes "run_ok w" "place \<notin># described w" "write_address_relocation place r w = Inr (v, w')"
  shows "run_ok w' \<and> described w' = add_mset place (described w) \<and> recorded w' (place, r) (place, v)
    \<and> extends w w'"
proof -
  have rela: ?thesis if "v = 0" "w' = w\<lparr>rela_room := n, rela_dyn_relative := rela_dyn_relative w @ [(place, r)]\<rparr>" for n
    using assms(1) that
    by (auto simp: run_ok_def described_def recorded_def extends_def split: relr_state.splits)
  show ?thesis
  proof (cases "relr_room w \<noteq> None \<and> 2 dvd place")
    case True
    then obtain room where room: "relr_room w = Some room" "2 dvd place" by auto
    obtain entry encoding st where e: "relr_encode (relr_writer w) place = (entry, encoding, st)"
      by (cases "relr_encode (relr_writer w) place")
    from assms(3) room e obtain w1 where w1: "relr_callback entry encoding room w = Inr w1"
        "v = r" "w' = w1\<lparr>relr_writer := st\<rparr>"
      by (auto simp: write_address_relocation_def split: sum.splits)
    have same: "rela_dyn_relative w1 = rela_dyn_relative w"
      using w1(1) by (auto simp: relr_callback_def split: relr_entry_encoding.splits nat.splits option.splits)
    have "place \<notin># mset (relr_decode 0 (relr_dyn w))" using assms(2) by (simp add: described_def)
    from relr_step [OF assms(1) room(2) this e w1(1)]
    have run: "run_ok (w1\<lparr>relr_writer := st\<rparr>)"
      and dec: "mset (relr_decode 0 (relr_dyn w1)) = add_mset place (mset (relr_decode 0 (relr_dyn w)))" by blast+
    have sets: "set (relr_decode 0 (relr_dyn w1)) = insert place (set (relr_decode 0 (relr_dyn w)))"
      using arg_cong [OF dec, of set_mset] by simp
    from run dec sets same w1(2,3) show ?thesis
      by (auto simp: described_def recorded_def extends_def)
  next
    case False
    then have "\<exists>n. v = 0 \<and> w' = w\<lparr>rela_room := n, rela_dyn_relative := rela_dyn_relative w @ [(place, r)]\<rparr>"
      using assms(3) by (auto simp: write_address_relocation_def split: option.splits nat.splits if_splits)
    with rela show ?thesis by blast
  qed
qed

lemma write_section_records:
  assumes "write_section rels w = Inr (values, w')" "run_ok w"
    and "distinct (map fst rels)" "\<forall>p\<in>fst ` set rels. p \<notin># described w"
  shows "run_ok w' \<and> described w' = described w + mset (map fst rels)
    \<and> list_all2 (recorded w') rels values \<and> extends w w'"
  using assms
proof (induction rels arbitrary: w "values")
  case Nil
  then show ?case by (simp add: extends_def)
next
  case (Cons rel rels)
  obtain p r where rel: "rel = (p, r)" by (cases rel)
  from Cons.prems(1) rel obtain v w1 values' where
      step: "write_address_relocation p r w = Inr (v, w1)" and rest: "write_section rels w1 = Inr (values', w')"
      and vals: "values = (p, v) # values'"
    by (auto split: sum.splits)
  have new: "p \<notin># described w" using Cons.prems(4) rel by simp
  note one = write_address_step [OF Cons.prems(2) new step]
  have "\<forall>q\<in>fst ` set rels. q \<notin># described w1"
    using Cons.prems(3,4) one rel by (auto simp: image_iff)
  from Cons.IH [OF rest _ _ this] one Cons.prems(3) rel
  have ih: "run_ok w'" "described w' = described w1 + mset (map fst rels)"
      "list_all2 (recorded w') rels values'" "extends w1 w'" by auto
  have "recorded w' (p, r) (p, v)" "extends w w'"
    using one ih(4) by (blast intro: recorded_mono extends_trans)+
  with ih one rel vals show ?case by simp
qed

lemma reset_relr_run_simps [simp]:
  "run_ok (reset_relr_run w)" "described (reset_relr_run w) = described w"
  "extends w (reset_relr_run w)"
  by (simp_all add: reset_relr_run_def run_ok_def described_def extends_def)

lemma write_sections_records:
  assumes "write_sections sections w = Inr (values, w')"
    and "distinct (map fst (concat sections))" "\<forall>p\<in>fst ` set (concat sections). p \<notin># described w"
  shows "described w' = described w + mset (map fst (concat sections))
    \<and> list_all2 (recorded w') (concat sections) values \<and> extends w w'"
  using assms
proof (induction sections arbitrary: w "values")
  case Nil
  then show ?case by (simp add: extends_def)
next
  case (Cons rels sections)
  from Cons.prems(1) obtain values1 w1 values2 where
      step: "write_section rels (reset_relr_run w) = Inr (values1, w1)"
      and rest: "write_sections sections w1 = Inr (values2, w')" and vals: "values = values1 @ values2"
    by (auto split: sum.splits)
  have "distinct (map fst rels)" "\<forall>p\<in>fst ` set rels. p \<notin># described (reset_relr_run w)"
    using Cons.prems(2,3) by auto
  note one = write_section_records [OF step reset_relr_run_simps(1) this]
  have "\<forall>p\<in>fst ` set (concat sections). p \<notin># described w1"
    using Cons.prems(2,3) one by (auto simp: image_iff)
  from Cons.IH [OF rest _ this] Cons.prems(2)
  have ih: "described w' = described w1 + mset (map fst (concat sections))"
      "list_all2 (recorded w') (concat sections) values2" "extends w1 w'" by auto
  have "list_all2 (recorded w') rels values1"
    using one ih(3) by (auto intro: list_all2_mono recorded_mono)
  moreover have "extends w w'"
    using one ih(3) reset_relr_run_simps(3) by (blast intro: extends_trans)
  ultimately show ?case using ih one vals by (simp add: list_all2_appendI)
qed

section \<open>Loading\<close>

lemma load_relr_at:
  "distinct addresses \<Longrightarrow> load_relr base addresses mem p = (if p \<in> set addresses then mem p + base else mem p)"
  unfolding load_relr_def by (induction addresses arbitrary: mem) auto

lemma load_rela_other: "p \<notin> fst ` set relas \<Longrightarrow> load_rela base relas mem p = mem p"
  unfolding load_rela_def by (induction relas arbitrary: mem) auto

lemma load_rela_at:
  "distinct (map fst relas) \<Longrightarrow> (p, r) \<in> set relas \<Longrightarrow> load_rela base relas mem p = base + r"
proof (induction relas arbitrary: mem)
  case (Cons x relas)
  show ?case
  proof (cases "x = (p, r)")
    case True
    then have "p \<notin> fst ` set relas" using Cons.prems by auto
    then show ?thesis using True load_rela_other [of p relas base "mem(p := base + r)"]
      by (simp add: load_rela_def)
  next
    case False
    with Cons show ?thesis by (cases x) (auto simp: load_rela_def)
  qed
qed simp

lemma store_values_is_load: "store_values values mem = load_rela 0 values mem"
  by (simp add: store_values_def load_rela_def)

section \<open>The layout counts what the writer writes\<close>

text \<open>
  The layout runs the encoder over offsets in the section, the writer over addresses. The states of
  the two differ by the address of the section as long as nothing wraps around.
\<close>

definition bitmap_shifted :: "u64 \<Rightarrow> nat \<Rightarrow> relr_bitmap \<Rightarrow> relr_bitmap \<Rightarrow> bool" where
  "bitmap_shifted addr m b b' \<longleftrightarrow>
     range_start b' = addr + range_start b \<and> encoded b' = encoded b
     \<and> range_end b = range_start b + 504 \<and> range_end b' = range_start b' + 504
     \<and> unat (range_start b) \<le> m"

fun state_shifted :: "u64 \<Rightarrow> nat \<Rightarrow> relr_state \<Rightarrow> relr_state \<Rightarrow> bool" where
  "state_shifted addr m NoRun NoRun \<longleftrightarrow> True"
| "state_shifted addr m (AddressOnly b) (AddressOnly b') \<longleftrightarrow> bitmap_shifted addr (m + 8) b b'"
| "state_shifted addr m (WithBitmap b) (WithBitmap b') \<longleftrightarrow> bitmap_shifted addr (m + 8) b b'"
| "state_shifted addr m _ _ \<longleftrightarrow> False"

lemma unat_add_small: "unat a + unat b < 2 ^ 64 \<Longrightarrow> unat (a + b :: u64) = unat a + unat b"
  by (simp add: unat_word_ariths)

lemma bitmap_shifted_mono: "bitmap_shifted addr m b b' \<Longrightarrow> m \<le> m' \<Longrightarrow> bitmap_shifted addr m' b b'"
  by (simp add: bitmap_shifted_def)

lemma bitmap_after_shifted:
  assumes "unat offset \<le> m" "m + 8 < 2 ^ 64"
  shows "bitmap_shifted addr (m + 8) (bitmap_after offset) (bitmap_after (addr + offset))"
  using assms unat_add_small [of offset 8]
  by (simp add: bitmap_shifted_def bitmap_after_def relr_sizes)

lemma bitmap_next_shifted:
  assumes "bitmap_shifted addr m b b'" "m + 504 < 2 ^ 64"
  shows "bitmap_shifted addr (m + 504) (bitmap_next b) (bitmap_next b')"
  using assms unat_add_small [of "range_start b" 504]
  by (simp add: bitmap_shifted_def bitmap_next_def relr_sizes)

lemma bitmap_insert_shifted:
  assumes b: "bitmap_shifted addr m b b'" and bound: "unat addr + m + 504 < 2 ^ 64"
    and offset: "unat addr + unat offset < 2 ^ 64"
  shows "(bitmap_insert b offset = None \<longleftrightarrow> bitmap_insert b' (addr + offset) = None)
    \<and> (\<forall>c c'. bitmap_insert b offset = Some c \<longrightarrow> bitmap_insert b' (addr + offset) = Some c'
          \<longrightarrow> bitmap_shifted addr (unat offset) c c')"
proof -
  have u: "unat (addr + offset) = unat addr + unat offset"
      "unat (addr + range_start b) = unat addr + unat (range_start b)"
      "unat (range_start b + 504) = unat (range_start b) + 504"
      "unat (addr + range_start b + 504) = unat addr + unat (range_start b) + 504"
    using b bound offset unat_add_small [of addr offset] unat_add_small [of addr "range_start b"]
      unat_add_small [of "range_start b" 504] unat_add_small [of "addr + range_start b" 504]
    by (simp_all add: bitmap_shifted_def)
  have "(range_start b \<le> offset \<and> offset < range_end b)
      = (range_start b' \<le> addr + offset \<and> addr + offset < range_end b')"
    using b u by (simp add: bitmap_shifted_def word_le_nat_alt word_less_nat_alt)
  moreover have "addr + offset - range_start b' = offset - range_start b"
    using b by (simp add: bitmap_shifted_def)
  ultimately show ?thesis
    using b by (auto simp: bitmap_insert_def Let_def bitmap_shifted_def word_le_nat_alt)
qed

lemma relr_encode_shifted:
  assumes st: "state_shifted addr m st st'" and m: "unat addr + m + 1016 < 2 ^ 64" "unat offset \<le> m"
  shows "fst (snd (relr_encode st' (addr + offset))) = fst (snd (relr_encode st offset))
    \<and> state_shifted addr m (snd (snd (relr_encode st offset))) (snd (snd (relr_encode st' (addr + offset))))"
proof -
  have after: "bitmap_shifted addr (m + 8) (bitmap_after offset) (bitmap_after (addr + offset))"
    using m by (intro bitmap_after_shifted) simp_all
  have small: "unat addr + unat offset < 2 ^ 64" using m by simp
  note insert = bitmap_insert_shifted [OF _ _ small]
  have keep: "bitmap_shifted addr (unat offset) c c' \<Longrightarrow> bitmap_shifted addr (m + 8) c c'" for c c'
    using m(2) by (auto intro: bitmap_shifted_mono)
  show ?thesis
  proof (cases st)
    case NoRun
    with st after show ?thesis by (cases st') (simp_all add: relr_encode_def)
  next
    case (AddressOnly b)
    with st obtain b' where st': "st' = AddressOnly b'" and b: "bitmap_shifted addr (m + 8) b b'"
      by (cases st') simp_all
    from insert [OF b] m(1) keep after AddressOnly st' show ?thesis
      by (cases "bitmap_insert b offset"; cases "bitmap_insert b' (addr + offset)")
        (simp_all add: relr_encode_def)
  next
    case (WithBitmap b)
    with st obtain b' where st': "st' = WithBitmap b'" and b: "bitmap_shifted addr (m + 8) b b'"
      by (cases st') simp_all
    from b m(1) have next_: "bitmap_shifted addr (m + 8 + 504) (bitmap_next b) (bitmap_next b')"
      by (intro bitmap_next_shifted) simp_all
    from insert [OF b] insert [OF next_] m(1) keep after WithBitmap st' show ?thesis
      by (cases "bitmap_insert b offset"; cases "bitmap_insert b' (addr + offset)";
          cases "bitmap_insert (bitmap_next b) offset"; cases "bitmap_insert (bitmap_next b') (addr + offset)")
        (simp_all add: relr_encode_def)
  qed
qed

definition place_section :: "u64 \<times> (u64 \<times> u64) list \<Rightarrow> (u64 \<times> u64) list" where
  "place_section sec = map (\<lambda>(offset, r). (fst sec + offset, r)) (snd sec)"

definition section_offsets :: "u64 \<times> (u64 \<times> u64) list \<Rightarrow> u64 list" where
  "section_offsets sec = map fst (snd sec)"

definition updatable :: "address_writer \<Rightarrow> bool" where
  "updatable w \<longleftrightarrow> (case relr_writer w of WithBitmap b \<Rightarrow> current_relr_dyn w \<noteq> None | _ \<Rightarrow> True)"

lemma update_needs_bitmap: "fst (snd (relr_encode st a)) = Update \<Longrightarrow> \<exists>b. st = WithBitmap b"
  by (cases st) (auto simp: relr_encode_def split: option.splits)

lemma callback_room:
  assumes "updatable w" "relr_encode (relr_writer w) place = (entry, encoding, st)"
    and "relr_room w = Some ((if encoding = New then 1 else 0) + n)"
  shows "\<exists>w'. write_address_relocation place r w =
      (if 2 dvd place then Inr (r, w') else write_address_relocation place r w)
    \<and> updatable w' \<and> relr_writer w' = st \<and> relr_room w' = Some n \<and> rela_room w' = rela_room w"
proof (cases encoding)
  case New
  with assms show ?thesis
    by (intro exI [of _ "w\<lparr>relr_room := Some n, relr_dyn := relr_dyn w @ [entry],
          current_relr_dyn := Some (length (relr_dyn w)), relr_writer := st\<rparr>"])
      (simp add: write_address_relocation_def relr_callback_def updatable_def split: relr_state.splits)
next
  case Update
  with update_needs_bitmap [of "relr_writer w" place] assms obtain b i where
    "relr_writer w = WithBitmap b" "current_relr_dyn w = Some i" by (auto simp: updatable_def)
  with Update assms show ?thesis
    by (intro exI [of _ "w\<lparr>relr_dyn := (relr_dyn w)[i := entry], relr_writer := st\<rparr>"])
      (simp add: write_address_relocation_def relr_callback_def updatable_def split: relr_state.splits)
qed

lemma even_shift: "2 dvd (addr :: u64) \<Longrightarrow> 2 dvd (addr + offset) \<longleftrightarrow> 2 dvd offset"
  by (rule dvd_add_right_iff)

lemma rela_step:
  assumes "relr_room w = None \<or> \<not> 2 dvd place" "rela_room w = Suc n"
  shows "\<exists>w'. write_address_relocation place r w = Inr (0, w') \<and> rela_room w' = n
    \<and> relr_room w' = relr_room w \<and> relr_writer w' = relr_writer w \<and> current_relr_dyn w' = current_relr_dyn w"
  using assms by (cases "relr_room w") (auto simp: write_address_relocation_def)

lemma section_allocation:
  assumes "state_shifted addr m st (relr_writer w)" "updatable w" "2 dvd addr" "unat addr + m + 1016 < 2 ^ 64"
    and "list_all (\<lambda>(offset, r). unat offset \<le> m) rels"
    and "count_section True st (map fst rels) = (relr, rela)"
    and "relr_room w = Some (relr + x)" "rela_room w = rela + y"
  shows "\<exists>vals w'. write_section (map (\<lambda>(offset, r). (addr + offset, r)) rels) w = Inr (vals, w')
    \<and> relr_room w' = Some x \<and> rela_room w' = y"
  using assms
proof (induction rels arbitrary: st w relr rela)
  case (Cons rel rels)
  obtain offset r where rel: "rel = (offset, r)" by (cases rel)
  have offset: "unat offset \<le> m" "list_all (\<lambda>(offset, r). unat offset \<le> m) rels"
    using Cons.prems(5) rel by simp_all
  show ?case
  proof (cases "2 dvd offset")
    case True
    obtain v e st1 where enc: "relr_encode st offset = (v, e, st1)" by (cases "relr_encode st offset")
    obtain v' e' st1' where enc': "relr_encode (relr_writer w) (addr + offset) = (v', e', st1')"
      by (cases "relr_encode (relr_writer w) (addr + offset)")
    from relr_encode_shifted [OF Cons.prems(1,4) offset(1)] enc enc'
    have e: "e' = e" "state_shifted addr m st1 st1'" by simp_all
    obtain relr1 where count: "count_section True st1 (map fst rels) = (relr1, rela)"
        "relr = (if e = New then 1 else 0) + relr1"
      using Cons.prems(6) rel True enc by (auto split: prod.splits if_splits)
    have "relr_room w = Some ((if e' = New then 1 else 0) + (relr1 + x))"
      using Cons.prems(7) count(2) e(1) by simp
    from callback_room [OF Cons.prems(2) enc' this, of r] even_shift [OF Cons.prems(3), of offset] True
    obtain w1 where w1: "write_address_relocation (addr + offset) r w = Inr (r, w1)" "updatable w1"
        "relr_writer w1 = st1'" "relr_room w1 = Some (relr1 + x)" "rela_room w1 = rela_room w" by auto
    have "state_shifted addr m st1 (relr_writer w1)" "rela_room w1 = rela + y"
      using e(2) w1(3,5) Cons.prems(8) by simp_all
    from Cons.IH [OF this(1) w1(2) Cons.prems(3,4) offset(2) count(1) w1(4) this(2)] w1(1) rel
    show ?thesis by auto
  next
    case False
    obtain rela1 where count: "count_section True st (map fst rels) = (relr, rela1)" "rela = Suc rela1"
      using Cons.prems(6) rel False by (auto split: prod.splits)
    have "relr_room w = None \<or> \<not> 2 dvd (addr + offset)" "rela_room w = Suc (rela1 + y)"
      using even_shift [OF Cons.prems(3), of offset] False Cons.prems(8) count(2) by simp_all
    from rela_step [OF this, of r] obtain w1 where w1:
        "write_address_relocation (addr + offset) r w = Inr (0, w1)" "rela_room w1 = rela1 + y"
        "relr_room w1 = relr_room w" "relr_writer w1 = relr_writer w" "current_relr_dyn w1 = current_relr_dyn w"
      by blast
    have "state_shifted addr m st (relr_writer w1)" "updatable w1" "relr_room w1 = Some (relr + x)"
      using Cons.prems(1,2,7) w1 by (simp_all add: updatable_def split: relr_state.splits)
    from Cons.IH [OF this(1,2) Cons.prems(3,4) offset(2) count(1) this(3) w1(2)] w1(1) rel
    show ?thesis by auto
  qed
qed simp

lemma section_allocation_unpacked:
  "relr_room w = None \<Longrightarrow> rela_room w = length rels + y \<Longrightarrow>
     \<exists>vals w'. write_section rels w = Inr (vals, w') \<and> relr_room w' = None \<and> rela_room w' = y"
proof (induction rels arbitrary: w)
  case (Cons rel rels)
  obtain p r where rel: "rel = (p, r)" by (cases rel)
  from Cons.prems rela_step [of w p "length rels + y" r] obtain w1 where
    "write_address_relocation p r w = Inr (0, w1)" "rela_room w1 = length rels + y" "relr_room w1 = None" by auto
  with Cons.IH [of w1] rel show ?case by auto
qed simp

lemma count_section_unpacked: "count_section False st offsets = (0, length offsets)"
  by (induction offsets) simp_all

lemma count_section_none_packed:
  "fst (count_section True NoRun offsets) = 0 \<Longrightarrow> snd (count_section True NoRun offsets) = length offsets"
  by (induction offsets) (auto simp: relr_encode_def split: prod.splits if_splits)

definition section_fits :: "u64 \<times> (u64 \<times> u64) list \<Rightarrow> bool" where
  "section_fits sec \<longleftrightarrow> 2 dvd fst sec
     \<and> list_all (\<lambda>(offset, r). unat (fst sec) + unat offset + 1016 < 2 ^ 64) (snd sec)"

lemma sections_allocation:
  assumes "list_all section_fits sections"
    and "count_sections True (map section_offsets sections) = (relr, rela)"
    and "relr_room w = Some (relr + x)" "rela_room w = rela + y"
  shows "\<exists>vals w'. write_sections (map place_section sections) w = Inr (vals, w')
    \<and> relr_room w' = Some x \<and> rela_room w' = y"
  using assms
proof (induction sections arbitrary: w relr rela)
  case (Cons sec sections)
  obtain addr rels where sec: "sec = (addr, rels)" by (cases sec)
  obtain relr1 rela1 where count1: "count_section True NoRun (map fst rels) = (relr1, rela1)"
    by (cases "count_section True NoRun (map fst rels)")
  obtain relr2 rela2 where count2: "count_sections True (map section_offsets sections) = (relr2, rela2)"
    by (cases "count_sections True (map section_offsets sections)")
  have "section_offsets sec = map fst rels" by (simp add: sec section_offsets_def)
  with Cons.prems(2) count1 count2 have "relr = relr1 + relr2" "rela = rela1 + rela2" by simp_all
  note count = count1 count2 this
  show ?case
  proof (cases rels)
    case Nil
    with count have "relr1 = 0" "rela1 = 0" by simp_all
    with Cons.IH [OF _ count(2), of "reset_relr_run w"] Cons.prems(1,3,4) count sec Nil show ?thesis
      by (auto simp: place_section_def reset_relr_run_def)
  next
    case (Cons rel rels')
    define m where "m = 2 ^ 64 - 1017 - unat addr"
    have addr: "2 dvd addr" "unat addr + 1016 < 2 ^ 64"
      using Cons.prems(1) sec Cons by (auto simp: section_fits_def)
    have m: "unat addr + m + 1016 < 2 ^ 64" using addr(2) by (simp add: m_def)
    have offsets: "list_all (\<lambda>(offset, r). unat offset \<le> m) rels"
      using Cons.prems(1) sec by (auto simp: section_fits_def m_def list_all_iff)
    have "relr_room (reset_relr_run w) = Some (relr1 + (relr2 + x))"
        "rela_room (reset_relr_run w) = rela1 + (rela2 + y)"
      using Cons.prems(3,4) count(3,4) by (simp_all add: reset_relr_run_def)
    from section_allocation [OF _ _ addr(1) m offsets count(1) this]
    obtain vals w1 where w1: "write_section (place_section sec) (reset_relr_run w) = Inr (vals, w1)"
        "relr_room w1 = Some (relr2 + x)" "rela_room w1 = rela2 + y"
      by (auto simp: reset_relr_run_def updatable_def place_section_def sec)
    from Cons.IH [OF _ count(2) w1(2,3)] Cons.prems(1) w1(1) show ?thesis by auto
  qed
qed simp

section \<open>The packed part of the global offset table\<close>

definition bitmaps_for :: "nat \<Rightarrow> nat" where
  "bitmaps_for n = n div 63 + (if n mod 63 = 0 then 0 else 1)"

lemma full_bitmap_bit:
  assumes "0 < slots" "slots \<le> 63"
  shows "bit (shl (shl 1 slots - 1) 1 OR 1 :: u64) n \<longleftrightarrow> n \<le> slots"
  using assms by (auto simp: bit_eval shl_one_minus_one bit_or_iff bit_1_iff)

lemma full_bitmap_addresses:
  assumes "0 < slots" "slots \<le> 63"
  shows "bitmap_addresses pos (shl (shl 1 slots - 1) 1 OR 1)
    = map (\<lambda>i. pos + 8 * word_of_nat i) [0..<slots]"
proof -
  have "filter (\<lambda>i. i + 1 \<le> slots) [0..<63] = filter (\<lambda>i. i + 1 \<le> slots) ([0..<slots] @ [slots..<63])"
    using assms(2) upt_add_eq_append [of 0 slots "63 - slots"] by simp
  also have "\<dots> = [0..<slots]" by (simp add: filter_empty_conv)
  finally show ?thesis by (simp only: bitmap_addresses_def full_bitmap_bit [OF assms])
qed

lemma full_bitmap_odd: "0 < slots \<Longrightarrow> slots \<le> 63 \<Longrightarrow> \<not> 2 dvd (shl (shl 1 slots - 1) 1 OR 1 :: u64)"
  unfolding even_word_bit using full_bitmap_bit [of slots 0] by simp

lemma got_bitmaps_spec:
  "room = bitmaps_for (unat remaining) + x \<Longrightarrow>
     \<exists>es. got_relr_bitmaps remaining entries room = Inr (entries @ es, x)
       \<and> relr_decode pos es = map (\<lambda>i. pos + 8 * word_of_nat i) [0..<unat remaining]"
proof (induction "unat remaining" arbitrary: remaining entries room pos rule: less_induct)
  case less
  show ?case
  proof (cases "remaining = 0")
    case True
    with less.prems show ?thesis by (simp add: got_relr_bitmaps.simps bitmaps_for_def)
  next
    case False
    then have pos: "0 < unat remaining" by (simp add: unat_gt_0)
    define slots where "slots = (if unat remaining < 63 then unat remaining else 63)"
    define rest where "rest = (if remaining < 63 then 0 else remaining - 63)"
    define e :: u64 where "e = shl (shl 1 slots - 1) 1 OR 1"
    have slots: "0 < slots" "slots \<le> 63" using pos by (auto simp: slots_def)
    have rest: "unat rest = unat remaining - slots"
      by (auto simp: rest_def slots_def word_less_nat_alt word_le_nat_alt unat_sub)
    have e: "\<not> 2 dvd e" "bitmap_addresses pos e = map (\<lambda>i. pos + 8 * word_of_nat i) [0..<slots]"
      unfolding e_def by (rule full_bitmap_odd [OF slots], rule full_bitmap_addresses [OF slots])
    have "bitmaps_for (unat remaining) = Suc (bitmaps_for (unat rest))"
      using pos by (auto simp: bitmaps_for_def rest slots_def le_mod_geq le_div_geq)
    with less.prems have room: "room = Suc (bitmaps_for (unat rest) + x)" by simp
    have "unat rest < unat remaining" using pos slots rest by simp
    then have "\<exists>es. got_relr_bitmaps rest (entries @ [e]) (bitmaps_for (unat rest) + x) = Inr ((entries @ [e]) @ es, x)
        \<and> relr_decode (pos + 504) es = map (\<lambda>i. pos + 504 + 8 * word_of_nat i) [0..<unat rest]"
      by (rule less.hyps) simp
    then obtain es where
      es: "got_relr_bitmaps rest (entries @ [e]) (bitmaps_for (unat rest) + x) = Inr ((entries @ [e]) @ es, x)"
        "relr_decode (pos + 504) es = map (\<lambda>i. pos + 504 + 8 * word_of_nat i) [0..<unat rest]"
      by blast
    have "got_relr_bitmaps remaining entries room = got_relr_bitmaps rest (entries @ [e]) (bitmaps_for (unat rest) + x)"
      using False by (subst got_relr_bitmaps.simps) (auto simp: room Let_def e_def rest_def relr_sizes slots_def word_less_nat_alt
          min_def word_le_nat_alt)
    moreover have "relr_decode pos (e # es) = map (\<lambda>i. pos + 8 * word_of_nat i) [0..<unat remaining]"
    proof (cases "unat remaining < 63")
      case True
      then have "slots = unat remaining" "unat rest = 0" using rest by (simp_all add: slots_def)
      with es(2) e show ?thesis by simp
    next
      case f: False
      then have s: "slots = 63" by (simp add: slots_def)
      have "map (\<lambda>i. pos + 504 + 8 * word_of_nat i) [0..<unat rest]
          = map (\<lambda>i. pos + 8 * word_of_nat i) [63..<63 + unat rest]"
        by (rule nth_equalityI) (simp_all add: algebra_simps)
      moreover have "[0..<unat remaining] = [0..<63] @ [63..<63 + unat rest]"
        using f rest s upt_add_eq_append [of 0 63 "unat rest"] by simp
      ultimately show ?thesis
        using es(2) e by (simp add: s)
    qed
    ultimately show ?thesis using es(1) by (intro exI [of _ "e # es"]) simp
  qed
qed

lemma relr_count_unat:
  "unat (got_relr_bitmap_relr_count n) = (if n = 0 then 0 else Suc (bitmaps_for (unat (n - 1))))"
proof (cases "n = 0")
  case False
  have "unat (n - 1) div 63 + 2 < 2 ^ 64"
    using unsigned_less [where 'a = nat, of "n - 1"] by (simp add: div_less_iff_less_mult)
  moreover have "(n - 1) mod 63 = 0 \<longleftrightarrow> unat (n - 1) mod 63 = 0"
    by (simp add: unat_eq_zero [symmetric] unat_mod_distrib del: unat_eq_zero)
  ultimately show ?thesis
    using False unat_div_distrib [of "n - 1" 63]
    by (auto simp: got_relr_bitmap_relr_count_def Let_def relr_sizes bitmaps_for_def unat_word_ariths)
qed (simp add: got_relr_bitmap_relr_count_def)

lemma got_bitmaps_length:
  "got_relr_bitmaps remaining entries room = Inr (entries', x) \<Longrightarrow> length entries' + x = length entries + room"
proof (induction remaining entries room rule: got_relr_bitmaps.induct)
  case (1 remaining entries room)
  from 1(2) show ?case
    by (subst (asm) got_relr_bitmaps.simps)
      (auto simp: Let_def split: if_splits nat.splits dest!: 1(1) [OF _ refl refl])
qed

text \<open>Without packing every relocation takes an entry of the other table.\<close>

primrec total_offsets :: "u64 list list \<Rightarrow> nat" where
  "total_offsets [] = 0"
| "total_offsets (offsets # sections) = length offsets + total_offsets sections"

lemma all_unpacked:
  "count_sections False offsets = (relr, rela) \<Longrightarrow> rela = total_offsets offsets"
  by (induction offsets arbitrary: relr rela) (auto simp: count_section_unpacked split: prod.splits)

lemma none_packed:
  "count_sections True offsets = (0, rela) \<Longrightarrow> rela = total_offsets offsets"
proof (induction offsets arbitrary: rela)
  case (Cons sec offsets)
  with count_section_none_packed [of sec] show ?case by (auto split: prod.splits)
qed simp

lemma length_section: "length (place_section sec) = length (section_offsets sec)"
  by (simp add: place_section_def section_offsets_def)

lemma sections_allocation_unpacked:
  "relr_room w = None \<Longrightarrow> rela_room w = total_offsets (map section_offsets sections) + y \<Longrightarrow>
     \<exists>vals w'. write_sections (map place_section sections) w = Inr (vals, w') \<and> relr_room w' = None \<and> rela_room w' = y"
proof (induction sections arbitrary: w)
  case (Cons sec sections)
  have "relr_room (reset_relr_run w) = None"
    "rela_room (reset_relr_run w) = length (place_section sec) + (total_offsets (map section_offsets sections) + y)"
    using Cons.prems by (simp_all add: reset_relr_run_def length_section)
  from section_allocation_unpacked [OF this] obtain vals w1 where
    w1: "write_section (place_section sec) (reset_relr_run w) = Inr (vals, w1)" "relr_room w1 = None"
      "rela_room w1 = total_offsets (map section_offsets sections) + y" by blast
  from Cons.IH [OF w1(2,3)] w1(1) show ?case by auto
qed simp

section \<open>Theorems\<close>

text \<open>C22: Relative relocations take effect: after the sections are written and the output is loaded at
  any base, with the packed table applied by the reader of the format and the other table
  entry by entry, every place holds the base plus the address that was asked for, whether its relocation
  was packed into a bitmap, stored as an address or, at an odd place, as a full relocation.\<close>

theorem relative_relocations_load:
  assumes "write_sections sections w = Inr (values, w')"
    and "relr_dyn w = []" "rela_dyn_relative w = []"
    and "distinct (map fst (concat sections))" "(place, r) \<in> set (concat sections)"
  shows "load_relr base (relr_decode 0 (relr_dyn w'))
      (load_rela base (rela_dyn_relative w') (store_values values mem)) place = base + r"
proof -
  have "described w = {#}" using assms(2,3) by (simp add: described_def)
  with write_sections_records [OF assms(1,4)]
  have d: "described w' = mset (map fst (concat sections))"
    and rec: "list_all2 (recorded w') (concat sections) values" by simp_all
  have "distinct (relr_decode 0 (relr_dyn w') @ map fst (rela_dyn_relative w'))"
    using d assms(4) unfolding described_def mset_append [symmetric] by (metis mset_eq_imp_distinct_iff)
  then have dist: "distinct (relr_decode 0 (relr_dyn w'))" "distinct (map fst (rela_dyn_relative w'))"
      "set (relr_decode 0 (relr_dyn w')) \<inter> fst ` set (rela_dyn_relative w') = {}" by simp_all
  obtain i where i: "i < length (concat sections)" "concat sections ! i = (place, r)"
    using assms(5) by (metis in_set_conv_nth)
  then have "recorded w' (place, r) (values ! i)" and len: "i < length values"
    using rec by (metis list_all2_nthD, metis list_all2_lengthD)
  then obtain v where v: "values ! i = (place, v)" and
      rv: "place \<in> set (relr_decode 0 (relr_dyn w')) \<and> v = r \<or> (place, r) \<in> set (rela_dyn_relative w') \<and> v = 0"
    by (cases "values ! i") (auto simp: recorded_def)
  have "map fst values = map fst (concat sections)"
    using rec by (auto simp: list_all2_conv_all_nth recorded_def intro: nth_equalityI)
  then have stored: "store_values values mem place = v"
    using assms(4) v len load_rela_at [of "values" place v 0 mem] nth_mem [OF len]
    by (simp add: store_values_is_load)
  from rv show ?thesis
  proof
    assume relr: "place \<in> set (relr_decode 0 (relr_dyn w')) \<and> v = r"
    then have "place \<notin> fst ` set (rela_dyn_relative w')" using dist(3) by blast
    with relr stored show ?thesis by (simp add: load_relr_at [OF dist(1)] load_rela_other)
  next
    assume rela: "(place, r) \<in> set (rela_dyn_relative w') \<and> v = 0"
    then have "place \<in> fst ` set (rela_dyn_relative w')" by (metis fst_conv image_eqI)
    then have "place \<notin> set (relr_decode 0 (relr_dyn w'))" using dist(3) by blast
    with rela show ?thesis by (simp add: load_relr_at [OF dist(1)] load_rela_at [OF dist(2)])
  qed
qed

definition sample_sections :: "(u64 \<times> (u64 \<times> u64) list) list" where
  "sample_sections = [(0x1000, [(0, 0x10), (8, 0x20), (24, 0x30), (3, 0x40)]), (0x2000, [(16, 0x50)])]"

lemma sample_sections_written:
  "\<exists>vals w'. write_sections (map place_section sample_sections) (new_writer True 3 1) = Inr (vals, w')
     \<and> relr_dyn w' = [0x1000, 0xB, 0x2010] \<and> rela_dyn_relative w' = [(0x1003, 0x40)]"
  by (simp add: sample_sections_def place_section_def new_writer_def reset_relr_run_def
      write_address_relocation_def relr_encode_def relr_callback_def bitmap_insert_def bitmap_after_def
      bitmap_next_def relr_sizes shl_def)

theorem relative_relocations_load_witness:
  "\<exists>vals w'. write_sections (map place_section sample_sections) (new_writer True 3 1) = Inr (vals, w')
     \<and> load_relr 0x400000 (relr_decode 0 (relr_dyn w'))
         (load_rela 0x400000 (rela_dyn_relative w') (store_values vals (\<lambda>_. 0))) 0x1018 = 0x400030"
proof -
  from sample_sections_written obtain vals w' where
    "write_sections (map place_section sample_sections) (new_writer True 3 1) = Inr (vals, w')" by blast
  moreover from relative_relocations_load [OF this, where place = "0x1018" and r = "0x30" and base = "0x400000" and mem = "\<lambda>_. 0"]
  have "load_relr 0x400000 (relr_decode 0 (relr_dyn w'))
      (load_rela 0x400000 (rela_dyn_relative w') (store_values vals (\<lambda>_. 0))) 0x1018 = 0x400030"
    by (simp add: sample_sections_def place_section_def new_writer_def)
  ultimately show ?thesis by blast
qed

text \<open>C23: The layout and the writer agree: for sections at even addresses, whatever the parity of the
  offsets in them, the entries that \<^verbatim>\<open>process_relocation\<close> allocates by running the encoder over section
  offsets are exactly those that \<^verbatim>\<open>write_address_relocation\<close> uses for the addresses: the writer neither
  runs out of entries nor meets an internal error, and it leaves none over.\<close>

theorem relr_allocation_exact:
  assumes "list_all section_fits sections"
    and "count_sections enabled (map section_offsets sections) = (relr, rela)"
  shows "\<exists>vals w'. write_sections (map place_section sections) (new_writer enabled relr rela) = Inr (vals, w')
    \<and> (relr_room w' = None \<or> relr_room w' = Some 0) \<and> rela_room w' = 0"
proof (cases "enabled \<and> relr \<noteq> 0")
  case True
  with sections_allocation [OF assms(1), of relr rela "new_writer enabled relr rela" 0 0] assms(2)
  show ?thesis by (auto simp: new_writer_def)
next
  case False
  then have "rela = total_offsets (map section_offsets sections)"
    using assms(2) by (cases enabled) (auto intro: all_unpacked none_packed)
  with sections_allocation_unpacked [of "new_writer enabled relr rela" sections 0] False
  show ?thesis by (auto simp: new_writer_def)
qed

theorem relr_allocation_exact_witness:
  "count_sections True (map section_offsets sample_sections) = (3, 1)
   \<and> (\<exists>vals w'. write_sections (map place_section sample_sections) (new_writer True 3 1) = Inr (vals, w')
        \<and> (relr_room w' = None \<or> relr_room w' = Some 0) \<and> rela_room w' = 0)"
proof -
  have "list_all section_fits sample_sections"
    by (simp add: sample_sections_def section_fits_def)
  moreover have "count_sections True (map section_offsets sample_sections) = (3, 1)"
    by (simp add: sample_sections_def section_offsets_def relr_encode_def bitmap_insert_def
        bitmap_after_def bitmap_next_def relr_sizes shl_def)
  ultimately show ?thesis using relr_allocation_exact [of sample_sections True 3 1] by blast
qed

text \<open>
  The hypothesis on the addresses is needed. The layout tests the parity of the offset, the writer that
  of the address: in a section at an odd address the two disagree, and the link fails for lack of
  space in the other table.
\<close>

lemma odd_section_fails:
  "count_sections True [section_offsets (0x1001, [(0, 0x10)])] = (1, 0)
   \<and> write_sections [place_section (0x1001, [(0, 0x10)])] (new_writer True 1 0) = Inl InsufficientAllocation"
  by (simp add: section_offsets_def relr_encode_def place_section_def new_writer_def reset_relr_run_def
      write_address_relocation_def)

text \<open>C24: The packed part of the global offset table: the entries that \<^verbatim>\<open>write_got_relr_bitmap\<close> appends
  for it are as many as \<^verbatim>\<open>got_relr_bitmap_relr_count\<close> tells the layout, and a reader of the
  format, wherever it stands, takes them for exactly the slots of the table.\<close>

theorem got_relr_bitmap_exact:
  assumes "base \<noteq> 0" "2 dvd base" "relr_room w = Some (unat (got_relr_bitmap_relr_count n) + x)"
  shows "\<exists>w' es. write_got_relr_bitmap n base w = Inr w' \<and> relr_dyn w' = relr_dyn w @ es
    \<and> relr_room w' = Some x \<and> length es = unat (got_relr_bitmap_relr_count n)
    \<and> relr_decode pos es = map (\<lambda>i. base + 8 * word_of_nat i) [0..<unat n]"
proof (cases "n = 0")
  case True
  with assms show ?thesis by (simp add: write_got_relr_bitmap_def relr_count_unat)
next
  case False
  define m where "m = unat (n - 1)"
  have m: "unat n = Suc m"
    using False by (simp add: m_def unat_minus_one Suc_pred unat_gt_0)
  obtain es where es: "got_relr_bitmaps (n - 1) (relr_dyn w @ [base]) (bitmaps_for m + x)
        = Inr ((relr_dyn w @ [base]) @ es, x)"
      "relr_decode (base + 8) es = map (\<lambda>i. base + 8 + 8 * word_of_nat i) [0..<m]"
    using got_bitmaps_spec [of "bitmaps_for m + x" "n - 1" x] unfolding m_def by blast
  have room: "relr_room w = Some (Suc (bitmaps_for m + x))"
    using assms(3) False by (simp add: relr_count_unat m_def)
  have len: "length es = bitmaps_for m"
    using got_bitmaps_length [OF es(1)] by simp
  have "relr_decode pos (base # es) = base # map (\<lambda>i. base + 8 + 8 * word_of_nat i) [0..<m]"
    using assms(2) es(2) by simp
  also have "\<dots> = map (\<lambda>i. base + 8 * word_of_nat i) [0..<unat n]"
    by (simp add: m upt_conv_Cons map_Suc_upt [symmetric] algebra_simps del: upt_Suc)
  finally show ?thesis
    using room es(1) assms(1) False len
    by (intro exI [of _ "w\<lparr>relr_dyn := relr_dyn w @ base # es, relr_room := Some x\<rparr>"] exI [of _ "base # es"])
      (simp add: write_got_relr_bitmap_def relr_count_unat m_def)
qed

theorem got_relr_bitmap_exact_witness:
  "\<exists>w' es. write_got_relr_bitmap 65 0x3000 (new_writer True 3 0) = Inr w'
    \<and> relr_dyn w' = relr_dyn (new_writer True 3 0) @ es
    \<and> relr_room w' = Some 0 \<and> length es = unat (got_relr_bitmap_relr_count 65)
    \<and> relr_decode 0 es = map (\<lambda>i. 0x3000 + 8 * word_of_nat i) [0..<unat (65 :: u64)]"
  by (rule got_relr_bitmap_exact) (simp_all add: new_writer_def got_relr_bitmap_relr_count_def relr_sizes)

end
