(* ===== verification/Got_Tables.thy ===== *)
theory Got_Tables
  imports Prelude
begin

text \<open>
  The global offset table and the dynamic relocations of a symbol: \<^verbatim>\<open>ValueFlags\<close>
  (\<^verbatim>\<open>reld-core/src/value_flags.rs\<close>), \<^verbatim>\<open>OutputKind\<close> (\<^verbatim>\<open>output_kind.rs\<close>), the three places that must agree
  on what a symbol needs, and the accessors of its addresses:

    \<^item> \<^verbatim>\<open>allocate_resolution\<close> (\<^verbatim>\<open>elf.rs\<close>) reserves space in the tables,
    \<^item> \<^verbatim>\<open>create_resolution\<close> (\<^verbatim>\<open>elf.rs\<close>) gives out the addresses,
    \<^item> \<^verbatim>\<open>process_resolution\<close> (\<^verbatim>\<open>elf_writer.rs\<close>) writes the entries.
\<close>

section \<open>Flags\<close>

type_synonym value_flags = u32

definition ABSOLUTE :: value_flags where "ABSOLUTE = shl 1 0"
definition DYNAMIC :: value_flags where "DYNAMIC = shl 1 1"
definition IFUNC :: value_flags where "IFUNC = shl 1 2"
definition NON_INTERPOSABLE :: value_flags where "NON_INTERPOSABLE = shl 1 3"
definition DOWNGRADE_TO_LOCAL :: value_flags where "DOWNGRADE_TO_LOCAL = shl 1 4"
definition FUNCTION_FLAG :: value_flags where "FUNCTION_FLAG = shl 1 5"
definition DIRECT :: value_flags where "DIRECT = shl 1 6"
definition GOT_FLAG :: value_flags where "GOT_FLAG = shl 1 7"
definition PLT_FLAG :: value_flags where "PLT_FLAG = shl 1 8"
definition GOT_TLS_MODULE :: value_flags where "GOT_TLS_MODULE = shl 1 9"
definition GOT_TLS_OFFSET :: value_flags where "GOT_TLS_OFFSET = shl 1 10"
definition GOT_TLS_DESCRIPTOR :: value_flags where "GOT_TLS_DESCRIPTOR = shl 1 11"
definition EXPORT_DYNAMIC :: value_flags where "EXPORT_DYNAMIC = shl 1 12"
definition COPY_RELOCATION :: value_flags where "COPY_RELOCATION = shl 1 13"
definition IFUNC_GOT_FOR_ADDRESS :: value_flags where "IFUNC_GOT_FOR_ADDRESS = shl 1 14"

definition contains :: "value_flags \<Rightarrow> value_flags \<Rightarrow> bool" where
  "contains fl other \<longleftrightarrow> fl AND other = other"

definition is_dynamic :: "value_flags \<Rightarrow> bool" where "is_dynamic fl = contains fl DYNAMIC"
definition is_ifunc :: "value_flags \<Rightarrow> bool" where "is_ifunc fl = contains fl IFUNC"
definition is_address :: "value_flags \<Rightarrow> bool" where
  "is_address fl \<longleftrightarrow> \<not> contains fl IFUNC \<and> \<not> contains fl DYNAMIC \<and> \<not> contains fl ABSOLUTE"
definition is_downgraded_to_local :: "value_flags \<Rightarrow> bool" where
  "is_downgraded_to_local fl = contains fl DOWNGRADE_TO_LOCAL"
definition is_interposable :: "value_flags \<Rightarrow> bool" where
  "is_interposable fl \<longleftrightarrow> \<not> contains fl NON_INTERPOSABLE"
definition needs_export_dynamic :: "value_flags \<Rightarrow> bool" where
  "needs_export_dynamic fl = contains fl EXPORT_DYNAMIC"
definition needs_got :: "value_flags \<Rightarrow> bool" where "needs_got fl = contains fl GOT_FLAG"
definition needs_plt :: "value_flags \<Rightarrow> bool" where "needs_plt fl = contains fl PLT_FLAG"
definition needs_got_tls_offset :: "value_flags \<Rightarrow> bool" where
  "needs_got_tls_offset fl = contains fl GOT_TLS_OFFSET"
definition needs_got_tls_module :: "value_flags \<Rightarrow> bool" where
  "needs_got_tls_module fl = contains fl GOT_TLS_MODULE"
definition needs_got_tls_descriptor :: "value_flags \<Rightarrow> bool" where
  "needs_got_tls_descriptor fl = contains fl GOT_TLS_DESCRIPTOR"
definition needs_ifunc_got_for_address :: "value_flags \<Rightarrow> bool" where
  "needs_ifunc_got_for_address fl = contains fl IFUNC_GOT_FOR_ADDRESS"
definition has_tls_got :: "value_flags \<Rightarrow> bool" where
  "has_tls_got fl \<longleftrightarrow> contains fl GOT_TLS_OFFSET \<or> contains fl GOT_TLS_MODULE \<or> contains fl GOT_TLS_DESCRIPTOR"

section \<open>The kind of output\<close>

datatype relocation_model = NonRelocatableModel | RelocatableModel

datatype output_kind =
    StaticExecutable relocation_model
  | DynamicExecutable relocation_model
  | SharedObject
  | Relocatable

fun is_executable :: "output_kind \<Rightarrow> bool" where
  "is_executable SharedObject = False"
| "is_executable Relocatable = False"
| "is_executable _ = True"

definition is_shared_object :: "output_kind \<Rightarrow> bool" where "is_shared_object k \<longleftrightarrow> k = SharedObject"

fun is_static_executable :: "output_kind \<Rightarrow> bool" where
  "is_static_executable (StaticExecutable _) = True"
| "is_static_executable _ = False"

fun is_relocatable :: "output_kind \<Rightarrow> bool" where
  "is_relocatable (StaticExecutable RelocatableModel) = True"
| "is_relocatable (DynamicExecutable RelocatableModel) = True"
| "is_relocatable SharedObject = True"
| "is_relocatable Relocatable = True"
| "is_relocatable _ = False"

section \<open>Allocation\<close>

datatype part =
  GOT | GOT_RELR | PLT_GOT | RELA_PLT | RELA_DYN_GENERAL | RELA_DYN_RELATIVE | RELR_DYN

type_synonym part_map = "part \<Rightarrow> u64"

definition increment :: "part \<Rightarrow> u64 \<Rightarrow> part_map \<Rightarrow> part_map" where
  "increment p n sizes = sizes(p := sizes p + n)"

definition GOT_ENTRY_SIZE :: u64 where "GOT_ENTRY_SIZE = 8"
definition PLT_ENTRY_SIZE :: u64 where "PLT_ENTRY_SIZE = 16"
definition RELA_ENTRY_SIZE :: u64 where "RELA_ENTRY_SIZE = 24"
definition RELR_ENTRY_SIZE :: u64 where "RELR_ENTRY_SIZE = 8"

lemmas entry_sizes = GOT_ENTRY_SIZE_def PLT_ENTRY_SIZE_def RELA_ENTRY_SIZE_def RELR_ENTRY_SIZE_def

definition is_got_relr_eligible :: "value_flags \<Rightarrow> bool \<Rightarrow> bool \<Rightarrow> output_kind \<Rightarrow> bool" where
  "is_got_relr_eligible fl has_dynamic_symbol relr_enabled kind \<longleftrightarrow>
     relr_enabled \<and> \<not> is_ifunc fl \<and> \<not> has_dynamic_symbol \<and> is_address fl
     \<and> \<not> is_downgraded_to_local fl \<and> is_relocatable kind"

definition has_dynamic_symbol :: "value_flags \<Rightarrow> bool" where
  "has_dynamic_symbol fl \<longleftrightarrow> is_dynamic fl \<or> needs_export_dynamic fl \<and> is_interposable fl"

text \<open>The five blocks of \<^verbatim>\<open>allocate_resolution\<close>, one after the other.\<close>

definition allocate_got_and_plt :: "value_flags \<Rightarrow> bool \<Rightarrow> output_kind \<Rightarrow> part_map \<Rightarrow> part_map" where
  "allocate_got_and_plt fl relr_enabled kind sizes =
     (if needs_got fl \<and> \<not> has_tls_got fl
      then
        let is_got_relr = is_got_relr_eligible fl (has_dynamic_symbol fl) relr_enabled kind;
            sizes = (if is_got_relr then increment GOT_RELR GOT_ENTRY_SIZE sizes
                     else increment GOT GOT_ENTRY_SIZE sizes);
            sizes = (if needs_plt fl then increment PLT_GOT PLT_ENTRY_SIZE sizes else sizes)
        in if is_ifunc fl then increment RELA_PLT RELA_ENTRY_SIZE sizes
           else if has_dynamic_symbol fl then increment RELA_DYN_GENERAL RELA_ENTRY_SIZE sizes
           else if is_address fl \<and> is_relocatable kind then
             (if relr_enabled \<and> \<not> is_got_relr then increment RELR_DYN RELR_ENTRY_SIZE sizes
              else if \<not> relr_enabled then increment RELA_DYN_RELATIVE RELA_ENTRY_SIZE sizes
              else sizes)
           else sizes
      else sizes)"

definition allocate_ifunc_got :: "value_flags \<Rightarrow> bool \<Rightarrow> output_kind \<Rightarrow> part_map \<Rightarrow> part_map" where
  "allocate_ifunc_got fl relr_enabled kind sizes =
     (if needs_ifunc_got_for_address fl
      then let sizes = increment GOT GOT_ENTRY_SIZE sizes
           in if is_relocatable kind
              then (if relr_enabled then increment RELR_DYN RELR_ENTRY_SIZE sizes
                    else increment RELA_DYN_RELATIVE RELA_ENTRY_SIZE sizes)
              else sizes
      else sizes)"

definition allocate_tls_offset :: "value_flags \<Rightarrow> output_kind \<Rightarrow> part_map \<Rightarrow> part_map" where
  "allocate_tls_offset fl kind sizes =
     (if needs_got_tls_offset fl
      then let sizes = increment GOT GOT_ENTRY_SIZE sizes
           in if is_interposable fl \<or> is_shared_object kind
              then increment RELA_DYN_GENERAL RELA_ENTRY_SIZE sizes else sizes
      else sizes)"

definition allocate_tls_module :: "value_flags \<Rightarrow> output_kind \<Rightarrow> part_map \<Rightarrow> part_map" where
  "allocate_tls_module fl kind sizes =
     (if needs_got_tls_module fl
      then let sizes = increment GOT (GOT_ENTRY_SIZE * 2) sizes;
               sizes = (if \<not> is_executable kind \<or> is_dynamic fl
                        then increment RELA_DYN_GENERAL RELA_ENTRY_SIZE sizes else sizes)
           in if has_dynamic_symbol fl then increment RELA_DYN_GENERAL RELA_ENTRY_SIZE sizes else sizes
      else sizes)"

definition allocate_tls_descriptor :: "value_flags \<Rightarrow> part_map \<Rightarrow> part_map" where
  "allocate_tls_descriptor fl sizes =
     (if needs_got_tls_descriptor fl
      then increment RELA_DYN_GENERAL RELA_ENTRY_SIZE (increment GOT (GOT_ENTRY_SIZE * 2) sizes)
      else sizes)"

definition allocate_resolution :: "value_flags \<Rightarrow> bool \<Rightarrow> output_kind \<Rightarrow> part_map \<Rightarrow> part_map" where
  "allocate_resolution fl relr_enabled kind sizes =
     allocate_tls_descriptor fl
       (allocate_tls_module fl kind
         (allocate_tls_offset fl kind
           (allocate_ifunc_got fl relr_enabled kind
             (allocate_got_and_plt fl relr_enabled kind sizes))))"

section \<open>Addresses\<close>

record resolution =
  raw_value :: u64
  dynamic_symbol_index :: "u32 option"
  res_flags :: value_flags
  got_address :: "u64 option"
  plt_address :: "u64 option"

text \<open>Memory offsets are addresses; an address of 0 panics (\<^verbatim>\<open>NonZeroU64::new(..).unwrap()\<close>).\<close>

definition allocate_got :: "u64 \<Rightarrow> part_map \<Rightarrow> (u64 \<times> part_map) option" where
  "allocate_got num_entries offsets =
     (if offsets GOT = 0 then None
      else Some (offsets GOT, increment GOT (GOT_ENTRY_SIZE * num_entries) offsets))"

definition allocate_got_relr :: "part_map \<Rightarrow> (u64 \<times> part_map) option" where
  "allocate_got_relr offsets =
     (if offsets GOT_RELR = 0 then None
      else Some (offsets GOT_RELR, increment GOT_RELR GOT_ENTRY_SIZE offsets))"

definition allocate_plt :: "part_map \<Rightarrow> (u64 \<times> part_map) option" where
  "allocate_plt offsets =
     (if offsets PLT_GOT = 0 then None
      else Some (offsets PLT_GOT, increment PLT_GOT PLT_ENTRY_SIZE offsets))"

definition num_tls_slots :: "value_flags \<Rightarrow> u64" where
  "num_tls_slots fl =
     (if needs_got_tls_offset fl then 1 else 0) + (if needs_got_tls_module fl then 2 else 0)
     + (if needs_got_tls_descriptor fl then 2 else 0)"

definition create_resolution ::
    "value_flags \<Rightarrow> u64 \<Rightarrow> u32 option \<Rightarrow> bool \<Rightarrow> output_kind \<Rightarrow> part_map \<Rightarrow> (resolution \<times> part_map) option" where
  "create_resolution fl raw dynamic_index relr_enabled kind offsets =
     (let res = \<lparr>raw_value = raw, dynamic_symbol_index = dynamic_index, res_flags = fl,
                 got_address = None, plt_address = None\<rparr>;
          is_got_relr = is_got_relr_eligible fl (has_dynamic_symbol fl) relr_enabled kind
      in if needs_plt fl
         then (case allocate_plt offsets of
                 None \<Rightarrow> None
               | Some (plt, offsets) \<Rightarrow>
                   let res = res\<lparr>plt_address := Some plt,
                                 raw_value := (if is_dynamic fl then plt else raw)\<rparr>;
                       num_got_entries = (if needs_ifunc_got_for_address fl then 2 else 1)
                   in map_option (\<lambda>(got, offsets). (res\<lparr>got_address := Some got\<rparr>, offsets))
                        (if is_got_relr \<and> num_got_entries = 1 then allocate_got_relr offsets
                         else allocate_got num_got_entries offsets))
         else if has_tls_got fl
         then map_option (\<lambda>(got, offsets). (res\<lparr>got_address := Some got\<rparr>, offsets))
                (allocate_got (num_tls_slots fl) offsets)
         else if needs_got fl
         then map_option (\<lambda>(got, offsets). (res\<lparr>got_address := Some got\<rparr>, offsets))
                (if is_got_relr then allocate_got_relr offsets else allocate_got 1 offsets)
         else Some (res, offsets))"

section \<open>Accessors\<close>

datatype got_error =
    MissingGotAddress | MissingPltAddress | MissingDynamicSymbolIndex | ExpectedAddress
  | InsufficientSpace part | TlsAddressOutOfSegment u64 | TlsDescInStaticExecutable | LayoutMissing
  | PltEntryFailed | ExcessiveAllocation part

definition res_got_address :: "resolution \<Rightarrow> got_error fault + u64" where
  "res_got_address res = (case got_address res of None \<Rightarrow> Inl (Err MissingGotAddress) | Some a \<Rightarrow> Inr a)"

definition got_address_for_relocation :: "resolution \<Rightarrow> got_error fault + u64" where
  "got_address_for_relocation res =
     and_then (res_got_address res) (\<lambda>got.
       Inr (if needs_ifunc_got_for_address (res_flags res) then got + GOT_ENTRY_SIZE else got))"

definition tlsgd_got_address :: "resolution \<Rightarrow> got_error fault + u64" where
  "tlsgd_got_address res =
     and_then (res_got_address res) (\<lambda>got.
       Inr (if needs_got_tls_offset (res_flags res) then got + GOT_ENTRY_SIZE else got))"

definition tls_descriptor_got_address :: "resolution \<Rightarrow> got_error fault + u64" where
  "tls_descriptor_got_address res =
     and_then (res_got_address res) (\<lambda>got.
       let got = (if needs_got_tls_offset (res_flags res) then got + GOT_ENTRY_SIZE else got)
       in Inr (if needs_got_tls_module (res_flags res) then got + 2 * GOT_ENTRY_SIZE else got))"

definition res_plt_address :: "resolution \<Rightarrow> got_error fault + u64" where
  "res_plt_address res = (case plt_address res of None \<Rightarrow> Inl (Err MissingPltAddress) | Some a \<Rightarrow> Inr a)"

definition res_dynamic_symbol_index :: "resolution \<Rightarrow> got_error fault + u32" where
  "res_dynamic_symbol_index res =
     (case dynamic_symbol_index res of None \<Rightarrow> Inl (Err MissingDynamicSymbolIndex) | Some i \<Rightarrow> Inr i)"

definition res_address :: "resolution \<Rightarrow> got_error fault + u64" where
  "res_address res =
     (if is_address (res_flags res) then Inr (raw_value res) else Inl (Err ExpectedAddress))"

section \<open>The writer\<close>

datatype dynamic_relocation_kind =
  Copy | Irelative | DtpMod | DtpOff | TlsDescriptor | TpOffset | RelativeAddress | AbsoluteAddress
  | GotEntry | JumpSlot

record rela =
  r_offset :: u64
  r_symbol :: u32
  r_kind :: dynamic_relocation_kind
  r_addend :: u64

text \<open>
  A table of the output: the entries that are left and the entries that were taken, which hold zero
  until they are written. \<^verbatim>\<open>relr_dyn\<close> is none without packing.
\<close>

type_synonym 'e table = "nat \<times> 'e list"

record table_writer =
  got_table :: "u64 table"
  got_relr_table :: "u64 table"
  plt_got_table :: "u8 list table"
  rela_plt_table :: "rela table"
  rela_dyn_general_table :: "rela table"
  rela_dyn_relative_table :: "rela table"
  relr_dyn_table :: "u64 table option"

definition take_entry :: "got_error fault \<Rightarrow> 'e \<Rightarrow> 'e table \<Rightarrow> got_error fault + 'e table" where
  "take_entry err e t = (case t of (0, es) \<Rightarrow> Inl err | (Suc n, es) \<Rightarrow> Inr (n, es @ [e]))"

text \<open>The mutable reference to an entry is its index.\<close>

definition take_next_got_entry :: "table_writer \<Rightarrow> got_error fault + nat \<times> table_writer" where
  "take_next_got_entry w =
     and_then (take_entry (Err (InsufficientSpace GOT)) 0 (got_table w)) (\<lambda>t.
       Inr (length (snd (got_table w)), w\<lparr>got_table := t\<rparr>))"

definition take_next_got_relr_entry :: "table_writer \<Rightarrow> got_error fault + nat \<times> table_writer" where
  "take_next_got_relr_entry w =
     and_then (take_entry (Err (InsufficientSpace GOT_RELR)) 0 (got_relr_table w)) (\<lambda>t.
       Inr (length (snd (got_relr_table w)), w\<lparr>got_relr_table := t\<rparr>))"

definition set_got :: "bool \<Rightarrow> nat \<Rightarrow> u64 \<Rightarrow> table_writer \<Rightarrow> table_writer" where
  "set_got is_got_relr i v w =
     (if is_got_relr then w\<lparr>got_relr_table := apsnd (\<lambda>es. es[i := v]) (got_relr_table w)\<rparr>
      else w\<lparr>got_table := apsnd (\<lambda>es. es[i := v]) (got_table w)\<rparr>)"

definition write_rela_dyn_general ::
    "u64 \<Rightarrow> u32 \<Rightarrow> dynamic_relocation_kind \<Rightarrow> u64 \<Rightarrow> table_writer \<Rightarrow> got_error fault + table_writer" where
  "write_rela_dyn_general place dynsym k addend w =
     and_then (take_entry (Err (InsufficientSpace RELA_DYN_GENERAL))
         \<lparr>r_offset = place, r_symbol = dynsym, r_kind = k, r_addend = addend\<rparr> (rela_dyn_general_table w)) (\<lambda>t.
       Inr (w\<lparr>rela_dyn_general_table := t\<rparr>))"

definition write_ifunc_relocation :: "resolution \<Rightarrow> table_writer \<Rightarrow> got_error fault + table_writer" where
  "write_ifunc_relocation res w =
     (if fst (rela_plt_table w) = 0 then Inl Panic
      else and_then (res_got_address res) (\<lambda>got.
        and_then (take_entry Panic
            \<lparr>r_offset = got, r_symbol = 0, r_kind = Irelative, r_addend = raw_value res\<rparr> (rela_plt_table w)) (\<lambda>t.
          Inr (w\<lparr>rela_plt_table := t\<rparr>))))"

definition write_relr_entry_flat ::
    "u64 \<Rightarrow> u64 \<Rightarrow> table_writer \<Rightarrow> got_error fault + u64 \<times> table_writer" where
  "write_relr_entry_flat place relative_address w =
     (case relr_dyn_table w of
        Some t \<Rightarrow>
          if 2 dvd place
          then and_then (take_entry (Err (InsufficientSpace RELR_DYN)) place t) (\<lambda>t.
            Inr (relative_address, w\<lparr>relr_dyn_table := Some t\<rparr>))
          else and_then (take_entry (Err (InsufficientSpace RELA_DYN_RELATIVE))
              \<lparr>r_offset = place, r_symbol = 0, r_kind = RelativeAddress, r_addend = relative_address\<rparr>
              (rela_dyn_relative_table w)) (\<lambda>t.
            Inr (0, w\<lparr>rela_dyn_relative_table := t\<rparr>))
      | None \<Rightarrow>
          and_then (take_entry (Err (InsufficientSpace RELA_DYN_RELATIVE))
              \<lparr>r_offset = place, r_symbol = 0, r_kind = RelativeAddress, r_addend = relative_address\<rparr>
              (rela_dyn_relative_table w)) (\<lambda>t.
            Inr (0, w\<lparr>rela_dyn_relative_table := t\<rparr>)))"

text \<open>
  What the writer knows of the output besides the tables: the thread-local segment, the position of the
  thread pointer and the offset of the dynamic thread vector of the architecture, its linkage table
  entries, and whether a layout was passed.
\<close>

record writer_env =
  env_kind :: output_kind
  env_relr_enabled :: bool
  tls_start :: u64
  tls_end :: u64
  tp_offset_start :: u64
  dtv_offset :: u64
  arch_plt_entry :: "u64 \<Rightarrow> u64 \<Rightarrow> u8 list option"
  has_layout :: bool

definition write_plt_entry :: "writer_env \<Rightarrow> u64 \<Rightarrow> u64 \<Rightarrow> table_writer \<Rightarrow> got_error fault + table_writer" where
  "write_plt_entry env got plt w =
     (if fst (plt_got_table w) = 0 then Inl (Err (InsufficientSpace PLT_GOT))
      else case arch_plt_entry env got plt of
        None \<Rightarrow> Inl (Err PltEntryFailed)
      | Some code \<Rightarrow>
          and_then (take_entry (Err (InsufficientSpace PLT_GOT)) code (plt_got_table w)) (\<lambda>t.
            Inr (w\<lparr>plt_got_table := t\<rparr>)))"

definition CURRENT_EXE_TLS_MOD :: u64 where "CURRENT_EXE_TLS_MOD = 1"
definition TLS_OFFSET_OFFSET :: u64 where "TLS_OFFSET_OFFSET = 8"

definition process_got_tls_offset ::
    "writer_env \<Rightarrow> resolution \<Rightarrow> u64 \<Rightarrow> table_writer \<Rightarrow> got_error fault + table_writer" where
  "process_got_tls_offset env res got w =
     and_then (take_next_got_entry w) (\<lambda>(i, w).
       if is_dynamic (res_flags res) \<or> needs_export_dynamic (res_flags res) \<and> is_interposable (res_flags res)
       then and_then (res_dynamic_symbol_index res) (\<lambda>dynsym.
         write_rela_dyn_general got dynsym TpOffset 0 (set_got False i 0 w))
       else let address = raw_value res
         in if address = 0 then Inr (set_got False i 0 w)
            else if \<not> (tls_start env \<le> address \<and> address \<le> tls_end env)
            then Inl (Err (TlsAddressOutOfSegment address))
            else if is_executable (env_kind env)
            then Inr (set_got False i (address - tp_offset_start env) w)
            else write_rela_dyn_general got 0 TpOffset (address - tls_start env) w)"

definition process_got_tls_mod_and_offset ::
    "writer_env \<Rightarrow> resolution \<Rightarrow> u64 \<Rightarrow> table_writer \<Rightarrow> got_error fault + table_writer" where
  "process_got_tls_mod_and_offset env res got w =
     and_then (take_next_got_entry w) (\<lambda>(i, w).
       and_then
         (if is_executable (env_kind env) \<and> \<not> is_dynamic (res_flags res)
          then Inr (set_got False i CURRENT_EXE_TLS_MOD w)
          else write_rela_dyn_general got
                 (case dynamic_symbol_index res of None \<Rightarrow> 0 | Some dynsym \<Rightarrow> dynsym) DtpMod 0 (set_got False i 0 w)) (\<lambda>w.
       and_then (take_next_got_entry w) (\<lambda>(j, w).
         case dynamic_symbol_index res of
           Some dynsym \<Rightarrow>
             and_then (if is_interposable (res_flags res)
                       then write_rela_dyn_general (got + TLS_OFFSET_OFFSET) dynsym DtpOff 0 w else Inr w) (\<lambda>w.
               Inr (set_got False j 0 w))
         | None \<Rightarrow>
             and_then (res_address res) (\<lambda>address.
               Inr (set_got False j (address - tls_start env - dtv_offset env) w)))))"

definition process_got_tls_descriptor ::
    "writer_env \<Rightarrow> resolution \<Rightarrow> u64 \<Rightarrow> table_writer \<Rightarrow> got_error fault + table_writer" where
  "process_got_tls_descriptor env res got w =
     and_then (take_next_got_entry w) (\<lambda>(i, w).
     and_then (take_next_got_entry (set_got False i 0 w)) (\<lambda>(j, w).
       if is_static_executable (env_kind env) then Inl (Err TlsDescInStaticExecutable)
       else case dynamic_symbol_index res of
         None \<Rightarrow> write_rela_dyn_general got 0 TlsDescriptor (raw_value res - tls_start env) (set_got False j 0 w)
       | Some dynsym \<Rightarrow> write_rela_dyn_general got dynsym TlsDescriptor 0 (set_got False j 0 w)))"

definition process_tls_resolution ::
    "writer_env \<Rightarrow> resolution \<Rightarrow> u64 \<Rightarrow> table_writer \<Rightarrow> got_error fault + table_writer" where
  "process_tls_resolution env res got w =
     (let fl = res_flags res in
      and_then
        (if needs_got_tls_offset fl
         then (if has_layout env then process_got_tls_offset env res got w else Inl (Err LayoutMissing))
         else Inr w) (\<lambda>w.
      let got = (if needs_got_tls_offset fl then got + GOT_ENTRY_SIZE else got) in
      and_then (if needs_got_tls_module fl then process_got_tls_mod_and_offset env res got w else Inr w) (\<lambda>w.
      let got = (if needs_got_tls_module fl then got + 2 * GOT_ENTRY_SIZE else got) in
      if needs_got_tls_descriptor fl then process_got_tls_descriptor env res got w else Inr w)))"

definition process_address_resolution ::
    "writer_env \<Rightarrow> resolution \<Rightarrow> u64 \<Rightarrow> table_writer \<Rightarrow> got_error fault + table_writer" where
  "process_address_resolution env res got w =
     (let fl = res_flags res;
          is_got_relr = is_got_relr_eligible fl (has_dynamic_symbol fl) (env_relr_enabled env) (env_kind env) in
      and_then (if is_got_relr then take_next_got_relr_entry w else take_next_got_entry w) (\<lambda>(i, w).
      and_then
        (if is_dynamic fl \<or> (needs_export_dynamic fl \<and> is_interposable fl) \<and> \<not> is_ifunc fl
         then and_then (res_dynamic_symbol_index res) (\<lambda>dynsym.
           write_rela_dyn_general got dynsym GotEntry 0 (set_got is_got_relr i 0 w))
         else if is_ifunc fl then write_ifunc_relocation res (set_got is_got_relr i 0 w)
         else if is_got_relr then Inr (set_got is_got_relr i (raw_value res) w)
         else if is_address fl \<and> is_relocatable (env_kind env)
         then and_then (write_relr_entry_flat got (raw_value res) w) (\<lambda>(v, w). Inr (set_got is_got_relr i v w))
         else Inr (set_got is_got_relr i (raw_value res) w)) (\<lambda>w.
      and_then
        (case plt_address res of None \<Rightarrow> Inr w | Some plt \<Rightarrow> write_plt_entry env got plt w) (\<lambda>w.
      if needs_ifunc_got_for_address fl
      then and_then (take_next_got_entry w) (\<lambda>(j, w).
           and_then (res_plt_address res) (\<lambda>plt.
             if is_relocatable (env_kind env)
             then and_then (write_relr_entry_flat (got + GOT_ENTRY_SIZE) plt w) (\<lambda>(v, w).
               Inr (set_got False j v w))
             else Inr (set_got False j plt w)))
      else Inr w))))"

definition process_resolution ::
    "writer_env \<Rightarrow> resolution \<Rightarrow> table_writer \<Rightarrow> got_error fault + table_writer" where
  "process_resolution env res w =
     (case got_address res of
        None \<Rightarrow> Inr w
      | Some got \<Rightarrow>
          if has_tls_got (res_flags res) then process_tls_resolution env res got w
          else process_address_resolution env res got w)"

section \<open>What an operation takes\<close>

fun rooms :: "table_writer \<Rightarrow> part \<Rightarrow> nat" where
  "rooms w GOT = fst (got_table w)"
| "rooms w GOT_RELR = fst (got_relr_table w)"
| "rooms w PLT_GOT = fst (plt_got_table w)"
| "rooms w RELA_PLT = fst (rela_plt_table w)"
| "rooms w RELA_DYN_GENERAL = fst (rela_dyn_general_table w)"
| "rooms w RELA_DYN_RELATIVE = fst (rela_dyn_relative_table w)"
| "rooms w RELR_DYN = (case relr_dyn_table w of None \<Rightarrow> 0 | Some t \<Rightarrow> fst t)"

fun used :: "table_writer \<Rightarrow> part \<Rightarrow> nat" where
  "used w GOT = length (snd (got_table w))"
| "used w GOT_RELR = length (snd (got_relr_table w))"
| "used w PLT_GOT = length (snd (plt_got_table w))"
| "used w RELA_PLT = length (snd (rela_plt_table w))"
| "used w RELA_DYN_GENERAL = length (snd (rela_dyn_general_table w))"
| "used w RELA_DYN_RELATIVE = length (snd (rela_dyn_relative_table w))"
| "used w RELR_DYN = (case relr_dyn_table w of None \<Rightarrow> 0 | Some t \<Rightarrow> length (snd t))"

text \<open>One entry of a part, or none.\<close>

definition entry_if :: "bool \<Rightarrow> part \<Rightarrow> part \<Rightarrow> nat" where
  "entry_if b p q = (if b \<and> p = q then 1 else 0)"

text \<open>Without packing there is no packed table.\<close>

definition relr_off :: "bool \<Rightarrow> table_writer \<Rightarrow> bool" where
  "relr_off relr w \<longleftrightarrow> relr \<or> relr_dyn_table w = None"

lemma entry_if_False [simp]: "entry_if False p = (\<lambda>_. 0)"
  by (simp add: entry_if_def fun_eq_iff)

definition flat_entries :: "bool \<Rightarrow> part \<Rightarrow> nat" where
  "flat_entries relr p = entry_if relr RELR_DYN p + entry_if (\<not> relr) RELA_DYN_RELATIVE p"

lemma flat_entries_eq: "flat_entries relr = entry_if True (if relr then RELR_DYN else RELA_DYN_RELATIVE)"
  by (auto simp: flat_entries_def entry_if_def fun_eq_iff)

section \<open>The entries of a symbol\<close>

text \<open>The entries that each block of \<^verbatim>\<open>allocate_resolution\<close> makes room for.\<close>

definition got_eligible :: "value_flags \<Rightarrow> bool \<Rightarrow> output_kind \<Rightarrow> bool" where
  "got_eligible fl relr kind = is_got_relr_eligible fl (has_dynamic_symbol fl) relr kind"

definition pointer_entries :: "value_flags \<Rightarrow> bool \<Rightarrow> output_kind \<Rightarrow> part \<Rightarrow> nat" where
  "pointer_entries fl relr kind p =
     (if is_ifunc fl then entry_if True RELA_PLT p
      else if has_dynamic_symbol fl then entry_if True RELA_DYN_GENERAL p
      else if is_address fl \<and> is_relocatable kind \<and> \<not> got_eligible fl relr kind then flat_entries relr p
      else 0)"

definition got_entries :: "value_flags \<Rightarrow> bool \<Rightarrow> output_kind \<Rightarrow> part \<Rightarrow> nat" where
  "got_entries fl relr kind p =
     (if needs_got fl \<and> \<not> has_tls_got fl
      then entry_if True (if got_eligible fl relr kind then GOT_RELR else GOT) p
           + (pointer_entries fl relr kind p + entry_if (needs_plt fl) PLT_GOT p)
      else 0)"

definition ifunc_entries :: "value_flags \<Rightarrow> bool \<Rightarrow> output_kind \<Rightarrow> part \<Rightarrow> nat" where
  "ifunc_entries fl relr kind p =
     (if needs_ifunc_got_for_address fl
      then entry_if True GOT p + (if is_relocatable kind then flat_entries relr p else 0) else 0)"

definition tls_offset_entries :: "value_flags \<Rightarrow> output_kind \<Rightarrow> part \<Rightarrow> nat" where
  "tls_offset_entries fl kind p =
     (if needs_got_tls_offset fl
      then entry_if True GOT p + entry_if (is_interposable fl \<or> is_shared_object kind) RELA_DYN_GENERAL p else 0)"

definition tls_module_entries :: "value_flags \<Rightarrow> output_kind \<Rightarrow> part \<Rightarrow> nat" where
  "tls_module_entries fl kind p =
     (if needs_got_tls_module fl
      then entry_if True GOT p
           + (entry_if (\<not> is_executable kind \<or> is_dynamic fl) RELA_DYN_GENERAL p
              + (entry_if True GOT p + entry_if (has_dynamic_symbol fl) RELA_DYN_GENERAL p))
      else 0)"

definition tls_descriptor_entries :: "value_flags \<Rightarrow> part \<Rightarrow> nat" where
  "tls_descriptor_entries fl p =
     (if needs_got_tls_descriptor fl
      then entry_if True GOT p + (entry_if True GOT p + entry_if True RELA_DYN_GENERAL p) else 0)"

definition entries :: "value_flags \<Rightarrow> bool \<Rightarrow> output_kind \<Rightarrow> part \<Rightarrow> nat" where
  "entries fl relr kind p =
     got_entries fl relr kind p + ifunc_entries fl relr kind p
     + (tls_offset_entries fl kind p + (tls_module_entries fl kind p + tls_descriptor_entries fl p))"

fun entry_size :: "part \<Rightarrow> u64" where
  "entry_size GOT = GOT_ENTRY_SIZE"
| "entry_size GOT_RELR = GOT_ENTRY_SIZE"
| "entry_size PLT_GOT = PLT_ENTRY_SIZE"
| "entry_size RELR_DYN = RELR_ENTRY_SIZE"
| "entry_size _ = RELA_ENTRY_SIZE"

lemmas entries_defs = entry_if_def flat_entries_def pointer_entries_def got_entries_def ifunc_entries_def
  tls_offset_entries_def tls_module_entries_def tls_descriptor_entries_def

lemma has_tls_got_iff:
  "has_tls_got fl \<longleftrightarrow> needs_got_tls_offset fl \<or> needs_got_tls_module fl \<or> needs_got_tls_descriptor fl"
  by (simp add: has_tls_got_def needs_got_tls_offset_def needs_got_tls_module_def needs_got_tls_descriptor_def)

lemma increment_apply:
  "increment p n sizes q = sizes q + (if p = q then n else 0)"
  by (simp add: increment_def)

lemma eligible_relr: "got_eligible fl relr kind \<Longrightarrow> relr"
  by (simp add: got_eligible_def is_got_relr_eligible_def)

lemma allocate_got_and_plt_entries:
  "allocate_got_and_plt fl relr kind sizes p = sizes p + entry_size p * of_nat (got_entries fl relr kind p)"
  using eligible_relr [of fl relr kind]
  unfolding allocate_got_and_plt_def got_eligible_def [symmetric] Let_def
  by (cases p; auto simp: increment_apply entries_defs)

lemma allocate_ifunc_got_entries:
  "allocate_ifunc_got fl relr kind sizes p = sizes p + entry_size p * of_nat (ifunc_entries fl relr kind p)"
  by (cases p; simp add: allocate_ifunc_got_def Let_def increment_apply entries_defs)

lemma allocate_tls_offset_entries:
  "allocate_tls_offset fl kind sizes p = sizes p + entry_size p * of_nat (tls_offset_entries fl kind p)"
  by (cases p; simp add: allocate_tls_offset_def Let_def increment_apply entries_defs)

lemma allocate_tls_module_entries:
  "allocate_tls_module fl kind sizes p = sizes p + entry_size p * of_nat (tls_module_entries fl kind p)"
  by (cases p; simp add: allocate_tls_module_def Let_def increment_apply entries_defs algebra_simps)

lemma allocate_tls_descriptor_entries:
  "allocate_tls_descriptor fl sizes p = sizes p + entry_size p * of_nat (tls_descriptor_entries fl p)"
  by (cases p; simp add: allocate_tls_descriptor_def Let_def increment_apply entries_defs)

lemma allocate_resolution_entries:
  "allocate_resolution fl relr kind sizes p = sizes p + entry_size p * of_nat (entries fl relr kind p)"
  by (simp add: allocate_resolution_def allocate_got_and_plt_entries allocate_ifunc_got_entries
      allocate_tls_offset_entries allocate_tls_module_entries allocate_tls_descriptor_entries entries_def
      algebra_simps)

section \<open>The symbols that the layout produces\<close>

text \<open>
  What the three operations rely on. A symbol with a linkage table entry has an ordinary slot in the
  global offset table; the second slot is for indirect functions with a linkage table entry; an indirect
  function is not taken from a shared library.
\<close>

definition flags_ok :: "value_flags \<Rightarrow> bool" where
  "flags_ok fl \<longleftrightarrow>
     (needs_plt fl \<longrightarrow> needs_got fl \<and> \<not> has_tls_got fl)
     \<and> (needs_ifunc_got_for_address fl \<longrightarrow> needs_plt fl \<and> is_ifunc fl)
     \<and> \<not> (is_ifunc fl \<and> is_dynamic fl)"

text \<open>
  A thread-local symbol that is accessed through its offset from the thread pointer can be interposed
  exactly when it is in the dynamic symbol table; otherwise it is an address of the thread-local segment,
  and in a shared object it is defined. Accessed through its module, it is in the dynamic symbol table and
  can be interposed, or is an address. A descriptor needs a dynamic loader.
\<close>

definition tls_ok :: "writer_env \<Rightarrow> value_flags \<Rightarrow> u64 \<Rightarrow> bool" where
  "tls_ok env fl raw \<longleftrightarrow>
     (needs_got_tls_offset fl \<longrightarrow>
        has_layout env \<and> env_kind env \<noteq> Relocatable \<and> (is_interposable fl \<longleftrightarrow> has_dynamic_symbol fl)
        \<and> (has_dynamic_symbol fl
             \<or> raw = 0 \<and> is_executable (env_kind env)
             \<or> raw \<noteq> 0 \<and> tls_start env \<le> raw \<and> raw \<le> tls_end env))
     \<and> (needs_got_tls_module fl \<longrightarrow> (if has_dynamic_symbol fl then is_interposable fl else is_address fl))
     \<and> (needs_got_tls_descriptor fl \<longrightarrow> \<not> is_static_executable (env_kind env))"

definition symbol_ok :: "writer_env \<Rightarrow> value_flags \<Rightarrow> u64 \<Rightarrow> u32 option \<Rightarrow> bool" where
  "symbol_ok env fl raw dynamic_index \<longleftrightarrow>
     flags_ok fl \<and> (has_tls_got fl \<longrightarrow> tls_ok env fl raw)
     \<and> (dynamic_index \<noteq> None \<longleftrightarrow> has_dynamic_symbol fl)"

definition resolution_ok :: "writer_env \<Rightarrow> resolution \<Rightarrow> bool" where
  "resolution_ok env res \<longleftrightarrow>
     symbol_ok env (res_flags res) (raw_value res) (dynamic_symbol_index res)
     \<and> (got_address res \<noteq> None \<longleftrightarrow> needs_got (res_flags res) \<or> has_tls_got (res_flags res))
     \<and> (plt_address res \<noteq> None \<longleftrightarrow> needs_plt (res_flags res))
     \<and> (\<forall>got. got_address res = Some got \<longrightarrow> 2 dvd got
          \<and> (\<forall>plt. plt_address res = Some plt \<longrightarrow> arch_plt_entry env got plt \<noteq> None))"

end
