(* ===== verification/Got_Writer.thy ===== *)
theory Got_Writer
  imports Got_Tables
begin

text \<open>
  What \<^verbatim>\<open>process_resolution\<close> of \<^verbatim>\<open>reld-core/src/elf_writer.rs\<close> leaves in the tables. \<open>resolution_additions\<close>
  lists the entries that a symbol should have; the writer, which takes entries one at a time and patches
  them afterwards, is shown to append exactly them.
\<close>

section \<open>Appending entries\<close>

record additions =
  add_got :: "u64 list"
  add_got_relr :: "u64 list"
  add_plt :: "u8 list list"
  add_rela_plt :: "rela list"
  add_general :: "rela list"
  add_relative :: "rela list"
  add_relr :: "u64 list"

definition nothing :: additions where
  "nothing = \<lparr>add_got = [], add_got_relr = [], add_plt = [], add_rela_plt = [], add_general = [],
     add_relative = [], add_relr = []\<rparr>"

fun count :: "additions \<Rightarrow> part \<Rightarrow> nat" where
  "count a GOT = length (add_got a)"
| "count a GOT_RELR = length (add_got_relr a)"
| "count a PLT_GOT = length (add_plt a)"
| "count a RELA_PLT = length (add_rela_plt a)"
| "count a RELA_DYN_GENERAL = length (add_general a)"
| "count a RELA_DYN_RELATIVE = length (add_relative a)"
| "count a RELR_DYN = length (add_relr a)"

definition also_add :: "additions \<Rightarrow> additions \<Rightarrow> additions" where
  "also_add a b = \<lparr>add_got = add_got a @ add_got b, add_got_relr = add_got_relr a @ add_got_relr b,
     add_plt = add_plt a @ add_plt b, add_rela_plt = add_rela_plt a @ add_rela_plt b,
     add_general = add_general a @ add_general b, add_relative = add_relative a @ add_relative b,
     add_relr = add_relr a @ add_relr b\<rparr>"

definition fill :: "'e list \<Rightarrow> 'e table \<Rightarrow> 'e table" where
  "fill xs t = (fst t - length xs, snd t @ xs)"

definition add_tables :: "additions \<Rightarrow> table_writer \<Rightarrow> table_writer" where
  "add_tables a w =
     \<lparr>got_table = fill (add_got a) (got_table w), got_relr_table = fill (add_got_relr a) (got_relr_table w),
      plt_got_table = fill (add_plt a) (plt_got_table w), rela_plt_table = fill (add_rela_plt a) (rela_plt_table w),
      rela_dyn_general_table = fill (add_general a) (rela_dyn_general_table w),
      rela_dyn_relative_table = fill (add_relative a) (rela_dyn_relative_table w),
      relr_dyn_table = map_option (fill (add_relr a)) (relr_dyn_table w)\<rparr>"

definition fills :: "bool \<Rightarrow> (table_writer \<Rightarrow> got_error fault + table_writer) \<Rightarrow> additions \<Rightarrow> bool" where
  "fills relr f a \<longleftrightarrow>
     (\<forall>w. relr_off relr w \<longrightarrow> (\<forall>p. count a p \<le> rooms w p) \<longrightarrow> f w = Inr (add_tables a w))"

lemma fill_fill: "fill ys (fill xs t) = fill (xs @ ys) t"
  by (simp add: fill_def)

lemma fill_Nil [simp]: "fill [] = (\<lambda>t. t)"
  by (simp add: fill_def fun_eq_iff)

lemma all_parts: "(\<forall>p. P p) \<longleftrightarrow> P GOT \<and> P GOT_RELR \<and> P PLT_GOT \<and> P RELA_PLT \<and> P RELA_DYN_GENERAL
    \<and> P RELA_DYN_RELATIVE \<and> P RELR_DYN"
  by (metis part.exhaust)

lemma fills_seq:
  assumes "fills relr f a" "fills relr g b"
  shows "fills relr (\<lambda>w. and_then (f w) g) (also_add a b)"
  unfolding fills_def
proof (intro allI impI)
  fix w
  assume w: "relr_off relr w" and room: "\<forall>p. count (also_add a b) p \<le> rooms w p"
  have sum: "count (also_add a b) p = count a p + count b p" for p by (cases p) (simp_all add: also_add_def)
  have a: "\<forall>p. count a p \<le> rooms w p" using room by (metis sum add_leD1)
  have left: "rooms (add_tables a w) p = rooms w p - count a p" for p
    using a [rule_format, of p] by (cases p) (auto simp: add_tables_def fill_def split: option.splits)
  have "count b p \<le> rooms (add_tables a w) p" for p
    using room [rule_format, of p] left sum by simp
  moreover have "relr_off relr (add_tables a w)" using w by (simp add: relr_off_def add_tables_def)
  moreover have "add_tables b (add_tables a w) = add_tables (also_add a b) w"
    by (simp add: add_tables_def also_add_def fill_fill option.map_comp comp_def)
  ultimately show "and_then (f w) g = Inr (add_tables (also_add a b) w)"
    using assms w a by (simp add: fills_def)
qed

lemma take_room: "fst t \<noteq> 0 \<Longrightarrow> take_entry err e t = Inr (fill [e] t)"
  by (cases t; cases "fst t") (auto simp: take_entry_def fill_def)

lemma add_nothing: "add_tables nothing w = w"
  by (simp add: add_tables_def nothing_def option.map_ident)

lemma exec_take_got:
  "length (add_got a) < rooms w GOT \<Longrightarrow>
   take_next_got_entry (add_tables a w) =
     Inr (used w GOT + length (add_got a), add_tables (a\<lparr>add_got := add_got a @ [0]\<rparr>) w)"
  by (simp add: take_next_got_entry_def take_room add_tables_def fill_def)

lemma exec_take_got_relr:
  "length (add_got_relr a) < rooms w GOT_RELR \<Longrightarrow>
   take_next_got_relr_entry (add_tables a w) =
     Inr (used w GOT_RELR + length (add_got_relr a), add_tables (a\<lparr>add_got_relr := add_got_relr a @ [0]\<rparr>) w)"
  by (simp add: take_next_got_relr_entry_def take_room add_tables_def fill_def)

lemma exec_set_got:
  "set_got False (used w GOT + n) v (add_tables a w) = add_tables (a\<lparr>add_got := (add_got a)[n := v]\<rparr>) w"
  "set_got True (used w GOT_RELR + n) v (add_tables a w) =
     add_tables (a\<lparr>add_got_relr := (add_got_relr a)[n := v]\<rparr>) w"
  by (simp_all add: set_got_def add_tables_def fill_def list_update_append)

lemma exec_set_first:
  "set_got False (used w GOT) v (add_tables a w) = add_tables (a\<lparr>add_got := (add_got a)[0 := v]\<rparr>) w"
  "set_got True (used w GOT_RELR) v (add_tables a w) = add_tables (a\<lparr>add_got_relr := (add_got_relr a)[0 := v]\<rparr>) w"
  "set_got False (Suc (used w GOT)) v (add_tables a w) = add_tables (a\<lparr>add_got := (add_got a)[1 := v]\<rparr>) w"
  using exec_set_got [of w 0] exec_set_got(1) [of w 1] by simp_all

lemma exec_rela_general:
  "length (add_general a) < rooms w RELA_DYN_GENERAL \<Longrightarrow>
   write_rela_dyn_general place dynsym k addend (add_tables a w) =
     Inr (add_tables (a\<lparr>add_general := add_general a @
       [\<lparr>r_offset = place, r_symbol = dynsym, r_kind = k, r_addend = addend\<rparr>]\<rparr>) w)"
  by (simp add: write_rela_dyn_general_def take_room add_tables_def fill_def)

lemma exec_ifunc:
  "length (add_rela_plt a) < rooms w RELA_PLT \<Longrightarrow> got_address res = Some got \<Longrightarrow>
   write_ifunc_relocation res (add_tables a w) =
     Inr (add_tables (a\<lparr>add_rela_plt := add_rela_plt a @
       [\<lparr>r_offset = got, r_symbol = 0, r_kind = Irelative, r_addend = raw_value res\<rparr>]\<rparr>) w)"
  by (simp add: write_ifunc_relocation_def res_got_address_def take_room add_tables_def fill_def)

lemma exec_plt:
  "length (add_plt a) < rooms w PLT_GOT \<Longrightarrow> arch_plt_entry env got plt = Some code \<Longrightarrow>
   write_plt_entry env got plt (add_tables a w) = Inr (add_tables (a\<lparr>add_plt := add_plt a @ [code]\<rparr>) w)"
  by (simp add: write_plt_entry_def take_room add_tables_def fill_def)

lemma exec_flat_relr:
  "length (add_relr a) < rooms w RELR_DYN \<Longrightarrow> 2 dvd place \<Longrightarrow>
   write_relr_entry_flat place v (add_tables a w) =
     Inr (v, add_tables (a\<lparr>add_relr := add_relr a @ [place]\<rparr>) w)"
  by (auto simp: write_relr_entry_flat_def take_room add_tables_def fill_def split: option.splits)

lemma exec_flat_rela:
  "length (add_relative a) < rooms w RELA_DYN_RELATIVE \<Longrightarrow> relr_dyn_table w = None \<Longrightarrow>
   write_relr_entry_flat place v (add_tables a w) =
     Inr (0, add_tables (a\<lparr>add_relative := add_relative a @
       [\<lparr>r_offset = place, r_symbol = 0, r_kind = RelativeAddress, r_addend = v\<rparr>]\<rparr>) w)"
  by (simp add: write_relr_entry_flat_def take_room add_tables_def fill_def)

lemmas exec = exec_take_got exec_take_got_relr exec_set_got exec_set_first exec_rela_general exec_ifunc exec_plt

lemma fillsI:
  assumes "\<And>w. relr_off relr w \<Longrightarrow> (\<And>p. count a p \<le> rooms w p) \<Longrightarrow> f (add_tables nothing w) = Inr (add_tables a w)"
  shows "fills relr f a"
  using assms by (simp add: fills_def add_nothing)

section \<open>The entries of a symbol\<close>

definition offset_additions :: "writer_env \<Rightarrow> resolution \<Rightarrow> u64 \<Rightarrow> additions" where
  "offset_additions env res got =
     (if has_dynamic_symbol (res_flags res)
      then nothing\<lparr>add_got := [0],
        add_general := [\<lparr>r_offset = got, r_symbol = the (dynamic_symbol_index res), r_kind = TpOffset, r_addend = 0\<rparr>]\<rparr>
      else if is_executable (env_kind env)
      then nothing\<lparr>add_got := [if raw_value res = 0 then 0 else raw_value res - tp_offset_start env]\<rparr>
      else nothing\<lparr>add_got := [0],
        add_general := [\<lparr>r_offset = got, r_symbol = 0, r_kind = TpOffset, r_addend = raw_value res - tls_start env\<rparr>]\<rparr>)"

definition module_additions :: "writer_env \<Rightarrow> resolution \<Rightarrow> u64 \<Rightarrow> additions" where
  "module_additions env res got =
     (let here = is_executable (env_kind env) \<and> \<not> is_dynamic (res_flags res) in
      nothing\<lparr>
        add_got :=
          [if here then CURRENT_EXE_TLS_MOD else 0,
           if dynamic_symbol_index res = None then raw_value res - tls_start env - dtv_offset env else 0],
        add_general :=
          (if here then []
           else [\<lparr>r_offset = got, r_symbol = (case dynamic_symbol_index res of None \<Rightarrow> 0 | Some d \<Rightarrow> d),
                  r_kind = DtpMod, r_addend = 0\<rparr>])
          @ (case dynamic_symbol_index res of None \<Rightarrow> []
             | Some d \<Rightarrow> [\<lparr>r_offset = got + TLS_OFFSET_OFFSET, r_symbol = d, r_kind = DtpOff, r_addend = 0\<rparr>])\<rparr>)"

definition descriptor_additions :: "writer_env \<Rightarrow> resolution \<Rightarrow> u64 \<Rightarrow> additions" where
  "descriptor_additions env res got =
     nothing\<lparr>add_got := [0, 0],
       add_general := [case dynamic_symbol_index res of
           None \<Rightarrow> \<lparr>r_offset = got, r_symbol = 0, r_kind = TlsDescriptor, r_addend = raw_value res - tls_start env\<rparr>
         | Some d \<Rightarrow> \<lparr>r_offset = got, r_symbol = d, r_kind = TlsDescriptor, r_addend = 0\<rparr>]\<rparr>"

text \<open>A slot that holds an address of the output.\<close>

definition address_slot :: "writer_env \<Rightarrow> u64 \<Rightarrow> u64 \<Rightarrow> additions" where
  "address_slot env place address =
     (if \<not> is_relocatable (env_kind env) then nothing\<lparr>add_got := [address]\<rparr>
      else if env_relr_enabled env then nothing\<lparr>add_got := [address], add_relr := [place]\<rparr>
      else nothing\<lparr>add_got := [0],
        add_relative := [\<lparr>r_offset = place, r_symbol = 0, r_kind = RelativeAddress, r_addend = address\<rparr>]\<rparr>)"

definition pointer_additions :: "writer_env \<Rightarrow> resolution \<Rightarrow> u64 \<Rightarrow> additions" where
  "pointer_additions env res got =
     (let fl = res_flags res in
      if is_ifunc fl
      then nothing\<lparr>add_got := [0],
        add_rela_plt := [\<lparr>r_offset = got, r_symbol = 0, r_kind = Irelative, r_addend = raw_value res\<rparr>]\<rparr>
      else if has_dynamic_symbol fl
      then nothing\<lparr>add_got := [0],
        add_general := [\<lparr>r_offset = got, r_symbol = the (dynamic_symbol_index res), r_kind = GotEntry, r_addend = 0\<rparr>]\<rparr>
      else if got_eligible fl (env_relr_enabled env) (env_kind env) then nothing\<lparr>add_got_relr := [raw_value res]\<rparr>
      else if is_address fl then address_slot env got (raw_value res)
      else nothing\<lparr>add_got := [raw_value res]\<rparr>)"

definition plt_additions :: "writer_env \<Rightarrow> resolution \<Rightarrow> u64 \<Rightarrow> additions" where
  "plt_additions env res got =
     (case plt_address res of None \<Rightarrow> nothing
      | Some plt \<Rightarrow> nothing\<lparr>add_plt := [the (arch_plt_entry env got plt)]\<rparr>)"

definition ifunc_additions :: "writer_env \<Rightarrow> resolution \<Rightarrow> u64 \<Rightarrow> additions" where
  "ifunc_additions env res got =
     (if needs_ifunc_got_for_address (res_flags res)
      then address_slot env (got + GOT_ENTRY_SIZE) (the (plt_address res)) else nothing)"

definition tls_additions :: "writer_env \<Rightarrow> resolution \<Rightarrow> u64 \<Rightarrow> additions" where
  "tls_additions env res got =
     (let fl = res_flags res;
          module_got = (if needs_got_tls_offset fl then got + GOT_ENTRY_SIZE else got);
          descriptor_got = (if needs_got_tls_module fl then module_got + 2 * GOT_ENTRY_SIZE else module_got) in
      also_add (if needs_got_tls_offset fl then offset_additions env res got else nothing)
        (also_add (if needs_got_tls_module fl then module_additions env res module_got else nothing)
          (if needs_got_tls_descriptor fl then descriptor_additions env res descriptor_got else nothing)))"

definition resolution_additions :: "writer_env \<Rightarrow> resolution \<Rightarrow> additions" where
  "resolution_additions env res =
     (case got_address res of
        None \<Rightarrow> nothing
      | Some got \<Rightarrow>
          if has_tls_got (res_flags res) then tls_additions env res got
          else also_add (pointer_additions env res got)
                 (also_add (plt_additions env res got) (ifunc_additions env res got)))"

section \<open>The writer appends them\<close>

lemma fills_offset:
  assumes ok: "tls_ok env (res_flags res) (raw_value res)"
    and index: "dynamic_symbol_index res \<noteq> None \<longleftrightarrow> has_dynamic_symbol (res_flags res)"
    and needs: "needs_got_tls_offset (res_flags res)"
  shows "fills relr (process_got_tls_offset env res got) (offset_additions env res got)"
proof (rule fillsI)
  fix w
  assume room: "\<And>p. count (offset_additions env res got) p \<le> rooms w p"
  have ok': "has_dynamic_symbol (res_flags res) \<or>  (raw_value res = 0 \<and> is_executable (env_kind env) 
     \<or> raw_value res \<noteq> 0 \<and> tls_start env \<le> raw_value res \<and> raw_value res \<le> tls_end env)"
    using ok needs by (auto simp: tls_ok_def)
  show "process_got_tls_offset env res got (add_tables nothing w) = Inr (add_tables (offset_additions env res got) w)"
    using ok' index room [of GOT] room [of RELA_DYN_GENERAL]
    unfolding process_got_tls_offset_def has_dynamic_symbol_def [symmetric] offset_additions_def
    by (auto simp: exec nothing_def Let_def res_dynamic_symbol_index_def simp del: rooms.simps used.simps)
qed

text \<open>The pointer of an ordinary slot: the middle part of the address case.\<close>

definition write_pointer :: "writer_env \<Rightarrow> resolution \<Rightarrow> u64 \<Rightarrow> nat \<Rightarrow> table_writer \<Rightarrow> got_error fault + table_writer" where
  "write_pointer env res got i w =
     (let fl = res_flags res;
          is_got_relr = got_eligible fl (env_relr_enabled env) (env_kind env) in
      if is_dynamic fl \<or> (needs_export_dynamic fl \<and> is_interposable fl) \<and> \<not> is_ifunc fl
      then and_then (res_dynamic_symbol_index res) (\<lambda>dynsym.
        write_rela_dyn_general got dynsym GotEntry 0 (set_got is_got_relr i 0 w))
      else if is_ifunc fl then write_ifunc_relocation res (set_got is_got_relr i 0 w)
      else if is_got_relr then Inr (set_got is_got_relr i (raw_value res) w)
      else if is_address fl \<and> is_relocatable (env_kind env)
      then and_then (write_relr_entry_flat got (raw_value res) w) (\<lambda>(v, w). Inr (set_got is_got_relr i v w))
      else Inr (set_got is_got_relr i (raw_value res) w))"

definition write_plt_of :: "writer_env \<Rightarrow> resolution \<Rightarrow> u64 \<Rightarrow> table_writer \<Rightarrow> got_error fault + table_writer" where
  "write_plt_of env res got w =
     (case plt_address res of None \<Rightarrow> Inr w | Some plt \<Rightarrow> write_plt_entry env got plt w)"

definition write_ifunc_slot :: "writer_env \<Rightarrow> resolution \<Rightarrow> u64 \<Rightarrow> table_writer \<Rightarrow> got_error fault + table_writer" where
  "write_ifunc_slot env res got w =
     (if needs_ifunc_got_for_address (res_flags res)
      then and_then (take_next_got_entry w) (\<lambda>(j, w).
           and_then (res_plt_address res) (\<lambda>plt.
             if is_relocatable (env_kind env)
             then and_then (write_relr_entry_flat (got + GOT_ENTRY_SIZE) plt w) (\<lambda>(v, w).
               Inr (set_got False j v w))
             else Inr (set_got False j plt w)))
      else Inr w)"

lemma process_address_resolution_parts:
  "process_address_resolution env res got =
     (\<lambda>w. and_then (if got_eligible (res_flags res) (env_relr_enabled env) (env_kind env)
                    then take_next_got_relr_entry w else take_next_got_entry w) (\<lambda>(i, w).
          and_then (write_pointer env res got i w) (\<lambda>w.
          and_then (write_plt_of env res got w) (write_ifunc_slot env res got))))"
  unfolding process_address_resolution_def write_pointer_def write_plt_of_def write_ifunc_slot_def
    got_eligible_def Let_def ..

lemma fills_module:
  assumes ok: "tls_ok env (res_flags res) (raw_value res)"
    and index: "dynamic_symbol_index res \<noteq> None \<longleftrightarrow> has_dynamic_symbol (res_flags res)"
    and needs: "needs_got_tls_module (res_flags res)"
  shows "fills relr (process_got_tls_mod_and_offset env res got) (module_additions env res got)"
proof (rule fillsI)
  fix w
  assume room: "\<And>p. count (module_additions env res got) p \<le> rooms w p"
  have free: "dynamic_symbol_index res = None \<Longrightarrow> is_address (res_flags res)"
    and interposable: "dynamic_symbol_index res = Some d \<Longrightarrow> is_interposable (res_flags res)" for d
    using ok index needs by (auto simp: tls_ok_def split: if_splits)
  show "process_got_tls_mod_and_offset env res got (add_tables nothing w) =
      Inr (add_tables (module_additions env res got) w)"
    using free interposable room [of GOT] room [of RELA_DYN_GENERAL]
    unfolding process_got_tls_mod_and_offset_def module_additions_def Let_def
    by (cases "is_executable (env_kind env) \<and> \<not> is_dynamic (res_flags res)"; cases "dynamic_symbol_index res")
      (auto simp: exec nothing_def res_address_def simp del: rooms.simps used.simps)
qed

lemma fills_descriptor:
  assumes ok: "tls_ok env (res_flags res) (raw_value res)" and needs: "needs_got_tls_descriptor (res_flags res)"
  shows "fills relr (process_got_tls_descriptor env res got) (descriptor_additions env res got)"
proof (rule fillsI)
  fix w
  assume room: "\<And>p. count (descriptor_additions env res got) p \<le> rooms w p"
  show "process_got_tls_descriptor env res got (add_tables nothing w) =
      Inr (add_tables (descriptor_additions env res got) w)"
    using ok needs room [of GOT] room [of RELA_DYN_GENERAL]
    unfolding process_got_tls_descriptor_def descriptor_additions_def Let_def
    by (cases "dynamic_symbol_index res")
      (auto simp: exec nothing_def tls_ok_def simp del: rooms.simps used.simps)
qed

lemma fills_nothing: "fills relr Inr nothing"
  by (rule fillsI) simp

lemma fills_if: "(b \<Longrightarrow> fills relr f a) \<Longrightarrow> fills relr (\<lambda>w. if b then f w else Inr w) (if b then a else nothing)"
  using fills_nothing by simp

lemma fills_tls:
  assumes ok: "resolution_ok env res" and tls: "has_tls_got (res_flags res)"
  shows "fills relr (process_tls_resolution env res got) (tls_additions env res got)"
proof -
  have tls_ok: "tls_ok env (res_flags res) (raw_value res)"
    and index: "dynamic_symbol_index res \<noteq> None \<longleftrightarrow> has_dynamic_symbol (res_flags res)"
    using ok tls by (simp_all add: resolution_ok_def symbol_ok_def)
  have layout: "process_tls_resolution env res got w =
      (let fl = res_flags res in
       and_then (if needs_got_tls_offset fl then process_got_tls_offset env res got w else Inr w) (\<lambda>w.
       let got = (if needs_got_tls_offset fl then got + GOT_ENTRY_SIZE else got) in
       and_then (if needs_got_tls_module fl then process_got_tls_mod_and_offset env res got w else Inr w) (\<lambda>w.
       let got = (if needs_got_tls_module fl then got + 2 * GOT_ENTRY_SIZE else got) in
       if needs_got_tls_descriptor fl then process_got_tls_descriptor env res got w else Inr w)))" for w
    using tls_ok by (simp add: process_tls_resolution_def tls_ok_def Let_def cong: if_cong)
  show ?thesis
    unfolding layout [abs_def] tls_additions_def Let_def
    by (intro fills_seq fills_if fills_offset [OF tls_ok index] fills_module [OF tls_ok index] fills_descriptor [OF tls_ok])
qed

lemma exec_address_slot:
  assumes w: "relr_off (env_relr_enabled env) w" and even: "2 dvd place"
    and got: "\<And>p. count (address_slot env place address) p \<le> rooms w p"
  shows "and_then (take_next_got_entry (add_tables nothing w)) (\<lambda>(i, w).
       if is_relocatable (env_kind env)
       then and_then (write_relr_entry_flat place address w) (\<lambda>(v, w). Inr (set_got False i v w))
       else Inr (set_got False i address w)) = Inr (add_tables (address_slot env place address) w)"
  using w even got [of GOT] got [of RELR_DYN] got [of RELA_DYN_RELATIVE]
  by (auto simp: address_slot_def exec exec_flat_relr exec_flat_rela nothing_def relr_off_def
      simp del: rooms.simps used.simps)

lemma fills_pointer:
  assumes ok: "resolution_ok env res" and got: "got_address res = Some got"
  shows "fills (env_relr_enabled env)
     (\<lambda>w. and_then (if got_eligible (res_flags res) (env_relr_enabled env) (env_kind env)
                    then take_next_got_relr_entry w else take_next_got_entry w) (\<lambda>(i, w).
          write_pointer env res got i w)) (pointer_additions env res got)"
proof (rule fillsI)
  fix w
  define fl where "fl = res_flags res"
  define g where "g = got_eligible fl (env_relr_enabled env) (env_kind env)"
  assume w: "relr_off (env_relr_enabled env) w" and room: "\<And>p. count (pointer_additions env res got) p \<le> rooms w p"
  have not_both: "\<not> (is_ifunc fl \<and> is_dynamic fl)"
    and index: "dynamic_symbol_index res \<noteq> None \<longleftrightarrow> has_dynamic_symbol fl" and even: "2 dvd got"
    using ok got by (simp_all add: resolution_ok_def symbol_ok_def flags_ok_def fl_def)
  have g: "g \<Longrightarrow> \<not> is_ifunc fl \<and> \<not> has_dynamic_symbol fl"
    by (simp add: g_def got_eligible_def is_got_relr_eligible_def)
  note parts = write_pointer_def Let_def fl_def [symmetric] g_def [symmetric]
  consider (ifunc) "is_ifunc fl" | (dyn) "\<not> is_ifunc fl" "has_dynamic_symbol fl"
    | (packed) "g" | (plain) "\<not> is_ifunc fl" "\<not> has_dynamic_symbol fl" "\<not> g" by blast
  then show "and_then (if got_eligible (res_flags res) (env_relr_enabled env) (env_kind env)
        then take_next_got_relr_entry (add_tables nothing w) else take_next_got_entry (add_tables nothing w))
        (\<lambda>(i, w). write_pointer env res got i w) = Inr (add_tables (pointer_additions env res got) w)"
  proof cases
    case ifunc
    with g have "\<not> g" by blast
    with ifunc show ?thesis
      using not_both got room [of GOT] room [of RELA_PLT]
      unfolding pointer_additions_def parts
      by (auto simp: exec nothing_def simp del: rooms.simps used.simps)
  next
    case dyn
    with g have "\<not> g" by blast
    moreover obtain d where "dynamic_symbol_index res = Some d" using index dyn by auto
    ultimately show ?thesis
      using dyn room [of GOT] room [of RELA_DYN_GENERAL]
      unfolding pointer_additions_def parts
      by (auto simp: exec nothing_def has_dynamic_symbol_def res_dynamic_symbol_index_def simp del: rooms.simps used.simps)
  next
    case packed
    with g have "\<not> is_ifunc fl" "\<not> has_dynamic_symbol fl" by blast+
    with packed show ?thesis
      using room [of GOT_RELR]
      unfolding pointer_additions_def parts
      by (auto simp: exec nothing_def has_dynamic_symbol_def simp del: rooms.simps used.simps)
  next
    case plain
    show ?thesis
    proof (cases "is_address fl")
      case True
      have "pointer_additions env res got = address_slot env got (raw_value res)"
        using plain True by (simp add: pointer_additions_def parts)
      moreover have "write_pointer env res got i w' =
          (if is_relocatable (env_kind env)
           then and_then (write_relr_entry_flat got (raw_value res) w') (\<lambda>(v, w). Inr (set_got False i v w))
           else Inr (set_got False i (raw_value res) w'))" for i w'
        using plain True unfolding parts by (auto simp: has_dynamic_symbol_def)
      ultimately show ?thesis
        using plain exec_address_slot [OF w even, of "raw_value res"] room unfolding parts by simp
    next
      case False
      then show ?thesis
        using plain room [of GOT]
        unfolding pointer_additions_def parts
        by (auto simp: exec nothing_def has_dynamic_symbol_def simp del: rooms.simps used.simps)
    qed
  qed
qed

lemma fills_plt:
  assumes "resolution_ok env res" "got_address res = Some got"
  shows "fills relr (write_plt_of env res got) (plt_additions env res got)"
proof (rule fillsI)
  fix w
  assume room: "\<And>p. count (plt_additions env res got) p \<le> rooms w p"
  show "write_plt_of env res got (add_tables nothing w) = Inr (add_tables (plt_additions env res got) w)"
  proof (cases "plt_address res")
    case None
    then show ?thesis by (simp add: write_plt_of_def plt_additions_def)
  next
    case (Some plt)
    with assms obtain code where "arch_plt_entry env got plt = Some code"
      by (auto simp: resolution_ok_def)
    with Some show ?thesis
      using room [of PLT_GOT]
      by (auto simp: write_plt_of_def plt_additions_def exec nothing_def simp del: rooms.simps used.simps)
  qed
qed

lemma fills_ifunc_slot:
  assumes ok: "resolution_ok env res" and got: "got_address res = Some got"
  shows "fills (env_relr_enabled env) (write_ifunc_slot env res got) (ifunc_additions env res got)"
proof (rule fillsI)
  fix w
  assume w: "relr_off (env_relr_enabled env) w" and room: "\<And>p. count (ifunc_additions env res got) p \<le> rooms w p"
  show "write_ifunc_slot env res got (add_tables nothing w) = Inr (add_tables (ifunc_additions env res got) w)"
  proof (cases "needs_ifunc_got_for_address (res_flags res)")
    case False
    then show ?thesis by (simp add: write_ifunc_slot_def ifunc_additions_def)
  next
    case True
    have even: "2 dvd got + GOT_ENTRY_SIZE" using ok got by (simp add: resolution_ok_def GOT_ENTRY_SIZE_def)
    obtain plt where "plt_address res = Some plt"
      using ok True by (auto simp: resolution_ok_def symbol_ok_def flags_ok_def)
    with True show ?thesis
      using exec_address_slot [OF w even, of plt] room
      by (simp add: write_ifunc_slot_def ifunc_additions_def res_plt_address_def)
  qed
qed

lemma fills_process_resolution:
  assumes ok: "resolution_ok env res"
  shows "fills (env_relr_enabled env) (process_resolution env res) (resolution_additions env res)"
proof (cases "got_address res")
  case None
  then show ?thesis
    using fills_nothing by (simp add: process_resolution_def [abs_def] resolution_additions_def)
next
  case (Some got)
  show ?thesis
  proof (cases "has_tls_got (res_flags res)")
    case True
    then show ?thesis
      using Some fills_tls [OF ok] by (simp add: process_resolution_def [abs_def] resolution_additions_def)
  next
    case False
    have "process_address_resolution env res got =
       (\<lambda>w. and_then (and_then (if got_eligible (res_flags res) (env_relr_enabled env) (env_kind env)
                    then take_next_got_relr_entry w else take_next_got_entry w) (\<lambda>(i, w).
          write_pointer env res got i w)) (\<lambda>w. and_then (write_plt_of env res got w) (write_ifunc_slot env res got)))"
      unfolding process_address_resolution_parts
      by (simp add: and_then_def fun_eq_iff split: sum.splits)
    with Some False fills_seq [OF fills_pointer [OF ok Some]
        fills_seq [OF fills_plt [OF ok Some] fills_ifunc_slot [OF ok Some]]]
    show ?thesis by (simp add: process_resolution_def [abs_def] resolution_additions_def)
  qed
qed

text \<open>As many entries as were reserved.\<close>

lemma count_simps [simp]:
  "count nothing p = 0" "count (also_add a b) p = count a p + count b p"
  by (cases p; simp add: nothing_def also_add_def)+

lemma count_address_slot:
  "count (address_slot env place address) p =
     entry_if True GOT p + (if is_relocatable (env_kind env) then flat_entries (env_relr_enabled env) p else 0)"
  by (cases p; simp add: address_slot_def nothing_def entry_if_def flat_entries_def)

lemma count_tls:
  assumes ok: "tls_ok env (res_flags res) (raw_value res)"
    and index: "dynamic_symbol_index res \<noteq> None \<longleftrightarrow> has_dynamic_symbol (res_flags res)"
  shows "count (tls_additions env res got) p =
     tls_offset_entries (res_flags res) (env_kind env) p
     + (tls_module_entries (res_flags res) (env_kind env) p + tls_descriptor_entries (res_flags res) p)"
proof -
  have kind: "is_shared_object (env_kind env) \<longleftrightarrow> \<not> is_executable (env_kind env)"
    and interposable: "is_interposable (res_flags res) \<longleftrightarrow> has_dynamic_symbol (res_flags res)"
    if "needs_got_tls_offset (res_flags res)"
    using ok that by (cases "env_kind env"; auto simp: tls_ok_def is_shared_object_def)+
  have offset: "count (if needs_got_tls_offset (res_flags res) then offset_additions env res g else nothing) p =
      tls_offset_entries (res_flags res) (env_kind env) p" for g
    by (cases p; simp add: offset_additions_def nothing_def tls_offset_entries_def entry_if_def kind interposable)
  have module: "count (if needs_got_tls_module (res_flags res) then module_additions env res g else nothing) p =
      tls_module_entries (res_flags res) (env_kind env) p" for g
    using index
    by (cases p; cases "dynamic_symbol_index res";
        simp add: module_additions_def Let_def nothing_def tls_module_entries_def entry_if_def)
  have descriptor: "count (if needs_got_tls_descriptor (res_flags res) then descriptor_additions env res g else nothing) p =
      tls_descriptor_entries (res_flags res) p" for g
    by (cases p; simp add: descriptor_additions_def nothing_def tls_descriptor_entries_def entry_if_def)
  show ?thesis by (simp add: tls_additions_def Let_def offset module descriptor del: count.simps)
qed

lemma count_resolution_additions:
  assumes ok: "resolution_ok env res"
  shows "count (resolution_additions env res) p = entries (res_flags res) (env_relr_enabled env) (env_kind env) p"
proof -
  define fl where "fl = res_flags res"
  define relr where "relr = env_relr_enabled env"
  have fl: "flags_ok fl" using ok by (simp add: resolution_ok_def symbol_ok_def fl_def)
  have has: "got_address res = None \<longleftrightarrow> \<not> (needs_got fl \<or> has_tls_got fl)" "plt_address res = None \<longleftrightarrow> \<not> needs_plt fl"
    using ok by (auto simp: resolution_ok_def fl_def)
  consider (none) "got_address res = None" | (tls) got where "got_address res = Some got" "has_tls_got fl"
    | (address) got where "got_address res = Some got" "\<not> has_tls_got fl" by (cases "got_address res") blast+
  then have "count (resolution_additions env res) p = entries fl relr (env_kind env) p"
  proof cases
    case none
    then show ?thesis
      using fl has by (auto simp: resolution_additions_def entries_def entries_defs flags_ok_def has_tls_got_iff)
  next
    case tls
    then have "got_entries fl relr (env_kind env) p = 0" "ifunc_entries fl relr (env_kind env) p = 0"
      using fl by (auto simp: got_entries_def ifunc_entries_def flags_ok_def)
    with tls ok show ?thesis
      by (simp add: resolution_additions_def fl_def [symmetric] entries_def del: count.simps)
         (simp add: count_tls resolution_ok_def symbol_ok_def fl_def del: count.simps)
  next
    case address
    then have needs: "needs_got fl" using has by simp
    have pointer: "count (pointer_additions env res got) p =
        entry_if True (if got_eligible fl relr (env_kind env) then GOT_RELR else GOT) p
        + pointer_entries fl relr (env_kind env) p"
      using eligible_relr [of fl relr "env_kind env"]
      by (cases "is_ifunc fl"; cases "has_dynamic_symbol fl"; cases "got_eligible fl relr (env_kind env)";
          cases p;
          auto simp: pointer_additions_def Let_def fl_def [symmetric] relr_def [symmetric] pointer_entries_def
            nothing_def entry_if_def flat_entries_def address_slot_def
            got_eligible_def is_got_relr_eligible_def)
    have plt: "count (plt_additions env res got) p = entry_if (needs_plt fl) PLT_GOT p"
      using has by (cases p; auto simp: plt_additions_def nothing_def entry_if_def split: option.splits)
    have ifunc: "count (ifunc_additions env res got) p = ifunc_entries fl relr (env_kind env) p"
      by (simp add: ifunc_additions_def ifunc_entries_def count_address_slot fl_def relr_def del: count.simps)
    have "tls_offset_entries fl (env_kind env) p = 0" "tls_module_entries fl (env_kind env) p = 0"
      "tls_descriptor_entries fl p = 0"
      using address
      by (simp_all add: tls_offset_entries_def tls_module_entries_def tls_descriptor_entries_def has_tls_got_iff)
    with address needs show ?thesis
      by (simp add: resolution_additions_def fl_def [symmetric] entries_def got_entries_def pointer plt ifunc
          del: count.simps)
  qed
  then show ?thesis by (simp add: fl_def relr_def)
qed

end
