(* ===== verification/Got_Symbols.thy ===== *)
theory Got_Symbols
  imports Got_Writer
begin

text \<open>
  The symbols of a group of files together: the layout reserves space for each, then gives out the
  addresses in the same order, and the writer, which is never told where it writes, fills the tables
  entry by entry. Also the check that reld runs on request
  (\<^verbatim>\<open>verify_consistent_allocation_handling\<close> of \<^verbatim>\<open>reld-core/src/layout.rs\<close>), which takes a single
  symbol through all three.
\<close>

section \<open>Addresses of one symbol\<close>

text \<open>The part that holds the first slot of a symbol.\<close>

definition got_part :: "value_flags \<Rightarrow> bool \<Rightarrow> output_kind \<Rightarrow> part" where
  "got_part fl relr kind = (if \<not> has_tls_got fl \<and> got_eligible fl relr kind then GOT_RELR else GOT)"

text \<open>The parts whose addresses are given out; the entries of the others are found by the loader.\<close>

definition addressed :: "part \<Rightarrow> bool" where
  "addressed p \<longleftrightarrow> p = GOT \<or> p = GOT_RELR \<or> p = PLT_GOT"

lemma allocate_got_eq:
  "allocate_got n offsets = Some (got, offsets') \<longleftrightarrow>
     offsets GOT \<noteq> 0 \<and> got = offsets GOT \<and> offsets' = increment GOT (GOT_ENTRY_SIZE * n) offsets"
  "allocate_got_relr offsets = Some (got, offsets') \<longleftrightarrow>
     offsets GOT_RELR \<noteq> 0 \<and> got = offsets GOT_RELR \<and> offsets' = increment GOT_RELR GOT_ENTRY_SIZE offsets"
  "allocate_plt offsets = Some (plt, offsets') \<longleftrightarrow>
     offsets PLT_GOT \<noteq> 0 \<and> plt = offsets PLT_GOT \<and> offsets' = increment PLT_GOT PLT_ENTRY_SIZE offsets"
  by (auto simp: allocate_got_def allocate_got_relr_def allocate_plt_def)

lemma eligible_not_ifunc: "got_eligible fl relr kind \<Longrightarrow> \<not> is_ifunc fl"
  by (simp add: got_eligible_def is_got_relr_eligible_def)

lemma addressed_entries:
  assumes "addressed p"
  shows "ifunc_entries fl relr kind p = entry_if (needs_ifunc_got_for_address fl) GOT p"
    "got_entries fl relr kind p =
       (if needs_got fl \<and> \<not> has_tls_got fl
        then entry_if True (if got_eligible fl relr kind then GOT_RELR else GOT) p + entry_if (needs_plt fl) PLT_GOT p
        else 0)"
    "tls_offset_entries fl kind p = entry_if (needs_got_tls_offset fl) GOT p"
    "tls_module_entries fl kind p = 2 * entry_if (needs_got_tls_module fl) GOT p"
    "tls_descriptor_entries fl p = 2 * entry_if (needs_got_tls_descriptor fl) GOT p"
  using assms by (auto simp: addressed_def entries_defs)

text \<open>The addresses, and how far the memory offsets move: by exactly what was reserved.\<close>

lemma create_resolution_result:
  assumes ok: "flags_ok fl" and res: "create_resolution fl raw index relr kind offsets = Some (res, offsets')"
  shows "res_flags res = fl" "dynamic_symbol_index res = index"
    "got_address res = (if needs_got fl \<or> has_tls_got fl then Some (offsets (got_part fl relr kind)) else None)"
    "plt_address res = (if needs_plt fl then Some (offsets PLT_GOT) else None)"
    "raw_value res = (if needs_plt fl \<and> is_dynamic fl then offsets PLT_GOT else raw)"
    "offsets' p = offsets p + (if addressed p then entry_size p * of_nat (entries fl relr kind p) else 0)"
proof -
  show "res_flags res = fl" "dynamic_symbol_index res = index"
    "got_address res = (if needs_got fl \<or> has_tls_got fl then Some (offsets (got_part fl relr kind)) else None)"
    "plt_address res = (if needs_plt fl then Some (offsets PLT_GOT) else None)"
    "raw_value res = (if needs_plt fl \<and> is_dynamic fl then offsets PLT_GOT else raw)"
    using ok res eligible_not_ifunc [of fl relr kind]
    by (auto simp: create_resolution_def Let_def flags_ok_def got_part_def allocate_got_eq increment_def
        got_eligible_def [symmetric] split: if_splits option.splits)
  show "offsets' p = offsets p + (if addressed p then entry_size p * of_nat (entries fl relr kind p) else 0)"
  proof (cases "addressed p")
    case False
    then show ?thesis
      using ok res
      by (auto simp: create_resolution_def Let_def allocate_got_eq increment_def addressed_def
          got_eligible_def [symmetric] split: if_splits option.splits)
  next
    case True
    then show ?thesis
      using ok res eligible_not_ifunc [of fl relr kind]
      by (cases p; auto simp: create_resolution_def Let_def flags_ok_def allocate_got_eq increment_apply
          entries_def addressed_entries addressed_def entry_if_def num_tls_slots_def has_tls_got_iff
          got_eligible_def [symmetric] entry_sizes split: if_splits option.splits)
  qed
qed

lemma create_resolution_total:
  assumes "offsets GOT \<noteq> 0" "offsets GOT_RELR \<noteq> 0" "offsets PLT_GOT \<noteq> 0"
  obtains res offsets' where "create_resolution fl raw index relr kind offsets = Some (res, offsets')"
proof -
  have "create_resolution fl raw index relr kind offsets \<noteq> None"
    using assms
    by (auto simp: create_resolution_def allocate_got_def allocate_got_relr_def allocate_plt_def
        increment_def Let_def split: if_splits)
  then show thesis using that by (cases "create_resolution fl raw index relr kind offsets") auto
qed

section \<open>The symbols of a group\<close>

record symbol =
  sym_flags :: value_flags
  sym_raw :: u64
  sym_index :: "u32 option"

text \<open>
  The loops over the symbols: sizes (\<^verbatim>\<open>finalise_symbol_sizes\<close>), addresses (\<^verbatim>\<open>default_create_resolutions\<close>
  and its siblings, with the values and dynamic indexes of the symbols as arguments) and entries
  (\<^verbatim>\<open>write_internal_symbols_plt_got_entries\<close> and its siblings). All go over the symbols in the same order.
\<close>

fun allocate_symbols :: "bool \<Rightarrow> output_kind \<Rightarrow> symbol list \<Rightarrow> part_map \<Rightarrow> part_map" where
  "allocate_symbols relr kind [] sizes = sizes"
| "allocate_symbols relr kind (s # ss) sizes =
     allocate_symbols relr kind ss (allocate_resolution (sym_flags s) relr kind sizes)"

fun create_symbols :: "bool \<Rightarrow> output_kind \<Rightarrow> symbol list \<Rightarrow> part_map \<Rightarrow> (resolution list \<times> part_map) option" where
  "create_symbols relr kind [] offsets = Some ([], offsets)"
| "create_symbols relr kind (s # ss) offsets =
     (case create_resolution (sym_flags s) (sym_raw s) (sym_index s) relr kind offsets of
        None \<Rightarrow> None
      | Some (res, offsets) \<Rightarrow> map_option (apfst ((#) res)) (create_symbols relr kind ss offsets))"

fun process_symbols :: "writer_env \<Rightarrow> resolution list \<Rightarrow> table_writer \<Rightarrow> got_error fault + table_writer" where
  "process_symbols env [] w = Inr w"
| "process_symbols env (res # rs) w = and_then (process_resolution env res w) (process_symbols env rs)"

text \<open>\<^verbatim>\<open>TableWriter::new\<close> gives each table its part of the output; the end check is \<^verbatim>\<open>validate_empty\<close>.\<close>

definition part_entries :: "part_map \<Rightarrow> part \<Rightarrow> nat" where
  "part_entries sizes p = unat (sizes p) div unat (entry_size p)"

definition new_tables :: "part_map \<Rightarrow> bool \<Rightarrow> got_error fault + table_writer" where
  "new_tables sizes relr =
     (if list_all (\<lambda>p. unat (entry_size p) dvd unat (sizes p)) [GOT, GOT_RELR, RELA_PLT, RELA_DYN_RELATIVE, RELA_DYN_GENERAL]
         \<and> (relr \<longrightarrow> unat (entry_size RELR_DYN) dvd unat (sizes RELR_DYN))
      then Inr \<lparr>got_table = (part_entries sizes GOT, []), got_relr_table = (part_entries sizes GOT_RELR, []),
        plt_got_table = (part_entries sizes PLT_GOT, []), rela_plt_table = (part_entries sizes RELA_PLT, []),
        rela_dyn_general_table = (part_entries sizes RELA_DYN_GENERAL, []),
        rela_dyn_relative_table = (part_entries sizes RELA_DYN_RELATIVE, []),
        relr_dyn_table = (if relr \<and> sizes RELR_DYN \<noteq> 0 then Some (part_entries sizes RELR_DYN, []) else None)\<rparr>
      else Inl Panic)"

definition validate_empty :: "table_writer \<Rightarrow> got_error fault + unit" where
  "validate_empty w =
     (if fst (got_table w) \<noteq> 0 then Inl (Err (ExcessiveAllocation GOT))
      else if fst (got_relr_table w) \<noteq> 0 then Inl (Err (ExcessiveAllocation GOT_RELR))
      else if fst (rela_dyn_relative_table w) \<noteq> 0 then Inl (Err (ExcessiveAllocation RELA_DYN_RELATIVE))
      else if fst (rela_dyn_general_table w) \<noteq> 0 then Inl (Err (ExcessiveAllocation RELA_DYN_GENERAL))
      else case relr_dyn_table w of
        Some t \<Rightarrow> if fst t \<noteq> 0 then Inl (Err (ExcessiveAllocation RELR_DYN)) else Inr ()
      | None \<Rightarrow> Inr ())"

text \<open>The self-check: one symbol with value 0 through sizes, addresses and entries, without a layout.\<close>

definition verify_resolution_allocation ::
    "writer_env \<Rightarrow> part_map \<Rightarrow> resolution \<Rightarrow> got_error fault + unit" where
  "verify_resolution_allocation env mem_sizes res =
     and_then (new_tables mem_sizes (env_relr_enabled env)) (\<lambda>w.
     and_then (process_resolution (env\<lparr>tls_start := 0, tls_end := 100, has_layout := False\<rparr>) res w)
       validate_empty)"

definition verify_consistent_allocation_handling ::
    "writer_env \<Rightarrow> value_flags \<Rightarrow> got_error fault + unit" where
  "verify_consistent_allocation_handling env fl =
     (let kind = env_kind env;
          relr = env_relr_enabled env;
          mem_sizes = allocate_resolution fl relr kind (\<lambda>_. 0);
          memory_offsets = (\<lambda>p. if p = GOT \<or> p = GOT_RELR \<or> p = PLT_GOT then 0x10 else 0);
          dynamic_index = (if has_dynamic_symbol fl then Some 1 else None)
      in case create_resolution fl 0 dynamic_index relr kind memory_offsets of
        None \<Rightarrow> Inl Panic
      | Some (res, _) \<Rightarrow> verify_resolution_allocation env mem_sizes res)"

section \<open>Entries of a group\<close>

definition group_entries :: "bool \<Rightarrow> output_kind \<Rightarrow> symbol list \<Rightarrow> part \<Rightarrow> nat" where
  "group_entries relr kind ss p = (\<Sum>s\<leftarrow>ss. entries (sym_flags s) relr kind p)"

text \<open>The tables of the group are smaller than the address space.\<close>

definition group_fits :: "bool \<Rightarrow> output_kind \<Rightarrow> symbol list \<Rightarrow> bool" where
  "group_fits relr kind ss \<longleftrightarrow> (\<forall>p. unat (entry_size p) * group_entries relr kind ss p < 2 ^ 64)"

lemma allocate_symbols_entries:
  "allocate_symbols relr kind ss sizes p = sizes p + entry_size p * of_nat (group_entries relr kind ss p)"
  by (induction ss arbitrary: sizes) (simp_all add: group_entries_def allocate_resolution_entries algebra_simps)

lemma entry_size_pos: "0 < unat (entry_size p)"
  by (cases p) (simp_all add: entry_sizes)

lemma allocated_bytes:
  assumes "group_fits relr kind ss"
  shows "unat (allocate_symbols relr kind ss (\<lambda>_. 0) p) = unat (entry_size p) * group_entries relr kind ss p"
proof -
  define n where "n = unat (entry_size p) * group_entries relr kind ss p"
  have "allocate_symbols relr kind ss (\<lambda>_. 0) p = of_nat n"
    by (simp add: allocate_symbols_entries n_def)
  moreover have "n < 2 ^ 64" using assms by (simp add: group_fits_def n_def)
  then have "unat (of_nat n :: u64) = n"
    by (subst unsigned_of_nat) (simp add: take_bit_nat_eq_self del: take_bit_of_nat)
  ultimately show ?thesis by (simp only: n_def)
qed

lemma entries_relr_off: "\<not> relr \<Longrightarrow> entries fl relr kind RELR_DYN = 0"
  by (simp add: entries_def entries_defs)

lemma group_entries_relr_off: "\<not> relr \<Longrightarrow> group_entries relr kind ss RELR_DYN = 0"
  by (simp add: group_entries_def entries_relr_off)

text \<open>The tables of a group hold its entries and no more.\<close>

lemma new_tables_group:
  assumes "group_fits relr kind ss"
  obtains w where "new_tables (allocate_symbols relr kind ss (\<lambda>_. 0)) relr = Inr w" "relr_off relr w"
    "\<And>p. rooms w p = group_entries relr kind ss p" "\<And>p. used w p = 0"
proof -
  define sizes where "sizes = allocate_symbols relr kind ss (\<lambda>_. 0)"
  have bytes: "unat (sizes p) = unat (entry_size p) * group_entries relr kind ss p" for p
    using allocated_bytes [OF assms] by (simp add: sizes_def)
  then have part: "part_entries sizes p = group_entries relr kind ss p" for p
    using entry_size_pos [of p] by (simp add: part_entries_def)
  have no_relr: "sizes RELR_DYN = 0 \<longleftrightarrow> group_entries relr kind ss RELR_DYN = 0"
    using bytes [of RELR_DYN] entry_size_pos [of RELR_DYN] by (metis mult_is_0 less_numeral_extra(3) unat_eq_zero)
  obtain w where w: "new_tables sizes relr = Inr w" by (auto simp: new_tables_def bytes)
  have "rooms w p = group_entries relr kind ss p" "used w p = 0" for p
    using w no_relr group_entries_relr_off [of relr kind ss]
    by (cases p; auto simp: new_tables_def part split: if_splits)+
  moreover have "relr_off relr w" using w by (auto simp: new_tables_def relr_off_def split: if_splits)
  ultimately show thesis using that w by (simp add: sizes_def)
qed

lemma symbol_resolution_ok:
  assumes ok: "symbol_ok env fl raw index"
    and res: "create_resolution fl raw index (env_relr_enabled env) (env_kind env) offsets = Some (res, offsets')"
    and even: "2 dvd offsets GOT" "2 dvd offsets GOT_RELR"
    and plt: "\<And>got plt. got_address res = Some got \<Longrightarrow> plt_address res = Some plt \<Longrightarrow> arch_plt_entry env got plt \<noteq> None"
  shows "resolution_ok env res"
proof -
  have flags: "flags_ok fl" using ok by (simp add: symbol_ok_def)
  note result = create_resolution_result [OF flags res]
  have "symbol_ok env (res_flags res) (raw_value res) (dynamic_symbol_index res)"
    using ok flags by (auto simp: result symbol_ok_def flags_ok_def)
  moreover have "2 dvd got" if "got_address res = Some got" for got
    using that even by (auto simp: result got_part_def split: if_splits)
  ultimately show ?thesis
    using plt flags by (auto simp: resolution_ok_def result flags_ok_def split: if_splits)
qed

text \<open>The addresses stay even.\<close>

lemma create_resolution_even:
  assumes "flags_ok fl" "create_resolution fl raw index relr kind offsets = Some (res, offsets')"
    "2 dvd offsets GOT" "2 dvd offsets GOT_RELR"
  shows "2 dvd offsets' GOT" "2 dvd offsets' GOT_RELR"
  using assms create_resolution_result(6) [OF assms(1, 2)]
  by (simp_all add: addressed_def entry_sizes)

definition plt_encodable :: "writer_env \<Rightarrow> resolution \<Rightarrow> bool" where
  "plt_encodable env res \<longleftrightarrow>
     (\<forall>got plt. got_address res = Some got \<and> plt_address res = Some plt \<longrightarrow> arch_plt_entry env got plt \<noteq> None)"

definition symbols_ok :: "writer_env \<Rightarrow> symbol list \<Rightarrow> bool" where
  "symbols_ok env ss \<longleftrightarrow> list_all (\<lambda>s. symbol_ok env (sym_flags s) (sym_raw s) (sym_index s)) ss"

text \<open>
  The state of the writer while it goes through the symbols: the tables and the memory offsets agree, the
  next slot of every addressed part is at the memory offset of that part.
\<close>

definition in_step :: "part_map \<Rightarrow> table_writer \<Rightarrow> part_map \<Rightarrow> bool" where
  "in_step base w offsets \<longleftrightarrow> (\<forall>p. addressed p \<longrightarrow> offsets p = base p + entry_size p * of_nat (used w p))"

lemma fillsD:
  "fills relr f a \<Longrightarrow> relr_off relr w \<Longrightarrow> (\<And>p. count a p \<le> rooms w p) \<Longrightarrow> f w = Inr (add_tables a w)"
  by (simp add: fills_def)

lemma add_tables_simps:
  assumes "\<And>p. count a p \<le> rooms w p"
  shows "rooms (add_tables a w) p = rooms w p - count a p" "used (add_tables a w) p = used w p + count a p"
    "relr_off relr (add_tables a w) \<longleftrightarrow> relr_off relr w"
  using assms [of p] by (cases p; auto simp: add_tables_def fill_def relr_off_def split: option.splits)+

text \<open>One symbol: the writer succeeds, takes the entries of the symbol and stays in step.\<close>

lemma process_one:
  assumes ok: "symbol_ok env fl raw index"
    and res: "create_resolution fl raw index (env_relr_enabled env) (env_kind env) offsets = Some (res, offsets')"
    and even: "2 dvd offsets GOT" "2 dvd offsets GOT_RELR" and plt: "plt_encodable env res"
    and w: "relr_off (env_relr_enabled env) w"
    and room: "\<And>p. entries fl (env_relr_enabled env) (env_kind env) p \<le> rooms w p"
    and step: "in_step base w offsets"
  defines "w' \<equiv> add_tables (resolution_additions env res) w"
  shows "process_resolution env res w = Inr w'" "in_step base w' offsets'"
    "rooms w' p = rooms w p - entries fl (env_relr_enabled env) (env_kind env) p"
    "used w' p = used w p + entries fl (env_relr_enabled env) (env_kind env) p"
    "relr_off (env_relr_enabled env) w'"
proof -
  have flags: "flags_ok fl" using ok by (simp add: symbol_ok_def)
  have res_ok: "resolution_ok env res"
    using plt by (intro symbol_resolution_ok [OF ok res even]) (auto simp: plt_encodable_def)
  have count: "count (resolution_additions env res) p = entries fl (env_relr_enabled env) (env_kind env) p" for p
    using count_resolution_additions [OF res_ok] create_resolution_result(1) [OF flags res] by simp
  have fit: "count (resolution_additions env res) p \<le> rooms w p" for p
    using room count by simp
  show "process_resolution env res w = Inr w'"
    unfolding w'_def by (rule fillsD [OF fills_process_resolution [OF res_ok] w fit])
  note simps = add_tables_simps [of "resolution_additions env res", OF fit, folded w'_def, unfolded count]
  show "rooms w' p = rooms w p - entries fl (env_relr_enabled env) (env_kind env) p"
    "used w' p = used w p + entries fl (env_relr_enabled env) (env_kind env) p"
    "relr_off (env_relr_enabled env) w'"
    using w by (simp_all add: simps)
  show "in_step base w' offsets'"
    using step create_resolution_result(6) [OF flags res]
    by (simp add: in_step_def simps algebra_simps)
qed

text \<open>All symbols: induction over the group.\<close>

fun group_additions :: "writer_env \<Rightarrow> resolution list \<Rightarrow> additions" where
  "group_additions env [] = nothing"
| "group_additions env (res # rs) = also_add (resolution_additions env res) (group_additions env rs)"

lemma add_tables_also_add: "add_tables b (add_tables a w) = add_tables (also_add a b) w"
  by (simp add: add_tables_def also_add_def fill_fill option.map_comp comp_def)

lemma create_symbols_Cons:
  assumes "create_symbols relr kind (s # ss) offsets = Some (rs, offsets')"
  obtains res rs' offsets1 where "rs = res # rs'"
    "create_resolution (sym_flags s) (sym_raw s) (sym_index s) relr kind offsets = Some (res, offsets1)"
    "create_symbols relr kind ss offsets1 = Some (rs', offsets')"
  using assms by (auto split: option.splits)

lemma create_symbols_append:
  assumes "create_symbols relr kind (ss @ ts) offsets = Some (rs, offsets')"
  obtains rs1 rs2 offsets1 where "rs = rs1 @ rs2" "length rs1 = length ss"
    "create_symbols relr kind ss offsets = Some (rs1, offsets1)"
    "create_symbols relr kind ts offsets1 = Some (rs2, offsets')"
  using assms
proof (induction ss arbitrary: offsets rs thesis)
  case Nil
  then show ?case by (metis append_Nil create_symbols.simps(1) list.size(3))
next
  case (Cons s ss)
  from Cons.prems(2) have "create_symbols relr kind (s # (ss @ ts)) offsets = Some (rs, offsets')" by simp
  then obtain res rs' o1 where rs: "rs = res # rs'"
    "create_resolution (sym_flags s) (sym_raw s) (sym_index s) relr kind offsets = Some (res, o1)"
    "create_symbols relr kind (ss @ ts) o1 = Some (rs', offsets')"
    by (rule create_symbols_Cons)
  from Cons.IH [OF _ rs(3)] obtain rs1 rs2 o2 where "rs' = rs1 @ rs2" "length rs1 = length ss"
    "create_symbols relr kind ss o1 = Some (rs1, o2)" "create_symbols relr kind ts o2 = Some (rs2, offsets')" by blast
  with rs Cons.prems(1) [of "res # rs1" rs2 o2] show ?case by simp
qed

lemma group_entries_simps [simp]:
  "group_entries relr kind [] p = 0"
  "group_entries relr kind (s # ss) p = entries (sym_flags s) relr kind p + group_entries relr kind ss p"
  "group_entries relr kind (ss @ ts) p = group_entries relr kind ss p + group_entries relr kind ts p"
  by (simp_all add: group_entries_def)

lemma process_group:
  assumes "symbols_ok env ss"
    and "create_symbols (env_relr_enabled env) (env_kind env) ss offsets = Some (rs, offsets')"
    and "2 dvd offsets GOT" "2 dvd offsets GOT_RELR" "list_all (plt_encodable env) rs"
    and "relr_off (env_relr_enabled env) w"
    and "\<And>p. group_entries (env_relr_enabled env) (env_kind env) ss p \<le> rooms w p"
    and "in_step base w offsets"
  defines "w' \<equiv> add_tables (group_additions env rs) w"
  shows "process_symbols env rs w = Inr w' \<and> in_step base w' offsets' \<and> 2 dvd offsets' GOT \<and> 2 dvd offsets' GOT_RELR
     \<and> relr_off (env_relr_enabled env) w'
     \<and> (\<forall>p. rooms w' p = rooms w p - group_entries (env_relr_enabled env) (env_kind env) ss p
          \<and> used w' p = used w p + group_entries (env_relr_enabled env) (env_kind env) ss p)"
  using assms(1-8) unfolding w'_def
proof (induction ss arbitrary: offsets rs w)
  case Nil
  then show ?case by (simp add: add_nothing)
next
  case (Cons s ss)
  from Cons.prems(2) obtain res rs' o1 where rs: "rs = res # rs'"
    and res: "create_resolution (sym_flags s) (sym_raw s) (sym_index s) (env_relr_enabled env) (env_kind env) offsets
      = Some (res, o1)"
    and rest: "create_symbols (env_relr_enabled env) (env_kind env) ss o1 = Some (rs', offsets')"
    by (rule create_symbols_Cons)
  have ok: "symbol_ok env (sym_flags s) (sym_raw s) (sym_index s)" and oks: "symbols_ok env ss"
    using Cons.prems(1) by (simp_all add: symbols_ok_def)
  have flags: "flags_ok (sym_flags s)" using ok by (simp add: symbol_ok_def)
  have plt: "plt_encodable env res" and plts: "list_all (plt_encodable env) rs'" using Cons.prems(5) by (simp_all add: rs)
  define w1 where "w1 = add_tables (resolution_additions env res) w"
  have room: "entries (sym_flags s) (env_relr_enabled env) (env_kind env) p \<le> rooms w p" for p
    using Cons.prems(7) [of p] by simp
  note one = process_one [OF ok res Cons.prems(3,4) plt Cons.prems(6) room Cons.prems(8), folded w1_def]
  have rooms1: "group_entries (env_relr_enabled env) (env_kind env) ss p \<le> rooms w1 p" for p
    using Cons.prems(7) [of p] by (simp add: one(3))
  note IH = Cons.IH [OF oks rest create_resolution_even [OF flags res Cons.prems(3,4)] plts one(5) rooms1 one(2)]
  from IH one show ?case
    by (simp add: rs w1_def add_tables_also_add [symmetric])
qed

text \<open>The hypotheses on a group.\<close>

definition group_ok :: "writer_env \<Rightarrow> symbol list \<Rightarrow> part_map \<Rightarrow> resolution list \<Rightarrow> part_map \<Rightarrow> bool" where
  "group_ok env ss base rs offsets \<longleftrightarrow>
     symbols_ok env ss \<and> group_fits (env_relr_enabled env) (env_kind env) ss
     \<and> 2 dvd base GOT \<and> 2 dvd base GOT_RELR
     \<and> create_symbols (env_relr_enabled env) (env_kind env) ss base = Some (rs, offsets)
     \<and> list_all (plt_encodable env) rs"

text \<open>C17: the three passes over a group agree. The tables that are sized by \<open>allocate_symbols\<close> are filled
  completely by \<open>process_symbols\<close>, with exactly the entries of every symbol in order; the final check
  passes, and nothing is left in the two tables that it does not look at; the memory offsets have moved
  over exactly the reserved bytes.
\<close>

theorem group_tables_exact:
  assumes "group_ok env ss base rs offsets"
  shows "\<exists>w w'.
     new_tables (allocate_symbols (env_relr_enabled env) (env_kind env) ss (\<lambda>_. 0)) (env_relr_enabled env) = Inr w
     \<and> process_symbols env rs w = Inr w' \<and> validate_empty w' = Inr ()
     \<and> fst (plt_got_table w') = 0 \<and> fst (rela_plt_table w') = 0
     \<and> snd (got_table w') = add_got (group_additions env rs)
     \<and> snd (got_relr_table w') = add_got_relr (group_additions env rs)
     \<and> snd (plt_got_table w') = add_plt (group_additions env rs)
     \<and> snd (rela_plt_table w') = add_rela_plt (group_additions env rs)
     \<and> snd (rela_dyn_general_table w') = add_general (group_additions env rs)
     \<and> snd (rela_dyn_relative_table w') = add_relative (group_additions env rs)
     \<and> (\<forall>p. addressed p \<longrightarrow>
          offsets p - base p = allocate_symbols (env_relr_enabled env) (env_kind env) ss (\<lambda>_. 0) p)"
proof -
  have ok: "symbols_ok env ss" "group_fits (env_relr_enabled env) (env_kind env) ss" "2 dvd base GOT" "2 dvd base GOT_RELR"
    "create_symbols (env_relr_enabled env) (env_kind env) ss base = Some (rs, offsets)" "list_all (plt_encodable env) rs"
    using assms by (auto simp: group_ok_def)
  obtain w where new: "new_tables (allocate_symbols (env_relr_enabled env) (env_kind env) ss (\<lambda>_. 0)) (env_relr_enabled env) = Inr w"
    and w: "relr_off (env_relr_enabled env) w"
    and room: "\<And>p. rooms w p = group_entries (env_relr_enabled env) (env_kind env) ss p" and used: "\<And>p. used w p = 0"
    using new_tables_group [OF ok(2)] by blast
  define w' where "w' = add_tables (group_additions env rs) w"
  have step: "in_step base w base" by (simp add: in_step_def used del: used.simps)
  have run: "process_symbols env rs w = Inr w'" "in_step base w' offsets" "\<And>p. rooms w' p = 0"
    "\<And>p. used w' p = group_entries (env_relr_enabled env) (env_kind env) ss p"
    using process_group [OF ok(1,5,3,4,6) w _ step] room used by (simp_all add: w'_def del: rooms.simps used.simps)
  have "validate_empty w' = Inr ()"
    using run(3) [of GOT] run(3) [of GOT_RELR] run(3) [of RELA_DYN_RELATIVE] run(3) [of RELA_DYN_GENERAL] run(3) [of RELR_DYN]
    by (auto simp: validate_empty_def split: option.splits)
  moreover have "fst (plt_got_table w') = 0" "fst (rela_plt_table w') = 0"
    using run(3) [of PLT_GOT] run(3) [of RELA_PLT] by simp_all
  moreover have "offsets p - base p = allocate_symbols (env_relr_enabled env) (env_kind env) ss (\<lambda>_. 0) p"
    if "addressed p" for p
    using that run(2,4) by (simp add: in_step_def allocate_symbols_entries del: used.simps)
  moreover have "snd (got_table w) = []" "snd (got_relr_table w) = []" "snd (plt_got_table w) = []"
    "snd (rela_plt_table w) = []" "snd (rela_dyn_general_table w) = []" "snd (rela_dyn_relative_table w) = []"
    using used [of GOT] used [of GOT_RELR] used [of PLT_GOT] used [of RELA_PLT] used [of RELA_DYN_GENERAL]
      used [of RELA_DYN_RELATIVE] by simp_all
  ultimately show ?thesis
    using new run(1) by (intro exI [of _ w] exI [of _ w']) (simp add: w'_def add_tables_def fill_def)
qed

section \<open>Every slot is at its address\<close>

lemma create_symbols_length: "create_symbols relr kind ss offsets = Some (rs, offsets') \<Longrightarrow> length rs = length ss"
  by (induction ss arbitrary: offsets rs) (auto split: option.splits)

lemma group_additions_append: "group_additions env (rs @ ts) = also_add (group_additions env rs) (group_additions env ts)"
  by (induction rs) (simp_all add: nothing_def also_add_def)

lemma process_symbols_append:
  "process_symbols env (rs @ ts) w = and_then (process_symbols env rs w) (process_symbols env ts)"
  by (induction rs arbitrary: w) (simp_all add: and_then_def split: sum.splits)

text \<open>The symbols before one of a group leave the tables in step with the addresses that it is given.\<close>

lemma group_prefix:
  assumes ok: "group_ok env ss base (rs1 @ res # rs2) offsets"
    and new: "new_tables (allocate_symbols (env_relr_enabled env) (env_kind env) ss (\<lambda>_. 0)) (env_relr_enabled env) = Inr w"
  obtains s :: symbol and o1 o2 where "flags_ok (sym_flags s)"
    "create_resolution (sym_flags s) (sym_raw s) (sym_index s) (env_relr_enabled env) (env_kind env) o1 = Some (res, o2)"
    "in_step base (add_tables (group_additions env rs1) w) o1"
    "process_symbols env rs1 w = Inr (add_tables (group_additions env rs1) w)"
    "process_symbols env (rs1 @ res # rs2) w = Inr (add_tables (group_additions env (rs1 @ res # rs2)) w)"
    "\<forall>p. used w p = 0" "resolution_ok env res"
proof -
  define relr where "relr = env_relr_enabled env"
  define kind where "kind = env_kind env"
  have oks: "symbols_ok env ss" "group_fits relr kind ss" "2 dvd base GOT" "2 dvd base GOT_RELR"
    "create_symbols relr kind ss base = Some (rs1 @ res # rs2, offsets)" "list_all (plt_encodable env) (rs1 @ res # rs2)"
    using ok by (auto simp: group_ok_def relr_def kind_def)
  obtain v where "new_tables (allocate_symbols relr kind ss (\<lambda>_. 0)) relr = Inr v" "relr_off relr v"
    "\<And>p. rooms v p = group_entries relr kind ss p" "\<And>p. used v p = 0"
    using new_tables_group [OF oks(2)] by blast
  with new have w: "relr_off relr w" and room: "\<And>p. rooms w p = group_entries relr kind ss p" and used: "\<And>p. used w p = 0"
    by (simp_all add: relr_def kind_def)
  have step: "in_step base w base" by (simp add: in_step_def used del: used.simps)
  have "length ss = length rs1 + Suc (length rs2)" using create_symbols_length [OF oks(5)] by simp
  then have ss: "ss = take (length rs1) ss @ drop (length rs1) ss" "length (take (length rs1) ss) = length rs1"
    "drop (length rs1) ss \<noteq> []" by auto
  then obtain s ss2 where tail: "drop (length rs1) ss = s # ss2" by (cases "drop (length rs1) ss") auto
  define ss1 where "ss1 = take (length rs1) ss"
  have split: "ss = ss1 @ s # ss2" "length ss1 = length rs1" using ss tail by (simp_all add: ss1_def)
  from oks(5) [unfolded split(1)] obtain q1 q2 o1 where q: "rs1 @ res # rs2 = q1 @ q2" "length q1 = length ss1"
    "create_symbols relr kind ss1 base = Some (q1, o1)" "create_symbols relr kind (s # ss2) o1 = Some (q2, offsets)"
    by (rule create_symbols_append)
  then have q_eq: "q1 = rs1" "q2 = res # rs2" using split(2) by auto
  from q(4) [unfolded q_eq] obtain o2 where
    res: "create_resolution (sym_flags s) (sym_raw s) (sym_index s) relr kind o1 = Some (res, o2)"
    by (rule create_symbols_Cons) auto
  have ok1: "symbols_ok env ss1" "list_all (plt_encodable env) rs1" "symbol_ok env (sym_flags s) (sym_raw s) (sym_index s)"
    "plt_encodable env res"
    using oks(1,6) by (simp_all add: split symbols_ok_def)
  have room1: "group_entries relr kind ss1 p \<le> rooms w p" for p
    unfolding room split(1) by simp
  have run1: "process_symbols env rs1 w = Inr (add_tables (group_additions env rs1) w)"
    "in_step base (add_tables (group_additions env rs1) w) o1" "2 dvd o1 GOT" "2 dvd o1 GOT_RELR"
    using process_group [of env ss1 base rs1 o1 w base] ok1 q(3) oks(3,4) w room1 step
    by (simp_all add: q_eq relr_def kind_def del: rooms.simps used.simps)
  have run: "process_symbols env (rs1 @ res # rs2) w = Inr (add_tables (group_additions env (rs1 @ res # rs2)) w)"
    using process_group [of env ss base "rs1 @ res # rs2" offsets w base] oks w room step
    by (simp add: relr_def kind_def del: rooms.simps used.simps)
  have res_ok: "resolution_ok env res"
    using ok1(4) by (intro symbol_resolution_ok [OF ok1(3) res [unfolded relr_def kind_def] run1(3,4)])
      (auto simp: plt_encodable_def)
  have flags: "flags_ok (sym_flags s)" using ok1(3) by (simp add: symbol_ok_def)
  have "\<forall>p. used w p = 0" by (simp add: used del: used.simps)
  from that [OF flags res [unfolded relr_def kind_def] run1(2) run1(1) run this res_ok] show thesis .
qed

text \<open>C18: the writer, which only ever takes the next entry, writes every entry where the layout said. In
  the final tables the entries of a symbol stand together, at the index whose address is the symbol's
  address in the global offset table (or in its packed part), and its linkage table entry at the
  index of its linkage table address.
\<close>

theorem slots_at_their_addresses:
  assumes ok: "group_ok env ss base (rs1 @ res # rs2) offsets"
    and new: "new_tables (allocate_symbols (env_relr_enabled env) (env_kind env) ss (\<lambda>_. 0)) (env_relr_enabled env) = Inr w"
    and run: "process_symbols env (rs1 @ res # rs2) w = Inr w'"
  defines "a \<equiv> resolution_additions env res"
  shows "\<exists>i j k.
     take (length (add_got a)) (drop i (snd (got_table w'))) = add_got a
     \<and> take (length (add_got_relr a)) (drop j (snd (got_relr_table w'))) = add_got_relr a
     \<and> take (length (add_plt a)) (drop k (snd (plt_got_table w'))) = add_plt a
     \<and> (got_address res = None \<or> got_address res =
          Some (if got_part (res_flags res) (env_relr_enabled env) (env_kind env) = GOT then base GOT + 8 * of_nat i
                else base GOT_RELR + 8 * of_nat j))
     \<and> (plt_address res = None \<or> plt_address res = Some (base PLT_GOT + 16 * of_nat k))"
proof -
  obtain s :: symbol and o1 o2 where s: "flags_ok (sym_flags s)"
    "create_resolution (sym_flags s) (sym_raw s) (sym_index s) (env_relr_enabled env) (env_kind env) o1 = Some (res, o2)"
    and step: "in_step base (add_tables (group_additions env rs1) w) o1"
    and "process_symbols env rs1 w = Inr (add_tables (group_additions env rs1) w)"
    and final: "process_symbols env (rs1 @ res # rs2) w = Inr (add_tables (group_additions env (rs1 @ res # rs2)) w)"
    and used: "\<forall>p. used w p = 0" and "resolution_ok env res"
    by (rule group_prefix [OF ok new])
  define b where "b = group_additions env rs1"
  have w': "w' = add_tables (also_add b (also_add a (group_additions env rs2))) w"
    using run final by (simp add: group_additions_append a_def b_def)
  have empty: "snd (got_table w) = []" "snd (got_relr_table w) = []" "snd (plt_got_table w) = []"
    using used [rule_format, of GOT] used [rule_format, of GOT_RELR] used [rule_format, of PLT_GOT] by simp_all
  note result = create_resolution_result [OF s]
  have o1: "o1 GOT = base GOT + 8 * of_nat (length (add_got b))"
    "o1 GOT_RELR = base GOT_RELR + 8 * of_nat (length (add_got_relr b))"
    "o1 PLT_GOT = base PLT_GOT + 16 * of_nat (length (add_plt b))"
    using step by (simp_all add: in_step_def addressed_def add_tables_def fill_def empty entry_sizes b_def)
  show ?thesis
    by (intro exI [of _ "length (add_got b)"] exI [of _ "length (add_got_relr b)"] exI [of _ "length (add_plt b)"])
      (auto simp: w' add_tables_def fill_def also_add_def empty result o1 got_part_def)
qed

section \<open>One symbol\<close>

text \<open>C19: the writer refines the list of entries. On tables with enough room, \<open>process_resolution\<close>, which
  takes slots and patches them later and may fail at every step, succeeds and appends exactly
  \<open>resolution_additions\<close>; and the entries it takes from every table are the bytes that
  \<open>allocate_resolution\<close> reserves for the symbol's flags.
\<close>

theorem writer_appends_entries:
  assumes ok: "resolution_ok env res" and w: "relr_off (env_relr_enabled env) w"
    and room: "\<forall>p. entries (res_flags res) (env_relr_enabled env) (env_kind env) p \<le> rooms w p"
  defines "w' \<equiv> add_tables (resolution_additions env res) w"
  shows "process_resolution env res w = Inr w'
     \<and> allocate_resolution (res_flags res) (env_relr_enabled env) (env_kind env) sizes p
       = sizes p + entry_size p * of_nat (rooms w p - rooms w' p)
     \<and> used w' p = used w p + (rooms w p - rooms w' p)"
proof -
  note count = count_resolution_additions [OF ok]
  have fit: "count (resolution_additions env res) p \<le> rooms w p" for p
    using room by (simp add: count)
  note simps = add_tables_simps [of "resolution_additions env res", OF fit, folded w'_def, unfolded count]
  have "process_resolution env res w = Inr w'"
    unfolding w'_def by (rule fillsD [OF fills_process_resolution [OF ok] w fit])
  then show ?thesis
    using room by (simp add: simps allocate_resolution_entries)
qed

definition slot_at :: "additions \<Rightarrow> u64 \<Rightarrow> u64 \<Rightarrow> u64" where
  "slot_at a got address = add_got a ! (unat (address - got) div 8)"

lemma slot_index: "unat (of_nat n * 8 + (got :: u64) - got) div 8 = n" if "n < 8"
  using that by (simp add: unat_word_ariths unsigned_of_nat take_bit_nat_eq_self)


section \<open>The self-check\<close>

lemma entries_bound: "entries fl relr kind p \<le> 12"
  by (cases p) (simp_all add: entries_def entries_defs)

lemma entry_size_bound: "unat (entry_size p) \<le> 24"
  by (cases p) (simp_all add: entry_sizes)

lemma one_symbol_fits: "group_fits relr kind [s]"
proof -
  have "unat (entry_size p) * entries (sym_flags s) relr kind p < 2 ^ 64" for p
    by (rule le_less_trans [OF mult_le_mono [OF entry_size_bound entries_bound]]) simp
  then show ?thesis by (simp add: group_fits_def)
qed

definition verifiable :: "writer_env \<Rightarrow> value_flags \<Rightarrow> bool" where
  "verifiable env fl \<longleftrightarrow>
     flags_ok fl \<and> arch_plt_entry env 0x10 0x10 \<noteq> None
     \<and> (needs_got_tls_module fl \<longrightarrow> (if has_dynamic_symbol fl then is_interposable fl else is_address fl))
     \<and> (needs_got_tls_descriptor fl \<longrightarrow> \<not> is_static_executable (env_kind env))"

text \<open>what the self-check reports. For flags without an access through the thread pointer it agrees that
  sizes, addresses and entries match; but a symbol with such an access is always rejected, since the check
  passes no layout to the writer, which needs one for these symbols only.
\<close>

theorem verify_consistent_allocation:
  assumes ok: "verifiable env fl"
  shows "verify_consistent_allocation_handling env fl =
     (if needs_got_tls_offset fl then Inl (Err LayoutMissing) else Inr ())"
proof -
  define relr where "relr = env_relr_enabled env"
  define kind where "kind = env_kind env"
  define env0 where "env0 = env\<lparr>tls_start := 0, tls_end := 100, has_layout := False\<rparr>"
  define offsets :: part_map where "offsets = (\<lambda>p. if p = GOT \<or> p = GOT_RELR \<or> p = PLT_GOT then 0x10 else 0)"
  define index :: "u32 option" where "index = (if has_dynamic_symbol fl then Some 1 else None)"
  have env0: "env_relr_enabled env0 = relr" "env_kind env0 = kind" "arch_plt_entry env0 = arch_plt_entry env"
    "has_layout env0 = False"
    by (simp_all add: env0_def relr_def kind_def)
  have flags: "flags_ok fl" using ok by (simp add: verifiable_def)
  obtain res offsets' where res: "create_resolution fl 0 index relr kind offsets = Some (res, offsets')"
    by (rule create_resolution_total [of offsets fl 0 index relr kind]) (simp_all add: offsets_def)
  note result = create_resolution_result [OF flags res]
  define s where "s = \<lparr>sym_flags = fl, sym_raw = 0, sym_index = index\<rparr>"
  obtain w where "new_tables (allocate_symbols relr kind [s] (\<lambda>_. 0)) relr = Inr w" and w: "relr_off relr w"
    and "\<And>p. rooms w p = group_entries relr kind [s] p"
    using new_tables_group [OF one_symbol_fits [of relr kind s]] by blast
  then have new: "new_tables (allocate_resolution fl relr kind (\<lambda>_. 0)) relr = Inr w"
    and room: "\<And>p. rooms w p = entries fl relr kind p"
    by (simp_all add: s_def)
  have run: "verify_consistent_allocation_handling env fl = and_then (process_resolution env0 res w) validate_empty"
    using res new
    by (simp add: verify_consistent_allocation_handling_def verify_resolution_allocation_def Let_def
        relr_def kind_def offsets_def index_def env0_def)
  show ?thesis
  proof (cases "needs_got_tls_offset fl")
    case True
    then have "has_tls_got fl" by (simp add: has_tls_got_iff)
    with True show ?thesis
      by (simp add: run process_resolution_def process_tls_resolution_def result env0)
  next
    case False
    have "symbol_ok env0 fl 0 index"
      using ok False by (auto simp: symbol_ok_def tls_ok_def verifiable_def env0 kind_def index_def)
    moreover have "arch_plt_entry env0 got plt \<noteq> None" if "got_address res = Some got" "plt_address res = Some plt" for got plt
      using that ok by (auto simp: result got_part_def offsets_def env0 verifiable_def split: if_splits)
    ultimately have res_ok: "resolution_ok env0 res"
      using res by (intro symbol_resolution_ok [of env0 fl 0 index offsets res offsets']) (simp_all add: env0 offsets_def)
    note count = count_resolution_additions [OF res_ok, unfolded env0 result(1)]
    have fit: "count (resolution_additions env0 res) p \<le> rooms w p" for p by (simp add: count room del: rooms.simps)
    define w' where "w' = add_tables (resolution_additions env0 res) w"
    have ran: "process_resolution env0 res w = Inr w'"
      unfolding w'_def using fillsD [OF fills_process_resolution [OF res_ok], unfolded env0, OF w fit] .
    have empty: "rooms w' p = 0" for p
      using add_tables_simps(1) [of "resolution_additions env0 res", OF fit] by (simp add: w'_def count room del: rooms.simps)
    have "validate_empty w' = Inr ()"
      using empty [of GOT] empty [of GOT_RELR] empty [of RELA_DYN_RELATIVE] empty [of RELA_DYN_GENERAL] empty [of RELR_DYN]
      by (auto simp: validate_empty_def split: option.splits)
    with False show ?thesis by (simp add: run ran)
  qed
qed

section \<open>A concrete group\<close>

text \<open>
  A position-independent executable with an address, a function of a shared library and a thread-local
  variable of its own.
\<close>

definition sample_env :: writer_env where
  "sample_env = \<lparr>env_kind = DynamicExecutable RelocatableModel, env_relr_enabled = False,
     tls_start = 0x5000, tls_end = 0x5100, tp_offset_start = 0x5100, dtv_offset = 0,
     arch_plt_entry = (\<lambda>_ _. Some (replicate 16 0x90)), has_layout = True\<rparr>"

definition sample_symbols :: "symbol list" where
  "sample_symbols =
     [\<lparr>sym_flags = 0x88, sym_raw = 0x4010, sym_index = None\<rparr>,
      \<lparr>sym_flags = 0x182, sym_raw = 0, sym_index = Some 3\<rparr>,
      \<lparr>sym_flags = 0x408, sym_raw = 0x5010, sym_index = None\<rparr>]"

definition sample_base :: part_map where
  "sample_base p = (case p of GOT \<Rightarrow> 0x3000 | GOT_RELR \<Rightarrow> 0x3800 | PLT_GOT \<Rightarrow> 0x1000 | _ \<Rightarrow> 0)"

definition sample_first :: resolution where
  "sample_first = \<lparr>raw_value = 0x4010, dynamic_symbol_index = None, res_flags = 0x88,
     got_address = Some 0x3000, plt_address = None\<rparr>"

definition sample_second :: resolution where
  "sample_second = \<lparr>raw_value = 0x1000, dynamic_symbol_index = Some 3, res_flags = 0x182,
     got_address = Some 0x3008, plt_address = Some 0x1000\<rparr>"

definition sample_third :: resolution where
  "sample_third = \<lparr>raw_value = 0x5010, dynamic_symbol_index = None, res_flags = 0x408,
     got_address = Some 0x3010, plt_address = None\<rparr>"

definition sample_end :: part_map where
  "sample_end = sample_base(GOT := 0x3018, PLT_GOT := 0x1010)"

lemmas flags_eval =
  ABSOLUTE_def DYNAMIC_def IFUNC_def NON_INTERPOSABLE_def DOWNGRADE_TO_LOCAL_def GOT_FLAG_def PLT_FLAG_def
  GOT_TLS_MODULE_def GOT_TLS_OFFSET_def GOT_TLS_DESCRIPTOR_def EXPORT_DYNAMIC_def IFUNC_GOT_FOR_ADDRESS_def
  contains_def is_dynamic_def is_ifunc_def is_address_def is_downgraded_to_local_def is_interposable_def
  needs_export_dynamic_def needs_got_def needs_plt_def needs_got_tls_offset_def needs_got_tls_module_def
  needs_got_tls_descriptor_def needs_ifunc_got_for_address_def has_tls_got_def has_dynamic_symbol_def shl_def

lemmas sample_eval = sample_env_def sample_symbols_def sample_base_def sample_first_def sample_second_def
  sample_third_def sample_end_def

lemma sample_create:
  "create_symbols False (DynamicExecutable RelocatableModel) sample_symbols sample_base =
     Some ([sample_first, sample_second, sample_third], sample_end)"
  by (simp add: sample_eval create_resolution_def flags_eval Let_def is_got_relr_eligible_def allocate_got_def
      allocate_plt_def increment_def num_tls_slots_def entry_sizes fun_eq_iff)

lemma sample_fits: "group_fits False (DynamicExecutable RelocatableModel) sample_symbols"
  unfolding group_fits_def
  by (intro allI, rename_tac p, case_tac p)
    (simp_all add: sample_eval entries_def entries_defs flags_eval entry_sizes
      got_eligible_def is_got_relr_eligible_def is_shared_object_def)

lemma sample_ok: "group_ok sample_env sample_symbols sample_base [sample_first, sample_second, sample_third] sample_end"
proof -
  have "symbols_ok sample_env sample_symbols"
    by (simp add: symbols_ok_def sample_eval symbol_ok_def flags_ok_def tls_ok_def flags_eval)
  moreover have "2 dvd sample_base GOT" "2 dvd sample_base GOT_RELR" by (simp_all add: sample_base_def)
  moreover have "list_all (plt_encodable sample_env) [sample_first, sample_second, sample_third]"
    by (simp add: plt_encodable_def sample_env_def)
  ultimately show ?thesis
    using sample_create sample_fits by (simp add: group_ok_def sample_env_def)
qed

theorem group_tables_exact_witness:
  "\<exists>w w'.
     new_tables (allocate_symbols False (DynamicExecutable RelocatableModel) sample_symbols (\<lambda>_. 0)) False = Inr w
     \<and> process_symbols sample_env [sample_first, sample_second, sample_third] w = Inr w'
     \<and> validate_empty w' = Inr ()
     \<and> snd (got_table w') = [0, 0, 0xFFFFFFFFFFFFFF10]"
proof -
  have "add_got (group_additions sample_env [sample_first, sample_second, sample_third]) = [0, 0, 0xFFFFFFFFFFFFFF10]"
    by (simp add: resolution_additions_def sample_eval flags_eval pointer_additions_def Let_def got_eligible_def
        is_got_relr_eligible_def address_slot_def nothing_def also_add_def plt_additions_def ifunc_additions_def
        tls_additions_def offset_additions_def)
  with group_tables_exact [OF sample_ok] show ?thesis by (auto simp: sample_env_def)
qed

lemma sample_tables:
  obtains w where "new_tables (allocate_symbols (env_relr_enabled sample_env) (env_kind sample_env) sample_symbols (\<lambda>_. 0))
      (env_relr_enabled sample_env) = Inr w" "relr_off False w"
    "\<forall>p. rooms w p = group_entries False (DynamicExecutable RelocatableModel) sample_symbols p"
  using new_tables_group [OF sample_fits] by (simp add: sample_env_def) blast

theorem slots_at_their_addresses_witness:
  "\<exists>w w' i k.
     new_tables (allocate_symbols False (DynamicExecutable RelocatableModel) sample_symbols (\<lambda>_. 0)) False = Inr w
     \<and> process_symbols sample_env [sample_first, sample_second, sample_third] w = Inr w'
     \<and> take 1 (drop i (snd (got_table w'))) = [0] \<and> take 1 (drop k (snd (plt_got_table w'))) = [replicate 16 0x90]
     \<and> (0x3008 :: u64) = 0x3000 + 8 * of_nat i \<and> (0x1000 :: u64) = 0x1000 + 16 * of_nat (k :: nat) "
proof -
  have ok: "group_ok sample_env sample_symbols sample_base ([sample_first] @ sample_second # [sample_third]) sample_end"
    using sample_ok by simp
  obtain w where new: "new_tables (allocate_symbols (env_relr_enabled sample_env) (env_kind sample_env) sample_symbols (\<lambda>_. 0))
      (env_relr_enabled sample_env) = Inr w"
    by (rule sample_tables)
  obtain w' where run: "process_symbols sample_env ([sample_first] @ sample_second # [sample_third]) w = Inr w'"
    using group_prefix [OF ok new] by blast
  have adds: "add_got (resolution_additions sample_env sample_second) = [0]"
    "add_plt (resolution_additions sample_env sample_second) = [replicate 16 0x90]"
    by (simp_all add: resolution_additions_def sample_eval flags_eval pointer_additions_def Let_def
        nothing_def also_add_def plt_additions_def ifunc_additions_def)
  have part: "got_part (res_flags sample_second) (env_relr_enabled sample_env) (env_kind sample_env) = GOT"
    by (simp add: got_part_def got_eligible_def is_got_relr_eligible_def sample_env_def)
  have addresses: "got_address sample_second = Some 0x3008" "plt_address sample_second = Some 0x1000"
      "sample_base GOT = 0x3000" "sample_base PLT_GOT = 0x1000"
    by (simp_all add: sample_eval)
  obtain i k where "take 1 (drop i (snd (got_table w'))) = [0]" "take 1 (drop k (snd (plt_got_table w'))) = [replicate 16 0x90]"
      "(0x3008 :: u64) = 0x3000 + 8 * of_nat i" "(0x1000 :: u64) = 0x1000 + 16 * of_nat (k :: nat)"
    using slots_at_their_addresses [OF ok new run, unfolded adds part addresses] by auto
  with new run show ?thesis by (auto simp: sample_env_def)
qed

theorem writer_appends_entries_witness:
  "\<exists>w. process_resolution sample_env sample_second w = Inr (add_tables (resolution_additions sample_env sample_second) w)
     \<and> allocate_resolution 0x182 False (DynamicExecutable RelocatableModel) (\<lambda>_. 5) PLT_GOT = 21"
proof -
  obtain w where w: "relr_off False w"
    "\<forall>p. rooms w p = group_entries False (DynamicExecutable RelocatableModel) sample_symbols p"
    by (rule sample_tables)
  have "resolution_ok sample_env sample_second"
    by (simp add: resolution_ok_def symbol_ok_def flags_ok_def sample_eval flags_eval)
  moreover have room: "\<forall>p. entries (res_flags sample_second) (env_relr_enabled sample_env) (env_kind sample_env) p \<le> rooms w p"
    unfolding w(2) [rule_format] by (simp add: sample_eval)
  moreover have "allocate_resolution 0x182 False (DynamicExecutable RelocatableModel) (\<lambda>_. 5) PLT_GOT = 21"
    by (simp add: allocate_resolution_entries entries_def entries_defs flags_eval entry_sizes)
  ultimately show ?thesis
    using writer_appends_entries [of sample_env sample_second w "\<lambda>_. 5" PLT_GOT] w(1)
    by (auto simp: sample_env_def)
qed


theorem verify_consistent_allocation_witness:
  "verify_consistent_allocation_handling sample_env 0x182 = Inr ()
   \<and> verify_consistent_allocation_handling sample_env 0x408 = Inl (Err LayoutMissing)"
  using verify_consistent_allocation [where env = sample_env and fl = "0x182"]
    verify_consistent_allocation [where env = sample_env and fl = "0x408"]
  by (simp add: verifiable_def flags_ok_def sample_env_def flags_eval)

end
