(* ===== verification/Plt_Entries.thy ===== *)
theory Plt_Entries
  imports Got_Symbols Thunk_Code Reloc_RiscV Insn_LoongArch
begin

text \<open>
  The entries of the procedure linkage table: \<^verbatim>\<open>write_plt_entry\<close> of \<^verbatim>\<open>elf_x86_64.rs\<close>,
  \<^verbatim>\<open>elf_aarch64.rs\<close>, \<^verbatim>\<open>elf_riscv64.rs\<close> and \<^verbatim>\<open>elf_loongarch64.rs\<close> (\<^verbatim>\<open>elf_ppc64.rs\<close> reports an error).
  The locale \<open>plt_format\<close> is their contract: run at its address, an entry jumps to the pointer that its
  slot of the global offset table holds.
\<close>

section \<open>The code\<close>

text \<open>The buffer has the length of the template, so that \<^verbatim>\<open>copy_from_slice\<close> does not panic.\<close>

definition X86_PLT_ENTRY_TEMPLATE :: "u8 list" where
  "X86_PLT_ENTRY_TEMPLATE =
     [0xf3, 0x0f, 0x1e, 0xfa, 0xf2, 0xff, 0x25, 0x0, 0x0, 0x0, 0x0, 0x0f, 0x1f, 0x44, 0x0, 0x0]"

definition x86_write_plt_entry :: "u64 \<Rightarrow> u64 \<Rightarrow> u8 list option" where
  "x86_write_plt_entry got plt =
     (let entry = X86_PLT_ENTRY_TEMPLATE;
          offset = got - (plt + 0xb)
      in if - (2 ^ 31) \<le> sint offset \<and> sint offset < 2 ^ 31
         then Some (take 7 entry @ to_le 4 (ucast offset :: u32) @ drop 11 entry)
         else None)"

definition AARCH64_PLT_ENTRY_TEMPLATE :: "u8 list" where
  "AARCH64_PLT_ENTRY_TEMPLATE =
     [0x10, 0x00, 0x00, 0x90, 0x11, 0x02, 0x40, 0xf9, 0x20, 0x02, 0x1f, 0xd6, 0x1f, 0x20, 0x03, 0xd5]"

definition aarch64_write_plt_entry :: "u64 \<Rightarrow> u64 \<Rightarrow> u8 list option" where
  "aarch64_write_plt_entry got plt =
     (let entry = AARCH64_PLT_ENTRY_TEMPLATE;
          plt_page_address = plt AND NOT PAGE_MASK_4KB;
          offset = got - plt_page_address
      in if offset < shl 1 32
         then (case aarch64_write_to_value Adr (offset div SIZE_4KB) False (take 4 entry) of
                 None \<Rightarrow> None
               | Some adrp \<Rightarrow>
                 (case aarch64_write_to_value LdrRegister ((offset AND PAGE_MASK_4KB) div 8) False
                         (take 4 (drop 4 entry)) of
                    None \<Rightarrow> None
                  | Some ldr \<Rightarrow> Some (adrp @ ldr @ drop 8 entry)))
         else None)"

definition RISCV_PLT_ENTRY_TEMPLATE :: "u8 list" where
  "RISCV_PLT_ENTRY_TEMPLATE =
     [0x17, 0x0e, 0x0, 0x0, 0x03, 0x3e, 0x0e, 0x0, 0x67, 0x03, 0x0e, 0x0, 0x73, 0x0, 0x10, 0x0]"

definition riscv_write_plt_entry :: "u64 \<Rightarrow> u64 \<Rightarrow> u8 list option" where
  "riscv_write_plt_entry got plt =
     (let entry = RISCV_PLT_ENTRY_TEMPLATE in
      case riscv_write_to_value UiType (got - plt) False (take 8 entry) of
        None \<Rightarrow> None
      | Some pair \<Rightarrow> Some (pair @ drop 8 entry))"

definition LOONGARCH_PLT_ENTRY_TEMPLATE :: "u8 list" where
  "LOONGARCH_PLT_ENTRY_TEMPLATE =
     [0x0f, 0x0, 0x0, 0x1a, 0xef, 0x1, 0xc0, 0x28, 0xed, 0x1, 0x0, 0x4c, 0x0, 0x0, 0x2a, 0x0]"

definition loongarch_write_plt_entry :: "u64 \<Rightarrow> u64 \<Rightarrow> u8 list option" where
  "loongarch_write_plt_entry got plt =
     (let entry = LOONGARCH_PLT_ENTRY_TEMPLATE;
          pcala_hi20 = shl (shr (((got + SIZE_2KB) AND NOT PAGE_MASK_4KB) - (plt AND NOT PAGE_MASK_4KB)) 12) 5;
          pcala_lo12 = shl (got AND 0xfff) 10
      in case or_from_slice (take 4 entry) (to_le 4 (ucast pcala_hi20 :: u32)) of
           None \<Rightarrow> None
         | Some pcalau12i \<Rightarrow>
           (case or_from_slice (take 4 (drop 4 entry)) (to_le 4 (ucast pcala_lo12 :: u32)) of
              None \<Rightarrow> None
            | Some ld \<Rightarrow> Some (pcalau12i @ ld @ drop 8 entry)))"

section \<open>The processors\<close>

text \<open>
  Where a linkage table entry at \<open>pc\<close> jumps, if memory holds \<open>mem\<close>; none for anything but the
  instructions that these entries consist of.
\<close>

definition x86_run :: "(u64 \<Rightarrow> u64) \<Rightarrow> u64 \<Rightarrow> u8 list \<Rightarrow> u64 option" where
  "x86_run mem pc code =
     (if length code \<ge> 11 \<and> take 7 code = [0xf3, 0x0f, 0x1e, 0xfa, 0xf2, 0xff, 0x25]
      then Some (mem (pc + 11 + scast (of_le (take 4 (drop 7 code)) :: u32))) else None)"

definition a64_plt_run :: "(u64 \<Rightarrow> u64) \<Rightarrow> u64 \<Rightarrow> u8 list \<Rightarrow> u64 option" where
  "a64_plt_run mem pc code =
     (case words_of code of
        adrp # ldr # br # _ \<Rightarrow>
          if adrp AND 0x9F000000 = 0x90000000 \<and> ldr AND 0xFFC00000 = 0xF9400000 \<and> br AND 0xFFFFFC1F = 0xD61F0000
             \<and> reg_at ldr 5 = reg_at adrp 0 \<and> reg_at br 5 = reg_at ldr 0
          then Some (mem ((pc AND NOT 0xFFF) + adrp_offset adrp + shl (low_bits (shr (ucast ldr) 10) 12) 3))
          else None
      | _ \<Rightarrow> None)"

definition riscv_run :: "(u64 \<Rightarrow> u64) \<Rightarrow> u64 \<Rightarrow> u8 list \<Rightarrow> u64 option" where
  "riscv_run mem pc code =
     (case words_of code of
        auipc # ld # jalr # _ \<Rightarrow>
          if auipc AND 0x7F = 0x17 \<and> ld AND 0x707F = 0x3003 \<and> jalr AND 0xFFF0707F = 0x67
             \<and> reg_at ld 15 = reg_at auipc 7 \<and> reg_at jalr 15 = reg_at ld 7
             \<and> reg_at auipc 7 \<noteq> 0 \<and> reg_at ld 7 \<noteq> 0
          then Some (mem (pc + scast (auipc AND 0xFFFFF000) + scast (sar ld 20)) AND NOT 1)
          else None
      | _ \<Rightarrow> None)"

definition loongarch_run :: "(u64 \<Rightarrow> u64) \<Rightarrow> u64 \<Rightarrow> u8 list \<Rightarrow> u64 option" where
  "loongarch_run mem pc code =
     (case words_of code of
        pcalau12i # ld # jirl # _ \<Rightarrow>
          if pcalau12i AND 0xFE000000 = 0x1A000000 \<and> ld AND 0xFFC00000 = 0x28C00000
             \<and> jirl AND 0xFFFFFC00 = 0x4C000000
             \<and> reg_at ld 5 = reg_at pcalau12i 0 \<and> reg_at jirl 5 = reg_at ld 0
             \<and> reg_at pcalau12i 0 \<noteq> 0 \<and> reg_at ld 0 \<noteq> 0
          then Some (mem ((pc AND NOT 0xFFF) + shl (low_bits_signed (shr (ucast pcalau12i) 5) 20) 12
                          + low_bits_signed (shr (ucast ld) 10) 12))
          else None
      | _ \<Rightarrow> None)"

section \<open>The contract\<close>

text \<open>
  \<open>in_reach\<close> is the distance within which the format works, \<open>jump\<close> what the processor makes of the pointer.
\<close>

locale plt_format =
  fixes plt_write :: "u64 \<Rightarrow> u64 \<Rightarrow> u8 list option"
    and plt_run :: "(u64 \<Rightarrow> u64) \<Rightarrow> u64 \<Rightarrow> u8 list \<Rightarrow> u64 option"
    and in_reach :: "u64 \<Rightarrow> u64 \<Rightarrow> bool" and jump :: "u64 \<Rightarrow> u64"
  assumes entry_length: "plt_write got plt = Some code \<Longrightarrow> length code = 16"
    and entry_jumps: "plt_write got plt = Some code \<Longrightarrow> in_reach got plt \<Longrightarrow> plt_run mem plt code = Some (jump (mem got))"

interpretation x86_plt: plt_format x86_write_plt_entry x86_run "\<lambda>_ _. True" "\<lambda>a. a"
proof unfold_locales
  fix got plt code mem
  assume code: "x86_write_plt_entry got plt = Some code"
  define d where "d = got - (plt + 0xb)"
  have c: "code = take 7 X86_PLT_ENTRY_TEMPLATE @ to_le 4 (ucast d :: u32) @ drop 11 X86_PLT_ENTRY_TEMPLATE"
    and d: "- (2 ^ 31) \<le> sint d" "sint d < 2 ^ 31"
    using code by (auto simp: x86_write_plt_entry_def Let_def d_def split: if_splits)
  show "length code = 16" by (simp add: c X86_PLT_ENTRY_TEMPLATE_def)
  have "scast (ucast d :: u32) = signed_take_bit 31 d"
    by (intro word64_eqI, unfold each_bit) (simp add: bit_eval)
  also have "\<dots> = d" using d by (intro signed_take_bit_self) simp_all
  finally have "plt + 11 + scast (ucast d :: u32) = got" by (simp add: d_def)
  then show "x86_run mem plt code = Some (mem got)"
    by (simp add: x86_run_def c X86_PLT_ENTRY_TEMPLATE_def)
qed

text \<open>AArch64: a scaled load, so the slot is aligned.\<close>

definition a64_adrp :: "u64 \<Rightarrow> u32" where
  "a64_adrp offset = aarch64_enc Adr (drop_bit 12 offset) False 0x90000010"

definition a64_ldr :: "u64 \<Rightarrow> u32" where
  "a64_ldr offset = aarch64_enc LdrRegister (drop_bit 3 (take_bit 12 offset)) False 0xF9400211"

lemma a64_plt_fields:
  assumes "take_bit 32 offset = offset" "take_bit 3 offset = 0"
  shows "a64_adrp offset AND 0x9F000000 = 0x90000000" "a64_ldr offset AND 0xFFC00000 = 0xF9400000"
    "reg_at (a64_adrp offset) 0 = 16" "reg_at (a64_ldr offset) 5 = 16" "reg_at (a64_ldr offset) 0 = 17"
    "adrp_offset (a64_adrp offset) = offset AND NOT 0xFFF"
    "shl (low_bits (shr (ucast (a64_ldr offset)) 10) 12) 3 = offset AND 0xFFF"
proof -
  note defs = a64_adrp_def a64_ldr_def aarch64_enc.simps
  have high: "\<not> bit offset n" if "32 \<le> n" for n
    using arg_cong [OF assms(1), of "\<lambda>w. bit w n"] that by (simp add: bit_take_bit_iff)
  have low: "\<not> bit offset n" if "n < 3" for n
    using arg_cong [OF assms(2), of "\<lambda>w. bit w n"] that by (simp add: bit_take_bit_iff)
  show "a64_adrp offset AND 0x9F000000 = 0x90000000" "a64_ldr offset AND 0xFFC00000 = 0xF9400000"
    unfolding defs
    by (intro word32_eqI, unfold each_bit, simp add: bit_eval range_ok_def bit_drop_bit_eq bit_take_bit_iff high)+
  have "shr (a64_adrp offset) 0 AND 0x1F = 16" "shr (a64_ldr offset) 5 AND 0x1F = 16" "shr (a64_ldr offset) 0 AND 0x1F = 17"
    unfolding defs
    by (intro word32_eqI, unfold each_bit, simp add: bit_eval range_ok_def bit_drop_bit_eq bit_take_bit_iff high)+
  then show "reg_at (a64_adrp offset) 0 = 16" "reg_at (a64_ldr offset) 5 = 16" "reg_at (a64_ldr offset) 0 = 17"
    by (simp_all add: reg_at_def)
  show "adrp_offset (a64_adrp offset) = offset AND NOT 0xFFF"
    unfolding defs adrp_offset_def
    by (intro word64_eqI, unfold each_bit) (simp add: bit_eval range_ok_def bit_drop_bit_eq high)
  show "shl (low_bits (shr (ucast (a64_ldr offset)) 10) 12) 3 = offset AND 0xFFF"
    unfolding defs
    by (intro word64_eqI, unfold each_bit) (simp add: bit_eval range_ok_def bit_drop_bit_eq bit_take_bit_iff low)
qed

lemma aarch64_write_plt_entry_eq:
  assumes "aarch64_write_plt_entry got plt = Some code"
  defines "offset \<equiv> got - page_of plt"
  shows "take_bit 32 offset = offset"
    "code = to_le 4 (a64_adrp offset) @ to_le 4 (a64_ldr offset) @ to_le 4 (0xD61F0220 :: u32) @ to_le 4 (0xD503201F :: u32)"
proof -
  have t: "take 4 AARCH64_PLT_ENTRY_TEMPLATE = to_le 4 (0x90000010 :: u32)"
      "take 4 (drop 4 AARCH64_PLT_ENTRY_TEMPLATE) = to_le 4 (0xF9400211 :: u32)"
      "drop 8 AARCH64_PLT_ENTRY_TEMPLATE = to_le 4 (0xD61F0220 :: u32) @ to_le 4 (0xD503201F :: u32)"
    by (simp_all add: AARCH64_PLT_ENTRY_TEMPLATE_def to_le_def upt_rec)
  have w: "aarch64_write_to_value i v False (to_le 4 x) = Some (to_le 4 (aarch64_enc i v False x))" for i v x
    using patches_step [OF aarch64_write_patches [of i v False], of "to_le 4 x"] by simp
  have div: "x div SIZE_4KB = drop_bit 12 x" "y div 8 = drop_bit 3 y" "x AND PAGE_MASK_4KB = take_bit 12 x" for x y :: u64
    by (simp_all add: page_mask_eval drop_bit_eq_div take_bit_eq_mask mask_eq_exp_minus_1)
  show "code = to_le 4 (a64_adrp offset) @ to_le 4 (a64_ldr offset) @ to_le 4 (0xD61F0220 :: u32) @ to_le 4 (0xD503201F :: u32)"
    using assms(1) unfolding aarch64_write_plt_entry_def Let_def t w div option.case
    by (auto simp: a64_adrp_def a64_ldr_def offset_def page_of_def split: if_splits)
  have "offset < 2 ^ 32"
    using assms(1) by (auto simp: aarch64_write_plt_entry_def Let_def offset_def page_of_def shl_def split: if_splits)
  then show "take_bit 32 offset = offset" by (intro take_bit_of_small) (simp add: word_less_nat_alt)
qed

interpretation aarch64_plt: plt_format aarch64_write_plt_entry a64_plt_run "\<lambda>got _. 8 dvd got" "\<lambda>a. a"
proof unfold_locales
  fix got plt code mem
  assume code: "aarch64_write_plt_entry got plt = Some code"
  note c = aarch64_write_plt_entry_eq [OF code]
  show "length code = 16" by (simp add: c(2))
  assume "8 dvd got"
  moreover have "8 dvd page_of plt"
    by (rule dvdI [of _ _ "push_bit 9 (drop_bit 12 plt)"]) (simp add: page_of_push push_bit_eq_mult)
  ultimately have "2 ^ 3 dvd got - page_of plt" by simp
  then have low: "take_bit 3 (got - page_of plt) = 0" by (simp only: take_bit_eq_0_iff)
  note fields = a64_plt_fields [OF c(1) low]
  have "(offset AND NOT 0xFFF) + (offset AND 0xFFF) = (offset :: u64)" for offset
    unfolding and_not_minus by simp
  then have "(plt AND NOT 0xFFF) + ((got - page_of plt) AND NOT 0xFFF) + ((got - page_of plt) AND 0xFFF) = got"
    by (simp add: add.assoc page_of_def page_mask_eval)
  moreover have "reg_at 0xD61F0220 5 = 17" by (simp add: reg_at_def shr_def)
  ultimately show "a64_plt_run mem plt code = Some (mem got)"
    by (simp add: a64_plt_run_def c(2) fields)
qed

text \<open>RISC-V: the pair of \<open>riscv_address_pair\<close>; the jump clears bit 0.\<close>

definition riscv_near :: "u64 \<Rightarrow> u64 \<Rightarrow> bool" where
  "riscv_near got plt \<longleftrightarrow> - (2 ^ 31) - 0x800 \<le> sint (got - plt) \<and> sint (got - plt) < 2 ^ 31 - 0x800"

definition riscv_pair :: "u64 \<Rightarrow> u64" where
  "riscv_pair v = keep_set UITYPE_KEEP riscv_imm_ui v False 0x000E3E0300000E17"

lemma riscv_pair_fields:
  defines "auipc v \<equiv> ucast (riscv_pair v) :: u32" and "ld v \<equiv> ucast (shr (riscv_pair v) 32) :: u32"
  shows "auipc v AND 0x7F = 0x17" "ld v AND 0x707F = 0x3003" "reg_at (auipc v) 7 = 28"
    "reg_at (ld v) 15 = 28" "reg_at (ld v) 7 = 28"
    "scast (auipc v AND 0xFFFFF000) = upper_part v" "scast (sar (ld v) 20) = lower_part v"
proof -
  note defs = auipc_def ld_def riscv_pair_def keep_set_def riscv_imms riscv_masks
  show "auipc v AND 0x7F = 0x17" "ld v AND 0x707F = 0x3003"
    unfolding defs by (intro word32_eqI, unfold each_bit, simp add: bit_eval range_ok_def)+
  have "shr (auipc v) 7 AND 0x1F = 28" "shr (ld v) 15 AND 0x1F = 28" "shr (ld v) 7 AND 0x1F = 28"
    unfolding defs by (intro word32_eqI, unfold each_bit, simp add: bit_eval range_ok_def)+
  then show "reg_at (auipc v) 7 = 28" "reg_at (ld v) 15 = 28" "reg_at (ld v) 7 = 28"
    by (simp_all add: reg_at_def)
  show "scast (auipc v AND 0xFFFFF000) = upper_part v"
    unfolding defs upper_part_def by (intro word64_eqI, unfold each_bit) (simp add: bit_eval range_ok_def)
  show "scast (sar (ld v) 20) = lower_part v"
    unfolding defs lower_part_eq by (intro word64_eqI, unfold each_bit) (simp add: bit_eval range_ok_def)
qed

lemma riscv_write_plt_entry_eq:
  "riscv_write_plt_entry got plt = Some (to_le 4 (ucast (riscv_pair (got - plt)) :: u32)
     @ to_le 4 (ucast (shr (riscv_pair (got - plt)) 32) :: u32) @ to_le 4 (0x000E0367 :: u32) @ to_le 4 (0x00100073 :: u32))"
proof -
  have t: "take 8 RISCV_PLT_ENTRY_TEMPLATE = to_le 8 (0x000E3E0300000E17 :: u64)"
      "drop 8 RISCV_PLT_ENTRY_TEMPLATE = to_le 4 (0x000E0367 :: u32) @ to_le 4 (0x00100073 :: u32)"
    by (simp_all add: RISCV_PLT_ENTRY_TEMPLATE_def to_le_def upt_rec)
  have "riscv_write_to_value UiType v False (to_le 8 x) = Some (to_le 8 (keep_set UITYPE_KEEP riscv_imm_ui v False x))" for v x
    using patches_step [OF riscv_write_uitype [of v False], of "to_le 8 x"] by simp
  then show ?thesis
    unfolding riscv_write_plt_entry_def Let_def t
    by (simp add: to_le_8_split [of "keep_set _ _ _ _ _"] riscv_pair_def)
qed

interpretation riscv_plt: plt_format riscv_write_plt_entry riscv_run riscv_near "\<lambda>a. a AND NOT 1"
proof unfold_locales
  fix got plt code mem
  assume code: "riscv_write_plt_entry got plt = Some code"
  define v where "v = got - plt"
  have c: "code = to_le 4 (ucast (riscv_pair v) :: u32)
     @ to_le 4 (ucast (shr (riscv_pair v) 32) :: u32) @ to_le 4 (0x000E0367 :: u32) @ to_le 4 (0x00100073 :: u32)"
    using code by (simp add: riscv_write_plt_entry_eq v_def)
  show "length code = 16" by (simp add: c)
  assume "riscv_near got plt"
  then have "upper_part v + lower_part v = v" by (intro upper_lower) (simp_all add: riscv_near_def v_def)
  then have "plt + upper_part v + lower_part v = got" by (simp add: v_def add.assoc)
  moreover have "(0x000E0367 :: u32) AND 0xFFF0707F = 0x67" "reg_at 0x000E0367 15 = 28" by (simp_all add: reg_at_def shr_def)
  ultimately show "riscv_run mem plt code = Some (mem got AND NOT 1)"
    by (simp add: riscv_run_def c riscv_pair_fields)
qed

text \<open>LoongArch: page and low part, as the template has no immediate; the slot is not before the entry.\<close>

definition loongarch_near :: "u64 \<Rightarrow> u64 \<Rightarrow> bool" where
  "loongarch_near got plt \<longleftrightarrow> page_of (got + SIZE_2KB) - page_of plt < 2 ^ 31"

definition larch_pcala :: "u64 \<Rightarrow> u32" where
  "larch_pcala d = 0x1A00000F OR ucast (shl (shr d 12) 5)"

definition larch_ld :: "u64 \<Rightarrow> u32" where
  "larch_ld got = 0x28C001EF OR ucast (shl (got AND 0xfff) 10)"

lemma larch_plt_fields:
  "take_bit 31 d = d \<Longrightarrow> take_bit 12 d = 0 \<Longrightarrow> larch_pcala d AND 0xFE000000 = 0x1A000000"
  "take_bit 31 d = d \<Longrightarrow> take_bit 12 d = 0 \<Longrightarrow> reg_at (larch_pcala d) 0 = 15"
  "take_bit 31 d = d \<Longrightarrow> take_bit 12 d = 0 \<Longrightarrow> shl (low_bits_signed (shr (ucast (larch_pcala d)) 5) 20) 12 = d"
  "larch_ld got AND 0xFFC00000 = 0x28C00000" "reg_at (larch_ld got) 5 = 15" "reg_at (larch_ld got) 0 = 15"
  "low_bits_signed (shr (ucast (larch_ld got)) 10) 12 = signed_take_bit 11 got"
proof -
  note defs = larch_pcala_def larch_ld_def
  show "larch_ld got AND 0xFFC00000 = 0x28C00000"
    unfolding defs by (intro word32_eqI, unfold each_bit) (simp add: bit_eval)
  have "shr (larch_ld got) 5 AND 0x1F = 15" "shr (larch_ld got) 0 AND 0x1F = 15"
    unfolding defs by (intro word32_eqI, unfold each_bit, simp add: bit_eval)+
  then show "reg_at (larch_ld got) 5 = 15" "reg_at (larch_ld got) 0 = 15" by (simp_all add: reg_at_def)
  show "low_bits_signed (shr (ucast (larch_ld got)) 10) 12 = signed_take_bit 11 got"
    unfolding defs by (intro word64_eqI, unfold each_bit) (simp add: bit_eval range_ok_def)
  assume small: "take_bit 31 d = d" "take_bit 12 d = 0"
  have high: "\<not> bit d n" if "31 \<le> n" for n
    using arg_cong [OF small(1), of "\<lambda>w. bit w n"] that by (simp add: bit_take_bit_iff)
  have low: "\<not> bit d n" if "n < 12" for n
    using arg_cong [OF small(2), of "\<lambda>w. bit w n"] that by (simp add: bit_take_bit_iff)
  show "larch_pcala d AND 0xFE000000 = 0x1A000000"
    unfolding defs by (intro word32_eqI, unfold each_bit) (simp add: bit_eval high)
  have "shr (larch_pcala d) 0 AND 0x1F = 15"
    unfolding defs by (intro word32_eqI, unfold each_bit) (simp add: bit_eval)
  then show "reg_at (larch_pcala d) 0 = 15" by (simp add: reg_at_def)
  show "shl (low_bits_signed (shr (ucast (larch_pcala d)) 5) 20) 12 = d"
    unfolding defs by (intro word64_eqI, unfold each_bit) (simp add: bit_eval range_ok_def high low)
qed

lemma loongarch_write_plt_entry_eq:
  "loongarch_write_plt_entry got plt = Some (to_le 4 (larch_pcala (page_of (got + SIZE_2KB) - page_of plt))
     @ to_le 4 (larch_ld got) @ to_le 4 (0x4C0001ED :: u32) @ to_le 4 (0x002A0000 :: u32))"
proof -
  have t: "take 4 LOONGARCH_PLT_ENTRY_TEMPLATE = to_le 4 (0x1A00000F :: u32)"
      "take 4 (drop 4 LOONGARCH_PLT_ENTRY_TEMPLATE) = to_le 4 (0x28C001EF :: u32)"
      "drop 8 LOONGARCH_PLT_ENTRY_TEMPLATE = to_le 4 (0x4C0001ED :: u32) @ to_le 4 (0x002A0000 :: u32)"
    by (simp_all add: LOONGARCH_PLT_ENTRY_TEMPLATE_def to_le_def upt_rec)
  have w: "or_from_slice (to_le 4 (a :: u32)) (to_le 4 (b :: u32)) = Some (to_le 4 (a OR b))" for a b
    using or_from_slice_le [of 4 a "[]" b] by simp
  show ?thesis
    unfolding loongarch_write_plt_entry_def Let_def t w option.case page_of_def [symmetric] larch_pcala_def larch_ld_def ..
qed

interpretation loongarch_plt: plt_format loongarch_write_plt_entry loongarch_run loongarch_near "\<lambda>a. a"
proof unfold_locales
  fix got plt code mem
  assume code: "loongarch_write_plt_entry got plt = Some code"
  define d where "d = page_of (got + SIZE_2KB) - page_of plt"
  have c: "code = to_le 4 (larch_pcala d) @ to_le 4 (larch_ld got) @ to_le 4 (0x4C0001ED :: u32) @ to_le 4 (0x002A0000 :: u32)"
    using code by (simp add: loongarch_write_plt_entry_eq d_def)
  show "length code = 16" by (simp add: c)
  assume "loongarch_near got plt"
  then have "unat d < 2 ^ 31" by (simp add: loongarch_near_def d_def word_less_nat_alt)
  then have small: "take_bit 31 d = d" by (rule take_bit_of_small)
  note fields = larch_plt_fields(1-3) [OF small page_diff_low [of "got + SIZE_2KB" plt, folded d_def]] larch_plt_fields(4-7)
  have "page_of (got + SIZE_2KB) = got - signed_take_bit 11 got"
    using low_high_split [of got] by (simp add: page_of_def page_mask_eval SIZE_2KB_def shl_def)
  then have "(plt AND NOT 0xFFF) + d + signed_take_bit 11 got = got"
    by (simp add: d_def page_of_def page_mask_eval)
  moreover have "(0x4C0001ED :: u32) AND 0xFFFFFC00 = 0x4C000000" "reg_at 0x4C0001ED 5 = 15" by (simp_all add: reg_at_def shr_def)
  ultimately show "loongarch_run mem plt code = Some (mem got)"
    by (simp add: loongarch_run_def c fields)
qed

section \<open>The linkage table of a group\<close>

context plt_format
begin

text \<open>The entry at the linkage table address of a symbol jumps through the symbol's own slot.\<close>

lemma group_entry_jumps:
  assumes ok: "group_ok env ss base (rs1 @ res # rs2) offsets" and arch: "arch_plt_entry env = plt_write"
    and new: "new_tables (allocate_symbols (env_relr_enabled env) (env_kind env) ss (\<lambda>_. 0)) (env_relr_enabled env) = Inr w"
    and run: "process_symbols env (rs1 @ res # rs2) w = Inr w'"
    and addresses: "got_address res = Some got" "plt_address res = Some plt" and in_reach: "in_reach got plt"
  shows "\<exists>k. k < length (snd (plt_got_table w')) \<and> plt = base PLT_GOT + 16 * of_nat k
     \<and> plt_run mem plt (snd (plt_got_table w') ! k) = Some (jump (mem got))"
proof -
  obtain s :: symbol and o1 o2 where s: "flags_ok (sym_flags s)"
    "create_resolution (sym_flags s) (sym_raw s) (sym_index s) (env_relr_enabled env) (env_kind env) o1 = Some (res, o2)"
    and step: "in_step base (add_tables (group_additions env rs1) w) o1"
    and "process_symbols env rs1 w = Inr (add_tables (group_additions env rs1) w)"
    and final: "process_symbols env (rs1 @ res # rs2) w = Inr (add_tables (group_additions env (rs1 @ res # rs2)) w)"
    and used: "\<forall>p. used w p = 0" and res_ok: "resolution_ok env res"
    by (rule group_prefix [OF ok new])
  define b where "b = group_additions env rs1"
  have empty: "snd (plt_got_table w) = []" using used [rule_format, of PLT_GOT] by simp
  note result = create_resolution_result [OF s]
  obtain code where code: "plt_write got plt = Some code"
    using res_ok addresses arch by (auto simp: resolution_ok_def)
  have "\<not> has_tls_got (res_flags res)"
    using addresses(2) s(1) by (auto simp: result flags_ok_def split: if_splits)
  then have "add_plt (resolution_additions env res) = [code]"
    using addresses code arch
    by (simp add: resolution_additions_def also_add_def plt_additions_def pointer_additions_def ifunc_additions_def
        address_slot_def nothing_def Let_def)
  moreover have "w' = add_tables (group_additions env (rs1 @ res # rs2)) w" using run final by simp
  ultimately have table: "snd (plt_got_table w') = add_plt b @ code # add_plt (group_additions env rs2)"
    by (simp add: group_additions_append also_add_def add_tables_def fill_def empty b_def)
  have "plt = base PLT_GOT + 16 * of_nat (length (add_plt b))"
    using addresses(2) step
    by (auto simp: result in_step_def addressed_def add_tables_def fill_def empty entry_sizes b_def split: if_splits)
  with table entry_jumps [OF code in_reach, of mem] show ?thesis
    by (intro exI [of _ "length (add_plt b)"]) simp
qed

end

text \<open>C21: on every architecture with linkage tables, a call to a symbol's linkage table address jumps to the
  pointer in the symbol's slot of the global offset table, for every symbol of a group at once: the entry
  that the writer appended for the symbol lies at the address that the layout gave out for it, and its
  instructions, run there, load that slot.
\<close>

theorem linkage_table_jumps:
  assumes ok: "group_ok env ss base (rs1 @ res # rs2) offsets"
    and arch: "(arch_plt_entry env, run, in_reach, jump) \<in>
       {(x86_write_plt_entry, x86_run, \<lambda>_ _. True, \<lambda>a. a),
        (aarch64_write_plt_entry, a64_plt_run, \<lambda>got _. 8 dvd got, \<lambda>a. a),
        (riscv_write_plt_entry, riscv_run, riscv_near, \<lambda>a. a AND NOT 1),
        (loongarch_write_plt_entry, loongarch_run, loongarch_near, \<lambda>a. a)}"
    and new: "new_tables (allocate_symbols (env_relr_enabled env) (env_kind env) ss (\<lambda>_. 0)) (env_relr_enabled env) = Inr w"
    and proc: "process_symbols env (rs1 @ res # rs2) w = Inr w'"
    and addresses: "got_address res = Some got" "plt_address res = Some plt" "in_reach got plt"
  shows "\<exists>k. k < length (snd (plt_got_table w')) \<and> plt = base PLT_GOT + 16 * of_nat k
     \<and> run mem plt (snd (plt_got_table w') ! k) = Some (jump (mem got))"
  using arch addresses
    x86_plt.group_entry_jumps [OF ok _ new proc addresses(1,2)]
    aarch64_plt.group_entry_jumps [OF ok _ new proc addresses(1,2)]
    riscv_plt.group_entry_jumps [OF ok _ new proc addresses(1,2)]
    loongarch_plt.group_entry_jumps [OF ok _ new proc addresses(1,2)]
  by (elim insertE emptyE) simp_all

text \<open>
  Beyond the reach of the format, x86-64 and AArch64 refuse; RISC-V writes an entry that uses another slot
  and LoongArch, if the slot is before the entry, something that is no linkage table entry at all.
\<close>

lemma plt_out_of_reach:
  "x86_write_plt_entry 0x100010000 0x10000 = None"
  "aarch64_write_plt_entry 0x100010000 0x10000 = None"
  "map_option (riscv_run mem 0x10000) (riscv_write_plt_entry 0x100010000 0x10000) = Some (Some (mem 0x10000 AND NOT 1))"
  "map_option (loongarch_run mem 0x30000) (loongarch_write_plt_entry 0x10000 0x30000) = Some None"
proof -
  show "x86_write_plt_entry 0x100010000 0x10000 = None" by (simp add: x86_write_plt_entry_def)
  show "aarch64_write_plt_entry 0x100010000 0x10000 = None"
    by (simp add: aarch64_write_plt_entry_def Let_def page_mask_eval shl_def)
  have reg_0x67: "reg_at 0x000E0367 15 = 28" by (simp add: reg_at_def shr_def)
  have "upper_part 0x100000000 = 0" "lower_part 0x100000000 = 0"
    unfolding upper_part_eq lower_part_eq by (intro word64_eqI, unfold each_bit, simp add: bit_eval)+
  then show "map_option (riscv_run mem 0x10000) (riscv_write_plt_entry 0x100010000 0x10000) = Some (Some (mem 0x10000 AND NOT 1))"
    using reg_0x67 by (simp add: riscv_write_plt_entry_eq riscv_run_def riscv_pair_fields)
  show "map_option (loongarch_run mem 0x30000) (loongarch_write_plt_entry 0x10000 0x30000) = Some None"
    by (simp add: loongarch_write_plt_entry_eq loongarch_run_def larch_pcala_def page_of_def page_mask_eval
        SIZE_2KB_def shl_def shr_def)
qed

text \<open>The group of \<open>Got_Symbols\<close> for x86-64.\<close>

definition x86_env :: writer_env where
  "x86_env = sample_env\<lparr>arch_plt_entry := x86_write_plt_entry\<rparr>"

lemma x86_group_ok: "group_ok x86_env sample_symbols sample_base ([sample_first] @ sample_second # [sample_third]) sample_end"
proof -
  have fields: "env_kind x86_env = DynamicExecutable RelocatableModel" "env_relr_enabled x86_env = False"
    "arch_plt_entry x86_env = x86_write_plt_entry"
    by (simp_all add: x86_env_def sample_env_def)
  have "symbols_ok x86_env sample_symbols"
    by (simp add: symbols_ok_def sample_eval x86_env_def symbol_ok_def flags_ok_def tls_ok_def flags_eval)
  moreover have "list_all (plt_encodable x86_env) [sample_first, sample_second, sample_third]"
    by (simp add: plt_encodable_def fields sample_eval x86_write_plt_entry_def Let_def)
  ultimately show ?thesis
    using sample_create sample_fits by (simp add: group_ok_def fields sample_base_def [of GOT] sample_base_def [of GOT_RELR])
qed

theorem linkage_table_jumps_witness:
  "\<exists>w w' k. new_tables (allocate_symbols False (DynamicExecutable RelocatableModel) sample_symbols (\<lambda>_. 0)) False = Inr w
     \<and> process_symbols x86_env [sample_first, sample_second, sample_third] w = Inr w'
     \<and> k < length (snd (plt_got_table w')) \<and> (0x1000 :: u64) = 0x1000 + 16 * of_nat k
     \<and> x86_run (\<lambda>a. a + 1) 0x1000 (snd (plt_got_table w') ! k) = Some 0x3009"
proof -
  obtain w where "new_tables (allocate_symbols (env_relr_enabled sample_env) (env_kind sample_env) sample_symbols (\<lambda>_. 0))
      (env_relr_enabled sample_env) = Inr w"
    by (rule sample_tables)
  then have new: "new_tables (allocate_symbols (env_relr_enabled x86_env) (env_kind x86_env) sample_symbols (\<lambda>_. 0))
      (env_relr_enabled x86_env) = Inr w"
    by (simp add: x86_env_def)
  obtain w' where run: "process_symbols x86_env ([sample_first] @ sample_second # [sample_third]) w = Inr w'"
    using group_prefix [OF x86_group_ok new] by blast
  have arch: "(arch_plt_entry x86_env, x86_run, \<lambda>_ _. True, \<lambda>a. a) \<in>
       {(x86_write_plt_entry, x86_run, \<lambda>_ _. True, \<lambda>a. a),
        (aarch64_write_plt_entry, a64_plt_run, \<lambda>got _. 8 dvd got, \<lambda>a. a),
        (riscv_write_plt_entry, riscv_run, riscv_near, \<lambda>a. a AND NOT 1),
        (loongarch_write_plt_entry, loongarch_run, loongarch_near, \<lambda>a. a)}"
    by (simp add: x86_env_def)
  have addresses: "got_address sample_second = Some 0x3008" "plt_address sample_second = Some 0x1000"
      "sample_base PLT_GOT = 0x1000"
    by (simp_all add: sample_eval)
  show ?thesis
    using linkage_table_jumps [OF x86_group_ok arch new run addresses(1,2) TrueI, of "\<lambda>a. a + 1"] new run
    by (auto simp: x86_env_def sample_env_def addresses(3))
qed

end
