(* ===== verification/Reloc_Value.thy ===== *)
theory Reloc_Value
  imports Plt_Entries Relr
begin

text \<open>
  The value of a relocation: \<^verbatim>\<open>value_with_addend\<close> of \<^verbatim>\<open>reld-core/src/elf.rs\<close>, \<^verbatim>\<open>resolution_flags\<close> of
  \<^verbatim>\<open>layout.rs\<close>, and of \<^verbatim>\<open>elf_writer.rs\<close> the computation in \<^verbatim>\<open>apply_relocation\<close>, \<^verbatim>\<open>write_absolute_relocation\<close>
  and \<^verbatim>\<open>adjust_relocation_based_on_value\<close>; and what the layout reserves for a relocation
  (\<^verbatim>\<open>materialize_relocation_requirements\<close> of \<^verbatim>\<open>elf.rs\<close>).
\<close>

section \<open>Values\<close>

datatype value_error =
    TableError got_error | RelativeTableError table_error | WriteError reloc_error | ThunkError thunk_error
  | UnexpectedAddend | UnsupportedHighPart | MissingHighRelocation | UnexpectedSize | UnexpectedKind
  | UnknownRelocation | NoSymbol | NoSuchSymbol | MissingResolution
  | AbsoluteInPositionIndependent | DisallowedInShared | NeedsPic
  | PairOffset | UnexpectedPrevious | MissingPrevious
  | DisallowedForInterposable | CopyRelocationsDisabled | ReadOnlySection

fun lift_table :: "got_error fault + 'a \<Rightarrow> value_error fault + 'a" where
  "lift_table (Inr x) = Inr x"
| "lift_table (Inl Panic) = Inl Panic"
| "lift_table (Inl (Err e)) = Inl (Err (TableError e))"

text \<open>
  What is known of the symbol of a relocation: its resolution; the number, among the sections of all
  inputs, of the string-merge section it is in, if it is in one, and the address there by the part of the
  output and the addend (the string lookup of \<^verbatim>\<open>get_merged_string_output_address\<close>); and whether it is
  undefined. The parts of the output are a table by section number.
\<close>

record relocated =
  rel_res :: resolution
  merge_section :: "nat option"
  merged_at :: "part_id \<Rightarrow> u64 \<Rightarrow> value_error fault + u64"
  rel_undefined :: bool

definition merged_string_address :: "part_id list \<Rightarrow> relocated \<Rightarrow> u64 \<Rightarrow> value_error fault + u64 option" where
  "merged_string_address section_part_ids r addend =
     (case merge_section r of
        None \<Rightarrow> Inr None
      | Some section_id \<Rightarrow>
          if section_id < length section_part_ids
          then and_then (merged_at r (section_part_ids ! section_id) addend) (\<lambda>a. Inr (Some a))
          else Inl Panic)"

definition value_with_addend :: "part_id list \<Rightarrow> relocated \<Rightarrow> u64 \<Rightarrow> value_error fault + u64" where
  "value_with_addend section_part_ids r addend =
     (let res = rel_res r in
      if is_ifunc (res_flags res)
      then and_then (lift_table (res_plt_address res)) (\<lambda>plt. Inr (plt + addend))
      else if raw_value res = 0
      then and_then (merged_string_address section_part_ids r addend) (\<lambda>found.
             case found of Some a \<Rightarrow> Inr a | None \<Rightarrow> Inr (raw_value res + addend))
      else Inr (raw_value res + addend))"

fun resolution_flags :: "'r relocation_kind \<Rightarrow> value_flags" where
  "resolution_flags PltRelative = PLT_FLAG OR GOT_FLAG"
| "resolution_flags PltRelGotBase = PLT_FLAG OR GOT_FLAG"
| "resolution_flags Got = GOT_FLAG"
| "resolution_flags GotRelGotBase = GOT_FLAG"
| "resolution_flags GotRelative = GOT_FLAG"
| "resolution_flags GotRelativeLoongArch64 = GOT_FLAG"
| "resolution_flags GotTpOff = GOT_TLS_OFFSET"
| "resolution_flags GotTpOffLoongArch64 = GOT_TLS_OFFSET"
| "resolution_flags GotTpOffGot = GOT_TLS_OFFSET"
| "resolution_flags GotTpOffGotBase = GOT_TLS_OFFSET"
| "resolution_flags TlsGd = GOT_TLS_MODULE"
| "resolution_flags TlsGdGot = GOT_TLS_MODULE"
| "resolution_flags TlsGdGotBase = GOT_TLS_MODULE"
| "resolution_flags TlsDesc = GOT_TLS_DESCRIPTOR"
| "resolution_flags TlsDescLoongArch64 = GOT_TLS_DESCRIPTOR"
| "resolution_flags TlsDescGot = GOT_TLS_DESCRIPTOR"
| "resolution_flags TlsDescGotBase = GOT_TLS_DESCRIPTOR"
| "resolution_flags TlsDescCall = GOT_TLS_DESCRIPTOR"
| "resolution_flags TlsLd = 0"
| "resolution_flags TlsLdGot = 0"
| "resolution_flags TlsLdGotBase = 0"
| "resolution_flags Absolute = DIRECT"
| "resolution_flags AbsoluteSet = DIRECT"
| "resolution_flags AbsoluteSetWord6 = DIRECT"
| "resolution_flags AbsoluteAddition = DIRECT"
| "resolution_flags AbsoluteAdditionWord6 = DIRECT"
| "resolution_flags AbsoluteSubtraction = DIRECT"
| "resolution_flags AbsoluteSubtractionWord6 = DIRECT"
| "resolution_flags Relative = DIRECT"
| "resolution_flags RelativeRiscVLow12 = DIRECT"
| "resolution_flags RelativeLoongArchHigh = DIRECT"
| "resolution_flags relocation_kind.DtpOff = DIRECT"
| "resolution_flags TpOff = DIRECT"
| "resolution_flags SymRelGotBase = DIRECT"
| "resolution_flags (PairSubtractionULEB128 _) = DIRECT"
| "resolution_flags NoRelocation = 0"
| "resolution_flags AbsoluteLowPart = 0"
| "resolution_flags AlignmentReq = 0"

fun needs_tlsld :: "'r relocation_kind \<Rightarrow> bool" where
  "needs_tlsld TlsLd = True"
| "needs_tlsld TlsLdGot = True"
| "needs_tlsld TlsLdGotBase = True"
| "needs_tlsld _ = False"

text \<open>
  What the computation reads of the layout and of the relocation. \<open>ctx_sections\<close> are the numbers of the
  object's sections. \<open>ctx_high\<close> finds the relocation of the upper part by its offset in the section, with
  the kind of its table entry, its symbol and its addend; \<open>ctx_pair\<close> is the value of the preceding
  relocation of a pair, once it is known to have the expected type. \<open>ctx_local_entry\<close> is not zero for a
  PowerPC64 branch only.
\<close>

record 'r value_ctx =
  ctx_kind :: output_kind
  got_base :: u64
  tlsld_got_entry :: "u64 option"
  ctx_tls_start :: u64
  ctx_tls_end :: u64
  ctx_tp_start :: u64
  ctx_mask :: page_mask_value
  ctx_bias :: u64
  ctx_parts :: "part_id list"
  ctx_sections :: "nat \<times> nat"
  ctx_local_entry :: u64
  ctx_section :: u64
  ctx_place :: u64
  ctx_high :: "u64 \<Rightarrow> value_error fault + ('r relocation_kind \<times> relocated \<times> u64)"
  ctx_pair :: "'r \<Rightarrow> value_error fault + u64"

definition res_got :: "relocated \<Rightarrow> value_error fault + u64" where
  "res_got r = lift_table (res_got_address (rel_res r))"
definition res_got_for_relocation :: "relocated \<Rightarrow> value_error fault + u64" where
  "res_got_for_relocation r = lift_table (got_address_for_relocation (rel_res r))"
definition res_tlsgd :: "relocated \<Rightarrow> value_error fault + u64" where
  "res_tlsgd r = lift_table (tlsgd_got_address (rel_res r))"
definition res_tlsdesc :: "relocated \<Rightarrow> value_error fault + u64" where
  "res_tlsdesc r = lift_table (tls_descriptor_got_address (rel_res r))"
definition res_plt :: "relocated \<Rightarrow> value_error fault + u64" where
  "res_plt r = lift_table (res_plt_address (rel_res r))"
definition tlsld_got :: "'r value_ctx \<Rightarrow> value_error fault + u64" where
  "tlsld_got c = (case tlsld_got_entry c of None \<Rightarrow> Inl Panic | Some a \<Rightarrow> Inr a)"

text \<open>The three forms of an offset-table address: relative to the place, as it is, relative to the table.\<close>

definition got_from_place :: "'r value_ctx \<Rightarrow> u64 \<Rightarrow> u64 \<Rightarrow> u64" where
  "got_from_place c addend got =
     (got + addend + ctx_bias c AND mask_got_entry (ctx_mask c)) - (ctx_place c AND mask_place (ctx_mask c))"

definition got_absolute :: "'r value_ctx \<Rightarrow> u64 \<Rightarrow> u64 \<Rightarrow> u64" where
  "got_absolute c addend got = got + addend + ctx_bias c AND mask_got_entry (ctx_mask c)"

definition got_from_base :: "'r value_ctx \<Rightarrow> u64 \<Rightarrow> u64 \<Rightarrow> u64" where
  "got_from_base c addend got =
     (got + addend + ctx_bias c AND mask_got_entry (ctx_mask c)) - (got_base c AND mask_got (ctx_mask c))"

text \<open>
  The lower part takes the value of the upper part, computed at the place of that. Where the upper part
  is relative to the place, the code passes the parts of the object's own sections.
\<close>

definition object_parts :: "'r value_ctx \<Rightarrow> part_id list option" where
  "object_parts c =
     (case ctx_sections c of (start, stop) \<Rightarrow> window (ctx_parts c) (int start) (stop - start))"

definition low_part_value :: "'r value_ctx \<Rightarrow> relocated \<Rightarrow> u64 \<Rightarrow> value_error fault + u64" where
  "low_part_value c r addend =
     (if addend \<noteq> 0 then Inl (Err UnexpectedAddend)
      else and_then (value_with_addend (ctx_parts c) r addend) (\<lambda>label.
        let hi_offset_in_section = label - ctx_section c in
        and_then (ctx_high c hi_offset_in_section) (\<lambda>(hi_kind, hi, hi_addend).
            let place = ctx_section c + hi_offset_in_section in
            case hi_kind of
              Relative \<Rightarrow>
                and_then (or_panic (object_parts c)) (\<lambda>parts.
                and_then (value_with_addend parts hi hi_addend) (\<lambda>v. Inr (v + ctx_bias c - place)))
            | GotRelative \<Rightarrow> and_then (res_got_for_relocation hi) (\<lambda>v. Inr (v + hi_addend + ctx_bias c - place))
            | TlsGd \<Rightarrow> and_then (res_tlsgd hi) (\<lambda>v. Inr (v + hi_addend + ctx_bias c - place))
            | TlsLd \<Rightarrow> and_then (tlsld_got c) (\<lambda>v. Inr (v + hi_addend + ctx_bias c - place))
            | GotTpOff \<Rightarrow> and_then (res_got hi) (\<lambda>v. Inr (v + hi_addend + ctx_bias c - place))
            | _ \<Rightarrow> Inl (Err UnsupportedHighPart))))"

text \<open>The kinds of thread-local storage.\<close>

fun tls_value :: "'r value_ctx \<Rightarrow> relocated \<Rightarrow> u64 \<Rightarrow> 'r relocation_kind \<Rightarrow> value_error fault + u64" where
  "tls_value c r addend TlsGd = and_then (res_tlsgd r) (\<lambda>got. Inr (got_from_place c addend got))"
| "tls_value c r addend TlsGdGot = and_then (res_tlsgd r) (\<lambda>got. Inr (got_absolute c addend got))"
| "tls_value c r addend TlsGdGotBase = and_then (res_tlsgd r) (\<lambda>got. Inr (got_from_base c addend got))"
| "tls_value c r addend TlsLd = and_then (tlsld_got c) (\<lambda>got. Inr (got_from_place c addend got))"
| "tls_value c r addend TlsLdGot = and_then (tlsld_got c) (\<lambda>got. Inr (got_absolute c addend got))"
| "tls_value c r addend TlsLdGotBase = and_then (tlsld_got c) (\<lambda>got. Inr (got_from_base c addend got))"
| "tls_value c r addend relocation_kind.DtpOff =
     Inr (raw_value (rel_res r) + addend + ctx_bias c
          - (if ctx_kind c = SharedObject then ctx_tls_start c else ctx_tls_end c))"
| "tls_value c r addend GotTpOff = and_then (res_got r) (\<lambda>got. Inr (got_from_place c addend got))"
| "tls_value c r addend GotTpOffLoongArch64 =
     and_then (res_got r) (\<lambda>got. Inr (highest_relocation_with_bias (got + addend) (ctx_place c)))"
| "tls_value c r addend GotTpOffGot = and_then (res_got r) (\<lambda>got. Inr (got_absolute c addend got))"
| "tls_value c r addend GotTpOffGotBase = and_then (res_got r) (\<lambda>got. Inr (got_from_base c addend got))"
| "tls_value c r addend TpOff =
     (if rel_undefined r then Inr (addend + ctx_bias c)
      else Inr (raw_value (rel_res r) + addend + ctx_bias c - ctx_tp_start c))"
| "tls_value c r addend TlsDesc = and_then (res_tlsdesc r) (\<lambda>got. Inr (got_from_place c addend got))"
| "tls_value c r addend TlsDescLoongArch64 =
     and_then (res_tlsdesc r) (\<lambda>got. Inr (highest_relocation_with_bias (got + addend) (ctx_place c)))"
| "tls_value c r addend TlsDescGot = and_then (res_tlsdesc r) (\<lambda>got. Inr (got_absolute c addend got))"
| "tls_value c r addend TlsDescGotBase = and_then (res_tlsdesc r) (\<lambda>got. Inr (got_from_base c addend got))"
| "tls_value c r addend _ = Inl Panic"

text \<open>
  The value by kind. An absolute relocation goes through \<open>write_absolute_relocation\<close> below, which ends in
  the value given here; alignment has been dealt with before.
\<close>

fun address_value :: "'r value_ctx \<Rightarrow> relocated \<Rightarrow> u64 \<Rightarrow> 'r relocation_kind \<Rightarrow> value_error fault + u64" where
  "address_value c r addend Absolute = value_with_addend (ctx_parts c) r addend"
| "address_value c r addend AbsoluteSet = value_with_addend (ctx_parts c) r addend"
| "address_value c r addend AbsoluteSetWord6 = value_with_addend (ctx_parts c) r addend"
| "address_value c r addend AbsoluteAddition = value_with_addend (ctx_parts c) r addend"
| "address_value c r addend AbsoluteAdditionWord6 = value_with_addend (ctx_parts c) r addend"
| "address_value c r addend AbsoluteSubtraction = value_with_addend (ctx_parts c) r addend"
| "address_value c r addend AbsoluteSubtractionWord6 = value_with_addend (ctx_parts c) r addend"
| "address_value c r addend AbsoluteLowPart =
     and_then (value_with_addend (ctx_parts c) r addend) (\<lambda>v. Inr (v AND mask_symbol_plus_addend (ctx_mask c)))"
| "address_value c r addend Relative =
     and_then (value_with_addend (ctx_parts c) r addend) (\<lambda>v.
       Inr ((v + ctx_local_entry c + ctx_bias c AND mask_symbol_plus_addend (ctx_mask c))
            - (ctx_place c AND mask_place (ctx_mask c))))"
| "address_value c r addend RelativeLoongArchHigh =
     and_then (value_with_addend (ctx_parts c) r addend) (\<lambda>v. Inr (highest_relocation_with_bias v (ctx_place c)))"
| "address_value c r addend RelativeRiscVLow12 = low_part_value c r addend"
| "address_value c r addend (PairSubtractionULEB128 expected) =
     and_then (ctx_pair c expected) (\<lambda>set_val.
     and_then (value_with_addend (ctx_parts c) r addend) (\<lambda>sub_val. Inr (set_val - sub_val)))"
| "address_value c r addend GotRelative =
     and_then (res_got_for_relocation r) (\<lambda>got. Inr (got_from_place c addend got))"
| "address_value c r addend GotRelativeLoongArch64 =
     and_then (res_got_for_relocation r) (\<lambda>got. Inr (highest_relocation_with_bias (got + addend) (ctx_place c)))"
| "address_value c r addend GotRelGotBase =
     and_then (res_got_for_relocation r) (\<lambda>got. Inr (got_from_base c addend got))"
| "address_value c r addend Got =
     and_then (if needs_got_tls_module (res_flags (rel_res r)) then res_tlsgd r else res_got_for_relocation r) (\<lambda>got.
       Inr (got + ctx_bias c AND mask_got_entry (ctx_mask c)))"
| "address_value c r addend SymRelGotBase =
     and_then (value_with_addend (ctx_parts c) r addend) (\<lambda>v.
       Inr ((v + ctx_bias c AND mask_symbol_plus_addend (ctx_mask c)) - (got_base c AND mask_got (ctx_mask c))))"
| "address_value c r addend PltRelGotBase =
     and_then (res_plt r) (\<lambda>plt. Inr (plt + ctx_bias c - (got_base c AND mask_got (ctx_mask c))))"
| "address_value c r addend PltRelative =
     and_then (res_plt r) (\<lambda>plt. Inr (plt + addend + ctx_bias c - (ctx_place c AND mask_place (ctx_mask c))))"
| "address_value c r addend TlsGd = tls_value c r addend TlsGd"
| "address_value c r addend TlsGdGot = tls_value c r addend TlsGdGot"
| "address_value c r addend TlsGdGotBase = tls_value c r addend TlsGdGotBase"
| "address_value c r addend TlsLd = tls_value c r addend TlsLd"
| "address_value c r addend TlsLdGot = tls_value c r addend TlsLdGot"
| "address_value c r addend TlsLdGotBase = tls_value c r addend TlsLdGotBase"
| "address_value c r addend relocation_kind.DtpOff = tls_value c r addend relocation_kind.DtpOff"
| "address_value c r addend GotTpOff = tls_value c r addend GotTpOff"
| "address_value c r addend GotTpOffLoongArch64 = tls_value c r addend GotTpOffLoongArch64"
| "address_value c r addend GotTpOffGot = tls_value c r addend GotTpOffGot"
| "address_value c r addend GotTpOffGotBase = tls_value c r addend GotTpOffGotBase"
| "address_value c r addend TpOff = tls_value c r addend TpOff"
| "address_value c r addend TlsDesc = tls_value c r addend TlsDesc"
| "address_value c r addend TlsDescLoongArch64 = tls_value c r addend TlsDescLoongArch64"
| "address_value c r addend TlsDescGot = tls_value c r addend TlsDescGot"
| "address_value c r addend TlsDescGotBase = tls_value c r addend TlsDescGotBase"
| "address_value c r addend NoRelocation = Inr 0"
| "address_value c r addend TlsDescCall = Inr 0"
| "address_value c r addend AlignmentReq = Inl Panic"

text \<open>Additions and subtractions work on the bytes at the place.\<close>

definition LOW6_MASK :: u64 where "LOW6_MASK = 63"

definition adjust_relocation_based_on_value ::
    "u64 \<Rightarrow> 'r relocation_kind_info \<Rightarrow> u8 list \<Rightarrow> u64 \<Rightarrow> value_error fault + u64" where
  "adjust_relocation_based_on_value v info out offset_in_section =
     (case rel_size info of
        BitMasking _ \<Rightarrow> Inl (Err UnexpectedSize)
      | ByteSize n \<Rightarrow>
          (case window out (int (unat offset_in_section)) n of
             None \<Rightarrow> Inl Panic
           | Some bytes \<Rightarrow>
               if 8 < n then Inl Panic
               else let current_value = of_le bytes in
               (case kind info of
                  AbsoluteSetWord6 \<Rightarrow>
                    Inr ((v AND LOW6_MASK) OR (current_value AND NOT LOW6_MASK))
                | AbsoluteAddition \<Rightarrow> Inr (current_value + v)
                | AbsoluteAdditionWord6 \<Rightarrow>
                    Inr (((current_value AND LOW6_MASK) + (v AND LOW6_MASK) AND LOW6_MASK)
                         OR (current_value AND NOT LOW6_MASK))
                | AbsoluteSubtraction \<Rightarrow> Inr (current_value - v)
                | AbsoluteSubtractionWord6 \<Rightarrow>
                    Inr (((current_value AND LOW6_MASK) - (v AND LOW6_MASK) AND LOW6_MASK)
                         OR (current_value AND NOT LOW6_MASK))
                | _ \<Rightarrow> Inl (Err UnexpectedKind))))"

fun adjusts :: "'r relocation_kind \<Rightarrow> bool" where
  "adjusts AbsoluteAddition = True"
| "adjusts AbsoluteAdditionWord6 = True"
| "adjusts AbsoluteSubtraction = True"
| "adjusts AbsoluteSetWord6 = True"
| "adjusts AbsoluteSubtractionWord6 = True"
| "adjusts _ = False"

section \<open>Absolute relocations\<close>

text \<open>
  \<^verbatim>\<open>TableWriter\<close> is seen from two sides: the general dynamic relocations (\<open>Got_Tables\<close>) and the relative
  ones (\<open>Relr\<close>).
\<close>

record section_info =
  section_address :: u64
  is_writable :: bool
  section_flags :: u64
  section_part :: part_id

definition SHF_ALLOC :: u64 where "SHF_ALLOC = 2"
definition is_alloc :: "u64 \<Rightarrow> bool" where "is_alloc fl \<longleftrightarrow> fl AND SHF_ALLOC = SHF_ALLOC"

definition is_absolute :: "value_flags \<Rightarrow> bool" where "is_absolute fl = contains fl ABSOLUTE"
definition is_function :: "value_flags \<Rightarrow> bool" where "is_function fl = contains fl FUNCTION_FLAG"
definition needs_direct :: "value_flags \<Rightarrow> bool" where "needs_direct fl = contains fl DIRECT"
definition needs_copy_relocation :: "value_flags \<Rightarrow> bool" where
  "needs_copy_relocation fl = contains fl COPY_RELOCATION"

type_synonym dyn_writer = "table_writer \<times> address_writer"

definition write_absolute_relocation ::
    "output_kind \<Rightarrow> part_id list \<Rightarrow> section_info \<Rightarrow> relocated \<Rightarrow> u64 \<Rightarrow> u64 \<Rightarrow> dyn_writer \<Rightarrow> value_error fault + u64 \<times> dyn_writer" where
  "write_absolute_relocation out_kind section_part_ids sec r place addend w =
     (let res = rel_res r; fl = res_flags res in
      if \<not> is_alloc (section_flags sec) then and_then (value_with_addend section_part_ids r addend) (\<lambda>v. Inr (v, w))
      else if is_dynamic fl \<and> is_absolute fl \<and> \<not> is_writable sec then Inr (0, w)
      else if is_interposable fl \<and> is_writable sec
      then and_then (lift_table (res_dynamic_symbol_index res)) (\<lambda>dynsym.
           and_then (lift_table (write_rela_dyn_general place dynsym AbsoluteAddress addend (fst w))) (\<lambda>g.
           Inr (0, g, snd w)))
      else if is_ifunc fl \<and> is_writable sec \<and> is_relocatable out_kind
      then and_then (lift_table (write_rela_dyn_general place 0 Irelative (raw_value res + addend) (fst w))) (\<lambda>g.
           Inr (0, g, snd w))
      else if is_relocatable out_kind \<and> \<not> is_absolute fl
      then and_then (value_with_addend section_part_ids r addend) (\<lambda>address.
           case write_address_relocation place address (snd w) of
             Inl e \<Rightarrow> Inl (Err (RelativeTableError e))
           | Inr (v, a) \<Rightarrow> Inr (v, fst w, a))
      else and_then (value_with_addend section_part_ids r addend) (\<lambda>v. Inr (v, w)))"

section \<open>The tables hold what a relocation asks for\<close>

lemmas requested_defs = contains_def needs_got_def needs_plt_def needs_got_tls_offset_def
  needs_got_tls_module_def needs_got_tls_descriptor_def has_tls_got_def

lemma contains_or: "contains fl (a OR b) \<longleftrightarrow> contains fl a \<and> contains fl b"
  by (auto simp: contains_def bit_eq_iff bit_and_iff bit_or_iff)

lemma no_merged_string [simp]:
  "merge_section r = None \<Longrightarrow> merged_string_address parts r addend = Inr None"
  by (simp add: merged_string_address_def)

text \<open>The sum of value and addend, where no string is looked up.\<close>

definition symbol_address :: "relocated \<Rightarrow> u64 option" where
  "symbol_address r =
     (if is_ifunc (res_flags (rel_res r)) then plt_address (rel_res r) else Some (raw_value (rel_res r)))"

lemma value_with_addend_plain:
  assumes "merge_section r = None \<or> raw_value (rel_res r) \<noteq> 0" "symbol_address r = Some a"
  shows "value_with_addend parts r addend = Inr (a + addend)"
  using assms by (auto simp: value_with_addend_def Let_def symbol_address_def res_plt_address_def split: if_splits)

lemma create_resolution_addresses:
  assumes "create_resolution fl raw index relr okind offsets = Some (res, offsets')"
  shows "res_flags res = fl" "plt_address res \<noteq> None \<longleftrightarrow> needs_plt fl"
    "got_address res \<noteq> None \<longleftrightarrow> needs_plt fl \<or> has_tls_got fl \<or> needs_got fl"
  using assms by (auto simp: create_resolution_def Let_def split: if_splits option.splits)

text \<open>The kinds whose value is an address that the tables or the symbol provide.\<close>

fun provided :: "'r relocation_kind \<Rightarrow> bool" where
  "provided AlignmentReq = False"
| "provided RelativeRiscVLow12 = False"
| "provided (PairSubtractionULEB128 _) = False"
| "provided _ = True"

lemma resolution_got:
  "got_address res = Some got \<Longrightarrow>
     res_got_address res = Inr got \<and> (\<exists>a. got_address_for_relocation res = Inr a)
     \<and> (\<exists>a. tlsgd_got_address res = Inr a) \<and> (\<exists>a. tls_descriptor_got_address res = Inr a)"
  by (simp add: res_got_address_def got_address_for_relocation_def tlsgd_got_address_def
      tls_descriptor_got_address_def Let_def)

lemma relocated_got:
  assumes "got_address (rel_res r) = Some got"
  shows "(\<exists>a. res_got r = Inr a) \<and> (\<exists>a. res_got_for_relocation r = Inr a)
     \<and> (\<exists>a. res_tlsgd r = Inr a) \<and> (\<exists>a. res_tlsdesc r = Inr a)"
  using resolution_got [OF assms]
  by (auto simp: res_got_def res_got_for_relocation_def res_tlsgd_def res_tlsdesc_def)

text \<open>
  The addresses of the tables that a kind needs are there once the flags that \<open>resolution_flags\<close> gives are
  noted; \<open>DIRECT\<close> is for the symbol itself.
\<close>

lemma table_flags:
  "GOT_FLAG AND NOT DIRECT = GOT_FLAG" "PLT_FLAG AND NOT DIRECT = PLT_FLAG"
  "(PLT_FLAG OR GOT_FLAG) AND NOT DIRECT = PLT_FLAG OR GOT_FLAG"
  "GOT_TLS_OFFSET AND NOT DIRECT = GOT_TLS_OFFSET" "GOT_TLS_MODULE AND NOT DIRECT = GOT_TLS_MODULE"
  "GOT_TLS_DESCRIPTOR AND NOT DIRECT = GOT_TLS_DESCRIPTOR"
  by (simp_all add: GOT_FLAG_def PLT_FLAG_def DIRECT_def GOT_TLS_OFFSET_def GOT_TLS_MODULE_def
      GOT_TLS_DESCRIPTOR_def shl_def)

lemma requested_addresses_present:
  assumes res: "create_resolution fl raw index relr okind offsets = Some (rel_res r, offsets')"
    and requested: "contains fl (resolution_flags k AND NOT DIRECT)"
    and tlsld: "needs_tlsld k \<Longrightarrow> tlsld_got_entry c \<noteq> None"
    and ifunc: "is_ifunc fl \<Longrightarrow> needs_plt fl"
    and strings: "merge_section r = None \<or> raw_value (rel_res r) \<noteq> 0"
    and provided: "provided k"
  shows "\<exists>v. address_value c r addend k = Inr v"
proof -
  note created = create_resolution_addresses [OF res]
  have sym: "\<exists>v. value_with_addend (ctx_parts c) r addend = Inr v"
  proof -
    have "symbol_address r \<noteq> None"
      using created(1,2) ifunc by (simp add: symbol_address_def)
    then obtain a where "symbol_address r = Some a" by blast
    with strings show ?thesis by (auto simp: value_with_addend_plain)
  qed
  have plt: "\<exists>v. res_plt r = Inr v" if "contains fl PLT_FLAG"
    using that created(2) by (auto simp: res_plt_def res_plt_address_def needs_plt_def)
  have got: "(\<exists>a. res_got r = Inr a) \<and> (\<exists>a. res_got_for_relocation r = Inr a)
     \<and> (\<exists>a. res_tlsgd r = Inr a) \<and> (\<exists>a. res_tlsdesc r = Inr a)"
    if "contains fl GOT_FLAG \<or> contains fl GOT_TLS_OFFSET \<or> contains fl GOT_TLS_MODULE
      \<or> contains fl GOT_TLS_DESCRIPTOR"
    using that created(3) relocated_got by (auto simp: needs_got_def has_tls_got_def)
  have local: "\<exists>v. tlsld_got c = Inr v" if "needs_tlsld k"
    using tlsld that by (auto simp: tlsld_got_def)
  show ?thesis
    using requested provided sym plt got local
    by (cases k) (auto simp: contains_or table_flags and_then_Inr_iff)
qed

section \<open>Pairs of an upper and a lower part\<close>

text \<open>The address that an upper part refers to.\<close>

fun pcrel_target ::
    "part_id list \<Rightarrow> u64 option \<Rightarrow> relocated \<Rightarrow> u64 \<Rightarrow> 'r relocation_kind \<Rightarrow> value_error fault + u64" where
  "pcrel_target parts tlsld r addend Relative = value_with_addend parts r addend"
| "pcrel_target parts tlsld r addend GotRelative = and_then (res_got_for_relocation r) (\<lambda>a. Inr (a + addend))"
| "pcrel_target parts tlsld r addend TlsGd = and_then (res_tlsgd r) (\<lambda>a. Inr (a + addend))"
| "pcrel_target parts tlsld r addend TlsLd =
     (case tlsld of None \<Rightarrow> Inl Panic | Some a \<Rightarrow> Inr (a + addend))"
| "pcrel_target parts tlsld r addend GotTpOff = and_then (res_got r) (\<lambda>a. Inr (a + addend))"
| "pcrel_target parts tlsld r addend _ = Inl (Err UnsupportedHighPart)"

definition upper_kinds :: "'r relocation_kind set" where
  "upper_kinds = {Relative, GotRelative, TlsGd, TlsLd, GotTpOff}"

lemma page_mask_default_simps [simp]:
  "mask_symbol_plus_addend page_mask_default = - 1" "mask_got_entry page_mask_default = - 1"
  "mask_place page_mask_default = - 1" "mask_got page_mask_default = - 1"
  by (simp_all add: page_mask_default_def)

lemma upper_part_value:
  assumes "k \<in> upper_kinds" "ctx_mask c = page_mask_default" "ctx_bias c = 0" "ctx_local_entry c = 0"
    and "address_value c r addend k = Inr v"
  shows "pcrel_target (ctx_parts c) (tlsld_got_entry c) r addend k = Inr (v + ctx_place c)"
  using assms by (auto simp: upper_kinds_def got_from_place_def and_then_Inr_iff tlsld_got_def split: option.splits)

lemma value_with_addend_parts:
  "merge_section r = None \<or> raw_value (rel_res r) \<noteq> 0 \<Longrightarrow>
     value_with_addend parts r addend = value_with_addend parts' r addend"
  by (auto simp: value_with_addend_def Let_def)

text \<open>The lower part has the value of the upper part at its place.\<close>

lemma lower_part_value:
  assumes k: "k \<in> upper_kinds" and high: "ctx_high c off = Inr (k, hi, hi_addend)"
    and label: "value_with_addend (ctx_parts c) lo 0 = Inr (ctx_section c + off)"
    and parts: "object_parts c = Some parts"
    and strings: "merge_section hi = None \<or> raw_value (rel_res hi) \<noteq> 0"
    and bias: "ctx_bias c = 0"
    and target: "pcrel_target (ctx_parts c) (tlsld_got_entry c) hi hi_addend k = Inr target"
  shows "address_value c lo 0 RelativeRiscVLow12 = Inr (target - (ctx_section c + off))"
proof -
  note moved = value_with_addend_parts [OF strings, of parts hi_addend "ctx_parts c"]
  show ?thesis
    using k target high label parts bias moved
    by (auto simp: low_part_value_def Let_def upper_kinds_def and_then_Inr_iff tlsld_got_def split: option.splits)
qed

text \<open>
  The parts that the lower part passes for an upper part relative to the place are those of the object's
  own sections, but the string lookup indexes them with the number of the section among all inputs. For a
  string-merge section behind them the lookup panics, although the upper part itself is found.
\<close>

lemma lower_part_string_panics:
  assumes "ctx_high c off = Inr (Relative, hi, hi_addend)"
    and "value_with_addend (ctx_parts c) lo 0 = Inr (ctx_section c + off)"
    and "ctx_sections c = (start, stop)" "start \<le> stop" "stop \<le> length (ctx_parts c)"
    and "\<not> is_ifunc (res_flags (rel_res hi))" "raw_value (rel_res hi) = 0"
    and "merge_section hi = Some n" "start \<le> n" "n < stop" "stop - start \<le> n"
  shows "address_value c lo 0 RelativeRiscVLow12 = Inl Panic"
    and "value_with_addend (ctx_parts c) hi hi_addend = merged_at hi (ctx_parts c ! n) hi_addend"
proof -
  have "object_parts c = Some (take (stop - start) (drop start (ctx_parts c)))"
    using assms(3-5) by (simp add: object_parts_def window_def)
  then show "address_value c lo 0 RelativeRiscVLow12 = Inl Panic"
    using assms by (simp add: low_part_value_def value_with_addend_def [of _ hi] merged_string_address_def Let_def)
  show "value_with_addend (ctx_parts c) hi hi_addend = merged_at hi (ctx_parts c ! n) hi_addend"
    using assms by (cases "merged_at hi (ctx_parts c ! n) hi_addend")
      (simp_all add: value_with_addend_def merged_string_address_def Let_def)
qed

end
