(* ===== verification/Reloc_Apply.thy ===== *)
theory Reloc_Apply
  imports Reloc_Value Relax_Deltas "HOL-Library.Monad_Syntax"
begin

text \<open>
  Applying the relocations of a section: \<^verbatim>\<open>get_resolution\<close>, \<^verbatim>\<open>get_pair_subtraction_relocation_value\<close>,
  \<^verbatim>\<open>apply_relocation\<close> and \<^verbatim>\<open>apply_relocations\<close> of \<^verbatim>\<open>reld-core/src/elf_writer.rs\<close>, for an architecture
  given by the functions of its \<^verbatim>\<open>Arch\<close> trait.
\<close>

section \<open>The architecture\<close>

record 'r relaxation =
  relax_info :: "'r relocation_kind_info"
  relax_apply :: "relax_site \<Rightarrow> relax_site option"
  relax_next :: relocation_modifier
  mandatory :: bool

text \<open>
  The part of the trait that relocations use; a table without an entry is the error of
  \<^verbatim>\<open>relocation_from_raw\<close>. \<^verbatim>\<open>new_relaxation\<close> gets the type, the bytes, the offset, the flags of the
  symbol, the kind of output, the flags of the section, whether the address is known not to be zero, and
  the deletions in the section; it can panic.
\<close>

record 'r arch =
  relocation_from_raw :: "'r \<Rightarrow> 'r relocation_kind_info option"
  new_relaxation :: "'r \<Rightarrow> u8 list \<Rightarrow> u64 \<Rightarrow> value_flags \<Rightarrow> output_kind \<Rightarrow> u64 \<Rightarrow> bool
    \<Rightarrow> section_relax_deltas option \<Rightarrow> 'r relaxation option option"
  is_disallowed_for_interposable_symbols :: "'r \<Rightarrow> bool"
  is_disallowed_in_shared_object :: "'r \<Rightarrow> bool"
  high_part_relocations :: "'r list"
  arch_thunk_config :: "thunk_config option"
  fill_nop_padding :: "u8 list \<Rightarrow> u8 list"
  arch_local_entry_offset :: "u8 \<Rightarrow> u64"

section \<open>Relocations and symbols\<close>

record 'r reloc =
  reloc_offset :: u64
  reloc_type :: 'r
  reloc_symbol :: "nat option"
  reloc_addend :: u64

text \<open>
  A symbol of the object: its identity and that of its definition, the resolution that the layout gave
  it, if it gave one, and the section it is in with the address where that was loaded and what was deleted
  from it.
\<close>

record object_symbol =
  canonical_id :: symbol_id
  merged_resolution :: "resolution option"
  symbol_section :: "(u64 option \<times> section_relax_deltas option) option"
  symbol_value :: u64
  symbol_flags :: value_flags
  symbol_other :: u8
  symbol_undefined :: bool
  string_section :: "nat option"
  string_at :: "part_id \<Rightarrow> u64 \<Rightarrow> value_error fault + u64"

record apply_env =
  lay_kind :: output_kind
  lay_relax :: bool
  lay_symbols :: "object_symbol list"
  lay_parts :: "part_id list"
  lay_sections :: "nat \<times> nat"
  lay_got_base :: u64
  lay_tlsld_got_entry :: "u64 option"
  lay_tls_start :: u64
  lay_tls_end :: u64
  lay_tp_start :: u64
  lay_thunks :: "(symbol_id \<times> u64) list list"
  lay_thunk_block :: thunk_block_id
  lay_uleb :: "u64 \<Rightarrow> u8 list"

fun is_position_independent :: "output_kind \<Rightarrow> bool" where
  "is_position_independent SharedObject = True"
| "is_position_independent (DynamicExecutable RelocatableModel) = True"
| "is_position_independent (StaticExecutable RelocatableModel) = True"
| "is_position_independent _ = False"

fun as_write_error :: "reloc_error fault + 'a \<Rightarrow> value_error fault + 'a" where
  "as_write_error (Inr x) = Inr x"
| "as_write_error (Inl Panic) = Inl Panic"
| "as_write_error (Inl (Err e)) = Inl (Err (WriteError e))"

definition or_error :: "'e \<Rightarrow> 'a option \<Rightarrow> 'e fault + 'a" where
  "or_error e x = (case x of None \<Rightarrow> Inl (Err e) | Some y \<Rightarrow> Inr y)"

lemma or_error_simps [simp]: "or_error e None = Inl (Err e)" "or_error e (Some x) = Inr x"
  by (simp_all add: or_error_def)

definition symbol_resolution :: "object_symbol \<Rightarrow> resolution option" where
  "symbol_resolution osym =
     (case merged_resolution osym of
        Some res \<Rightarrow> Some res
      | None \<Rightarrow>
          (case symbol_section osym of
             Some (Some start, deltas) \<Rightarrow>
               Some \<lparr>raw_value = start + opt_input_to_output deltas (symbol_value osym),
                     dynamic_symbol_index = None, res_flags = 0, got_address = None, plt_address = None\<rparr>
           | _ \<Rightarrow> None))"

definition relocated_symbol :: "object_symbol \<Rightarrow> resolution \<Rightarrow> relocated" where
  "relocated_symbol osym res =
     \<lparr>rel_res = res, merge_section = string_section osym, merged_at = string_at osym,
      rel_undefined = symbol_undefined osym\<rparr>"

definition get_resolution :: "apply_env \<Rightarrow> 'r reloc \<Rightarrow> value_error fault + object_symbol \<times> relocated" where
  "get_resolution env rel =
     and_then (or_error NoSymbol (reloc_symbol rel)) (\<lambda>symbol_index.
     and_then (if symbol_index < length (lay_symbols env) then Inr (lay_symbols env ! symbol_index)
               else Inl (Err NoSuchSymbol)) (\<lambda>osym.
     and_then (or_error MissingResolution (symbol_resolution osym)) (\<lambda>res.
       Inr (osym, relocated_symbol osym res))))"

lemma get_resolution_symbol:
  assumes "get_resolution env rel = Inr x"
  obtains s where "reloc_symbol rel = Some s"
  using assms by (cases "reloc_symbol rel") (auto simp: get_resolution_def)

section \<open>One relocation\<close>

record 'r relocation_cache =
  previous :: "'r reloc option"
  high_part_symbols :: "u64 \<rightharpoonup> 'r reloc"

definition find_high ::
    "'r arch \<Rightarrow> section_relax_deltas option \<Rightarrow> 'r relocation_cache \<Rightarrow> 'r reloc list \<Rightarrow> u64 \<Rightarrow> 'r reloc option" where
  "find_high arch deltas cache later off =
     (case high_part_symbols cache off of
        Some rel \<Rightarrow> Some rel
      | None \<Rightarrow> find (\<lambda>rel. reloc_type rel \<in> set (high_part_relocations arch)
                           \<and> opt_input_to_output deltas (reloc_offset rel) = off) later)"

definition high_relocation ::
    "'r arch \<Rightarrow> apply_env \<Rightarrow> section_relax_deltas option \<Rightarrow> 'r relocation_cache \<Rightarrow> 'r reloc list \<Rightarrow> u64
      \<Rightarrow> value_error fault + 'r relocation_kind \<times> relocated \<times> u64" where
  "high_relocation arch env deltas cache later off =
     and_then (or_error MissingHighRelocation (find_high arch deltas cache later off)) (\<lambda>rel.
     and_then (or_error UnknownRelocation (relocation_from_raw arch (reloc_type rel))) (\<lambda>info.
     and_then (get_resolution env rel) (\<lambda>(_, r). Inr (kind info, r, reloc_addend rel))))"

definition pair_set_value ::
    "apply_env \<Rightarrow> 'r relocation_cache \<Rightarrow> u64 \<Rightarrow> 'r \<Rightarrow> value_error fault + u64" where
  "pair_set_value env cache offset expected =
     and_then (or_error MissingPrevious (previous cache)) (\<lambda>set_rel.
       if reloc_offset set_rel \<noteq> offset then Inl (Err PairOffset)
       else if reloc_type set_rel \<noteq> expected then Inl (Err UnexpectedPrevious)
       else and_then (get_resolution env set_rel) (\<lambda>(_, r).
         value_with_addend (lay_parts env) r (reloc_addend set_rel)))"

definition make_ctx ::
    "'r arch \<Rightarrow> apply_env \<Rightarrow> section_info \<Rightarrow> section_relax_deltas option \<Rightarrow> 'r relocation_cache \<Rightarrow> 'r reloc list
      \<Rightarrow> 'r reloc \<Rightarrow> object_symbol \<Rightarrow> 'r relocation_kind_info \<Rightarrow> u64 \<Rightarrow> 'r value_ctx" where
  "make_ctx arch env sec deltas cache later rel osym info place =
     \<lparr>ctx_kind = lay_kind env, got_base = lay_got_base env, tlsld_got_entry = lay_tlsld_got_entry env,
      ctx_tls_start = lay_tls_start env, ctx_tls_end = lay_tls_end env, ctx_tp_start = lay_tp_start env,
      ctx_mask = get_page_mask (page_mask info), ctx_bias = bias info, ctx_parts = lay_parts env,
      ctx_sections = lay_sections env,
      ctx_local_entry = (if is_ppc64_branch (rel_size info)
                         then arch_local_entry_offset arch (symbol_other osym) else 0),
      ctx_section = section_address sec, ctx_place = place,
      ctx_high = high_relocation arch env deltas cache later,
      ctx_pair = pair_set_value env cache (reloc_offset rel)\<rparr>"

text \<open>
  The bytes of the section, the tables, and the value that goes to the place. \<^verbatim>\<open>out[offset..]\<close> panics past
  the end of the section.
\<close>

type_synonym apply_state = "u8 list \<times> dyn_writer"

definition write_at ::
    "(u64 \<Rightarrow> u8 list) \<Rightarrow> 'r relocation_kind_info \<Rightarrow> u64 \<Rightarrow> u64 \<Rightarrow> u8 list \<Rightarrow> value_error fault + u8 list" where
  "write_at uleb info offset v out =
     (let i = unat offset in
      if length out < i then Inl Panic
      else and_then (as_write_error (write_to_buffer uleb info v (drop i out))) (\<lambda>written.
        Inr (take i out @ written)))"

definition thunked_value ::
    "'r arch \<Rightarrow> apply_env \<Rightarrow> section_info \<Rightarrow> 'r relocation_kind_info \<Rightarrow> object_symbol \<Rightarrow> u64 \<Rightarrow> u64
      \<Rightarrow> value_error fault + u64" where
  "thunked_value arch env sec info osym place v =
     (case maybe_get_thunk_for_relocation (arch_thunk_config arch) (lay_thunks env) (lay_thunk_block env)
             (section_part sec) info (canonical_id osym) place v of
        Inl e \<Rightarrow> Inl (Err (ThunkError e))
      | Inr None \<Rightarrow> Inr v
      | Inr (Some v') \<Rightarrow> Inr v')"

definition relocation_value ::
    "'r arch \<Rightarrow> apply_env \<Rightarrow> section_info \<Rightarrow> 'r value_ctx \<Rightarrow> relocated \<Rightarrow> u64 \<Rightarrow> 'r relocation_kind
      \<Rightarrow> dyn_writer \<Rightarrow> value_error fault + u64 \<times> dyn_writer" where
  "relocation_value arch env sec c r addend k w =
     (if k = Absolute
      then write_absolute_relocation (lay_kind env) (lay_parts env) sec r (ctx_place c) addend w
      else and_then (address_value c r addend k) (\<lambda>v. Inr (v, w)))"

text \<open>The computation of a relocation of a known kind, after relaxation.\<close>

definition finish_relocation ::
    "'r arch \<Rightarrow> apply_env \<Rightarrow> section_info \<Rightarrow> section_relax_deltas option \<Rightarrow> 'r relocation_cache \<Rightarrow> 'r reloc list
      \<Rightarrow> 'r reloc \<Rightarrow> object_symbol \<Rightarrow> relocated \<Rightarrow> 'r relocation_kind_info \<Rightarrow> relax_site \<Rightarrow> dyn_writer
      \<Rightarrow> value_error fault + apply_state" where
  "finish_relocation arch env sec deltas cache later rel osym r info site w =
     (case site of (out, offset, addend) \<Rightarrow>
        let place = section_address sec + offset;
            c = make_ctx arch env sec deltas cache later rel osym info place in
        and_then (relocation_value arch env sec c r addend (kind info) w) (\<lambda>(v, w).
        and_then (if adjusts (kind info) then adjust_relocation_based_on_value v info out offset else Inr v) (\<lambda>v.
        and_then (thunked_value arch env sec info osym place v) (\<lambda>v.
        and_then (write_at (lay_uleb env) info offset v out) (\<lambda>out. Inr (out, w))))))"

definition apply_alignment ::
    "'r arch \<Rightarrow> section_relax_deltas option \<Rightarrow> u64 \<Rightarrow> 'r reloc \<Rightarrow> u8 list \<Rightarrow> value_error fault + u8 list" where
  "apply_alignment arch deltas offset rel out =
     (let removed = (case deltas of None \<Rightarrow> 0 | Some d \<Rightarrow> ucast (delta_bytes_at d (reloc_offset rel)));
          padding = unat (saturating_sub (reloc_addend rel) removed) in
      or_panic (do {
        bytes \<leftarrow> window out (int (unat offset)) padding;
        put_at out (int (unat offset)) (fill_nop_padding arch bytes) }))"

definition apply_relocation ::
    "'r arch \<Rightarrow> apply_env \<Rightarrow> section_info \<Rightarrow> section_relax_deltas option \<Rightarrow> 'r relocation_cache \<Rightarrow> 'r reloc list
      \<Rightarrow> u64 \<Rightarrow> 'r reloc \<Rightarrow> apply_state \<Rightarrow> value_error fault + relocation_modifier \<times> apply_state" where
  "apply_relocation arch env sec deltas cache later offset rel st =
     (case st of (out, w) \<Rightarrow>
      and_then (or_error UnknownRelocation (relocation_from_raw arch (reloc_type rel))) (\<lambda>raw.
        if kind raw = NoRelocation then Inr (Normal, st)
        else if kind raw = AlignmentReq
        then and_then (apply_alignment arch deltas offset rel out) (\<lambda>out. Inr (Normal, out, w))
        else if kind raw = Relative \<and> reloc_symbol rel = None
        then (if is_relocatable (lay_kind env) then Inl (Err AbsoluteInPositionIndependent)
              else and_then
                     (write_at (lay_uleb env) raw offset (reloc_addend rel - (section_address sec + offset)) out)
                     (\<lambda>out. Inr (Normal, out, w)))
        else if kind raw = Absolute \<and> is_shared_object (lay_kind env)
                \<and> is_disallowed_in_shared_object arch (reloc_type rel)
        then Inl (Err DisallowedInShared)
        else and_then (get_resolution env rel) (\<lambda>(osym, r).
          let fl = symbol_flags osym in
          if is_position_independent (lay_kind env) \<and> (is_interposable fl \<or> is_dynamic fl)
             \<and> \<not> needs_copy_relocation fl \<and> \<not> needs_plt fl
             \<and> is_disallowed_for_interposable_symbols arch (reloc_type rel)
          then Inl (Err NeedsPic)
          else and_then (or_panic (new_relaxation arch (reloc_type rel) out offset fl (lay_kind env)
                 (section_flags sec) (raw_value (rel_res r) \<noteq> 0) deltas)) (\<lambda>relaxation.
            case relaxation of
              Some rx \<Rightarrow>
                if lay_relax env \<or> mandatory rx
                then and_then (or_panic (relax_apply rx (out, offset, reloc_addend rel))) (\<lambda>site.
                     and_then (finish_relocation arch env sec deltas cache later rel osym r (relax_info rx) site w) (\<lambda>st.
                       Inr (relax_next rx, st)))
                else and_then (finish_relocation arch env sec deltas cache later rel osym r raw
                                 (out, offset, reloc_addend rel) w) (\<lambda>st. Inr (Normal, st))
            | None \<Rightarrow>
                and_then (finish_relocation arch env sec deltas cache later rel osym r raw
                            (out, offset, reloc_addend rel) w) (\<lambda>st. Inr (Normal, st))))))"

section \<open>The relocations of a section\<close>

fun apply_loop ::
    "'r arch \<Rightarrow> apply_env \<Rightarrow> section_info \<Rightarrow> section_relax_deltas option \<Rightarrow> relax_cursor option
      \<Rightarrow> relocation_modifier \<Rightarrow> 'r relocation_cache \<Rightarrow> 'r reloc list \<Rightarrow> apply_state \<Rightarrow> value_error fault + apply_state" where
  "apply_loop arch env sec deltas cursor modifier cache [] st = Inr st"
| "apply_loop arch env sec deltas cursor modifier cache (rel # rels) st =
     (let cache =
            (if reloc_type rel \<in> set (high_part_relocations arch)
             then cache\<lparr>high_part_symbols :=
                    (high_part_symbols cache)(opt_input_to_output deltas (reloc_offset rel) \<mapsto> rel)\<rparr>
             else cache);
          done_cache = cache\<lparr>previous := Some rel\<rparr> in
      if modifier = SkipNextRelocation
      then apply_loop arch env sec deltas cursor Normal done_cache rels st
      else
        let (offset, cursor) =
              (case cursor of
                 None \<Rightarrow> (reloc_offset rel, None)
               | Some cur \<Rightarrow> (case cursor_translate cur (reloc_offset rel) of (o', cur') \<Rightarrow> (o', Some cur'))) in
        and_then (apply_relocation arch env sec deltas cache rels offset rel st) (\<lambda>(modifier, st).
          apply_loop arch env sec deltas cursor modifier done_cache rels st))"

definition apply_relocations ::
    "'r arch \<Rightarrow> apply_env \<Rightarrow> section_info \<Rightarrow> section_relax_deltas option \<Rightarrow> 'r reloc list \<Rightarrow> apply_state
      \<Rightarrow> value_error fault + apply_state" where
  "apply_relocations arch env sec deltas rels st =
     apply_loop arch env sec deltas (map_option deltas_cursor deltas) Normal
       \<lparr>previous = None, high_part_symbols = Map.empty\<rparr> rels st"

section \<open>A relocation that is not relaxed\<close>

definition unrelaxed :: "'r arch \<Rightarrow> 'r \<Rightarrow> bool" where
  "unrelaxed arch t \<longleftrightarrow>
     (\<forall>out offset fl okind sfl nz deltas. new_relaxation arch t out offset fl okind sfl nz deltas = Some None)"

text \<open>The kinds that \<open>apply_relocation\<close> deals with before it looks for the symbol.\<close>

definition symbolic :: "'r relocation_kind \<Rightarrow> bool" where
  "symbolic k \<longleftrightarrow> k \<noteq> NoRelocation \<and> k \<noteq> AlignmentReq"

lemma apply_relocation_unrelaxed_eq:
  assumes "relocation_from_raw arch (reloc_type rel) = Some info" "symbolic (kind info)"
    and "reloc_symbol rel = Some s" "unrelaxed arch (reloc_type rel)"
  shows "apply_relocation arch env sec deltas cache later offset rel (out, w) =
    (if kind info = Absolute \<and> is_shared_object (lay_kind env) \<and> is_disallowed_in_shared_object arch (reloc_type rel)
     then Inl (Err DisallowedInShared)
     else and_then (get_resolution env rel) (\<lambda>(osym, r).
       if is_position_independent (lay_kind env)
          \<and> (is_interposable (symbol_flags osym) \<or> is_dynamic (symbol_flags osym))
          \<and> \<not> needs_copy_relocation (symbol_flags osym) \<and> \<not> needs_plt (symbol_flags osym)
          \<and> is_disallowed_for_interposable_symbols arch (reloc_type rel)
       then Inl (Err NeedsPic)
       else and_then (finish_relocation arch env sec deltas cache later rel osym r info
                        (out, offset, reloc_addend rel) w) (\<lambda>st. Inr (Normal, st))))"
proof -
  have rx: "new_relaxation arch (reloc_type rel) out offset fl okind sfl nz deltas = Some None"
    for fl okind sfl nz using assms(4) by (simp add: unrelaxed_def)
  have k: "kind info \<noteq> NoRelocation" "kind info \<noteq> AlignmentReq" using assms(2) by (simp_all add: symbolic_def)
  show ?thesis
    unfolding apply_relocation_def assms(1) Let_def rx or_panic_simps and_then_simps option.case prod.case
    by (simp add: k assms(3))
qed

lemma apply_relocation_unrelaxed:
  assumes run: "apply_relocation arch env sec deltas cache later offset rel (out, w) = Inr (m, out', w')"
    and info: "relocation_from_raw arch (reloc_type rel) = Some info" "symbolic (kind info)"
    and sy: "reloc_symbol rel = Some s" and rx: "unrelaxed arch (reloc_type rel)"
  obtains osym r where "get_resolution env rel = Inr (osym, r)" "m = Normal"
    "finish_relocation arch env sec deltas cache later rel osym r info (out, offset, reloc_addend rel) w = Inr (out', w')"
  using run unfolding apply_relocation_unrelaxed_eq [OF info sy rx]
  by (auto simp: and_then_Inr_iff split: if_splits)

lemma finish_relocation_plain:
  assumes "finish_relocation arch env sec deltas cache later rel osym r info (out, offset, addend) w = Inr (out', w')"
    and "kind info \<noteq> Absolute" "\<not> adjusts (kind info)" "arch_thunk_config arch = None"
  obtains v where "w' = w" "write_at (lay_uleb env) info offset v out = Inr out'"
    "address_value (make_ctx arch env sec deltas cache later rel osym info (section_address sec + offset))
       r addend (kind info) = Inr v"
  using assms
  by (auto simp: finish_relocation_def Let_def and_then_Inr_iff relocation_value_def thunked_value_def
      maybe_get_thunk_for_relocation_def)

lemma finish_relocation_adjusted:
  assumes "finish_relocation arch env sec deltas cache later rel osym r info (out, offset, addend) w = Inr (out', w')"
    and "adjusts (kind info)" "arch_thunk_config arch = None"
  obtains v x where "w' = w" "value_with_addend (lay_parts env) r addend = Inr v"
    "adjust_relocation_based_on_value v info out offset = Inr x"
    "write_at (lay_uleb env) info offset x out = Inr out'"
proof -
  have "kind info \<noteq> Absolute" using assms(2) by auto
  moreover have "address_value c r addend (kind info) = value_with_addend (ctx_parts c) r addend" for c
    using assms(2) by (cases "kind info") simp_all
  ultimately show thesis
    using assms that
    by (auto simp: finish_relocation_def Let_def and_then_Inr_iff relocation_value_def thunked_value_def
        maybe_get_thunk_for_relocation_def make_ctx_def)
qed

lemma write_at_bytes:
  assumes "write_at uleb info offset v out = Inr out'" "rel_size info = ByteSize n" "\<not> is_uleb_pair info"
  shows "unat offset + n \<le> length out" "n \<le> 8"
    "out' = take (unat offset) out @ to_le n v @ drop (unat offset + n) out"
proof -
  obtain written where w: "\<not> length out < unat offset" "out' = take (unat offset) out @ written"
    "write_to_buffer uleb info v (drop (unat offset) out) = Inr written"
    using assms(1) by (cases "write_to_buffer uleb info v (drop (unat offset) out)" rule: as_write_error.cases)
      (auto simp: write_at_def Let_def split: if_splits)
  from w(3) assms(2,3) have "write_bytes n v (drop (unat offset) out) = Inr written"
    by (cases rule: write_to_buffer_Inr_cases) simp_all
  with w show "unat offset + n \<le> length out" "n \<le> 8"
    "out' = take (unat offset) out @ to_le n v @ drop (unat offset + n) out"
    by (auto simp: write_bytes_eq add.commute split: if_splits)
qed

lemma write_at_field:
  assumes "write_at uleb info offset v out = Inr out'" "rel_size info = BitMasking m" "\<not> is_uleb_pair info"
  shows "write_bit_mask m v (drop (unat offset) out) = Inr (drop (unat offset) out')"
    "take (unat offset) out' = take (unat offset) out" "unat offset \<le> length out"
proof -
  obtain written where w: "\<not> length out < unat offset" "out' = take (unat offset) out @ written"
    "write_to_buffer uleb info v (drop (unat offset) out) = Inr written"
    using assms(1) by (cases "write_to_buffer uleb info v (drop (unat offset) out)" rule: as_write_error.cases)
      (auto simp: write_at_def Let_def split: if_splits)
  from w(3) assms(2,3) have "write_bit_mask m v (drop (unat offset) out) = Inr written"
    by (cases rule: write_to_buffer_Inr_cases) simp_all
  with w show "write_bit_mask m v (drop (unat offset) out) = Inr (drop (unat offset) out')"
    "take (unat offset) out' = take (unat offset) out" "unat offset \<le> length out"
    by auto
qed

end
