(* ===== verification/Riscv_Apply.thy ===== *)
theory Riscv_Apply
  imports Reloc_Apply Riscv_Shrink
begin

text \<open>
  The RISC-V instance of \<^verbatim>\<open>Arch\<close> (\<^verbatim>\<open>reld-core/src/elf_riscv64.rs\<close>) as the relocations of a section use it,
  and what the relocations that work together leave in the section: the two halves of an address, and the
  additions and subtractions of a difference of labels.
\<close>

section \<open>The architecture\<close>

definition SHF_EXECINSTR :: u64 where "SHF_EXECINSTR = 4"

definition riscv_relaxation_of :: "riscv_choice \<Rightarrow> riscv_reloc relaxation" where
  "riscv_relaxation_of choice =
     (case choice of (k, info, m) \<Rightarrow>
        \<lparr>relax_info = info, relax_apply = riscv_apply k, relax_next = riscv_next_modifier k, mandatory = m\<rparr>)"

text \<open>
  A relocation without a table entry panics. The arm of calls always gives a relaxation, so \<open>None\<close>
  there is a panic.
\<close>

definition riscv_new_relaxation ::
    "riscv_reloc \<Rightarrow> u8 list \<Rightarrow> u64 \<Rightarrow> value_flags \<Rightarrow> output_kind \<Rightarrow> u64 \<Rightarrow> bool \<Rightarrow> section_relax_deltas option
      \<Rightarrow> riscv_reloc relaxation option option" where
  "riscv_new_relaxation t section_bytes offset fl okind sfl non_zero_address relax_deltas =
     (if riscv_relocation_type_from_raw t = None then None
      else if sfl AND SHF_EXECINSTR \<noteq> SHF_EXECINSTR then Some None
      else if (t = RV_Insn R_RISCV_CALL \<or> t = RV_Insn R_RISCV_CALL_PLT) \<and> \<not> Got_Tables.is_interposable fl
      then map_option (\<lambda>choice. Some (riscv_relaxation_of choice))
             (relax_call section_bytes (unat offset) t non_zero_address (is_static_executable okind))
      else if t = RV_Insn R_RISCV_HI20
      then Some (map_option riscv_relaxation_of (relax_hi20 relax_deltas offset))
      else if t = RV_Insn R_RISCV_LO12_I \<or> t = RV_Insn R_RISCV_LO12_S
      then Some (map_option riscv_relaxation_of (relax_lo12 relax_deltas section_bytes offset t))
      else Some None)"

definition riscv_high_part_relocations :: "riscv_reloc list" where
  "riscv_high_part_relocations = map RV_Insn
     [R_RISCV_HI20, R_RISCV_PCREL_HI20, R_RISCV_GOT_HI20, R_RISCV_TLS_GOT_HI20, R_RISCV_TLS_GD_HI20,
      R_RISCV_TPREL_HI20]"

text \<open>The loop of \<^verbatim>\<open>fill_nop_padding\<close> on the bytes from \<open>i\<close> on; an odd byte at the end stays.\<close>

fun riscv_fill_nop_padding :: "u8 list \<Rightarrow> u8 list" where
  "riscv_fill_nop_padding (a # b # c # d # rest) = to_le 4 (0x13 :: u32) @ riscv_fill_nop_padding rest"
| "riscv_fill_nop_padding (a # b # rest) = to_le 2 (1 :: u16) @ rest"
| "riscv_fill_nop_padding rest = rest"

definition riscv_arch :: "riscv_reloc arch" where
  "riscv_arch =
     \<lparr>relocation_from_raw = riscv_relocation_type_from_raw, new_relaxation = riscv_new_relaxation,
      is_disallowed_for_interposable_symbols = (\<lambda>t. t = RV_Insn R_RISCV_32),
      is_disallowed_in_shared_object = (\<lambda>_. False),
      high_part_relocations = riscv_high_part_relocations, arch_thunk_config = None,
      fill_nop_padding = riscv_fill_nop_padding, arch_local_entry_offset = (\<lambda>_. 0)\<rparr>"

section \<open>Which relocations are relaxed\<close>

definition riscv_relaxes :: "riscv_reloc \<Rightarrow> bool" where
  "riscv_relaxes t \<longleftrightarrow>
     t \<in> RV_Insn ` {R_RISCV_CALL, R_RISCV_CALL_PLT, R_RISCV_HI20, R_RISCV_LO12_I, R_RISCV_LO12_S}"

lemma riscv_unrelaxed:
  "riscv_relocation_type_from_raw t \<noteq> None \<Longrightarrow> \<not> riscv_relaxes t \<Longrightarrow> unrelaxed riscv_arch t"
  by (auto simp: unrelaxed_def riscv_arch_def riscv_new_relaxation_def riscv_relaxes_def)

lemma riscv_arch_simps [simp]:
  "relocation_from_raw riscv_arch = riscv_relocation_type_from_raw" "arch_thunk_config riscv_arch = None"
  "high_part_relocations riscv_arch = riscv_high_part_relocations" "arch_local_entry_offset riscv_arch s = 0"
  by (simp_all add: riscv_arch_def)

section \<open>The two halves of an address\<close>

definition pcrel_hi_types :: "riscv_insn_reloc set" where
  "pcrel_hi_types = {R_RISCV_PCREL_HI20, R_RISCV_GOT_HI20, R_RISCV_TLS_GOT_HI20, R_RISCV_TLS_GD_HI20}"

fun lo12_format :: "riscv_insn_reloc \<Rightarrow> riscv_instruction option" where
  "lo12_format R_RISCV_PCREL_LO12_I = Some IType"
| "lo12_format R_RISCV_PCREL_LO12_S = Some SType"
| "lo12_format _ = None"

lemma pcrel_hi_entry:
  assumes "t \<in> pcrel_hi_types"
  shows "\<exists>info. riscv_relocation_type_from_raw (RV_Insn t) = Some info \<and> kind info \<in> upper_kinds
    \<and> rel_size info = bit_mask_riscv 0 32 UType \<and> page_mask info = None \<and> bias info = 0"
  using assms by (auto simp: pcrel_hi_types_def riscv_relocation_type_from_raw_def riscv_info_def upper_kinds_def)

lemma lo12_entry:
  assumes "lo12_format t = Some i"
  shows "i \<in> {IType, SType} \<and> (\<exists>info. riscv_relocation_type_from_raw (RV_Insn t) = Some info
    \<and> kind info = RelativeRiscVLow12 \<and> rel_size info = bit_mask_riscv 0 32 i \<and> page_mask info = None
    \<and> bias info = 0)"
  using assms by (cases t) (auto simp: riscv_relocation_type_from_raw_def riscv_info_def)

lemma upper_kind_plain:
  assumes "k \<in> upper_kinds"
  shows "k \<noteq> Absolute" "\<not> adjusts k" "symbolic k"
  using assms by (auto simp: upper_kinds_def symbolic_def)

lemma extract_low_word: "extract_bit_range v 0 32 = take_bit 32 (v :: u64)"
  by (intro word64_eqI, unfold each_bit) (simp add: bit_eval range_ok_def)

lemma extract_take: "extract_bit_range (take_bit 32 x) 12 32 = extract_bit_range (x :: u64) 12 32"
  by (intro word64_eqI, unfold each_bit) (simp add: bit_eval range_ok_def)

lemma low_word_immediates:
  "riscv_imm_u (take_bit 32 v) = riscv_imm_u v" "lower_part (take_bit 32 v) = lower_part v"
proof -
  have "take_bit 32 (take_bit 32 v + 0x800) = take_bit 32 (v + 0x800)"
    by (simp add: take_bit_word_add)
  then show "riscv_imm_u (take_bit 32 v) = riscv_imm_u v"
    unfolding riscv_imm_u_def by (metis extract_take)
  show "lower_part (take_bit 32 v) = lower_part v"
    by (simp add: lower_part_eq signed_take_bit_take_bit)
qed

lemma upper_instruction:
  assumes "write_at uleb info offset v out = Inr out'" "rel_size info = bit_mask_riscv 0 32 UType"
    and "\<not> is_uleb_pair info"
  shows "\<exists>w. u32_from_slice (drop (unat offset) out') = Some w \<and> w AND NOT UTYPE_IMMEDIATE_MASK = riscv_imm_u v"
proof -
  from write_at_field(1) [OF assms(1) _ assms(3)] assms(2)
  have "write_bit_mask (bit_mask_new (RiscV UType) 0 32) v (drop (unat offset) out)
      = Inr (drop (unat offset) out')" by (simp add: bit_mask_defs)
  then show ?thesis
    by (auto simp: write_bit_mask_Inr_iff bit_mask_new_def extract_low_word low_word_immediates
        simp del: write_to_value.simps dest!: utype_written)
qed

lemma lower_instruction:
  assumes "write_at uleb info offset v out = Inr out'" "rel_size info = bit_mask_riscv 0 32 i"
    and "\<not> is_uleb_pair info" "i \<in> {IType, SType}"
  shows "\<exists>sg. riscv_read_value i (drop (unat offset) out') = Some (lower_part v, sg)"
proof -
  from write_at_field(1) [OF assms(1) _ assms(3)] assms(2)
  have "write_bit_mask (bit_mask_new (RiscV i) 0 32) v (drop (unat offset) out)
      = Inr (drop (unat offset) out')" by (simp add: bit_mask_defs)
  then have "write_to_value (RiscV i) (take_bit 32 v) (is_negative v) (drop (unat offset) out)
      = Some (drop (unat offset) out')"
    by (simp add: write_bit_mask_Inr_iff bit_mask_new_def extract_low_word del: write_to_value.simps)
  from low12_written [OF assms(4) this] show ?thesis by (simp add: low_word_immediates)
qed

text \<open>The value of the kind that the table gives for the type of an upper part.\<close>

definition hi_kind :: "riscv_insn_reloc \<Rightarrow> riscv_reloc relocation_kind" where
  "hi_kind t = kind (riscv_info (riscv_insn_row t))"

definition hi_target :: "apply_env \<Rightarrow> riscv_insn_reloc \<Rightarrow> relocated \<Rightarrow> u64 \<Rightarrow> value_error fault + u64" where
  "hi_target env t r addend = pcrel_target (lay_parts env) (lay_tlsld_got_entry env) r addend (hi_kind t)"

lemma riscv_field_value:
  assumes run: "apply_relocation riscv_arch env sec deltas cache later offset rel (out, w) = Inr (m, out', w')"
    and info: "riscv_relocation_type_from_raw (reloc_type rel) = Some info"
    and k: "kind info \<noteq> Absolute" "\<not> adjusts (kind info)" "symbolic (kind info)" "\<not> riscv_relaxes (reloc_type rel)"
    and sy: "get_resolution env rel = Inr (osym, r)"
  obtains v where "write_at (lay_uleb env) info offset v out = Inr out'"
    "address_value (make_ctx riscv_arch env sec deltas cache later rel osym info (section_address sec + offset))
       r (reloc_addend rel) (kind info) = Inr v"
proof -
  obtain s where s: "reloc_symbol rel = Some s" using get_resolution_symbol [OF sy] by blast
  have "unrelaxed riscv_arch (reloc_type rel)" using info k(4) by (simp add: riscv_unrelaxed)
  from apply_relocation_unrelaxed [OF run _ k(3) s this] info sy
  have "finish_relocation riscv_arch env sec deltas cache later rel osym r info (out, offset, reloc_addend rel) w
      = Inr (out', w')" by auto
  from finish_relocation_plain [OF this k(1,2)] that show thesis by auto
qed

text \<open>C25: The two instructions of a RISC-V address relative to the place, end to end. Take a relocation
  of an AUIPC at an offset of a section (of the address itself, of the symbol's slot in the global offset
  table, or of a thread-local slot), and one of the load, store or addition whose label is that AUIPC, both
  applied without an error, in any order. Then the place of the AUIPC plus the upper immediate written to it
  plus the lower immediate written to the other instruction is the address that the first relocation refers
  to, for every target within the reach of the pair.\<close>

theorem riscv_pcrel_pair_applied:
  assumes hi: "t \<in> pcrel_hi_types" "reloc_type hi = RV_Insn t"
    and lo: "lo12_format u = Some i" "reloc_type lo = RV_Insn u" "reloc_addend lo = 0"
    and hi_symbol: "get_resolution env hi = Inr (osym, r)" "merge_section r = None \<or> raw_value (rel_res r) \<noteq> 0"
    and lo_symbol: "get_resolution env lo = Inr (osym', label)"
      "value_with_addend (lay_parts env) label 0 = Inr (section_address sec + offset)"
    and found: "find_high riscv_arch deltas cache' later' offset = Some hi"
    and sections: "window (lay_parts env) (int (fst (lay_sections env)))
      (snd (lay_sections env) - fst (lay_sections env)) \<noteq> None"
    and hi_run: "apply_relocation riscv_arch env sec deltas cache later offset hi (out, w) = Inr (m, out', w')"
    and lo_run: "apply_relocation riscv_arch env sec deltas cache' later' offset' lo (buf, x) = Inr (m', buf', x')"
    and target: "hi_target env t r (reloc_addend hi) = Inr target"
    and near: "- (2 ^ 31) - 0x800 \<le> sint (target - (section_address sec + offset))"
      "sint (target - (section_address sec + offset)) < 2 ^ 31 - 0x800"
  shows "\<exists>upper lower s. u32_from_slice (drop (unat offset) out') = Some upper
    \<and> riscv_read_value i (drop (unat offset') buf') = Some (lower, s)
    \<and> section_address sec + offset + scast (upper AND NOT UTYPE_IMMEDIATE_MASK) + lower = target"
proof -
  let ?place = "section_address sec + offset"
  obtain info where info: "riscv_relocation_type_from_raw (RV_Insn t) = Some info" "kind info \<in> upper_kinds"
    "rel_size info = bit_mask_riscv 0 32 UType" "page_mask info = None" "bias info = 0"
    using pcrel_hi_entry [OF hi(1)] by blast
  have hk: "hi_kind t = kind info"
    using info(1) by (simp add: hi_kind_def riscv_relocation_type_from_raw_def)
  obtain linfo where i: "i \<in> {IType, SType}" and linfo: "riscv_relocation_type_from_raw (RV_Insn u) = Some linfo"
    "kind linfo = RelativeRiscVLow12" "rel_size linfo = bit_mask_riscv 0 32 i" "page_mask linfo = None" "bias linfo = 0"
    using lo12_entry [OF lo(1)] by blast
  have plain: "\<not> is_ppc64_branch (bit_mask_riscv 0 32 j)" for j by (simp add: is_ppc64_branch_def bit_mask_defs)
  have rx: "\<not> riscv_relaxes (reloc_type hi)" "\<not> riscv_relaxes (reloc_type lo)"
    using hi lo by (auto simp: riscv_relaxes_def pcrel_hi_types_def)
  obtain v where v: "write_at (lay_uleb env) info offset v out = Inr out'"
    "address_value (make_ctx riscv_arch env sec deltas cache later hi osym info ?place) r (reloc_addend hi) (kind info) = Inr v"
    using riscv_field_value [OF hi_run _ upper_kind_plain [OF info(2)] rx(1) hi_symbol(1)] info(1) hi(2) by metis
  obtain v' where v': "write_at (lay_uleb env) linfo offset' v' buf = Inr buf'"
    "address_value (make_ctx riscv_arch env sec deltas cache' later' lo osym' linfo (section_address sec + offset'))
       label 0 RelativeRiscVLow12 = Inr v'"
    using riscv_field_value [OF lo_run _ _ _ _ rx(2) lo_symbol(1), of linfo] linfo(1,2) lo(2,3)
    by (auto simp: symbolic_def)
  have tv: "target = v + ?place"
    using upper_part_value [OF info(2) _ _ _ v(2)] target info(3-5) hk
    by (simp add: make_ctx_def hi_target_def plain)
  have "v' = v"
  proof -
    let ?c = "make_ctx riscv_arch env sec deltas cache' later' lo osym' linfo (section_address sec + offset')"
    have high: "ctx_high ?c offset = Inr (kind info, r, reloc_addend hi)"
      using found hi(2) info(1) hi_symbol(1) by (simp add: make_ctx_def high_relocation_def)
    obtain parts where parts: "object_parts ?c = Some parts"
      using sections by (cases "lay_sections env") (auto simp: make_ctx_def object_parts_def)
    have "value_with_addend (ctx_parts ?c) label 0 = Inr (ctx_section ?c + offset)" "ctx_bias ?c = 0"
      "pcrel_target (ctx_parts ?c) (tlsld_got_entry ?c) r (reloc_addend hi) (kind info) = Inr target"
      using lo_symbol(2) linfo(5) target hk by (simp_all add: make_ctx_def hi_target_def)
    from lower_part_value [OF info(2) high this(1) parts hi_symbol(2) this(2,3)]
    have "address_value ?c label 0 RelativeRiscVLow12 = Inr (target - ?place)"
      by (simp add: make_ctx_def)
    with v'(2) tv show ?thesis by simp
  qed
  have nu: "\<not> is_uleb_pair info" "\<not> is_uleb_pair linfo"
    using info(2) linfo(2) by (auto simp: is_uleb_pair_def upper_kinds_def)
  obtain upper where up: "u32_from_slice (drop (unat offset) out') = Some upper"
    "upper AND NOT UTYPE_IMMEDIATE_MASK = riscv_imm_u v"
    using upper_instruction [OF v(1) info(3) nu(1)] by blast
  obtain sg where low: "riscv_read_value i (drop (unat offset') buf') = Some (lower_part v, sg)"
    using lower_instruction [OF v'(1) linfo(3) nu(2) i] \<open>v' = v\<close> by blast
  have "upper_part v + lower_part v = v"
    using near by (intro upper_lower) (simp_all add: tv)
  then have "scast (upper AND NOT UTYPE_IMMEDIATE_MASK) + lower_part v = v"
    by (simp add: up(2) upper_part_def)
  then have "?place + scast (upper AND NOT UTYPE_IMMEDIATE_MASK) + lower_part v = target"
    by (simp add: tv algebra_simps)
  with up(1) low show ?thesis by blast
qed

section \<open>Differences of labels\<close>

fun arith_pair :: "riscv_arith_reloc \<Rightarrow> (riscv_arith_reloc \<times> nat) option" where
  "arith_pair R_RISCV_ADD8 = Some (R_RISCV_SUB8, 1)"
| "arith_pair R_RISCV_ADD16 = Some (R_RISCV_SUB16, 2)"
| "arith_pair R_RISCV_ADD32 = Some (R_RISCV_SUB32, 4)"
| "arith_pair R_RISCV_ADD64 = Some (R_RISCV_SUB64, 8)"
| "arith_pair _ = None"

lemma arith_pair_entries:
  assumes "arith_pair a = Some (b, n)"
  shows "n \<in> {1, 2, 4, 8} \<and> (\<exists>info. riscv_relocation_type_from_raw (RV_Arith a) = Some info
      \<and> kind info = AbsoluteAddition \<and> rel_size info = ByteSize n)
    \<and> (\<exists>info. riscv_relocation_type_from_raw (RV_Arith b) = Some info
      \<and> kind info = AbsoluteSubtraction \<and> rel_size info = ByteSize n)"
  using assms by (cases a) (auto simp: riscv_relocation_type_from_raw_def riscv_info_def)

lemma riscv_adjusted:
  assumes run: "apply_relocation riscv_arch env sec deltas cache later offset rel (out, w) = Inr (m, out', w')"
    and info: "riscv_relocation_type_from_raw (reloc_type rel) = Some info"
    and k: "adjusts (kind info)" "\<not> riscv_relaxes (reloc_type rel)" "rel_size info = ByteSize n"
    and sy: "get_resolution env rel = Inr (osym, r)" "value_with_addend (lay_parts env) r (reloc_addend rel) = Inr v"
  obtains x where "adjust_relocation_based_on_value v info out offset = Inr x" "w' = w"
    "unat offset + n \<le> length out" "n \<le> 8" "out' = take (unat offset) out @ to_le n x @ drop (unat offset + n) out"
proof -
  obtain s where s: "reloc_symbol rel = Some s" using get_resolution_symbol [OF sy(1)] by blast
  have sk: "symbolic (kind info)" "\<not> is_uleb_pair info" using k(1) by (auto simp: symbolic_def is_uleb_pair_def)
  have "unrelaxed riscv_arch (reloc_type rel)" using info k(2) by (simp add: riscv_unrelaxed)
  from apply_relocation_unrelaxed [OF run _ sk(1) s this] info sy(1)
  have "finish_relocation riscv_arch env sec deltas cache later rel osym r info (out, offset, reloc_addend rel) w
      = Inr (out', w')" by auto
  from finish_relocation_adjusted [OF this k(1)] obtain u x where
    "w' = w" "value_with_addend (lay_parts env) r (reloc_addend rel) = Inr u"
    "adjust_relocation_based_on_value u info out offset = Inr x" "write_at (lay_uleb env) info offset x out = Inr out'"
    by auto
  with sy(2) write_at_bytes [OF this(4) k(3) sk(2)] that show thesis by auto
qed

lemma take_bit_sub_word: "take_bit (8 * n) (take_bit (8 * n) a - b) = take_bit (8 * n) (a - b :: u64)"
proof (cases "n < 8")
  case True
  then show ?thesis using take_bit_word_add [of "8 * n" a "- b"] by simp
next
  case False
  then have "take_bit (8 * n) a = a" by (intro bit_word_eqI) (auto simp: bit_eval)
  then show ?thesis by simp
qed

text \<open>C26: A pair of an addition and a subtraction at the same place computes a difference of labels: the
  word of one, two, four or eight bytes there, read as a little-endian number, has the address of the first
  label added and that of the second subtracted, modulo the size of the word, and no other byte of the
  section changes, nor any dynamic relocation.\<close>

theorem riscv_label_difference:
  assumes pair: "arith_pair t = Some (u, n)" "reloc_type a = RV_Arith t" "reloc_type b = RV_Arith u"
    and first: "get_resolution env a = Inr (sa, ra)" "value_with_addend (lay_parts env) ra (reloc_addend a) = Inr x"
    and second: "get_resolution env b = Inr (sb, rb)" "value_with_addend (lay_parts env) rb (reloc_addend b) = Inr y"
    and run: "apply_relocation riscv_arch env sec deltas cache later offset a (out, w) = Inr (m, out1, w1)"
      "apply_relocation riscv_arch env sec deltas cache' later' offset b (out1, w1) = Inr (m', out2, w2)"
  shows "w2 = w \<and> out2 = take (unat offset) out
      @ to_le n (of_le (take n (drop (unat offset) out)) + x - y :: u64) @ drop (unat offset + n) out"
proof -
  obtain ia ib where n: "n \<le> 8" and ia: "riscv_relocation_type_from_raw (RV_Arith t) = Some ia"
    "kind ia = AbsoluteAddition" "rel_size ia = ByteSize n"
    and ib: "riscv_relocation_type_from_raw (RV_Arith u) = Some ib" "kind ib = AbsoluteSubtraction" "rel_size ib = ByteSize n"
    using arith_pair_entries [OF pair(1)] by auto
  have rx: "\<not> riscv_relaxes (reloc_type a)" "\<not> riscv_relaxes (reloc_type b)"
    using pair(2,3) by (auto simp: riscv_relaxes_def)
  let ?i = "unat offset" and ?cur = "of_le (take n (drop (unat offset) out)) :: u64"
  obtain z1 where z1: "adjust_relocation_based_on_value x ia out offset = Inr z1" "w1 = w" "?i + n \<le> length out"
    "out1 = take ?i out @ to_le n z1 @ drop (?i + n) out"
    using riscv_adjusted [OF run(1) _ _ rx(1) ia(3) first] ia pair(2) by auto
  obtain z2 where z2: "adjust_relocation_based_on_value y ib out1 offset = Inr z2" "w2 = w1"
    "out2 = take ?i out1 @ to_le n z2 @ drop (?i + n) out1"
    using riscv_adjusted [OF run(2) _ _ rx(2) ib(3) second] ib pair(3) by auto
  have "z1 = ?cur + x"
    using z1(1,3) n ia(2,3) by (simp add: adjust_relocation_based_on_value_def window_def Let_def)
  moreover have "z2 = take_bit (8 * n) z1 - y"
    using z2(1) z1(3,4) n ib(2,3)
    by (simp add: adjust_relocation_based_on_value_def window_def Let_def of_le_to_le)
  moreover have "to_le n (take_bit (8 * n) z1 - y) = to_le n (z1 - y)"
    by (rule to_le_cong) (rule take_bit_sub_word)
  ultimately show ?thesis using z1 z2 by simp
qed

text \<open>The six-bit field of the line tables keeps the upper two bits of its byte.\<close>

lemma and_63: "x AND 63 = take_bit 6 (x :: u64)"
  by (simp add: take_bit_eq_mask mask_eq_exp_minus_1)

lemma sub_low6: "take_bit 6 (take_bit 6 a - take_bit 6 b) = take_bit 6 (a - b :: u64)"
  using take_bit_word_add [of 6 a "- take_bit 6 b"] take_bit_word_add [of 6 "- take_bit 6 b" a]
    take_bit_word_add [of 6 "- b" a] take_bit_word_add [of 6 b "- take_bit 6 b - b"]
  by (simp add: algebra_simps)

lemma word6_pair:
  assumes "rel_size ia = ByteSize 1" "kind ia = AbsoluteSetWord6" "rel_size ib = ByteSize 1" "kind ib = AbsoluteSubtractionWord6"
    and "unat offset < length out"
    and "adjust_relocation_based_on_value x ia out offset = Inr z1"
    and "adjust_relocation_based_on_value y ib (out[unat offset := ucast z1]) offset = Inr z2"
  shows "(ucast z2 :: u8) = (out ! unat offset AND 0xc0) OR (ucast (x - y) AND 0x3f)"
proof -
  let ?b = "out ! unat offset"
  have bytes: "take 1 (drop (unat offset) out) = [?b]"
    "take 1 (drop (unat offset) (out[unat offset := ucast z1])) = [ucast z1]"
    using assms(5) by (simp_all add: take_Suc_conv_app_nth [of 0, simplified] hd_drop_conv_nth)
  have z1: "z1 = take_bit 6 x OR (ucast ?b AND NOT 63)"
    using assms(1,2,5,6) bytes(1)
    by (simp add: adjust_relocation_based_on_value_def window_def Let_def LOW6_MASK_def and_63 of_le_Cons)
  then have low: "take_bit 6 (ucast (ucast z1 :: u8) :: u64) = take_bit 6 x"
    by (intro word64_eqI, unfold each_bit) (simp add: bit_eval)
  have "z2 = take_bit 6 (take_bit 6 (ucast (ucast z1 :: u8)) - take_bit 6 y) OR (ucast (ucast z1 :: u8) AND NOT 63)"
    using assms(3-5,7) bytes(2)
    by (simp add: adjust_relocation_based_on_value_def window_def Let_def LOW6_MASK_def and_63 of_le_Cons)
  then have "z2 = take_bit 6 (x - y) OR (ucast (ucast z1 :: u8) AND NOT 63)"
    by (simp add: low sub_low6)
  moreover have masks: "(0xc0 :: u8) = NOT (mask 6)" "(0x3f :: u8) = mask 6" "(63 :: u64) = mask 6"
    by (simp_all add: mask_eq_exp_minus_1)
  ultimately show ?thesis unfolding z1 masks
    by (intro bit_word_eqI) (auto simp: bit_eval bit_mask_iff bit_not_iff)
qed

section \<open>Strings that are merged\<close>


section \<open>An object\<close>

text \<open>
  The second of two objects, with two sections of four. Its symbols are the AUIPC, a variable, and the
  unnamed symbol of its string-merge section.
\<close>

definition plain_symbol :: "symbol_id \<Rightarrow> value_flags \<Rightarrow> u64 \<Rightarrow> object_symbol" where
  "plain_symbol n fl address =
     \<lparr>canonical_id = n,
      merged_resolution = Some \<lparr>raw_value = address, dynamic_symbol_index = None, res_flags = fl,
                                got_address = None, plt_address = None\<rparr>,
      symbol_section = None, symbol_value = 0, symbol_flags = fl, symbol_other = 0, symbol_undefined = False,
      string_section = None, string_at = (\<lambda>_ _. Inr 0)\<rparr>"

definition sample_apply_env :: apply_env where
  "sample_apply_env =
     \<lparr>lay_kind = StaticExecutable NonRelocatableModel, lay_relax = True,
      lay_symbols = [plain_symbol 0 NON_INTERPOSABLE 0x10000, plain_symbol 1 NON_INTERPOSABLE 0x12345,
        (plain_symbol 2 NON_INTERPOSABLE 0)\<lparr>string_section := Some 3, string_at := (\<lambda>_ a. Inr (0x30000 + a))\<rparr>],
      lay_parts = [7, 7, 8, 9], lay_sections = (2, 4), lay_got_base = 0, lay_tlsld_got_entry = None,
      lay_tls_start = 0, lay_tls_end = 0, lay_tp_start = 0, lay_thunks = [], lay_thunk_block = 0,
      lay_uleb = (\<lambda>_. [])\<rparr>"

definition text_section :: section_info where
  "text_section = \<lparr>section_address = 0x10000, is_writable = False, section_flags = 6, section_part = 0\<rparr>"

definition empty_cache :: "'r relocation_cache" where
  "empty_cache = \<lparr>previous = None, high_part_symbols = Map.empty\<rparr>"

definition sample_tables :: dyn_writer where
  "sample_tables =
     (\<lparr>got_table = (0, []), got_relr_table = (0, []), plt_got_table = (0, []), rela_plt_table = (0, []),
       rela_dyn_general_table = (0, []), rela_dyn_relative_table = (0, []), relr_dyn_table = None\<rparr>,
      new_writer False 0 0)"

definition hi_rel :: "nat \<Rightarrow> riscv_reloc reloc" where
  "hi_rel s = \<lparr>reloc_offset = 0, reloc_type = RV_Insn R_RISCV_PCREL_HI20, reloc_symbol = Some s, reloc_addend = 0\<rparr>"

definition lo_rel :: "riscv_reloc reloc" where
  "lo_rel = \<lparr>reloc_offset = 4, reloc_type = RV_Insn R_RISCV_PCREL_LO12_I, reloc_symbol = Some 0, reloc_addend = 0\<rparr>"

lemmas sample_apply_eval = sample_apply_env_def plain_symbol_def text_section_def empty_cache_def hi_rel_def lo_rel_def
  get_resolution_def symbol_resolution_def relocated_symbol_def riscv_relocation_type_from_raw_def riscv_info_def

lemma sample_resolutions:
  "get_resolution sample_apply_env lo_rel = Inr (plain_symbol 0 NON_INTERPOSABLE 0x10000,
     relocated_symbol (plain_symbol 0 NON_INTERPOSABLE 0x10000) (the (merged_resolution (plain_symbol 0 NON_INTERPOSABLE 0x10000))))"
  "get_resolution sample_apply_env (hi_rel 1) = Inr (plain_symbol 1 NON_INTERPOSABLE 0x12345,
     relocated_symbol (plain_symbol 1 NON_INTERPOSABLE 0x12345) (the (merged_resolution (plain_symbol 1 NON_INTERPOSABLE 0x12345))))"
  by (simp_all add: sample_apply_eval)

lemmas run_eval = apply_relocation_unrelaxed_eq [OF _ _ _ riscv_unrelaxed]

lemma sample_unrelaxed: "unrelaxed riscv_arch (reloc_type (hi_rel s))" "unrelaxed riscv_arch (reloc_type lo_rel)"
  by (auto intro!: riscv_unrelaxed simp: hi_rel_def lo_rel_def riscv_relaxes_def riscv_relocation_type_from_raw_def)

lemma sample_hi_run:
  "apply_relocation riscv_arch sample_apply_env text_section None empty_cache [] 0 (hi_rel 1)
     ([0x17, 0x05, 0, 0, 0x13, 0x05, 0x05, 0], sample_tables)
   = Inr (Normal, [0x17, 0x25, 0, 0, 0x13, 0x05, 0x05, 0], sample_tables)"
  apply (subst apply_relocation_unrelaxed_eq [OF _ _ _ sample_unrelaxed(1)])
  apply (simp add: hi_rel_def riscv_relocation_type_from_raw_def)
  apply (simp add: riscv_info_def symbolic_def)
  apply (simp add: hi_rel_def)
  apply (unfold sample_resolutions)
  apply (simp add: sample_apply_eval riscv_arch_def finish_relocation_def make_ctx_def relocation_value_def value_with_addend_def
     is_ifunc_def contains_def NON_INTERPOSABLE_def IFUNC_def thunked_value_def maybe_get_thunk_for_relocation_def
     write_at_def write_to_buffer_def verify_def bit_mask_defs write_bit_mask_def riscv_write_utype_def extract_bit_range_def shr_def shl_def
      riscv_masks to_le_def upt_rec mask_and_set_def is_ppc64_branch_def is_negative_def extract_bit_def)
  done

definition after_hi :: "nat \<Rightarrow> riscv_reloc relocation_cache" where
  "after_hi s = \<lparr>previous = Some (hi_rel s), high_part_symbols = [0 \<mapsto> hi_rel s]\<rparr>"

lemma sample_high: "find_high riscv_arch None (after_hi s) later 0 = Some (hi_rel s)"
  by (simp add: find_high_def after_hi_def)

lemma sample_label: "value_with_addend (lay_parts sample_apply_env)
    (relocated_symbol (plain_symbol 0 NON_INTERPOSABLE 0x10000)
      (the (merged_resolution (plain_symbol 0 NON_INTERPOSABLE 0x10000)))) 0
   = Inr (section_address text_section + 0)"
  by (simp add: sample_apply_eval value_with_addend_def is_ifunc_def contains_def NON_INTERPOSABLE_def IFUNC_def shl_def)

abbreviation sample_symbol :: "symbol_id \<Rightarrow> u64 \<Rightarrow> relocated" where
  "sample_symbol n address \<equiv> relocated_symbol (plain_symbol n NON_INTERPOSABLE address)
     (the (merged_resolution (plain_symbol n NON_INTERPOSABLE address)))"

lemma sample_lo_high:
  "high_relocation riscv_arch sample_apply_env None (after_hi 1) [] 0 = Inr (Relative, sample_symbol 1 0x12345, 0)"
proof -
  have "riscv_relocation_type_from_raw (reloc_type (hi_rel 1)) = Some (riscv_info (riscv_insn_row R_RISCV_PCREL_HI20))"
    "kind (riscv_info (riscv_insn_row R_RISCV_PCREL_HI20)) = Relative" "reloc_addend (hi_rel 1) = 0"
    by (simp_all add: hi_rel_def riscv_relocation_type_from_raw_def riscv_info_def)
  then show ?thesis by (simp add: high_relocation_def sample_high sample_resolutions del: One_nat_def)
qed

lemma sample_lo_value:
  assumes "ctx_parts c = lay_parts sample_apply_env" "ctx_sections c = lay_sections sample_apply_env" "ctx_bias c = 0"
    and "ctx_section c = 0x10000" "ctx_high c 0 = Inr (Relative, sample_symbol 1 0x12345, 0)"
  shows "address_value c (sample_symbol 0 0x10000) 0 RelativeRiscVLow12 = Inr 0x2345"
proof -
  have "object_parts c = Some [8, 9]"
    using assms by (simp add: object_parts_def sample_apply_env_def window_def)
  moreover have "value_with_addend p (sample_symbol 1 0x12345) 0 = Inr 0x12345"
    "value_with_addend p (sample_symbol 0 0x10000) 0 = Inr 0x10000" for p
    by (simp_all add: sample_apply_eval value_with_addend_def is_ifunc_def contains_def NON_INTERPOSABLE_def IFUNC_def shl_def)
  ultimately show ?thesis using assms by (simp add: low_part_value_def Let_def)
qed

lemma sample_lo_run:
  "apply_relocation riscv_arch sample_apply_env text_section None (after_hi 1) [] 4 lo_rel
     ([0x17, 0x25, 0, 0, 0x13, 0x05, 0x05, 0], sample_tables)
   = Inr (Normal, [0x17, 0x25, 0, 0, 0x13, 0x05, 0x55, 0x34], sample_tables)"
proof -
  define info where "info = riscv_info (riscv_insn_row R_RISCV_PCREL_LO12_I)"
  define c where "c = make_ctx riscv_arch sample_apply_env text_section None (after_hi 1) [] lo_rel
    (plain_symbol 0 NON_INTERPOSABLE 0x10000) info 0x10004"
  have info: "riscv_relocation_type_from_raw (reloc_type lo_rel) = Some info" "kind info = RelativeRiscVLow12"
    "bias info = 0"
    by (simp_all add: info_def lo_rel_def riscv_relocation_type_from_raw_def riscv_info_def)
  have "address_value c (sample_symbol 0 0x10000) 0 RelativeRiscVLow12 = Inr 0x2345"
    by (rule sample_lo_value)
      (simp_all add: c_def make_ctx_def info(3) sample_lo_high text_section_def del: One_nat_def)
  moreover have "section_address text_section = 0x10000" by (simp add: text_section_def)
  moreover have "write_at (lay_uleb sample_apply_env) info 4 0x2345 [0x17, 0x25, 0, 0, 0x13, 0x05, 0x05, 0]
      = Inr [0x17, 0x25, 0, 0, 0x13, 0x05, 0x55, 0x34]"
    by (simp add: info_def write_at_def Let_def write_to_buffer_def riscv_info_def verify_def bit_mask_defs write_bit_mask_def
      riscv_write_itype_def extract_bit_range_def shr_def shl_def riscv_masks to_le_def upt_rec mask_and_set_def
      is_ppc64_branch_def is_negative_def extract_bit_def)
  ultimately have "finish_relocation riscv_arch sample_apply_env text_section None (after_hi 1) [] lo_rel
      (plain_symbol 0 NON_INTERPOSABLE 0x10000) (sample_symbol 0 0x10000) info
      ([0x17, 0x25, 0, 0, 0x13, 0x05, 0x05, 0], 4, 0) sample_tables
    = Inr ([0x17, 0x25, 0, 0, 0x13, 0x05, 0x55, 0x34], sample_tables)"
    by (simp add: finish_relocation_def relocation_value_def info c_def [symmetric] thunked_value_def
      maybe_get_thunk_for_relocation_def del: address_value.simps One_nat_def)
  moreover have "lay_kind sample_apply_env = StaticExecutable NonRelocatableModel" "reloc_symbol lo_rel = Some 0"
    "reloc_addend lo_rel = 0" by (simp_all add: sample_apply_env_def lo_rel_def)
  ultimately show ?thesis
    using apply_relocation_unrelaxed_eq [of riscv_arch lo_rel info 0] info sample_unrelaxed(2) sample_resolutions(1)
    by (simp add: symbolic_def del: One_nat_def)
qed

theorem riscv_pcrel_pair_applied_witness:
  "\<exists>upper lower s. u32_from_slice [0x17, 0x25, 0, 0, 0x13, 0x05, 0x05, 0] = Some upper
    \<and> riscv_read_value IType [0x13, 0x05, 0x55, 0x34] = Some (lower, s)
    \<and> 0x10000 + scast (upper AND NOT UTYPE_IMMEDIATE_MASK) + lower = 0x12345"
proof -
  have "hi_target sample_apply_env R_RISCV_PCREL_HI20 (sample_symbol 1 0x12345) (reloc_addend (hi_rel 1)) = Inr 0x12345"
    by (simp add: hi_target_def hi_kind_def riscv_info_def sample_apply_eval value_with_addend_def is_ifunc_def contains_def
        NON_INTERPOSABLE_def IFUNC_def shl_def)
  moreover have "section_address text_section + 0 = 0x10000" by (simp add: text_section_def)
  moreover have "window (lay_parts sample_apply_env) (int (fst (lay_sections sample_apply_env)))
      (snd (lay_sections sample_apply_env) - fst (lay_sections sample_apply_env)) \<noteq> None"
    by (simp add: sample_apply_env_def window_def)
  ultimately show ?thesis
    using riscv_pcrel_pair_applied [of R_RISCV_PCREL_HI20 "hi_rel 1" R_RISCV_PCREL_LO12_I IType lo_rel sample_apply_env
        _ _ _ _ text_section 0 None "after_hi 1" "[]", OF _ _ _ _ _ sample_resolutions(2) _ sample_resolutions(1) sample_label
        sample_high _ sample_hi_run sample_lo_run]
    by (simp add: pcrel_hi_types_def) (simp add: hi_rel_def lo_rel_def relocated_symbol_def plain_symbol_def del: One_nat_def)
qed

definition sum_rel :: "riscv_arith_reloc \<Rightarrow> nat \<Rightarrow> riscv_reloc reloc" where
  "sum_rel t s = \<lparr>reloc_offset = 0, reloc_type = RV_Arith t, reloc_symbol = Some s, reloc_addend = 0\<rparr>"

lemma sum_resolutions:
  "get_resolution sample_apply_env (sum_rel t 0) = Inr (plain_symbol 0 NON_INTERPOSABLE 0x10000, sample_symbol 0 0x10000)"
  "get_resolution sample_apply_env (sum_rel t 1) = Inr (plain_symbol 1 NON_INTERPOSABLE 0x12345, sample_symbol 1 0x12345)"
  "value_with_addend p (sample_symbol n address) (reloc_addend (sum_rel t s)) = Inr address"
  by (simp_all add: sample_apply_eval sum_rel_def value_with_addend_def merged_string_address_def Let_def is_ifunc_def contains_def
      NON_INTERPOSABLE_def IFUNC_def shl_def)

lemma sum_run:
  assumes info: "riscv_relocation_type_from_raw (RV_Arith t) = Some info"
    and k: "adjusts (kind info)" "write_at (lay_uleb sample_apply_env) info 0 x out = Inr out'"
    and s: "get_resolution sample_apply_env (sum_rel t s) = Inr (osym, r)"
    and v: "value_with_addend (lay_parts sample_apply_env) r (reloc_addend (sum_rel t s)) = Inr v"
      "adjust_relocation_based_on_value v info out 0 = Inr x"
  shows "apply_relocation riscv_arch sample_apply_env text_section None cache later 0 (sum_rel t s) (out, w)
    = Inr (Normal, out', w)"
proof -
  have sk: "symbolic (kind info)" "\<not> is_uleb_pair info" "kind info \<noteq> Absolute" using k(1) by (auto simp: symbolic_def is_uleb_pair_def)
  have a: "address_value c r addend (kind info) = value_with_addend (ctx_parts c) r addend" for c addend
    using k(1) by (cases "kind info") simp_all
  have "finish_relocation riscv_arch sample_apply_env text_section None cache later (sum_rel t s) osym r info
      (out, 0, reloc_addend (sum_rel t s)) w = Inr (out', w)"
    using v k sk by (simp add: finish_relocation_def Let_def relocation_value_def a make_ctx_def thunked_value_def
      maybe_get_thunk_for_relocation_def)
  moreover have "unrelaxed riscv_arch (reloc_type (sum_rel t s))" "reloc_type (sum_rel t s) = RV_Arith t"
    "reloc_symbol (sum_rel t s) = Some s"
    using info by (auto intro!: riscv_unrelaxed simp: sum_rel_def riscv_relaxes_def)
  moreover have "lay_kind sample_apply_env = StaticExecutable NonRelocatableModel" by (simp add: sample_apply_env_def)
  ultimately show ?thesis
    using apply_relocation_unrelaxed_eq [of riscv_arch "sum_rel t s" info s] info sk s by simp
qed

lemma sum_runs:
  "apply_relocation riscv_arch sample_apply_env text_section None empty_cache [] 0 (sum_rel R_RISCV_ADD32 1)
     ([1, 0, 0, 0], sample_tables) = Inr (Normal, [0x46, 0x23, 1, 0], sample_tables)"
  "apply_relocation riscv_arch sample_apply_env text_section None empty_cache [] 0 (sum_rel R_RISCV_SUB32 0)
     ([0x46, 0x23, 1, 0], sample_tables) = Inr (Normal, [0x46, 0x23, 0, 0], sample_tables)"
proof -
  define a where "a = riscv_info (riscv_arith_row R_RISCV_ADD32)"
  define b where "b = riscv_info (riscv_arith_row R_RISCV_SUB32)"
  have ab: "riscv_relocation_type_from_raw (RV_Arith R_RISCV_ADD32) = Some a" "kind a = AbsoluteAddition"
    "riscv_relocation_type_from_raw (RV_Arith R_RISCV_SUB32) = Some b" "kind b = AbsoluteSubtraction"
    by (simp_all add: a_def b_def riscv_relocation_type_from_raw_def riscv_info_def)
  show "apply_relocation riscv_arch sample_apply_env text_section None empty_cache [] 0 (sum_rel R_RISCV_ADD32 1)
     ([1, 0, 0, 0], sample_tables) = Inr (Normal, [0x46, 0x23, 1, 0], sample_tables)"
    by (rule sum_run [OF ab(1) _ _ sum_resolutions(2,3), where x = "0x12346"])
      (simp_all add: ab, simp_all add: a_def riscv_info_def adjust_relocation_based_on_value_def window_def of_le_Cons
        write_at_def write_to_buffer_def verify_def write_bytes_eq to_le_def upt_rec shr_def i64_min_def i64_max_def)
  show "apply_relocation riscv_arch sample_apply_env text_section None empty_cache [] 0 (sum_rel R_RISCV_SUB32 0)
     ([0x46, 0x23, 1, 0], sample_tables) = Inr (Normal, [0x46, 0x23, 0, 0], sample_tables)"
    by (rule sum_run [OF ab(3) _ _ sum_resolutions(1,3), where x = "0x2346"])
      (simp_all add: ab, simp_all add: b_def riscv_info_def adjust_relocation_based_on_value_def window_def of_le_Cons
        write_at_def write_to_buffer_def verify_def write_bytes_eq to_le_def upt_rec shr_def i64_min_def i64_max_def)
qed

theorem riscv_label_difference_witness:
  "to_le 4 (of_le [1, 0, 0, 0] + 0x12345 - 0x10000 :: u64) = [0x46, 0x23, 0, 0]"
  using riscv_label_difference [OF _ _ _ sum_resolutions(2,3,1,3) sum_runs, of R_RISCV_ADD32 R_RISCV_SUB32 4]
  by (simp add: sum_rel_def)


end
