(* ===== verification/Reloc_Needs.thy ===== *)
theory Reloc_Needs
  imports Riscv_Apply
begin

text \<open>
  What the layout reserves for the relocations of a section: \<^verbatim>\<open>classify_symbol_relocation\<close>,
  \<^verbatim>\<open>materialize_relocation_requirements\<close>, \<^verbatim>\<open>note_relocation_symbol_reference\<close> and the loop of
  \<^verbatim>\<open>load_section_relocations\<close> of \<^verbatim>\<open>reld-core/src/elf.rs\<close>; and its agreement with the writer of \<open>Reloc_Apply\<close>.
\<close>

section \<open>The requirements of a relocation\<close>

definition merge_flags :: "value_flags \<Rightarrow> value_flags \<Rightarrow> value_flags" where
  "merge_flags fl other = (if contains other NON_INTERPOSABLE then fl OR NON_INTERPOSABLE else fl)"

definition has_resolution :: "value_flags \<Rightarrow> bool" where
  "has_resolution fl \<longleftrightarrow>
     fl AND (DIRECT OR GOT_FLAG OR PLT_FLAG OR GOT_TLS_MODULE OR GOT_TLS_OFFSET OR GOT_TLS_DESCRIPTOR
             OR EXPORT_DYNAMIC OR COPY_RELOCATION OR IFUNC_GOT_FOR_ADDRESS) \<noteq> 0"

text \<open>
  A symbol of the object: the identity of its definition, and its own flags. The flags of the
  definitions are the state that the threads of the layout share.
\<close>

record needs_symbol =
  ns_definition :: symbol_id
  ns_local :: symbol_id

record needs_env =
  need_kind :: output_kind
  need_relr :: bool
  need_copy :: bool
  need_relax :: bool
  need_symbols :: "needs_symbol list"

record layout_state =
  part_sizes :: part_map
  encoder :: relr_state
  has_static_tls :: bool
  uses_tlsld :: bool
  has_text_relocations :: bool
  per_symbol_flags :: "symbol_id \<Rightarrow> value_flags"

record 'r classified =
  cl_symbol :: symbol_id
  cl_flags :: value_flags
  cl_flags_to_add :: value_flags
  cl_offset :: u64
  cl_type :: 'r
  cl_kind :: "'r relocation_kind"
  cl_next :: relocation_modifier
  cl_writable :: bool

definition classify_symbol_relocation ::
    "'r arch \<Rightarrow> needs_env \<Rightarrow> section_info \<Rightarrow> u8 list \<Rightarrow> 'r reloc \<Rightarrow> nat \<Rightarrow> layout_state
      \<Rightarrow> value_error fault + 'r classified" where
  "classify_symbol_relocation arch env sec section_data rel s st =
     and_then (if s < length (need_symbols env) then Inr (need_symbols env ! s) else Inl Panic) (\<lambda>ns.
       let fl = merge_flags (per_symbol_flags st (ns_definition ns)) (per_symbol_flags st (ns_local ns));
           make = (\<lambda>k next_modifier.
             \<lparr>cl_symbol = ns_definition ns, cl_flags = fl, cl_flags_to_add = resolution_flags k,
              cl_offset = reloc_offset rel, cl_type = reloc_type rel, cl_kind = k,
              cl_next = next_modifier, cl_writable = is_writable sec\<rparr>) in
       and_then (or_panic (new_relaxation arch (reloc_type rel) section_data (reloc_offset rel) fl (need_kind env)
                   (section_flags sec) True None)) (\<lambda>relaxation.
         case relaxation of
           Some rx \<Rightarrow>
             if need_relax env \<or> mandatory rx then Inr (make (kind (relax_info rx)) (relax_next rx))
             else and_then (or_error UnknownRelocation (relocation_from_raw arch (reloc_type rel))) (\<lambda>info.
               Inr (make (kind info) Normal))
         | None \<Rightarrow>
             and_then (or_error UnknownRelocation (relocation_from_raw arch (reloc_type rel))) (\<lambda>info.
               Inr (make (kind info) Normal))))"

definition does_relocation_require_static_tls :: "'r relocation_kind \<Rightarrow> bool" where
  "does_relocation_require_static_tls k \<longleftrightarrow> resolution_flags k = GOT_TLS_OFFSET"

text \<open>The relative relocation of a word in a writable section, packed or not.\<close>

definition allocate_relative :: "bool \<Rightarrow> u64 \<Rightarrow> layout_state \<Rightarrow> layout_state" where
  "allocate_relative relr_enabled offset st =
     (if relr_enabled \<and> 2 dvd offset
      then (case relr_encode (encoder st) offset of
              (_, encoding, enc) \<Rightarrow>
                st\<lparr>encoder := enc,
                   part_sizes := (if encoding = New then increment RELR_DYN RELR_ENTRY_SIZE (part_sizes st)
                                  else part_sizes st)\<rparr>)
      else st\<lparr>part_sizes := increment RELA_DYN_RELATIVE RELA_ENTRY_SIZE (part_sizes st)\<rparr>)"

definition allocate_general :: "layout_state \<Rightarrow> layout_state" where
  "allocate_general st = st\<lparr>part_sizes := increment RELA_DYN_GENERAL RELA_ENTRY_SIZE (part_sizes st)\<rparr>"

text \<open>A direct reference to a symbol that may be interposed, and what is added to its flags.\<close>

definition materialize_interposable ::
    "'r arch \<Rightarrow> needs_env \<Rightarrow> 'r classified \<Rightarrow> layout_state \<Rightarrow> value_error fault + value_flags \<times> layout_state" where
  "materialize_interposable arch env c st =
     (let add = cl_flags_to_add c in
      if is_shared_object (need_kind env) \<and> is_disallowed_for_interposable_symbols arch (cl_type c)
      then Inl (Err DisallowedForInterposable)
      else if cl_writable c then Inr (add, allocate_general st)
      else if is_function (cl_flags c) then Inr ((add AND NOT DIRECT) OR (PLT_FLAG OR GOT_FLAG), st)
      else if \<not> is_absolute (cl_flags c)
      then (if need_copy env then Inr (add OR COPY_RELOCATION, st) else Inl (Err CopyRelocationsDisabled))
      else if is_relocatable (need_kind env) then Inr (add, st\<lparr>has_text_relocations := True\<rparr>)
      else Inr (add, st))"

definition materialize_space ::
    "'r arch \<Rightarrow> needs_env \<Rightarrow> section_info \<Rightarrow> bool \<Rightarrow> 'r classified \<Rightarrow> layout_state
      \<Rightarrow> value_error fault + value_flags \<times> layout_state" where
  "materialize_space arch env sec is_debug_section c st =
     (let fl = cl_flags c; add = cl_flags_to_add c; k = cl_kind c in
      if \<not> is_alloc (section_flags sec) then Inr (add, st)
      else if is_tls k
      then Inr (add, st\<lparr>has_static_tls := (has_static_tls st \<or> does_relocation_require_static_tls k),
                        uses_tlsld := (uses_tlsld st \<or> needs_tlsld k)\<rparr>)
      else if needs_direct add \<and> Got_Tables.is_interposable fl then materialize_interposable arch env c st
      else if is_ifunc fl \<and> k = Absolute \<and> cl_writable c \<and> is_relocatable (need_kind env)
      then Inr (add, allocate_general st)
      else if is_relocatable (need_kind env) \<and> k = Absolute \<and> is_address fl
      then (if cl_writable c then Inr (add, allocate_relative (need_relr env) (cl_offset c) st)
            else if \<not> is_debug_section then Inl (Err ReadOnlySection)
            else Inr (add, st))
      else Inr (add, st))"

definition materialize_relocation_requirements ::
    "'r arch \<Rightarrow> needs_env \<Rightarrow> section_info \<Rightarrow> bool \<Rightarrow> 'r classified \<Rightarrow> layout_state
      \<Rightarrow> value_error fault + 'r classified \<times> layout_state" where
  "materialize_relocation_requirements arch env sec is_debug_section c st =
     and_then (materialize_space arch env sec is_debug_section c st) (\<lambda>(add, st).
       let relocation_needs_got = needs_got add;
           fl = cl_flags c;
           add = (if is_ifunc fl \<and> \<not> is_static_executable (need_kind env) then add OR (GOT_FLAG OR PLT_FLAG) else add);
           add = (if is_ifunc fl \<and> relocation_needs_got \<and> \<not> is_relocatable (need_kind env)
                  then add OR IFUNC_GOT_FOR_ADDRESS else add)
       in Inr (c\<lparr>cl_flags_to_add := add\<rparr>, st))"

text \<open>
  The flags are added to those of the definition; the request to the group of the symbol and to the
  thunks, the report of an undefined symbol and the queue are not part of the state here.
\<close>

definition note_relocation_symbol_reference :: "needs_env \<Rightarrow> 'r classified \<Rightarrow> layout_state \<Rightarrow> layout_state" where
  "note_relocation_symbol_reference env c st =
     (let s = cl_symbol c; previous_flags = per_symbol_flags st s; fl = previous_flags OR cl_flags_to_add c;
          fl = (if \<not> has_resolution previous_flags \<and> is_ifunc (cl_flags c) \<and> is_static_executable (need_kind env)
                then fl OR (GOT_FLAG OR PLT_FLAG) else fl)
      in st\<lparr>per_symbol_flags := (per_symbol_flags st)(s := fl)\<rparr>)"

definition process_relocation ::
    "'r arch \<Rightarrow> needs_env \<Rightarrow> section_info \<Rightarrow> u8 list \<Rightarrow> bool \<Rightarrow> 'r reloc \<Rightarrow> layout_state
      \<Rightarrow> value_error fault + relocation_modifier \<times> layout_state" where
  "process_relocation arch env sec section_data is_debug_section rel st =
     (case reloc_symbol rel of
        None \<Rightarrow> Inr (Normal, st)
      | Some s \<Rightarrow>
          and_then (classify_symbol_relocation arch env sec section_data rel s st) (\<lambda>c.
          and_then (materialize_relocation_requirements arch env sec is_debug_section c st) (\<lambda>(c, st).
            Inr (cl_next c, note_relocation_symbol_reference env c st))))"

fun load_loop ::
    "'r arch \<Rightarrow> needs_env \<Rightarrow> section_info \<Rightarrow> u8 list \<Rightarrow> relocation_modifier \<Rightarrow> 'r reloc list \<Rightarrow> layout_state
      \<Rightarrow> value_error fault + layout_state" where
  "load_loop arch env sec section_data modifier [] st = Inr st"
| "load_loop arch env sec section_data modifier (rel # rels) st =
     (if modifier = SkipNextRelocation then load_loop arch env sec section_data Normal rels st
      else and_then (process_relocation arch env sec section_data False rel st) (\<lambda>(modifier, st).
        load_loop arch env sec section_data modifier rels st))"

definition load_section_relocations ::
    "'r arch \<Rightarrow> needs_env \<Rightarrow> section_info \<Rightarrow> u8 list \<Rightarrow> 'r reloc list \<Rightarrow> layout_state
      \<Rightarrow> value_error fault + layout_state" where
  "load_section_relocations arch env sec section_data rels st =
     load_loop arch env sec section_data Normal rels (st\<lparr>encoder := NoRun\<rparr>)"

section \<open>Flags are only added\<close>

definition grows :: "layout_state \<Rightarrow> layout_state \<Rightarrow> bool" where
  "grows st st' \<longleftrightarrow>
     (\<forall>s. contains (per_symbol_flags st' s) (per_symbol_flags st s))
     \<and> (uses_tlsld st \<longrightarrow> uses_tlsld st') \<and> (has_static_tls st \<longrightarrow> has_static_tls st')
     \<and> (has_text_relocations st \<longrightarrow> has_text_relocations st')"

lemma contains_refl [simp]: "contains fl fl"
  by (simp add: contains_def)

lemma contains_trans: "contains a b \<Longrightarrow> contains b c \<Longrightarrow> contains a c"
  unfolding contains_def by (metis and.assoc and.commute)

lemma contains_orI [simp]: "contains (a OR b) a" "contains (a OR b) b"
  by (auto simp: contains_def bit_eq_iff bit_and_iff bit_or_iff)

lemma contains_mono: "contains a c \<Longrightarrow> contains (a OR b) c" "contains b c \<Longrightarrow> contains (a OR b) c"
  using contains_trans contains_orI by blast+

lemma grows_refl [simp]: "grows st st"
  by (simp add: grows_def)

lemma grows_trans: "grows a b \<Longrightarrow> grows b c \<Longrightarrow> grows a c"
  by (auto simp: grows_def intro: contains_trans)

lemma materialize_space_grows:
  assumes "materialize_space arch env sec dbg c st = Inr (add, st')"
  shows "grows st st'" "per_symbol_flags st' = per_symbol_flags st"
  using assms
  by (auto simp: materialize_space_def materialize_interposable_def Let_def grows_def allocate_general_def
      allocate_relative_def split: if_splits prod.splits)

lemma note_grows: "grows st (note_relocation_symbol_reference env c st)"
  by (simp add: note_relocation_symbol_reference_def Let_def grows_def contains_mono)

definition flags_after :: "needs_env \<Rightarrow> value_flags \<Rightarrow> value_flags \<Rightarrow> value_flags" where
  "flags_after env fl add =
     (let add' = (if is_ifunc fl \<and> \<not> is_static_executable (need_kind env) then add OR (GOT_FLAG OR PLT_FLAG) else add)
      in if is_ifunc fl \<and> needs_got add \<and> \<not> is_relocatable (need_kind env)
         then add' OR IFUNC_GOT_FOR_ADDRESS else add')"

lemma materialize_requirements:
  "materialize_relocation_requirements arch env sec dbg c st =
     and_then (materialize_space arch env sec dbg c st)
       (\<lambda>(add, st). Inr (c\<lparr>cl_flags_to_add := flags_after env (cl_flags c) add\<rparr>, st))"
  unfolding materialize_relocation_requirements_def flags_after_def Let_def ..

lemma process_parts:
  assumes "process_relocation arch env sec section_data dbg rel st = Inr (m, st')" "reloc_symbol rel = Some s"
  obtains c add st1 where "classify_symbol_relocation arch env sec section_data rel s st = Inr c"
    "materialize_space arch env sec dbg c st = Inr (add, st1)" "m = cl_next c"
    "st' = note_relocation_symbol_reference env (c\<lparr>cl_flags_to_add := flags_after env (cl_flags c) add\<rparr>) st1"
proof -
  from assms obtain c where c: "classify_symbol_relocation arch env sec section_data rel s st = Inr c"
    by (cases "classify_symbol_relocation arch env sec section_data rel s st") (simp_all add: process_relocation_def)
  from assms c obtain add st1 where "materialize_space arch env sec dbg c st = Inr (add, st1)"
    by (cases "materialize_space arch env sec dbg c st") (auto simp: process_relocation_def materialize_requirements)
  with assms c that [of c add st1] show thesis by (simp add: process_relocation_def materialize_requirements)
qed

lemma process_grows:
  assumes "process_relocation arch env sec section_data dbg rel st = Inr (m, st')"
  shows "grows st st'"
proof (cases "reloc_symbol rel")
  case (Some s)
  obtain c add st1 where c: "materialize_space arch env sec dbg c st = Inr (add, st1)"
    "st' = note_relocation_symbol_reference env (c\<lparr>cl_flags_to_add := flags_after env (cl_flags c) add\<rparr>) st1"
    using process_parts [OF assms Some] by metis
  show ?thesis
    unfolding c(2) by (rule grows_trans [OF materialize_space_grows(1) [OF c(1)] note_grows])
qed (use assms in \<open>simp add: process_relocation_def\<close>)

lemma load_loop_grows:
  "load_loop arch env sec section_data modifier rels st = Inr st' \<Longrightarrow> grows st st'"
proof (induction rels arbitrary: modifier st)
  case (Cons rel rels)
  then show ?case
    by (auto simp: and_then_Inr_iff split: if_splits dest: process_grows intro: grows_trans)
qed simp

section \<open>The tables hold what was noted\<close>

text \<open>An indirect function with a resolution has a linkage table entry.\<close>

definition ifunc_noted :: "(symbol_id \<Rightarrow> value_flags) \<Rightarrow> bool" where
  "ifunc_noted flags \<longleftrightarrow> (\<forall>s. is_ifunc (flags s) \<and> has_resolution (flags s) \<longrightarrow> needs_plt (flags s))"

lemma contains_flag: "k < 32 \<Longrightarrow> contains fl (shl 1 k) \<longleftrightarrow> bit fl k"
proof -
  assume "k < 32"
  then have "bit (shl 1 k :: value_flags) n \<longleftrightarrow> n = k" if "n < 32" for n
    using that \<open>k < 32\<close> by (simp add: shl_def bit_simps)
  with \<open>k < 32\<close> show ?thesis
    unfolding contains_def bit_eq_iff [of "fl AND shl 1 k" "shl 1 k"] by (auto simp: bit_and_iff)
qed

lemmas flag_bits = is_ifunc_def is_dynamic_def is_absolute_def Got_Tables.is_interposable_def is_function_def
  needs_direct_def needs_got_def needs_plt_def ABSOLUTE_def DYNAMIC_def IFUNC_def NON_INTERPOSABLE_def
  FUNCTION_FLAG_def DIRECT_def GOT_FLAG_def PLT_FLAG_def contains_flag

lemma bit_flag: "k < 32 \<Longrightarrow> n < 32 \<Longrightarrow> bit (shl 1 k :: value_flags) n \<longleftrightarrow> n = k"
  by (simp add: shl_def bit_simps)

lemma is_ifunc_merge [simp]: "is_ifunc (merge_flags fl other) = is_ifunc fl"
  by (simp add: flag_bits merge_flags_def bit_or_iff bit_flag)

lemma flags_after_contains: "contains (flags_after env fl add) add"
  by (simp add: flags_after_def Let_def contains_mono)

lemma classify_result:
  assumes "classify_symbol_relocation arch env sec section_data rel s st = Inr c"
  shows "cl_flags_to_add c = resolution_flags (cl_kind c)"
    "is_ifunc (cl_flags c) = is_ifunc (per_symbol_flags st (cl_symbol c))"
  using assms by (auto simp: classify_symbol_relocation_def Let_def and_then_Inr_iff split: option.splits if_splits)

lemma materialize_space_contains:
  assumes "materialize_space arch env sec dbg c st = Inr (add, st')"
  shows "contains add (cl_flags_to_add c AND NOT DIRECT)"
proof -
  have "contains x (x AND y)" "contains ((x AND y) OR z) (x AND y)" "contains (x OR z) (x AND y)" for x y z :: value_flags
    by (auto simp: contains_def bit_eq_iff bit_and_iff bit_or_iff)
  with assms show ?thesis
    by (auto simp: materialize_space_def materialize_interposable_def Let_def split: if_splits)
qed

lemma materialize_space_tlsld:
  assumes "materialize_space arch env sec dbg c st = Inr (add, st')"
    and "is_alloc (section_flags sec)" and tlsld: "needs_tlsld (cl_kind c)"
  shows "uses_tlsld st'"
proof -
  have "is_tls (cl_kind c)" using tlsld by (cases "cl_kind c") simp_all
  with assms show ?thesis by (auto simp: materialize_space_def Let_def)
qed

text \<open>
  No flag of a request is one of the first four, which say what the symbol is: absolute, dynamic, an
  indirect function, not to be interposed.
\<close>

lemma resolution_flags_low: "n < 4 \<Longrightarrow> \<not> bit (resolution_flags k) n"
  by (cases k) (simp_all add: flag_bits bit_flag bit_or_iff GOT_TLS_OFFSET_def GOT_TLS_MODULE_def GOT_TLS_DESCRIPTOR_def)

lemma flags_after_low: "n < 4 \<Longrightarrow> \<not> bit add n \<Longrightarrow> \<not> bit (flags_after env fl add) n"
  by (simp add: flags_after_def Let_def bit_or_iff GOT_FLAG_def PLT_FLAG_def IFUNC_GOT_FOR_ADDRESS_def bit_flag)

lemma materialize_space_low:
  assumes "materialize_space arch env sec dbg c st = Inr (add, st')" "n < 4" "\<not> bit (cl_flags_to_add c) n"
  shows "\<not> bit add n"
  using assms
  by (auto simp: materialize_space_def materialize_interposable_def Let_def bit_or_iff bit_and_iff
      GOT_FLAG_def PLT_FLAG_def COPY_RELOCATION_def bit_flag split: if_splits)

lemma note_ifunc:
  fixes c :: "'r classified"
  assumes inv: "ifunc_noted (per_symbol_flags st)"
    and flags: "is_ifunc (cl_flags c) = is_ifunc (per_symbol_flags st (cl_symbol c))"
    and add: "cl_flags_to_add c = flags_after env (cl_flags c) add" "\<not> bit add 2"
    and st': "st' = note_relocation_symbol_reference env c st"
  shows "ifunc_noted (per_symbol_flags st')"
    "is_ifunc (per_symbol_flags st' (cl_symbol c)) \<Longrightarrow> needs_plt (per_symbol_flags st' (cl_symbol c))"
    "is_ifunc (per_symbol_flags st' (cl_symbol c)) = is_ifunc (per_symbol_flags st (cl_symbol c))"
proof -
  let ?old = "per_symbol_flags st (cl_symbol c)" and ?new = "per_symbol_flags st' (cl_symbol c)"
  have others: "per_symbol_flags st' s = per_symbol_flags st s" if "s \<noteq> cl_symbol c" for s
    using that st' by (simp add: note_relocation_symbol_reference_def Let_def)
  have bit2: "\<not> bit (cl_flags_to_add c) 2" using add flags_after_low by simp
  show ifunc: "is_ifunc ?new = is_ifunc ?old"
    using bit2 st' by (simp add: note_relocation_symbol_reference_def Let_def flag_bits bit_or_iff bit_flag)
  show plt: "needs_plt ?new" if "is_ifunc ?new"
  proof -
    have old: "is_ifunc ?old" "is_ifunc (cl_flags c)" using that ifunc flags by simp_all
    show ?thesis
    proof (cases "is_static_executable (need_kind env)")
      case False
      then have "bit (cl_flags_to_add c) 8"
        using add(1) old(2) by (simp add: flags_after_def Let_def bit_or_iff PLT_FLAG_def bit_flag)
      then show ?thesis using st'
        by (simp add: note_relocation_symbol_reference_def Let_def flag_bits bit_or_iff)
    next
      case True
      then show ?thesis
      proof (cases "has_resolution ?old")
        case True
        then have "bit ?old 8" using inv old(1) by (simp add: ifunc_noted_def needs_plt_def PLT_FLAG_def contains_flag)
        then show ?thesis using st'
          by (simp add: note_relocation_symbol_reference_def Let_def flag_bits bit_or_iff)
      next
        case False
        then show ?thesis using st' True old(2)
          by (simp add: note_relocation_symbol_reference_def Let_def flag_bits bit_or_iff bit_flag)
      qed
    qed
  qed
  show "ifunc_noted (per_symbol_flags st')"
    using inv others plt by (auto simp: ifunc_noted_def) (metis others)+
qed

definition same_ifuncs :: "layout_state \<Rightarrow> layout_state \<Rightarrow> bool" where
  "same_ifuncs st st' \<longleftrightarrow> (\<forall>s. is_ifunc (per_symbol_flags st' s) = is_ifunc (per_symbol_flags st s))"

lemma process_noted:
  assumes run: "process_relocation arch env sec section_data dbg rel st = Inr (m, st')" "reloc_symbol rel = Some s"
    and inv: "ifunc_noted (per_symbol_flags st)"
    and c: "classify_symbol_relocation arch env sec section_data rel s st = Inr c"
  shows "contains (per_symbol_flags st' (cl_symbol c)) (resolution_flags (cl_kind c) AND NOT DIRECT)"
    and "is_ifunc (per_symbol_flags st' (cl_symbol c)) \<Longrightarrow> needs_plt (per_symbol_flags st' (cl_symbol c))"
    and "is_alloc (section_flags sec) \<Longrightarrow> needs_tlsld (cl_kind c) \<Longrightarrow> uses_tlsld st'"
    and "ifunc_noted (per_symbol_flags st')" and "same_ifuncs st st'"
proof -
  obtain add st1 where space: "materialize_space arch env sec dbg c st = Inr (add, st1)"
    and st': "st' = note_relocation_symbol_reference env (c\<lparr>cl_flags_to_add := flags_after env (cl_flags c) add\<rparr>) st1"
    using process_parts [OF run] c by (metis Inr_inject)
  let ?c = "c\<lparr>cl_flags_to_add := flags_after env (cl_flags c) add\<rparr>"
  note flags = materialize_space_grows(2) [OF space]
  have bit2: "\<not> bit add 2"
    using materialize_space_low [OF space] classify_result(1) [OF c] by (simp add: resolution_flags_low)
  have "contains (per_symbol_flags st' (cl_symbol c)) (flags_after env (cl_flags c) add)"
    by (simp add: st' note_relocation_symbol_reference_def Let_def contains_mono)
  then show "contains (per_symbol_flags st' (cl_symbol c)) (resolution_flags (cl_kind c) AND NOT DIRECT)"
    using materialize_space_contains [OF space] classify_result(1) [OF c] flags_after_contains contains_trans by metis
  show "is_alloc (section_flags sec) \<Longrightarrow> needs_tlsld (cl_kind c) \<Longrightarrow> uses_tlsld st'"
    using materialize_space_tlsld [OF space] note_grows [of st1 env ?c] st' by (simp add: grows_def)
  have "ifunc_noted (per_symbol_flags st1)" "is_ifunc (cl_flags ?c) = is_ifunc (per_symbol_flags st1 (cl_symbol ?c))"
    using inv flags classify_result(2) [OF c] by simp_all
  note noted = note_ifunc [OF this _ bit2 st']
  show "is_ifunc (per_symbol_flags st' (cl_symbol c)) \<Longrightarrow> needs_plt (per_symbol_flags st' (cl_symbol c))"
    and "ifunc_noted (per_symbol_flags st')"
    using noted by simp_all
  show "same_ifuncs st st'"
    using noted(3) by (auto simp: same_ifuncs_def st' flags note_relocation_symbol_reference_def Let_def)
qed

lemma process_invariant:
  assumes "process_relocation arch env sec section_data dbg rel st = Inr (m, st')" "ifunc_noted (per_symbol_flags st)"
  shows "ifunc_noted (per_symbol_flags st') \<and> same_ifuncs st st'"
proof (cases "reloc_symbol rel")
  case None
  with assms show ?thesis by (simp add: process_relocation_def same_ifuncs_def)
next
  case (Some s)
  obtain c where "classify_symbol_relocation arch env sec section_data rel s st = Inr c"
    using process_parts [OF assms(1) Some] by metis
  from process_noted(4,5) [OF assms(1) Some assms(2) this] show ?thesis by simp
qed

lemma load_loop_invariant:
  "load_loop arch env sec section_data modifier rels st = Inr st' \<Longrightarrow> ifunc_noted (per_symbol_flags st) \<Longrightarrow>
     ifunc_noted (per_symbol_flags st') \<and> same_ifuncs st st'"
proof (induction rels arbitrary: modifier st)
  case (Cons rel rels)
  show ?case
  proof (cases "modifier = SkipNextRelocation")
    case False
    with Cons.prems obtain m st1 where
      st1: "process_relocation arch env sec section_data False rel st = Inr (m, st1)"
        "load_loop arch env sec section_data m rels st1 = Inr st'"
      by (auto simp: and_then_Inr_iff)
    from process_invariant [OF st1(1) Cons.prems(2)] Cons.IH [OF st1(2)] show ?thesis
      by (simp add: same_ifuncs_def)
  qed (use Cons in simp)
qed (simp add: same_ifuncs_def)

text \<open>C28: What the layout notes while it reads the relocations of an allocated section is enough to apply
  them. Take a relocation that \<^verbatim>\<open>load_section_relocations\<close> reads, of the kind that it was classified as,
  and its symbol with the flags that it has after the rest of the section was read (more may have been
  added since). When the resolution of the symbol has been created from these flags, and the module entry
  exists if any relocation noted that it is used, the value of the relocation is computed without an error:
  no offset-table, linkage-table or module address is missing, for any kind that does not refer to another
  relocation, indirect functions included.\<close>

theorem noted_addresses_present:
  fixes c :: "'r classified"
  assumes inv: "ifunc_noted (per_symbol_flags st)" and alloc: "is_alloc (section_flags sec)"
    and layout: "load_loop arch env sec section_data Normal (rel # rels) st = Inr st'"
    and c: "reloc_symbol rel = Some s" "classify_symbol_relocation arch env sec section_data rel s st = Inr c"
    and fl: "contains fl (per_symbol_flags st' (cl_symbol c))"
      "is_ifunc fl = is_ifunc (per_symbol_flags st' (cl_symbol c))"
    and res: "create_resolution fl raw index relr okind offsets = Some (rel_res r, offsets')"
    and tlsld: "uses_tlsld st' \<Longrightarrow> tlsld_got_entry ctx \<noteq> None"
    and strings: "merge_section r = None \<or> raw_value (rel_res r) \<noteq> 0"
    and provided: "provided (cl_kind c)"
  shows "\<exists>v. address_value ctx r addend (cl_kind c) = Inr v"
proof -
  obtain m st1 where st1: "process_relocation arch env sec section_data False rel st = Inr (m, st1)"
    "load_loop arch env sec section_data m rels st1 = Inr st'"
    using layout by (auto simp: and_then_Inr_iff)
  note noted = process_noted [OF st1(1) c(1) inv c(2)]
  note grows = load_loop_grows [OF st1(2)]
  have same: "same_ifuncs st1 st'" using load_loop_invariant [OF st1(2) noted(4)] by simp
  have fl1: "contains fl (per_symbol_flags st1 (cl_symbol c))"
    using fl(1) grows by (auto simp: grows_def intro: contains_trans)
  show ?thesis
  proof (rule requested_addresses_present [OF res _ _ _ strings provided])
    show "contains fl (resolution_flags (cl_kind c) AND NOT DIRECT)"
      using fl1 noted(1) by (rule contains_trans)
    show "tlsld_got_entry ctx \<noteq> None" if "needs_tlsld (cl_kind c)"
      using tlsld grows noted(3) [OF alloc that] by (simp add: grows_def)
    show "needs_plt fl" if "is_ifunc fl"
    proof -
      have "needs_plt (per_symbol_flags st1 (cl_symbol c))"
        using that fl(2) same noted(2) by (simp add: same_ifuncs_def)
      with fl1 show ?thesis unfolding needs_plt_def by (rule contains_trans)
    qed
  qed
qed

section \<open>A section of an object\<close>

definition sample_needs_env :: "output_kind \<Rightarrow> bool \<Rightarrow> needs_env" where
  "sample_needs_env k relr =
     \<lparr>need_kind = k, need_relr = relr, need_copy = True, need_relax = True,
      need_symbols = [\<lparr>ns_definition = 0, ns_local = 0\<rparr>, \<lparr>ns_definition = 1, ns_local = 1\<rparr>]\<rparr>"

definition sample_layout :: "(symbol_id \<Rightarrow> value_flags) \<Rightarrow> layout_state" where
  "sample_layout fl =
     \<lparr>part_sizes = (\<lambda>_. 0), encoder = NoRun, has_static_tls = False, uses_tlsld = False,
      has_text_relocations = False, per_symbol_flags = fl\<rparr>"

definition got_rel :: "riscv_reloc reloc" where
  "got_rel = \<lparr>reloc_offset = 0, reloc_type = RV_Insn R_RISCV_GOT_HI20, reloc_symbol = Some 1, reloc_addend = 0\<rparr>"

abbreviation static_needs :: needs_env where
  "static_needs \<equiv> sample_needs_env (StaticExecutable NonRelocatableModel) False"

abbreviation local_symbols :: layout_state where "local_symbols \<equiv> sample_layout (\<lambda>_. NON_INTERPOSABLE)"

definition got_need :: "riscv_reloc classified" where
  "got_need =
     \<lparr>cl_symbol = 1, cl_flags = NON_INTERPOSABLE, cl_flags_to_add = GOT_FLAG, cl_offset = 0,
      cl_type = RV_Insn R_RISCV_GOT_HI20, cl_kind = GotRelative, cl_next = Normal, cl_writable = False\<rparr>"

lemma got_classified: "classify_symbol_relocation riscv_arch static_needs text_section data got_rel 1 local_symbols = Inr got_need"
proof -
  have "new_relaxation riscv_arch (reloc_type got_rel) data off fl okind sfl nz deltas = Some None" for off fl okind sfl nz deltas
    by (simp add: got_rel_def riscv_arch_def riscv_new_relaxation_def riscv_relocation_type_from_raw_def)
  moreover have "riscv_relocation_type_from_raw (reloc_type got_rel) = Some (riscv_info (riscv_insn_row R_RISCV_GOT_HI20))"
    "kind (riscv_info (riscv_insn_row R_RISCV_GOT_HI20)) = GotRelative"
    by (simp_all add: got_rel_def riscv_relocation_type_from_raw_def riscv_info_def)
  ultimately show ?thesis
    by (simp add: classify_symbol_relocation_def Let_def del: riscv_insn_row.simps)
      (simp add: got_need_def sample_needs_env_def sample_layout_def got_rel_def merge_flags_def contains_def text_section_def)
qed

lemma got_loaded: "load_loop riscv_arch static_needs text_section data Normal [got_rel] local_symbols
   = Inr (sample_layout ((\<lambda>_. NON_INTERPOSABLE)(1 := NON_INTERPOSABLE OR GOT_FLAG)))"
proof -
  have "reloc_symbol got_rel = Some 1" by (simp add: got_rel_def)
  then show ?thesis
    by (simp add: process_relocation_def got_classified materialize_requirements del: One_nat_def)
      (simp add: got_need_def materialize_space_def flags_after_def note_relocation_symbol_reference_def sample_layout_def Let_def
        flag_bits bit_flag sample_needs_env_def)
qed

definition got_resolved :: relocated where
  "got_resolved =
     \<lparr>rel_res = \<lparr>raw_value = 0x12345, dynamic_symbol_index = None, res_flags = NON_INTERPOSABLE OR GOT_FLAG,
                 got_address = Some 0x40000, plt_address = None\<rparr>,
      merge_section = None, merged_at = (\<lambda>_ _. Inr 0), rel_undefined = False\<rparr>"

lemma got_created:
  "create_resolution (NON_INTERPOSABLE OR GOT_FLAG) 0x12345 None False (StaticExecutable NonRelocatableModel)
     ((\<lambda>_. 0)(GOT := 0x40000)) = Some (rel_res got_resolved, (\<lambda>_. 0)(GOT := 0x40008))"
  by (simp add: create_resolution_def got_resolved_def needs_plt_def needs_got_def has_tls_got_def needs_got_tls_offset_def
      needs_got_tls_module_def needs_got_tls_descriptor_def is_got_relr_eligible_def allocate_got_def increment_def
      contains_def NON_INTERPOSABLE_def GOT_FLAG_def PLT_FLAG_def GOT_TLS_OFFSET_def GOT_TLS_MODULE_def GOT_TLS_DESCRIPTOR_def
      shl_def GOT_ENTRY_SIZE_def)

theorem noted_addresses_present_witness:
  "\<exists>v. address_value (make_ctx riscv_arch sample_apply_env text_section None empty_cache [] got_rel
       (plain_symbol 1 NON_INTERPOSABLE 0x12345) (riscv_info (riscv_insn_row R_RISCV_GOT_HI20)) 0x10000)
     got_resolved 0 (cl_kind got_need) = Inr v"
proof (rule noted_addresses_present [OF _ _ got_loaded _ got_classified _ _ got_created])
  show "is_alloc (section_flags text_section)" by (simp add: text_section_def is_alloc_def SHF_ALLOC_def)
  show "ifunc_noted (per_symbol_flags local_symbols)"
    by (simp add: ifunc_noted_def sample_layout_def flag_bits bit_flag)
qed (simp_all add: got_rel_def got_need_def got_resolved_def sample_layout_def flag_bits bit_flag bit_or_iff)

end
