(* ===== verification/Reloc_Space.thy ===== *)
theory Reloc_Space
  imports Reloc_Needs
begin

text \<open>
  The dynamic relocations of a section: what the layout counts for them (\<open>Reloc_Needs\<close>) is what the writer
  takes (\<open>Reloc_Apply\<close>), for the sections that can be written at run time.
\<close>

section \<open>Errors that are not about space\<close>

fun space_error :: "value_error fault \<Rightarrow> bool" where
  "space_error (Err (TableError (InsufficientSpace _))) = True"
| "space_error (Err (RelativeTableError _)) = True"
| "space_error _ = False"

definition quiet :: "value_error fault + 'a \<Rightarrow> bool" where
  "quiet r \<longleftrightarrow> (\<forall>e. r = Inl e \<longrightarrow> \<not> space_error e)"

lemma quiet_simps [simp]:
  "quiet (Inr x)" "quiet (Inl e) \<longleftrightarrow> \<not> space_error e" "quiet (or_panic y)"
  "quiet (or_error e' z) \<longleftrightarrow> z \<noteq> None \<or> \<not> space_error (Err e')"
  by (auto simp: quiet_def or_panic_def or_error_def split: option.splits)

lemma quiet_and_then [intro]:
  assumes "quiet r" "\<And>x. r = Inr x \<Longrightarrow> quiet (f x)"
  shows "quiet (and_then r f)"
  using assms by (cases r) (simp_all add: quiet_def)

lemma quiet_if [intro]: "(b \<Longrightarrow> quiet x) \<Longrightarrow> (\<not> b \<Longrightarrow> quiet y) \<Longrightarrow> quiet (if b then x else y)"
  by simp

lemma quiet_write_error [simp]: "quiet (as_write_error r)"
  by (cases r rule: as_write_error.cases) simp_all

lemma quiet_addresses [simp]:
  "quiet (res_got r)" "quiet (res_got_for_relocation r)" "quiet (res_tlsgd r)" "quiet (res_tlsdesc r)"
  "quiet (res_plt r)" "quiet (tlsld_got c)" "quiet (lift_table (res_plt_address res))"
  "quiet (lift_table (res_dynamic_symbol_index res))"
  by (simp_all add: res_got_def res_got_for_relocation_def res_tlsgd_def res_tlsdesc_def res_plt_def tlsld_got_def
      res_got_address_def got_address_for_relocation_def tlsgd_got_address_def tls_descriptor_got_address_def
      res_plt_address_def res_dynamic_symbol_index_def Let_def split: option.splits)

lemma quiet_value_with_addend:
  assumes "\<And>p a. quiet (merged_at r p a)"
  shows "quiet (value_with_addend parts r addend)"
  unfolding value_with_addend_def merged_string_address_def Let_def
  using assms by (auto intro!: quiet_and_then quiet_if split: option.splits)

lemma quiet_address_value:
  assumes "\<And>p a. quiet (merged_at r p a)"
    and "\<And>off k hi x. ctx_high c off = Inr (k, hi, x) \<Longrightarrow> (\<forall>p a. quiet (merged_at hi p a))"
    and "\<And>off. quiet (ctx_high c off)" "\<And>t. quiet (ctx_pair c t)"
  shows "quiet (address_value c r addend k)"
proof -
  note v = quiet_value_with_addend [OF assms(1)]
  have "quiet (low_part_value c r addend)"
    unfolding low_part_value_def Let_def
    using v assms(2,3) quiet_value_with_addend
    by (auto intro!: quiet_and_then quiet_if split: relocation_kind.splits)
  with v assms(4) show ?thesis
    by (cases k) (auto intro!: quiet_and_then)
qed

lemma quiet_adjust: "quiet (adjust_relocation_based_on_value v info out offset)"
  by (simp add: adjust_relocation_based_on_value_def Let_def split: relocation_size.splits option.splits
      relocation_kind.splits)

lemma quiet_thunked: "quiet (thunked_value arch env sec info osym place v)"
  by (simp add: thunked_value_def split: sum.splits option.splits)

lemma quiet_write_at: "quiet (write_at uleb info offset v out)"
  by (auto simp: write_at_def Let_def)

lemma quiet_alignment: "quiet (apply_alignment arch deltas offset rel out)"
  by (simp add: apply_alignment_def Let_def)

lemma quiet_get_resolution: "quiet (get_resolution env rel)"
  unfolding get_resolution_def by (auto intro!: quiet_and_then)

text \<open>The string lookup, which is a parameter, has errors of its own.\<close>

definition strings_quiet :: "apply_env \<Rightarrow> bool" where
  "strings_quiet env \<longleftrightarrow> list_all (\<lambda>osym. \<forall>p a. quiet (string_at osym p a)) (lay_symbols env)"

lemma get_resolution_InrD:
  assumes "get_resolution env rel = Inr (osym, r)"
  obtains s res where "reloc_symbol rel = Some s" "s < length (lay_symbols env)" "osym = lay_symbols env ! s"
    "symbol_resolution osym = Some res" "r = relocated_symbol osym res"
proof -
  obtain s where "reloc_symbol rel = Some s" using get_resolution_symbol [OF assms] by blast
  with assms that show thesis
    by (cases "symbol_resolution (lay_symbols env ! s)") (auto simp: get_resolution_def split: if_splits)
qed

lemma resolved_strings:
  assumes "strings_quiet env" "get_resolution env rel = Inr (osym, r)"
  shows "quiet (merged_at r p a)"
proof -
  from get_resolution_InrD [OF assms(2)] obtain s res where
    s: "s < length (lay_symbols env)" "osym = lay_symbols env ! s" "r = relocated_symbol osym res" by metis
  then have "merged_at r = string_at (lay_symbols env ! s)" by (simp add: relocated_symbol_def)
  then show ?thesis using assms(1) s(1) by (simp add: strings_quiet_def list_all_length)
qed

lemma quiet_high:
  assumes "strings_quiet env"
  shows "quiet (high_relocation arch env deltas cache later off)"
    and "high_relocation arch env deltas cache later off = Inr (k, hi, x) \<Longrightarrow> quiet (merged_at hi p a)"
proof -
  show "quiet (high_relocation arch env deltas cache later off)"
    unfolding high_relocation_def by (auto intro!: quiet_and_then quiet_get_resolution)
  show "quiet (merged_at hi p a)" if "high_relocation arch env deltas cache later off = Inr (k, hi, x)"
    using that resolved_strings [OF assms] by (auto simp: high_relocation_def and_then_Inr_iff)
qed

lemma quiet_pair:
  assumes "strings_quiet env"
  shows "quiet (pair_set_value env cache offset t)"
  unfolding pair_set_value_def
  by (auto intro!: quiet_and_then quiet_get_resolution quiet_value_with_addend resolved_strings [OF assms])

lemma quiet_context_value:
  assumes "strings_quiet env" "\<And>p a. quiet (merged_at r p a)"
  shows "quiet (address_value (make_ctx arch env sec deltas cache later rel osym info place) r addend k)"
  by (rule quiet_address_value)
    (auto simp: make_ctx_def assms(2) intro: quiet_high [OF assms(1)] quiet_pair [OF assms(1)])

section \<open>What a relocation takes\<close>

text \<open>
  In an allocated section that is writable, by the flags of the symbol: an entry of the general dynamic
  relocations, a relative one, or none.
\<close>

datatype dyn_need = NoEntry | GeneralEntry | RelativeEntry

definition layout_need :: "output_kind \<Rightarrow> value_flags \<Rightarrow> 'r relocation_kind \<Rightarrow> dyn_need" where
  "layout_need okind fl k =
     (if is_tls k then NoEntry
      else if needs_direct (resolution_flags k) \<and> Got_Tables.is_interposable fl then GeneralEntry
      else if k = Absolute \<and> is_relocatable okind
      then (if is_ifunc fl then GeneralEntry else if is_address fl then RelativeEntry else NoEntry)
      else NoEntry)"

definition writer_need :: "output_kind \<Rightarrow> value_flags \<Rightarrow> 'r relocation_kind \<Rightarrow> dyn_need" where
  "writer_need okind fl k =
     (if k \<noteq> Absolute then NoEntry
      else if Got_Tables.is_interposable fl then GeneralEntry
      else if is_relocatable okind
      then (if is_ifunc fl then GeneralEntry else if \<not> is_absolute fl then RelativeEntry else NoEntry)
      else NoEntry)"

text \<open>A symbol of a shared object can be interposed, or is absolute.\<close>

lemma needs_agree:
  assumes "is_dynamic fl \<Longrightarrow> Got_Tables.is_interposable fl \<or> is_absolute fl"
    and "layout_need okind fl k \<noteq> NoEntry \<Longrightarrow> k = Absolute"
  shows "writer_need okind fl k = layout_need okind fl k"
proof (cases "k = Absolute")
  case True
  then show ?thesis using assms(1)
    by (auto simp: writer_need_def layout_need_def needs_direct_def is_address_def is_ifunc_def is_dynamic_def is_absolute_def)
next
  case False
  with assms(2) have "layout_need okind fl k = NoEntry" by blast
  with False show ?thesis by (simp add: writer_need_def)
qed

lemma materialize_space_need:
  assumes "materialize_space arch env sec False c st = Inr (add, st')"
    and "is_alloc (section_flags sec)" "cl_writable c" "cl_flags_to_add c = resolution_flags (cl_kind c)"
  shows "case layout_need (need_kind env) (cl_flags c) (cl_kind c) of
      NoEntry \<Rightarrow> part_sizes st' = part_sizes st \<and> encoder st' = encoder st
    | GeneralEntry \<Rightarrow> part_sizes st' = part_sizes (allocate_general st) \<and> encoder st' = encoder st
    | RelativeEntry \<Rightarrow> part_sizes st' = part_sizes (allocate_relative (need_relr env) (cl_offset c) st)
        \<and> encoder st' = encoder (allocate_relative (need_relr env) (cl_offset c) st)"
  using assms
  by (auto simp: materialize_space_def materialize_interposable_def layout_need_def Let_def allocate_general_def
      split: if_splits)

definition data_site :: "section_info \<Rightarrow> relocated \<Rightarrow> bool" where
  "data_site sec r \<longleftrightarrow>
     is_alloc (section_flags sec) \<and> is_writable sec \<and> (\<forall>p a. quiet (merged_at r p a))"

lemma absolute_none:
  assumes site: "data_site sec r"
    and need: "writer_need okind (res_flags (rel_res r)) Absolute = NoEntry"
  shows "quiet (write_absolute_relocation okind parts sec r place addend w)"
    "write_absolute_relocation okind parts sec r place addend w = Inr (v, w') \<Longrightarrow> w' = w"
  using assms quiet_value_with_addend [of r parts addend] unfolding data_site_def
  by (auto simp: write_absolute_relocation_def writer_need_def Let_def and_then_Inr_iff split: if_splits
      intro!: quiet_and_then)

lemma absolute_general:
  assumes site: "data_site sec r"
    and need: "writer_need okind (res_flags (rel_res r)) Absolute = GeneralEntry"
    and n: "fst (rela_dyn_general_table (fst w)) = Suc n"
  shows "quiet (write_absolute_relocation okind parts sec r place addend w)"
    "write_absolute_relocation okind parts sec r place addend w = Inr (v, w') \<Longrightarrow>
       snd w' = snd w \<and> fst (rela_dyn_general_table (fst w')) = n"
proof -
  obtain es where t: "rela_dyn_general_table (fst w) = (Suc n, es)"
    using n by (cases "rela_dyn_general_table (fst w)") auto
  show "quiet (write_absolute_relocation okind parts sec r place addend w)"
    "write_absolute_relocation okind parts sec r place addend w = Inr (v, w') \<Longrightarrow>
       snd w' = snd w \<and> fst (rela_dyn_general_table (fst w')) = n"
    using site need t unfolding data_site_def
    by (auto simp: write_absolute_relocation_def writer_need_def Let_def and_then_Inr_iff write_rela_dyn_general_def
        take_entry_def split: if_splits intro!: quiet_and_then)
qed

lemma absolute_relative:
  assumes site: "data_site sec r"
    and need: "writer_need okind (res_flags (rel_res r)) Absolute = RelativeEntry"
    and room: "\<And>address. \<exists>u a. write_address_relocation place address (snd w) = Inr (u, a) \<and> P a"
  shows "quiet (write_absolute_relocation okind parts sec r place addend w)"
    "write_absolute_relocation okind parts sec r place addend w = Inr (v, w') \<Longrightarrow> fst w' = fst w \<and> P (snd w')"
proof -
  have eq: "write_absolute_relocation okind parts sec r place addend w =
    and_then (value_with_addend parts r addend) (\<lambda>address.
       case write_address_relocation place address (snd w) of
         Inl e \<Rightarrow> Inl (Err (RelativeTableError e))
       | Inr (v, a) \<Rightarrow> Inr (v, fst w, a))"
    using site need unfolding data_site_def
    by (auto simp: write_absolute_relocation_def writer_need_def Let_def split: if_splits)
  have q: "quiet (case write_address_relocation place address (snd w) of
      Inl e \<Rightarrow> Inl (Err (RelativeTableError e)) | Inr (v, a) \<Rightarrow> Inr (v, fst w, a))" for address
    using room [of address] by auto
  show "quiet (write_absolute_relocation okind parts sec r place addend w)"
    unfolding eq using site by (auto intro!: quiet_and_then quiet_value_with_addend q simp: data_site_def)
  show "fst w' = fst w \<and> P (snd w')" if run: "write_absolute_relocation okind parts sec r place addend w = Inr (v, w')"
  proof -
    from run obtain address where
      "(case write_address_relocation place address (snd w) of
         Inl e \<Rightarrow> Inl (Err (RelativeTableError e)) | Inr (v, a) \<Rightarrow> Inr (v, fst w, a)) = Inr (v, w')"
      unfolding eq and_then_Inr_iff by blast
    with room [of address] show ?thesis by auto
  qed
qed

section \<open>The classes of symbols stay\<close>

definition same_class :: "value_flags \<Rightarrow> value_flags \<Rightarrow> bool" where
  "same_class a b \<longleftrightarrow> (\<forall>n < 4. bit a n = bit b n)"

lemma same_class_refl [simp]: "same_class a a"
  by (simp add: same_class_def)

lemma same_class_flags:
  assumes "same_class a b"
  shows "is_ifunc a = is_ifunc b" "is_dynamic a = is_dynamic b" "is_absolute a = is_absolute b"
    "Got_Tables.is_interposable a = Got_Tables.is_interposable b" "is_address a = is_address b"
  using assms by (simp_all add: same_class_def flag_bits is_address_def)

lemma same_class_need:
  assumes "same_class a b"
  shows "layout_need okind a k = layout_need okind b k" "writer_need okind a k = writer_need okind b k"
  using same_class_flags [OF assms] by (simp_all add: layout_need_def writer_need_def)

definition flags_of :: "needs_env \<Rightarrow> layout_state \<Rightarrow> nat \<Rightarrow> value_flags" where
  "flags_of env st s =
     merge_flags (per_symbol_flags st (ns_definition (need_symbols env ! s)))
       (per_symbol_flags st (ns_local (need_symbols env ! s)))"

definition same_classes :: "layout_state \<Rightarrow> layout_state \<Rightarrow> bool" where
  "same_classes st st' \<longleftrightarrow> (\<forall>s. same_class (per_symbol_flags st s) (per_symbol_flags st' s))"

lemma same_classes_of:
  assumes "same_classes st st'"
  shows "same_class (flags_of env st s) (flags_of env st' s)"
  using assms by (auto simp: same_classes_def same_class_def flags_of_def merge_flags_def NON_INTERPOSABLE_def
      contains_flag bit_or_iff)

lemma process_same_classes:
  assumes "process_relocation arch env sec section_data dbg rel st = Inr (m, st')"
  shows "same_classes st st'"
proof (cases "reloc_symbol rel")
  case (Some s)
  obtain c add st1 where c: "classify_symbol_relocation arch env sec section_data rel s st = Inr c"
    and space: "materialize_space arch env sec dbg c st = Inr (add, st1)"
    and st': "st' = note_relocation_symbol_reference env (c\<lparr>cl_flags_to_add := flags_after env (cl_flags c) add\<rparr>) st1"
    using process_parts [OF assms Some] by metis
  have "\<not> bit (flags_after env (cl_flags c) add) n" if "n < 4" for n
    using that materialize_space_low [OF space that] classify_result(1) [OF c]
    by (simp add: flags_after_low resolution_flags_low)
  then show ?thesis
    using materialize_space_grows(2) [OF space]
    by (simp add: st' same_classes_def same_class_def note_relocation_symbol_reference_def Let_def bit_or_iff
        GOT_FLAG_def PLT_FLAG_def bit_flag)
qed (use assms in \<open>simp add: process_relocation_def same_classes_def\<close>)

section \<open>What a section takes\<close>

definition rel_need :: "'r arch \<Rightarrow> needs_env \<Rightarrow> layout_state \<Rightarrow> 'r reloc \<Rightarrow> dyn_need" where
  "rel_need arch env st rel =
     (case (reloc_symbol rel, relocation_from_raw arch (reloc_type rel)) of
        (Some s, Some info) \<Rightarrow> layout_need (need_kind env) (flags_of env st s) (kind info)
      | _ \<Rightarrow> NoEntry)"

definition general_count :: "('r reloc \<Rightarrow> dyn_need) \<Rightarrow> 'r reloc list \<Rightarrow> nat" where
  "general_count need rels = length (filter (\<lambda>rel. need rel = GeneralEntry) rels)"

definition relative_offsets :: "('r reloc \<Rightarrow> dyn_need) \<Rightarrow> 'r reloc list \<Rightarrow> u64 list" where
  "relative_offsets need rels = map reloc_offset (filter (\<lambda>rel. need rel = RelativeEntry) rels)"

definition section_entries ::
    "('r reloc \<Rightarrow> dyn_need) \<Rightarrow> bool \<Rightarrow> relr_state \<Rightarrow> 'r reloc list \<Rightarrow> part \<Rightarrow> nat" where
  "section_entries need relr enc rels p =
     (case p of
        RELA_DYN_GENERAL \<Rightarrow> general_count need rels
      | RELR_DYN \<Rightarrow> fst (count_section relr enc (relative_offsets need rels))
      | RELA_DYN_RELATIVE \<Rightarrow> snd (count_section relr enc (relative_offsets need rels))
      | _ \<Rightarrow> 0)"

lemma count_simps_need [simp]:
  "general_count need [] = 0" "relative_offsets need [] = []"
  "general_count need (rel # rels) = (if need rel = GeneralEntry then 1 else 0) + general_count need rels"
  "relative_offsets need (rel # rels) =
     (if need rel = RelativeEntry then reloc_offset rel # relative_offsets need rels else relative_offsets need rels)"
  by (simp_all add: general_count_def relative_offsets_def)

text \<open>One relocation of the layout.\<close>

lemma rel_need_same: "same_classes st st' \<Longrightarrow> rel_need arch env st' = rel_need arch env st"
  by (auto simp: rel_need_def fun_eq_iff split: option.splits intro: same_class_need(1) [OF same_classes_of, symmetric])

lemma classify_unrelaxed:
  assumes "classify_symbol_relocation arch env sec section_data rel s st = Inr c" "unrelaxed arch (reloc_type rel)"
  obtains info where "relocation_from_raw arch (reloc_type rel) = Some info" "cl_kind c = kind info"
    "cl_flags c = flags_of env st s" "cl_next c = Normal" "cl_offset c = reloc_offset rel" "cl_writable c = is_writable sec"
proof -
  have rx: "new_relaxation arch (reloc_type rel) section_data off fl okind sfl nz deltas = Some None" for off fl okind sfl nz deltas
    using assms(2) by (simp add: unrelaxed_def)
  from assms(1) that show thesis
    by (cases "relocation_from_raw arch (reloc_type rel)")
      (auto simp: classify_symbol_relocation_def Let_def and_then_Inr_iff rx flags_of_def split: if_splits)
qed

lemma process_need:
  assumes run: "process_relocation arch env sec section_data False rel st = Inr (m, st')"
    and sec: "is_alloc (section_flags sec)" "is_writable sec" and rx: "unrelaxed arch (reloc_type rel)"
  shows "m = Normal \<and> (case rel_need arch env st rel of
      NoEntry \<Rightarrow> part_sizes st' = part_sizes st \<and> encoder st' = encoder st
    | GeneralEntry \<Rightarrow> part_sizes st' = increment RELA_DYN_GENERAL RELA_ENTRY_SIZE (part_sizes st) \<and> encoder st' = encoder st
    | RelativeEntry \<Rightarrow> part_sizes st' = part_sizes (allocate_relative (need_relr env) (reloc_offset rel) st)
        \<and> encoder st' = encoder (allocate_relative (need_relr env) (reloc_offset rel) st))"
proof (cases "reloc_symbol rel")
  case None
  with run show ?thesis by (simp add: process_relocation_def rel_need_def)
next
  case (Some s)
  obtain c add st1 where c: "classify_symbol_relocation arch env sec section_data rel s st = Inr c"
    and space: "materialize_space arch env sec False c st = Inr (add, st1)" and m: "m = cl_next c"
    and st': "st' = note_relocation_symbol_reference env (c\<lparr>cl_flags_to_add := flags_after env (cl_flags c) add\<rparr>) st1"
    using process_parts [OF run Some] by metis
  obtain info where info: "relocation_from_raw arch (reloc_type rel) = Some info" "cl_kind c = kind info"
    "cl_flags c = flags_of env st s" "cl_next c = Normal" "cl_offset c = reloc_offset rel" "cl_writable c = is_writable sec"
    using classify_unrelaxed [OF c rx] by metis
  have "rel_need arch env st rel = layout_need (need_kind env) (cl_flags c) (cl_kind c)"
    using Some info by (simp add: rel_need_def)
  with materialize_space_need [OF space sec(1)] classify_result(1) [OF c] info sec(2) m st'
  show ?thesis
    by (auto simp: note_relocation_symbol_reference_def Let_def allocate_general_def split: dyn_need.splits)
qed

lemma allocate_relative_sizes:
  "part_sizes (allocate_relative relr offset st) p
      + entry_size p * of_nat (case p of
          RELR_DYN \<Rightarrow> fst (count_section relr (encoder (allocate_relative relr offset st)) offsets)
        | RELA_DYN_RELATIVE \<Rightarrow> snd (count_section relr (encoder (allocate_relative relr offset st)) offsets)
        | _ \<Rightarrow> k)
    = part_sizes st p + entry_size p * of_nat (case p of
          RELR_DYN \<Rightarrow> fst (count_section relr (encoder st) (offset # offsets))
        | RELA_DYN_RELATIVE \<Rightarrow> snd (count_section relr (encoder st) (offset # offsets))
        | _ \<Rightarrow> k)"
  by (cases p) (auto simp: allocate_relative_def increment_apply algebra_simps split: prod.splits)

lemma section_entries_Cons:
  "need rel = NoEntry \<Longrightarrow> section_entries need relr enc (rel # rels) p = section_entries need relr enc rels p"
  "need rel = GeneralEntry \<Longrightarrow> section_entries need relr enc (rel # rels) p
     = section_entries need relr enc rels p + (if p = RELA_DYN_GENERAL then 1 else 0)"
  by (cases p; simp add: section_entries_def)+

lemma load_loop_sizes:
  assumes "load_loop arch env sec section_data Normal rels st = Inr st'"
    and "is_alloc (section_flags sec)" "is_writable sec" "list_all (\<lambda>rel. unrelaxed arch (reloc_type rel)) rels"
    and "same_classes st0 st"
  shows "part_sizes st' p = part_sizes st p
      + entry_size p * of_nat (section_entries (rel_need arch env st0) (need_relr env) (encoder st) rels p)"
  using assms
proof (induction rels arbitrary: st)
  case Nil
  then show ?case by (simp add: section_entries_def split: part.splits)
next
  case (Cons rel rels)
  obtain m st1 where st1: "process_relocation arch env sec section_data False rel st = Inr (m, st1)"
    "load_loop arch env sec section_data m rels st1 = Inr st'"
    using Cons.prems(1) by (auto simp: and_then_Inr_iff)
  have need: "rel_need arch env st rel = rel_need arch env st0 rel"
    by (rule fun_cong [OF rel_need_same [OF Cons.prems(5)]])
  have "same_classes st0 st1"
    using Cons.prems(5) process_same_classes [OF st1(1)] by (auto simp: same_classes_def same_class_def)
  moreover note step = process_need [OF st1(1) Cons.prems(2,3)]
  ultimately have ih: "part_sizes st' p = part_sizes st1 p
      + entry_size p * of_nat (section_entries (rel_need arch env st0) (need_relr env) (encoder st1) rels p)"
    using Cons.IH [of st1] st1(2) Cons.prems(2-4) by simp
  show ?case
  proof (cases "rel_need arch env st0 rel")
    case NoEntry
    with step need Cons.prems(4) have "part_sizes st1 = part_sizes st" "encoder st1 = encoder st" by simp_all
    with ih NoEntry show ?thesis by (simp add: section_entries_Cons)
  next
    case GeneralEntry
    with step need Cons.prems(4) have
      "part_sizes st1 = increment RELA_DYN_GENERAL RELA_ENTRY_SIZE (part_sizes st)" "encoder st1 = encoder st" by simp_all
    with ih GeneralEntry show ?thesis
      by (simp add: section_entries_Cons increment_apply algebra_simps)
  next
    case RelativeEntry
    with step need Cons.prems(4) have
      "part_sizes st1 = part_sizes (allocate_relative (need_relr env) (reloc_offset rel) st)"
      "encoder st1 = encoder (allocate_relative (need_relr env) (reloc_offset rel) st)" by simp_all
    with ih RelativeEntry allocate_relative_sizes [where relr = "need_relr env" and offset = "reloc_offset rel"
        and st = st and p = p and offsets = "relative_offsets (rel_need arch env st0) rels"
        and k = "section_entries (rel_need arch env st0) (need_relr env) (encoder st) rels p"]
    show ?thesis by (cases p) (simp_all add: section_entries_def)
  qed
qed

section \<open>One relocation of the writer\<close>

lemma finish_tables:
  assumes c_def: "c = make_ctx arch env sec deltas cache later rel osym info (section_address sec + offset)"
  shows "quiet (relocation_value arch env sec c r addend (kind info) w) \<Longrightarrow>
      quiet (finish_relocation arch env sec deltas cache later rel osym r info (out, offset, addend) w)"
    and "finish_relocation arch env sec deltas cache later rel osym r info (out, offset, addend) w = Inr (out', w') \<Longrightarrow>
      \<exists>v. relocation_value arch env sec c r addend (kind info) w = Inr (v, w')"
proof -
  have eq: "finish_relocation arch env sec deltas cache later rel osym r info (out, offset, addend) w =
      and_then (relocation_value arch env sec c r addend (kind info) w) (\<lambda>(v, w).
      and_then (if adjusts (kind info) then adjust_relocation_based_on_value v info out offset else Inr v) (\<lambda>v.
      and_then (thunked_value arch env sec info osym (section_address sec + offset) v) (\<lambda>v.
      and_then (write_at (lay_uleb env) info offset v out) (\<lambda>out. Inr (out, w)))))"
    unfolding finish_relocation_def c_def Let_def prod.case ..
  show "quiet (finish_relocation arch env sec deltas cache later rel osym r info (out, offset, addend) w)"
    if "quiet (relocation_value arch env sec c r addend (kind info) w)"
    unfolding eq using that
    by (auto intro!: quiet_and_then simp: quiet_adjust quiet_thunked quiet_write_at split: prod.splits)
  show "\<exists>v. relocation_value arch env sec c r addend (kind info) w = Inr (v, w')"
    if "finish_relocation arch env sec deltas cache later rel osym r info (out, offset, addend) w = Inr (out', w')"
    using that unfolding eq by (auto simp: and_then_Inr_iff)
qed

text \<open>A relocation whose table entry is not for a symbol leaves the tables alone.\<close>

lemma apply_plain_tables:
  assumes "relocation_from_raw arch (reloc_type rel) = None \<or> reloc_symbol rel = None
    \<or> (\<exists>info. relocation_from_raw arch (reloc_type rel) = Some info \<and> \<not> symbolic (kind info))"
  shows "quiet (apply_relocation arch env sec deltas cache later offset rel (out, w))"
    and "apply_relocation arch env sec deltas cache later offset rel (out, w) = Inr (m, out', w') \<Longrightarrow> m = Normal \<and> w' = w"
proof -
  have none: "get_resolution env rel = Inl (Err NoSymbol)" if "reloc_symbol rel = None"
    using that by (simp add: get_resolution_def)
  show "quiet (apply_relocation arch env sec deltas cache later offset rel (out, w))"
    using assms none unfolding apply_relocation_def Let_def
    by (auto intro!: quiet_and_then simp: symbolic_def quiet_write_at quiet_alignment)
  show "m = Normal \<and> w' = w"
    if "apply_relocation arch env sec deltas cache later offset rel (out, w) = Inr (m, out', w')"
    using assms none that unfolding apply_relocation_def Let_def
    by (auto simp: symbolic_def and_then_Inr_iff split: if_splits)
qed

lemma apply_symbol_tables:
  assumes info: "relocation_from_raw arch (reloc_type rel) = Some info" "symbolic (kind info)"
    and sy: "reloc_symbol rel = Some s" and rx: "unrelaxed arch (reloc_type rel)"
    and value_quiet: "\<And>osym r c. get_resolution env rel = Inr (osym, r) \<Longrightarrow> ctx_place c = section_address sec + offset \<Longrightarrow>
        (\<exists>place. c = make_ctx arch env sec deltas cache later rel osym info place) \<Longrightarrow>
        quiet (relocation_value arch env sec c r (reloc_addend rel) (kind info) w)
        \<and> (\<forall>v w'. relocation_value arch env sec c r (reloc_addend rel) (kind info) w = Inr (v, w') \<longrightarrow> P w')"
  shows "quiet (apply_relocation arch env sec deltas cache later offset rel (out, w))"
    and "apply_relocation arch env sec deltas cache later offset rel (out, w) = Inr (m, out', w') \<Longrightarrow> m = Normal \<and> P w'"
proof -
  have place: "ctx_place (make_ctx arch env sec deltas cache later rel osym info (section_address sec + offset))
      = section_address sec + offset" for osym by (simp add: make_ctx_def)
  have "\<exists>p. make_ctx arch env sec deltas cache later rel osym info (section_address sec + offset)
      = make_ctx arch env sec deltas cache later rel osym info p" for osym by blast
  note vq = value_quiet [OF _ place this]
  show "quiet (apply_relocation arch env sec deltas cache later offset rel (out, w))"
    unfolding apply_relocation_unrelaxed_eq [OF info sy rx]
    by (auto intro!: quiet_and_then quiet_get_resolution finish_tables(1) [OF refl] vq [THEN conjunct1])
  show "m = Normal \<and> P w'"
    if run: "apply_relocation arch env sec deltas cache later offset rel (out, w) = Inr (m, out', w')"
  proof -
    obtain osym r where r: "get_resolution env rel = Inr (osym, r)" "m = Normal"
      "finish_relocation arch env sec deltas cache later rel osym r info (out, offset, reloc_addend rel) w = Inr (out', w')"
      using apply_relocation_unrelaxed [OF run info sy rx] by metis
    from finish_tables(2) [OF refl r(3)] vq [OF r(1), THEN conjunct2] have "P w'" by blast
    with r(2) show ?thesis by simp
  qed
qed

section \<open>Room for the rest of a section\<close>

text \<open>
  The writer has room for the relative relocations that the layout counted for the offsets to come, and \<open>x\<close>
  packed and \<open>y\<close> plain entries more. Its encoder runs over addresses, that of the layout over offsets.
\<close>

definition has_room :: "u64 \<Rightarrow> nat \<Rightarrow> bool \<Rightarrow> relr_state \<Rightarrow> u64 list \<Rightarrow> nat \<Rightarrow> nat \<Rightarrow> address_writer \<Rightarrow> bool" where
  "has_room addr m enabled enc offsets x y w \<longleftrightarrow>
     (case relr_room w of
        None \<Rightarrow> x = 0 \<and> rela_room w = length offsets + y
      | Some k \<Rightarrow> enabled \<and> state_shifted addr m enc (relr_writer w) \<and> updatable w
          \<and> k = fst (count_section True enc offsets) + x \<and> rela_room w = snd (count_section True enc offsets) + y)"

lemma has_room_step:
  assumes room: "has_room addr m enabled enc (offset # offsets) x y w"
    and addr: "2 dvd addr" "unat addr + m + 1016 < 2 ^ 64" "unat offset \<le> m"
  shows "\<exists>v w'. write_address_relocation (addr + offset) r w = Inr (v, w')
    \<and> has_room addr m enabled (if enabled \<and> 2 dvd offset then snd (snd (relr_encode enc offset)) else enc) offsets x y w'"
proof (cases "relr_room w")
  case None
  with room rela_step [of w "addr + offset" "length offsets + y" r] show ?thesis
    by (auto simp: has_room_def)
next
  case (Some k)
  show ?thesis
  proof (cases "2 dvd offset")
    case True
    obtain v e st where enc: "relr_encode enc offset = (v, e, st)" by (cases "relr_encode enc offset")
    obtain v' e' st' where enc': "relr_encode (relr_writer w) (addr + offset) = (v', e', st')"
      by (cases "relr_encode (relr_writer w) (addr + offset)")
    from relr_encode_shifted [of addr m enc "relr_writer w" offset] room Some addr enc enc'
    have e: "e' = e" "state_shifted addr m st st'" by (simp_all add: has_room_def)
    have "relr_room w = Some ((if e' = New then 1 else 0) + (fst (count_section True st offsets) + x))"
      using room Some True enc e(1) by (simp add: has_room_def split: prod.splits)
    from callback_room [OF _ enc' this, of r] room Some even_shift [OF addr(1), of offset] True
    obtain w1 where w1: "write_address_relocation (addr + offset) r w = Inr (r, w1)" "updatable w1"
        "relr_writer w1 = st'" "relr_room w1 = Some (fst (count_section True st offsets) + x)" "rela_room w1 = rela_room w"
      by (auto simp: has_room_def)
    have "rela_room w1 = snd (count_section True st offsets) + y"
      using room Some True enc w1(5) by (simp add: has_room_def split: prod.splits if_splits)
    with w1 e room Some True enc show ?thesis by (auto simp: has_room_def)
  next
    case False
    have "relr_room w = None \<or> \<not> 2 dvd (addr + offset)" "rela_room w = Suc (snd (count_section True enc offsets) + y)"
      using room Some False even_shift [OF addr(1), of offset] by (simp_all add: has_room_def split: prod.splits)
    from rela_step [OF this, of r] obtain w1 where w1:
        "write_address_relocation (addr + offset) r w = Inr (0, w1)" "rela_room w1 = snd (count_section True enc offsets) + y"
        "relr_room w1 = relr_room w" "relr_writer w1 = relr_writer w" "current_relr_dyn w1 = current_relr_dyn w"
      by blast
    then have "has_room addr m enabled enc offsets x y w1"
      using room Some False by (auto simp: has_room_def updatable_def split: prod.splits relr_state.splits)
    with w1(1) False show ?thesis by auto
  qed
qed

text \<open>
  What the two sides assume of each other for a relocation: the same table entry without relaxation; a
  resolution of the class of the flags that the layout saw; a symbol of a shared object that can be
  interposed or is absolute; and no reference to a symbol that can be interposed other than an absolute one.
\<close>

definition rel_agrees :: "'r arch \<Rightarrow> needs_env \<Rightarrow> apply_env \<Rightarrow> layout_state \<Rightarrow> 'r reloc \<Rightarrow> bool" where
  "rel_agrees arch nenv env st rel \<longleftrightarrow>
     unrelaxed arch (reloc_type rel)
     \<and> (\<forall>info. relocation_from_raw arch (reloc_type rel) = Some info \<longrightarrow>
          (rel_need arch nenv st rel \<noteq> NoEntry \<longrightarrow> kind info = Absolute)
          \<and> (\<forall>s res. reloc_symbol rel = Some s \<longrightarrow> symbol_resolution (lay_symbols env ! s) = Some res \<longrightarrow>
               same_class (flags_of nenv st s) (res_flags res)
               \<and> (is_dynamic (res_flags res) \<longrightarrow>
                    Got_Tables.is_interposable (res_flags res) \<or> is_absolute (res_flags res))))"

lemma layout_need_plain:
  "layout_need okind fl NoRelocation = NoEntry" "layout_need okind fl AlignmentReq = NoEntry"
  by (simp_all add: layout_need_def needs_direct_def DIRECT_def contains_flag)

lemma rel_need_plain:
  assumes "relocation_from_raw arch (reloc_type rel) = None \<or> reloc_symbol rel = None
    \<or> (\<exists>info. relocation_from_raw arch (reloc_type rel) = Some info \<and> \<not> symbolic (kind info))"
  shows "rel_need arch nenv st rel = NoEntry"
  using assms by (auto simp: rel_need_def symbolic_def layout_need_plain split: option.splits)

definition step_effect ::
    "dyn_need \<Rightarrow> (address_writer \<Rightarrow> bool) \<Rightarrow> dyn_writer \<Rightarrow> dyn_writer \<Rightarrow> bool" where
  "step_effect need P w w' \<longleftrightarrow>
     (case need of
        NoEntry \<Rightarrow> w' = w
      | GeneralEntry \<Rightarrow> snd w' = snd w
          \<and> fst (rela_dyn_general_table (fst w)) = Suc (fst (rela_dyn_general_table (fst w')))
      | RelativeEntry \<Rightarrow> fst w' = fst w \<and> P (snd w'))"

lemma relocation_value_effect:
  fixes c :: "'r value_ctx"
  assumes c: "c = make_ctx arch env sec deltas cache later rel osym info place'" "ctx_place c = place"
    and strings: "strings_quiet env" "\<And>p a. quiet (merged_at r p a)"
    and sec: "is_alloc (section_flags sec)" "is_writable sec"
    and need: "need = writer_need (lay_kind env) (res_flags (rel_res r)) k"
    and general: "need = GeneralEntry \<Longrightarrow> fst (rela_dyn_general_table (fst w)) \<noteq> 0"
    and relative: "need = RelativeEntry \<Longrightarrow>
      (\<And>address. \<exists>u a. write_address_relocation place address (snd w) = Inr (u, a) \<and> P a)"
  shows "quiet (relocation_value arch env sec c r addend k w)"
    and "relocation_value arch env sec c r addend k w = Inr (v, w') \<Longrightarrow> step_effect need P w w'"
proof -
  have site: "data_site sec r" using sec strings(2) by (simp add: data_site_def)
  have "quiet (relocation_value arch env sec c r addend k w)
    \<and> (relocation_value arch env sec c r addend k w = Inr (v, w') \<longrightarrow> step_effect need P w w')"
  proof (cases "k = Absolute")
    case False
    then show ?thesis using quiet_context_value [OF strings] c(1) need
      by (auto simp: relocation_value_def writer_need_def step_effect_def and_then_Inr_iff intro!: quiet_and_then)
  next
    case True
    then have eq: "relocation_value arch env sec c r addend k w =
        write_absolute_relocation (lay_kind env) (lay_parts env) sec r place addend w"
      by (simp add: relocation_value_def c(2))
    have n: "writer_need (lay_kind env) (res_flags (rel_res r)) (Absolute :: 'r relocation_kind) = need" using need True by simp
    show ?thesis
    proof (cases need)
      case NoEntry
      note none = absolute_none [OF site n [unfolded NoEntry]]
      show ?thesis unfolding eq step_effect_def NoEntry dyn_need.case using none by blast
    next
      case GeneralEntry
      from general [OF this] obtain j where j: "fst (rela_dyn_general_table (fst w)) = Suc j"
        by (cases "fst (rela_dyn_general_table (fst w))") auto
      note taken = absolute_general [OF site n [unfolded GeneralEntry] j]
      show ?thesis unfolding eq step_effect_def GeneralEntry dyn_need.case j using taken by blast
    next
      case RelativeEntry
      note taken = absolute_relative [OF site n [unfolded RelativeEntry] relative [OF RelativeEntry]]
      show ?thesis unfolding eq step_effect_def RelativeEntry dyn_need.case using taken by blast
    qed
  qed
  then show "quiet (relocation_value arch env sec c r addend k w)"
    and "relocation_value arch env sec c r addend k w = Inr (v, w') \<Longrightarrow> step_effect need P w w'" by simp_all
qed

lemma apply_effect:
  assumes agrees: "rel_agrees arch nenv env st rel" and kinds: "lay_kind env = need_kind nenv"
    and strings: "strings_quiet env" and sec: "is_alloc (section_flags sec)" "is_writable sec"
    and general: "rel_need arch nenv st rel = GeneralEntry \<Longrightarrow> fst (rela_dyn_general_table (fst w)) \<noteq> 0"
    and relative: "rel_need arch nenv st rel = RelativeEntry \<Longrightarrow>
      (\<And>address. \<exists>u a. write_address_relocation (section_address sec + offset) address (snd w) = Inr (u, a) \<and> P a)"
  shows "quiet (apply_relocation arch env sec deltas cache later offset rel (out, w))"
    and "apply_relocation arch env sec deltas cache later offset rel (out, w) = Inr (m, out', w') \<Longrightarrow>
      m = Normal \<and> step_effect (rel_need arch nenv st rel) P w w'"
proof -
  let ?plain = "relocation_from_raw arch (reloc_type rel) = None \<or> reloc_symbol rel = None
    \<or> (\<exists>info. relocation_from_raw arch (reloc_type rel) = Some info \<and> \<not> symbolic (kind info))"
  have "quiet (apply_relocation arch env sec deltas cache later offset rel (out, w))
    \<and> (apply_relocation arch env sec deltas cache later offset rel (out, w) = Inr (m, out', w') \<longrightarrow>
       m = Normal \<and> step_effect (rel_need arch nenv st rel) P w w')"
  proof (cases ?plain)
    case True
    from rel_need_plain [OF this] apply_plain_tables [OF this] show ?thesis
      by (auto simp: step_effect_def)
  next
    case False
    then obtain info s where info: "relocation_from_raw arch (reloc_type rel) = Some info" "symbolic (kind info)"
      and s: "reloc_symbol rel = Some s" by auto
    have rx: "unrelaxed arch (reloc_type rel)" using agrees by (simp add: rel_agrees_def)
    have value_effect: "quiet (relocation_value arch env sec c r (reloc_addend rel) (kind info) w)
        \<and> (\<forall>v w'. relocation_value arch env sec c r (reloc_addend rel) (kind info) w = Inr (v, w')
              \<longrightarrow> step_effect (rel_need arch nenv st rel) P w w')"
      if r: "get_resolution env rel = Inr (osym, r)" and place: "ctx_place c = section_address sec + offset"
        and c: "\<exists>place. c = make_ctx arch env sec deltas cache later rel osym info place" for osym r c
    proof -
      obtain s' res where res: "reloc_symbol rel = Some s'" "symbol_resolution (lay_symbols env ! s') = Some res"
        "r = relocated_symbol (lay_symbols env ! s') res"
        using get_resolution_InrD [OF r] by metis
      have rr: "rel_res r = res" using res(3) by (simp add: relocated_symbol_def)
      have class_eq: "same_class (flags_of nenv st s) (res_flags res)"
        "is_dynamic (res_flags res) \<Longrightarrow> Got_Tables.is_interposable (res_flags res) \<or> is_absolute (res_flags res)"
        "rel_need arch nenv st rel \<noteq> NoEntry \<Longrightarrow> kind info = Absolute"
        using agrees info(1) res s by (auto simp: rel_agrees_def)
      have n: "rel_need arch nenv st rel = layout_need (need_kind nenv) (res_flags res) (kind info)"
        using info(1) s same_class_need(1) [OF class_eq(1)] by (simp add: rel_need_def)
      then have need: "rel_need arch nenv st rel = writer_need (lay_kind env) (res_flags (rel_res r)) (kind info)"
        using needs_agree [OF class_eq(2), of "need_kind nenv" "kind info"] class_eq(3) kinds rr by simp
      obtain p where "c = make_ctx arch env sec deltas cache later rel osym info p" using c by blast
      note effect = relocation_value_effect [OF this place strings resolved_strings [OF strings r] sec need general relative]
      show ?thesis using effect by blast
    qed
    have "quiet (apply_relocation arch env sec deltas cache later offset rel (out, w))"
      by (rule apply_symbol_tables(1) [OF info s rx]) (rule value_effect; assumption)
    moreover have "m = Normal \<and> step_effect (rel_need arch nenv st rel) P w w'"
      if "apply_relocation arch env sec deltas cache later offset rel (out, w) = Inr (m, out', w')"
      by (rule apply_symbol_tables(2) [OF info s rx _ that]) (rule value_effect; assumption)
    ultimately show ?thesis by blast
  qed
  then show "quiet (apply_relocation arch env sec deltas cache later offset rel (out, w))"
    and "apply_relocation arch env sec deltas cache later offset rel (out, w) = Inr (m, out', w') \<Longrightarrow>
      m = Normal \<and> step_effect (rel_need arch nenv st rel) P w w'" by simp_all
qed

section \<open>A whole section\<close>

definition tables_ready ::
    "section_info \<Rightarrow> nat \<Rightarrow> bool \<Rightarrow> ('r reloc \<Rightarrow> dyn_need) \<Rightarrow> relr_state \<Rightarrow> 'r reloc list \<Rightarrow> nat \<Rightarrow> nat \<Rightarrow> nat
      \<Rightarrow> dyn_writer \<Rightarrow> bool" where
  "tables_ready sec m relr need enc rels x y z w \<longleftrightarrow>
     fst (rela_dyn_general_table (fst w)) = general_count need rels + z
     \<and> has_room (section_address sec) m relr enc (relative_offsets need rels) x y (snd w)"

definition sized_sec :: "section_info \<Rightarrow> nat \<Rightarrow> bool" where
  "sized_sec sec m \<longleftrightarrow> is_alloc (section_flags sec) \<and> is_writable sec \<and> 2 dvd section_address sec
     \<and> unat (section_address sec) + m + 1016 < 2 ^ 64"

lemma apply_loop_tables:
  assumes "list_all (rel_agrees arch nenv env st) rels" "list_all (\<lambda>rel. unat (reloc_offset rel) \<le> m) rels"
    and "lay_kind env = need_kind nenv" "strings_quiet env" "sized_sec sec m"
    and "tables_ready sec m relr (rel_need arch nenv st) enc rels x y z w"
  shows "case apply_loop arch env sec None None Normal cache rels (out, w) of
      Inl e \<Rightarrow> \<not> space_error e
    | Inr (out', w') \<Rightarrow> \<exists>enc'. tables_ready sec m relr (rel_need arch nenv st) enc' [] x y z w'"
  using assms
proof (induction rels arbitrary: enc cache out w)
  case Nil
  then show ?case by auto
next
  case (Cons rel rels)
  let ?need = "rel_need arch nenv st"
  let ?cache = "if reloc_type rel \<in> set (high_part_relocations arch)
       then cache\<lparr>high_part_symbols := (high_part_symbols cache)(opt_input_to_output None (reloc_offset rel) \<mapsto> rel)\<rparr>
       else cache"
  let ?offset = "reloc_offset rel"
  define enc1 where "enc1 = (if ?need rel = RelativeEntry \<and> relr \<and> 2 dvd ?offset
      then snd (snd (relr_encode enc ?offset)) else enc)"
  define P where "P = has_room (section_address sec) m relr enc1 (relative_offsets ?need rels) x y"
  have sec: "is_alloc (section_flags sec)" "is_writable sec" "2 dvd section_address sec"
    "unat (section_address sec) + m + 1016 < 2 ^ 64" using Cons.prems(5) by (simp_all add: sized_sec_def)
  have room: "has_room (section_address sec) m relr enc (relative_offsets ?need (rel # rels)) x y (snd w)"
    and general: "fst (rela_dyn_general_table (fst w)) = general_count ?need (rel # rels) + z"
    using Cons.prems(6) by (simp_all add: tables_ready_def)
  have relative: "\<exists>u a. write_address_relocation (section_address sec + ?offset) address (snd w) = Inr (u, a) \<and> P a"
    if "?need rel = RelativeEntry" for address
    using has_room_step [of "section_address sec" m relr enc ?offset "relative_offsets ?need rels" x y "snd w" address]
      room that sec(3,4) Cons.prems(2) by (auto simp: P_def enc1_def)
  have agrees: "rel_agrees arch nenv env st rel" using Cons.prems(1) by simp
  have some: "?need rel = GeneralEntry \<Longrightarrow> fst (rela_dyn_general_table (fst w)) \<noteq> 0" using general by simp
  note effect = apply_effect [OF agrees Cons.prems(3,4) sec(1,2) some relative]
  have loop: "apply_loop arch env sec None None Normal cache (rel # rels) (out, w) =
      and_then (apply_relocation arch env sec None ?cache rels ?offset rel (out, w)) (\<lambda>(modifier, st').
        apply_loop arch env sec None None modifier (?cache\<lparr>previous := Some rel\<rparr>) rels st')"
    by (simp add: Let_def)
  show ?case
  proof (cases "apply_relocation arch env sec None ?cache rels ?offset rel (out, w)")
    case (Inl e)
    with effect(1) [of None ?cache rels out] show ?thesis unfolding loop by (simp add: quiet_def)
  next
    case (Inr res)
    obtain md out1 w1 where res: "res = (md, out1, w1)" by (cases res) auto
    from effect(2) [of None ?cache rels out md out1 w1] Inr res
    have md: "md = Normal" and step: "step_effect (?need rel) P w w1" by simp_all
    have "tables_ready sec m relr ?need enc1 rels x y z w1"
      using step room general
      by (auto simp: tables_ready_def step_effect_def P_def enc1_def split: dyn_need.splits)
    from Cons.IH [OF _ _ Cons.prems(3-5) this] Cons.prems(1,2) show ?thesis
      unfolding loop Inr res md by simp
  qed
qed

lemma agrees_encoder [simp]:
  "rel_need arch nenv (st\<lparr>encoder := e\<rparr>) = rel_need arch nenv st"
  by (auto simp: rel_need_def flags_of_def fun_eq_iff split: option.splits)

text \<open>The rooms of the three tables, with \<open>x\<close>, \<open>y\<close> and \<open>z\<close> entries more than the section needs.\<close>

definition rooms_for :: "bool \<Rightarrow> (part \<Rightarrow> nat) \<Rightarrow> nat \<Rightarrow> nat \<Rightarrow> nat \<Rightarrow> dyn_writer \<Rightarrow> bool" where
  "rooms_for relr needed x y z w \<longleftrightarrow>
     fst (rela_dyn_general_table (fst w)) = needed RELA_DYN_GENERAL + z
     \<and> rela_room (snd w) = needed RELA_DYN_RELATIVE + y
     \<and> (case relr_room (snd w) of
          None \<Rightarrow> needed RELR_DYN = 0 \<and> x = 0
        | Some k \<Rightarrow> relr \<and> k = needed RELR_DYN + x)"

lemma tables_ready_start:
  assumes "rooms_for relr (section_entries need relr NoRun rels) x y z (g, a)"
  shows "tables_ready sec m relr need NoRun rels x y z (g, reset_relr_run a)"
proof (cases "relr_room a")
  case None
  with assms have none: "fst (count_section relr NoRun (relative_offsets need rels)) = 0"
    by (simp add: rooms_for_def section_entries_def)
  have "snd (count_section relr NoRun (relative_offsets need rels)) = length (relative_offsets need rels)"
  proof (cases relr)
    case True
    with none show ?thesis by (simp add: count_section_none_packed)
  qed (simp add: count_section_unpacked)
  with assms None show ?thesis
    by (simp add: rooms_for_def tables_ready_def has_room_def section_entries_def reset_relr_run_def)
next
  case (Some k)
  with assms show ?thesis
    by (auto simp: rooms_for_def tables_ready_def has_room_def section_entries_def updatable_def reset_relr_run_def)
qed


section \<open>Sections that cannot be written\<close>

text \<open>
  A direct reference from a read-only section of a relocatable output to a function that may be interposed:
  the layout gives the function a linkage table entry and counts no relocation, but the writer writes a
  relative relocation for the address of that entry, so that it fails for lack of space (or takes the entry of
  another).
\<close>

lemma read_only_function_uncounted:
  assumes c: "cl_kind c = Absolute" "\<not> cl_writable c" "cl_flags_to_add c = resolution_flags (cl_kind c)"
    and fl: "is_function (cl_flags c)" "Got_Tables.is_interposable (cl_flags c)" "\<not> is_shared_object (need_kind env)"
  shows "materialize_space arch env sec dbg c st =
    Inr (if is_alloc (section_flags sec) then (PLT_FLAG OR GOT_FLAG, st) else (DIRECT, st))"
proof -
  have "(DIRECT AND NOT DIRECT) OR (PLT_FLAG OR GOT_FLAG) = PLT_FLAG OR GOT_FLAG" by simp
  then show ?thesis
    using assms by (simp add: materialize_space_def materialize_interposable_def Let_def needs_direct_def)
qed

lemma read_only_function_fails:
  assumes sec: "is_alloc (section_flags sec)" "\<not> is_writable sec" and kind: "is_relocatable okind"
    and fl: "\<not> is_absolute (res_flags (rel_res r))" "\<not> is_ifunc (res_flags (rel_res r))" "raw_value (rel_res r) \<noteq> 0"
    and full: "rela_room (snd w) = 0" "relr_room (snd w) = None"
  shows "\<exists>e. write_absolute_relocation okind parts sec r place addend w = Inl (Err (RelativeTableError e))"
  using assms
  by (auto simp: write_absolute_relocation_def value_with_addend_def Let_def write_address_relocation_def)

text \<open>
  The kinds that refer to the offset of a thread-local variable from the thread pointer and that \<^verbatim>\<open>is_tls\<close>
  does not know: the layout does not note for them that the output needs static thread-local storage.
\<close>

lemma static_tls_missed:
  "does_relocation_require_static_tls k \<and> \<not> is_tls k \<longleftrightarrow> k = GotTpOffLoongArch64 \<or> k = GotTpOffGot"
  by (cases k) (simp_all add: does_relocation_require_static_tls_def GOT_TLS_OFFSET_def PLT_FLAG_def GOT_FLAG_def DIRECT_def
      GOT_TLS_MODULE_def GOT_TLS_DESCRIPTOR_def shl_def)

lemma static_tls_not_noted:
  assumes "materialize_space arch env sec dbg c st = Inr (add, st')" "\<not> is_tls (cl_kind c)"
  shows "has_static_tls st' = has_static_tls st"
  using assms by (auto simp: materialize_space_def materialize_interposable_def Let_def allocate_general_def
      allocate_relative_def split: if_splits prod.splits)

section \<open>A section of data\<close>

definition data_section :: section_info where
  "data_section = \<lparr>section_address = 0x20000, is_writable = True, section_flags = 3, section_part = 1\<rparr>"

definition abs_rel :: "u64 \<Rightarrow> nat \<Rightarrow> riscv_reloc reloc" where
  "abs_rel off s = \<lparr>reloc_offset = off, reloc_type = RV_Insn R_RISCV_64, reloc_symbol = Some s, reloc_addend = 0\<rparr>"

abbreviation pie_needs :: needs_env where "pie_needs \<equiv> sample_needs_env (DynamicExecutable RelocatableModel) True"

abbreviation pie_symbols :: layout_state where
  "pie_symbols \<equiv> sample_layout (\<lambda>s. if s = 0 then NON_INTERPOSABLE else DYNAMIC)"

definition pie_env :: apply_env where
  "pie_env = sample_apply_env\<lparr>lay_kind := DynamicExecutable RelocatableModel,
     lay_symbols := [plain_symbol 0 NON_INTERPOSABLE 0x10000,
       (plain_symbol 1 DYNAMIC 0)\<lparr>merged_resolution :=
          Some \<lparr>raw_value = 0, dynamic_symbol_index = Some 5, res_flags = DYNAMIC, got_address = None, plt_address = None\<rparr>\<rparr>]\<rparr>"

definition pie_tables :: table_writer where
  "pie_tables =
     \<lparr>got_table = (0, []), got_relr_table = (0, []), plt_got_table = (0, []), rela_plt_table = (0, []),
       rela_dyn_general_table = (1, []), rela_dyn_relative_table = (0, []), relr_dyn_table = None\<rparr>"

abbreviation data_rels :: "riscv_reloc reloc list" where
  "data_rels \<equiv> [abs_rel 0x10 0, abs_rel 0x18 0, abs_rel 0x20 1]"

lemma abs_entry:
  obtains info where "riscv_relocation_type_from_raw (reloc_type (abs_rel off s)) = Some info" "kind info = Absolute"
  by (simp add: abs_rel_def riscv_relocation_type_from_raw_def riscv_info_def)

lemma abs_unrelaxed: "unrelaxed riscv_arch (reloc_type (abs_rel off s))"
  by (rule riscv_unrelaxed) (simp_all add: abs_rel_def riscv_relocation_type_from_raw_def riscv_relaxes_def)

lemma abs_loaded:
  assumes "s < 2"
  shows "\<exists>st'. process_relocation riscv_arch pie_needs data_section data False (abs_rel off s) st = Inr (Normal, st')"
proof -
  obtain info where info: "riscv_relocation_type_from_raw (reloc_type (abs_rel off s)) = Some info" "kind info = Absolute"
    by (rule abs_entry)
  have rx: "new_relaxation riscv_arch (reloc_type (abs_rel off s)) data o' fl okind sfl nz deltas = Some None"
    for o' fl okind sfl nz deltas using abs_unrelaxed by (simp add: unrelaxed_def)
  have s: "s < length (need_symbols pie_needs)" "reloc_symbol (abs_rel off s) = Some s"
    using assms by (simp_all add: sample_needs_env_def abs_rel_def)
  have "\<exists>c. classify_symbol_relocation riscv_arch pie_needs data_section data (abs_rel off s) s st = Inr c
     \<and> cl_next c = Normal \<and> cl_writable c"
    using s by (simp add: classify_symbol_relocation_def Let_def rx info data_section_def)
  then obtain c where c: "classify_symbol_relocation riscv_arch pie_needs data_section data (abs_rel off s) s st = Inr c"
    "cl_next c = Normal" "cl_writable c" by blast
  have "\<exists>add st1. materialize_space riscv_arch pie_needs data_section False c st = Inr (add, st1)"
    using c(3) by (simp add: materialize_space_def materialize_interposable_def Let_def sample_needs_env_def is_shared_object_def)
  with c s show ?thesis by (auto simp: process_relocation_def materialize_requirements)
qed

lemma data_loaded: "\<exists>st'. load_section_relocations riscv_arch pie_needs data_section data data_rels pie_symbols = Inr st'"
proof -
  have step: "\<exists>st'. load_loop riscv_arch pie_needs data_section data Normal (abs_rel off s # rels) st = Inr st'"
    if two: "s < 2" and rest: "\<And>st. \<exists>st'. load_loop riscv_arch pie_needs data_section data Normal rels st = Inr st'" for off s rels st
  proof -
    obtain st1 where "process_relocation riscv_arch pie_needs data_section data False (abs_rel off s) st = Inr (Normal, st1)"
      using abs_loaded [OF two] by blast
    with rest show ?thesis by simp
  qed
  show ?thesis unfolding load_section_relocations_def by (intro step) simp_all
qed

lemma abs_need: "rel_need riscv_arch pie_needs pie_symbols (abs_rel off s)
   = (if s < 2 then if s = 0 then RelativeEntry else GeneralEntry else rel_need riscv_arch pie_needs pie_symbols (abs_rel off s))"
proof (cases "s < 2")
  case True
  obtain info where info: "riscv_relocation_type_from_raw (reloc_type (abs_rel off s)) = Some info" "kind info = Absolute"
    by (rule abs_entry)
  have s: "reloc_symbol (abs_rel off s) = Some s" by (simp add: abs_rel_def)
  from True have "s = 0 \<or> s = 1" by auto
  then show ?thesis using info
    by (auto simp: rel_need_def s flags_of_def sample_needs_env_def sample_layout_def layout_need_def merge_flags_def
        flag_bits bit_flag is_address_def)
qed simp

lemma data_entries: "section_entries (rel_need riscv_arch pie_needs pie_symbols) True NoRun data_rels p
   = (case p of RELA_DYN_GENERAL \<Rightarrow> 1 | RELR_DYN \<Rightarrow> 2 | _ \<Rightarrow> 0)"
proof -
  have need: "rel_need riscv_arch pie_needs pie_symbols (abs_rel off 0) = RelativeEntry"
    "rel_need riscv_arch pie_needs pie_symbols (abs_rel off 1) = GeneralEntry" for off
    using abs_need [of off 0] abs_need [of off 1] by simp_all
  have "count_section True NoRun [0x10, 0x18] = (2, 0)"
    by (simp add: relr_encode_def bitmap_insert_def bitmap_after_def Let_def RELR_TYPE_BYTE_SIZE_def
      RELR_ADDRESS_RANGE_def)
  then show ?thesis
    by (cases p) (simp_all add: section_entries_def need del: count_section.simps One_nat_def, simp_all add: abs_rel_def)
qed

lemma data_agrees: "list_all (rel_agrees riscv_arch pie_needs pie_env pie_symbols) data_rels"
proof -
  have "rel_agrees riscv_arch pie_needs pie_env pie_symbols (abs_rel off s)" if "s < 2" for off s
  proof -
    obtain info where info: "riscv_relocation_type_from_raw (reloc_type (abs_rel off s)) = Some info" "kind info = Absolute"
      by (rule abs_entry)
    have s: "reloc_symbol (abs_rel off s) = Some s" by (simp add: abs_rel_def)
    from that have "s = 0 \<or> s = 1" by auto
    then show ?thesis using info abs_unrelaxed
      by (auto simp: rel_agrees_def s pie_env_def plain_symbol_def symbol_resolution_def flags_of_def sample_needs_env_def
          sample_layout_def merge_flags_def flag_bits bit_flag same_class_def bit_or_iff)
  qed
  then show ?thesis by simp
qed


end
