(* ===== verification/Symbol_Glob.thy ===== *)
theory Symbol_Glob
  imports Prelude "HOL-Library.List_Lexorder"
begin

text \<open>
  The patterns of symbol names: \<^verbatim>\<open>symbol_glob_matches\<close>, \<^verbatim>\<open>match_bracket\<close> and \<^verbatim>\<open>glob_undefined_names\<close> of
  \<^verbatim>\<open>reld-core/src/symbol_db.rs\<close>, and \<^verbatim>\<open>analyze_glob_pattern\<close> and \<^verbatim>\<open>unescape_pattern\<close> of
  \<^verbatim>\<open>glob_match.rs\<close>. The matcher keeps one point to return to, the last star; it decides the same language as
  the pattern read as a sequence of tokens.
\<close>

section \<open>The matcher\<close>

definition STAR :: u8 where "STAR = 42"
definition QUESTION :: u8 where "QUESTION = 63"
definition OPEN_BRACKET :: u8 where "OPEN_BRACKET = 91"
definition CLOSE_BRACKET :: u8 where "CLOSE_BRACKET = 93"
definition BACKSLASH :: u8 where "BACKSLASH = 92"
definition BANG :: u8 where "BANG = 33"
definition CARET :: u8 where "CARET = 94"
definition DASH :: u8 where "DASH = 45"

lemmas glob_bytes = STAR_def QUESTION_def OPEN_BRACKET_def CLOSE_BRACKET_def BACKSLASH_def BANG_def CARET_def DASH_def

text \<open>\<^verbatim>\<open>pattern.get(i).copied()\<close>.\<close>

definition byte_at :: "u8 list \<Rightarrow> nat \<Rightarrow> u8 option" where
  "byte_at pattern i = (if i < length pattern then Some (pattern ! i) else None)"

text \<open>The loop of \<^verbatim>\<open>match_bracket\<close>: \<open>i\<close> is behind the opening bracket and the sign of negation.\<close>

function bracket_loop ::
    "u8 list \<Rightarrow> nat \<Rightarrow> bool \<Rightarrow> u8 \<Rightarrow> nat \<Rightarrow> bool \<Rightarrow> (bool \<times> nat) option" where
  "bracket_loop pattern set_start negate c i matched =
     (case byte_at pattern i of
        None \<Rightarrow> None
      | Some b \<Rightarrow>
          if b = CLOSE_BRACKET \<and> set_start < i then Some (matched \<noteq> negate, i + 1)
          else let j = (if b = BACKSLASH then i + 1 else i) in
            (case byte_at pattern j of
               None \<Rightarrow> None
             | Some lo \<Rightarrow>
                 (case byte_at pattern (j + 2) of
                    Some hi \<Rightarrow>
                      if byte_at pattern (j + 1) = Some DASH \<and> hi \<noteq> CLOSE_BRACKET
                      then bracket_loop pattern set_start negate c (j + 3) (matched \<or> (lo \<le> c \<and> c \<le> hi))
                      else bracket_loop pattern set_start negate c (j + 1) (matched \<or> lo = c)
                  | None \<Rightarrow> bracket_loop pattern set_start negate c (j + 1) (matched \<or> lo = c))))"
  by pat_completeness auto
termination
  by (relation "measure (\<lambda>(pattern, _, _, _, i, _). length pattern - i)")
    (auto simp: byte_at_def split: if_splits)

declare bracket_loop.simps [simp del]

definition match_bracket :: "u8 list \<Rightarrow> nat \<Rightarrow> u8 \<Rightarrow> (bool \<times> nat) option" where
  "match_bracket pattern p c =
     (let negate = (byte_at pattern (p + 1) = Some BANG \<or> byte_at pattern (p + 1) = Some CARET);
          i = (if negate then p + 2 else p + 1)
      in bracket_loop pattern i negate c i False)"

text \<open>How far a unit of the pattern at \<open>p\<close> moves on, when it matches the byte.\<close>

definition unit_match :: "u8 list \<Rightarrow> nat \<Rightarrow> u8 \<Rightarrow> nat option" where
  "unit_match pattern p b =
     (case byte_at pattern p of
        None \<Rightarrow> None
      | Some c \<Rightarrow>
          if c = QUESTION then Some 1
          else if c = OPEN_BRACKET
          then (case match_bracket pattern p b of
                  Some (True, next_p) \<Rightarrow> Some (next_p - p)
                | Some (False, _) \<Rightarrow> None
                | None \<Rightarrow> if b = OPEN_BRACKET then Some 1 else None)
          else if c = BACKSLASH \<and> p + 1 < length pattern
          then (if pattern ! (p + 1) = b then Some 2 else None)
          else if c = b then Some 1 else None)"

function skip_stars :: "u8 list \<Rightarrow> nat \<Rightarrow> bool" where
  "skip_stars pattern p =
     (if byte_at pattern p = Some STAR then skip_stars pattern (p + 1) else p = length pattern)"
  by pat_completeness auto
termination
  by (relation "measure (\<lambda>(pattern, p). length pattern - p)") (auto simp: byte_at_def split: if_splits)

declare skip_stars.simps [simp del]

text \<open>
  The loop over the name: the positions in the pattern and in the name, the position of the last star and
  the position in the name from which its run of bytes is tried.
\<close>

function glob_loop :: "u8 list \<Rightarrow> u8 list \<Rightarrow> nat \<Rightarrow> nat \<Rightarrow> nat option \<Rightarrow> nat \<Rightarrow> bool" where
  "glob_loop pattern name p n star_p star_n =
     (if n < length name then
        if byte_at pattern p = Some STAR then glob_loop pattern name (p + 1) n (Some p) n
        else (case unit_match pattern p (name ! n) of
                Some advance \<Rightarrow> glob_loop pattern name (p + advance) (n + 1) star_p star_n
              | None \<Rightarrow>
                  (case star_p of
                     Some sp \<Rightarrow> glob_loop pattern name (sp + 1) (star_n + 1) star_p (star_n + 1)
                   | None \<Rightarrow> False))
      else skip_stars pattern p)"
  by pat_completeness auto
termination
  by (relation "inv_image (less_than <*lex*> less_than <*lex*> less_than <*lex*> less_than)
     (\<lambda>(pattern, name, p, n, star_p, star_n).
        (if star_p \<noteq> None \<and> n < star_n then 1 else 0 :: nat,
         if star_p = None then length name + 1 else length name - star_n,
         length name - n, length pattern - p))")
    (auto simp: byte_at_def split: if_splits)

declare glob_loop.simps [simp del]

definition symbol_glob_matches :: "u8 list \<Rightarrow> u8 list \<Rightarrow> bool" where
  "symbol_glob_matches pattern name = glob_loop pattern name 0 0 None 0"

section \<open>Patterns as sequences of tokens\<close>

text \<open>
  The language of a pattern. A set has the ranges of its bytes; a bracket that is not closed is a byte of its
  own, and so is a backslash at the end.
\<close>

datatype glob_token = AnyRun | AnyByte | OneOf bool "(u8 \<times> u8) list" | Literal u8

definition in_items :: "(u8 \<times> u8) list \<Rightarrow> u8 \<Rightarrow> bool" where
  "in_items items c \<longleftrightarrow> list_ex (\<lambda>(lo, hi). lo \<le> c \<and> c \<le> hi) items"

fun byte_matches :: "glob_token \<Rightarrow> u8 \<Rightarrow> bool" where
  "byte_matches AnyRun b = False"
| "byte_matches AnyByte b = True"
| "byte_matches (OneOf negate items) b = (in_items items b \<noteq> negate)"
| "byte_matches (Literal c) b = (c = b)"

definition token_language :: "glob_token \<Rightarrow> u8 list set" where
  "token_language t = (if t = AnyRun then UNIV else {[b] | b. byte_matches t b})"

fun glob_language :: "glob_token list \<Rightarrow> u8 list set" where
  "glob_language [] = {[]}"
| "glob_language (t # ts) = {u @ v | u v. u \<in> token_language t \<and> v \<in> glob_language ts}"

text \<open>
  An item of a set, a byte or a range, and what follows it; then all items. A closing bracket in the first
  place is an item.
\<close>

fun range_item :: "u8 list \<Rightarrow> ((u8 \<times> u8) \<times> u8 list) option" where
  "range_item [] = None"
| "range_item (lo # d # hi # rest) =
     (if d = DASH \<and> hi \<noteq> CLOSE_BRACKET then Some ((lo, hi), rest) else Some ((lo, lo), d # hi # rest))"
| "range_item (lo # rest) = Some ((lo, lo), rest)"

definition next_item :: "u8 list \<Rightarrow> ((u8 \<times> u8) \<times> u8 list) option" where
  "next_item cs = range_item (if cs \<noteq> [] \<and> hd cs = BACKSLASH then tl cs else cs)"

lemma range_item_suffix: "range_item cs = Some (item, rest) \<Longrightarrow> \<exists>c pre. cs = c # pre @ rest"
  by (cases cs rule: range_item.cases) (auto split: if_splits)

lemma next_item_suffix: "next_item cs = Some (item, rest) \<Longrightarrow> \<exists>c pre. cs = c # pre @ rest"
  by (cases cs) (fastforce simp: next_item_def dest!: range_item_suffix split: if_splits)+

lemma next_item_shorter: "next_item cs = Some (item, rest) \<Longrightarrow> length rest < length cs"
  by (auto dest!: next_item_suffix)

function set_items :: "bool \<Rightarrow> u8 list \<Rightarrow> ((u8 \<times> u8) list \<times> u8 list) option" where
  "set_items first cs =
     (if cs \<noteq> [] \<and> hd cs = CLOSE_BRACKET \<and> \<not> first then Some ([], tl cs)
      else case next_item cs of
             None \<Rightarrow> None
           | Some (item, rest) \<Rightarrow> map_option (\<lambda>(items, rest). (item # items, rest)) (set_items False rest))"
  by pat_completeness auto
termination
  by (relation "measure (\<lambda>(_, cs). length cs)") (auto dest: next_item_shorter)

declare set_items.simps [simp del]

lemma set_items_shorter: "set_items first cs = Some (items, rest) \<Longrightarrow> length rest < length cs"
proof (induction first cs arbitrary: items rule: set_items.induct)
  case (1 first cs)
  show ?case
  proof (cases "cs \<noteq> [] \<and> hd cs = CLOSE_BRACKET \<and> \<not> first")
    case True
    with "1.prems" show ?thesis by (cases cs) (simp_all add: set_items.simps)
  next
    case False
    with "1.prems" obtain item rest' items' where
      item: "next_item cs = Some (item, rest')" and items: "set_items False rest' = Some (items', rest)"
      by (subst (asm) set_items.simps) (auto split: option.splits)
    from "1.IH" [OF False item refl items] next_item_shorter [OF item] show ?thesis by simp
  qed
qed

definition bracket_token :: "u8 list \<Rightarrow> (glob_token \<times> u8 list) option" where
  "bracket_token cs =
     (let negate = (cs \<noteq> [] \<and> (hd cs = BANG \<or> hd cs = CARET))
      in map_option (\<lambda>(items, rest). (OneOf negate items, rest)) (set_items True (if negate then tl cs else cs)))"

lemma bracket_token_shorter: "bracket_token cs = Some (t, rest) \<Longrightarrow> length rest < length cs"
  by (cases cs) (auto simp: bracket_token_def Let_def dest!: set_items_shorter split: if_splits)

function glob_tokens :: "u8 list \<Rightarrow> glob_token list" where
  "glob_tokens [] = []"
| "glob_tokens (c # cs) =
     (if c = STAR then AnyRun # glob_tokens cs
      else if c = QUESTION then AnyByte # glob_tokens cs
      else if c = OPEN_BRACKET
      then (case bracket_token cs of
              Some (t, rest) \<Rightarrow> t # glob_tokens rest
            | None \<Rightarrow> Literal c # glob_tokens cs)
      else if c = BACKSLASH
      then (case cs of
              [] \<Rightarrow> [Literal c]
            | escaped # rest \<Rightarrow> Literal escaped # glob_tokens rest)
      else Literal c # glob_tokens cs)"
  by pat_completeness auto
termination
  by (relation "measure length") (auto dest: bracket_token_shorter)

section \<open>The matcher and the tokens\<close>

lemma byte_at_drop: "byte_at (drop j pattern) k = byte_at pattern (j + k)"
  by (auto simp: byte_at_def)

lemma byte_at_simps [simp]:
  "byte_at [] k = None" "byte_at (c # cs) 0 = Some c" "byte_at (c # cs) (Suc k) = byte_at cs k"
  by (simp_all add: byte_at_def)

lemma byte_at_hd: "byte_at cs 0 = (if cs = [] then None else Some (hd cs))"
  by (cases cs) simp_all

lemma range_item_at:
  "range_item cs =
    (case byte_at cs 0 of
       None \<Rightarrow> None
     | Some lo \<Rightarrow>
         (case byte_at cs 2 of
            Some hi \<Rightarrow> if byte_at cs 1 = Some DASH \<and> hi \<noteq> CLOSE_BRACKET then Some ((lo, hi), drop 3 cs)
                       else Some ((lo, lo), drop 1 cs)
          | None \<Rightarrow> Some ((lo, lo), drop 1 cs)))"
  by (cases cs rule: range_item.cases) (simp_all add: numeral_2_eq_2 numeral_3_eq_3)

text \<open>The loop over a set reads its items.\<close>

definition in_item :: "u8 \<times> u8 \<Rightarrow> u8 \<Rightarrow> bool" where
  "in_item item c \<longleftrightarrow> fst item \<le> c \<and> c \<le> snd item"

lemma in_items_simps [simp]: "\<not> in_items [] c" "in_items (item # items) c \<longleftrightarrow> in_item item c \<or> in_items items c"
  by (simp_all add: in_items_def in_item_def split_beta)

lemma squeeze: "lo \<le> c \<and> c \<le> lo \<longleftrightarrow> lo = (c :: u8)"
  by auto

lemma single_item [simp]: "in_item (lo, lo) c \<longleftrightarrow> lo = c"
  by (auto simp: in_item_def)

lemma bracket_loop_item:
  assumes "set_start \<le> i"
  shows "bracket_loop pattern set_start negate c i matched =
    (let cs = drop i pattern in
     if cs \<noteq> [] \<and> hd cs = CLOSE_BRACKET \<and> set_start \<noteq> i then Some (matched \<noteq> negate, i + 1)
     else case next_item cs of
            None \<Rightarrow> None
          | Some (item, rest) \<Rightarrow>
              bracket_loop pattern set_start negate c (length pattern - length rest) (matched \<or> in_item item c))"
proof -
  let ?cs = "drop i pattern"
  define j where "j = (if byte_at pattern i = Some BACKSLASH then i + 1 else i)"
  have first: "byte_at pattern i = (if ?cs = [] then None else Some (hd ?cs))"
    using byte_at_drop [of i pattern 0] by (simp add: byte_at_hd)
  have "next_item ?cs = range_item (drop j pattern)"
    by (auto simp: next_item_def j_def first tl_drop drop_Suc)
  also have "\<dots> = (case byte_at pattern j of
       None \<Rightarrow> None
     | Some lo \<Rightarrow>
         (case byte_at pattern (j + 2) of
            Some hi \<Rightarrow> if byte_at pattern (j + 1) = Some DASH \<and> hi \<noteq> CLOSE_BRACKET
                       then Some ((lo, hi), drop (3 + j) pattern) else Some ((lo, lo), drop (1 + j) pattern)
          | None \<Rightarrow> Some ((lo, lo), drop (1 + j) pattern)))"
    unfolding range_item_at byte_at_drop drop_drop add_0_right ..
  finally have item: "next_item ?cs = \<dots>" .
  have len: "byte_at pattern k = Some x \<Longrightarrow> k < length pattern" for k x
    by (simp add: byte_at_def split: if_splits)
  show ?thesis
  proof (cases "?cs = []")
    case True
    then show ?thesis using first by (simp add: bracket_loop.simps next_item_def)
  next
    case False
    then have i: "byte_at pattern i = Some (hd ?cs)" using first by simp
    then have j: "j = (if hd ?cs = BACKSLASH then i + 1 else i)" by (simp add: j_def)
    show ?thesis
      unfolding bracket_loop.simps [of pattern set_start negate c i matched] i option.case Let_def j [symmetric] item
      using False assms
      by (auto simp: in_item_def squeeze add.commute [of j 3] split: option.splits dest!: len)
  qed
qed

lemma drop_suffix: "xs = ys @ zs \<Longrightarrow> drop (length xs - length zs) xs = zs"
  by simp

lemma bracket_loop_items:
  "set_start \<le> i \<Longrightarrow> bracket_loop pattern set_start negate c i matched =
     (case set_items (i = set_start) (drop i pattern) of
        None \<Rightarrow> None
      | Some (items, rest) \<Rightarrow> Some ((matched \<or> in_items items c) \<noteq> negate, length pattern - length rest))"
proof (induction "length pattern - i" arbitrary: i matched rule: less_induct)
  case less
  let ?cs = "drop i pattern"
  note step = bracket_loop_item [OF less.prems, of pattern negate c matched]
  show ?case
  proof (cases "?cs \<noteq> [] \<and> hd ?cs = CLOSE_BRACKET \<and> set_start \<noteq> i")
    case True
    then obtain cs where cs: "?cs = CLOSE_BRACKET # cs" by (cases ?cs) auto
    then have "length pattern - i = Suc (length cs)" by (metis length_Cons length_drop)
    with True cs show ?thesis by (simp add: step Let_def set_items.simps)
  next
    case False
    show ?thesis
    proof (cases "next_item ?cs")
      case None
      with False show ?thesis by (auto simp: step Let_def set_items.simps)
    next
      case (Some found)
      obtain item rest where item: "next_item ?cs = Some (item, rest)" using Some by (cases found) auto
      let ?i = "length pattern - length rest"
      have short: "length rest < length ?cs" using next_item_shorter [OF item] .
      obtain d pre where pre: "?cs = d # pre @ rest" using next_item_suffix [OF item] by blast
      have split: "pattern = (take i pattern @ d # pre) @ rest" using append_take_drop_id [of i pattern] pre by simp
      have rest: "drop ?i pattern = rest" by (rule drop_suffix [OF split])
      have "length pattern - i = Suc (length pre + length rest)" using pre by (metis length_Cons length_append length_drop)
      then have more: "i < ?i" "length pattern - ?i < length pattern - i" by simp_all
      have "bracket_loop pattern set_start negate c ?i (matched \<or> in_item item c) =
        (case set_items False rest of
           None \<Rightarrow> None
         | Some (items, rest) \<Rightarrow>
             Some (((matched \<or> in_item item c) \<or> in_items items c) \<noteq> negate, length pattern - length rest))"
      proof -
        from less.hyps [OF more(2), of "matched \<or> in_item item c"] more(1) less.prems show ?thesis
          by (simp add: rest)
      qed
      with False item show ?thesis
        by (subst set_items.simps) (auto simp: step Let_def split: option.splits)
    qed
  qed
qed

lemma set_items_suffix: "set_items first cs = Some (items, rest) \<Longrightarrow> \<exists>pre. cs = pre @ rest"
proof (induction first cs arbitrary: items rule: set_items.induct)
  case (1 first cs)
  show ?case
  proof (cases "cs \<noteq> [] \<and> hd cs = CLOSE_BRACKET \<and> \<not> first")
    case True
    with "1.prems" show ?thesis by (cases cs) (simp_all add: set_items.simps)
  next
    case False
    with "1.prems" obtain item rest' items' where
      item: "next_item cs = Some (item, rest')" and items: "set_items False rest' = Some (items', rest)"
      by (subst (asm) set_items.simps) (auto split: option.splits)
    from "1.IH" [OF False item refl items] next_item_suffix [OF item] show ?thesis
      by (metis append.assoc append_Cons)
  qed
qed

lemma bracket_token_suffix:
  assumes "bracket_token cs = Some (t, rest)"
  shows "\<exists>pre. cs = pre @ rest" "t \<noteq> AnyRun"
proof -
  show "t \<noteq> AnyRun" using assms by (auto simp: bracket_token_def Let_def)
  from assms obtain first cs' items where
    "set_items first cs' = Some (items, rest)" "cs' = cs \<or> (cs \<noteq> [] \<and> cs' = tl cs)"
    by (auto simp: bracket_token_def Let_def split: if_splits)
  with set_items_suffix [OF this(1)] show "\<exists>pre. cs = pre @ rest"
    by (metis append_Cons list.collapse)
qed

lemma match_bracket_token:
  "match_bracket pattern p c =
     map_option (\<lambda>(t, rest). (byte_matches t c, length pattern - length rest)) (bracket_token (drop (p + 1) pattern))"
proof -
  let ?cs = "drop (p + 1) pattern"
  have first: "byte_at pattern (p + 1) = (if ?cs = [] then None else Some (hd ?cs))"
    by (metis byte_at_drop byte_at_hd add_0_right)
  have second: "drop (p + 2) pattern = tl ?cs" by (simp add: tl_drop drop_Suc)
  define negate where "negate \<longleftrightarrow> ?cs \<noteq> [] \<and> (hd ?cs = BANG \<or> hd ?cs = CARET)"
  have sign: "byte_at pattern (p + 1) = Some BANG \<or> byte_at pattern (p + 1) = Some CARET \<longleftrightarrow> negate"
    unfolding first negate_def by (cases "?cs = []") auto
  define i where "i = (if negate then p + 2 else p + 1)"
  have start: "(if negate then tl ?cs else ?cs) = drop i pattern" using second by (simp add: i_def)
  show ?thesis
    unfolding match_bracket_def bracket_token_def sign Let_def negate_def [symmetric] start i_def [symmetric]
      bracket_loop_items [OF order_refl]
    by (cases "set_items True (drop i pattern)") auto
qed

lemma unit_match_token:
  assumes "p < length pattern" "byte_at pattern p \<noteq> Some STAR"
  obtains t adv where "glob_tokens (drop p pattern) = t # glob_tokens (drop (p + adv) pattern)" "t \<noteq> AnyRun"
    "p + adv \<le> length pattern" "\<And>b. unit_match pattern p b = (if byte_matches t b then Some adv else None)"
proof -
  obtain c cs where cs: "drop p pattern = c # cs" using assms(1) by (cases "drop p pattern") auto
  have at: "byte_at pattern p = Some c" "drop (p + 1) pattern = cs"
    using byte_at_drop [of p pattern 0] cs by (simp_all add: drop_Suc tl_drop [symmetric])
  have star: "c \<noteq> STAR" using assms(2) at by simp
  have len: "p + Suc (length cs) = length pattern" using cs assms(1) by (metis length_Cons length_drop le_add_diff_inverse less_imp_le)
  consider "c = QUESTION" | t rest where "c = OPEN_BRACKET" "bracket_token cs = Some (t, rest)"
    | e rest where "c = BACKSLASH" "cs = e # rest"
    | "glob_tokens (c # cs) = Literal c # glob_tokens cs" "c \<noteq> QUESTION" "c = BACKSLASH \<Longrightarrow> cs = []"
      "c = OPEN_BRACKET \<Longrightarrow> bracket_token cs = None"
    using star
    by (cases "c = OPEN_BRACKET"; cases "bracket_token cs"; cases cs; cases "c = BACKSLASH"; cases "c = QUESTION")
      (auto simp: glob_bytes)
  then show thesis
  proof cases
    case 1
    with cs at assms(1) show thesis by (intro that [of AnyByte 1]) (auto simp: unit_match_def glob_bytes)
  next
    case 2
    obtain pre where pre: "cs = pre @ rest" using bracket_token_suffix(1) [OF 2(2)] by blast
    have "drop (p + 1) pattern = pre @ rest" using at(2) pre by simp
    then have rest: "drop (p + Suc (length pre)) pattern = rest"
      by (metis add_Suc_shift append_eq_conv_conj drop_drop add.commute Suc_eq_plus1)
    have adv: "length pattern - length rest - p = Suc (length pre)" using len pre by simp
    with 2 cs at rest bracket_token_suffix(2) [OF 2(2)] pre len show thesis
      by (intro that [of t "Suc (length pre)"])
        (auto simp: unit_match_def match_bracket_token glob_bytes split: if_splits)
  next
    case 3
    have "pattern ! (p + 1) = e" using cs 3(2) len by (metis add.commute nth_Cons_0 nth_Cons_Suc nth_drop Suc_eq_plus1 less_imp_le assms(1) add_0_right)
    with 3 cs at len show thesis
      by (intro that [of "Literal e" 2]) (auto simp: unit_match_def glob_bytes drop_Suc tl_drop [symmetric])
  next
    case 4
    with cs at len star show thesis
      by (intro that [of "Literal c" 1]) (auto simp: unit_match_def match_bracket_token split: if_splits)
  qed
qed

section \<open>The language of the matcher\<close>

abbreviation tail_language :: "u8 list \<Rightarrow> nat \<Rightarrow> u8 list set" where
  "tail_language pattern p \<equiv> glob_language (glob_tokens (drop p pattern))"

lemma language_unit:
  assumes "t \<noteq> AnyRun"
  shows "s \<in> glob_language (t # ts) \<longleftrightarrow> (\<exists>b v. s = b # v \<and> byte_matches t b \<and> v \<in> glob_language ts)"
proof -
  have "token_language t = {[b] | b. byte_matches t b}" using assms by (simp add: token_language_def)
  then show ?thesis unfolding glob_language.simps by (simp, metis append_Cons append_Nil)
qed

lemma language_run:
  assumes "n \<le> length name"
  shows "drop n name \<in> glob_language (AnyRun # ts) \<longleftrightarrow>
    (\<exists>k. n \<le> k \<and> k \<le> length name \<and> drop k name \<in> glob_language ts)"
proof
  assume "drop n name \<in> glob_language (AnyRun # ts)"
  then obtain u v where uv: "drop n name = u @ v" "v \<in> glob_language ts" by (auto simp: token_language_def)
  then have "drop (n + length u) name = v" by (metis append_eq_conv_conj drop_drop add.commute)
  moreover have "length u \<le> length name - n" using arg_cong [OF uv(1), of length] by simp
  ultimately show "\<exists>k. n \<le> k \<and> k \<le> length name \<and> drop k name \<in> glob_language ts"
    using uv(2) assms by (intro exI [of _ "n + length u"]) auto
next
  assume "\<exists>k. n \<le> k \<and> k \<le> length name \<and> drop k name \<in> glob_language ts"
  then obtain k where k: "n \<le> k" "drop k name \<in> glob_language ts" by blast
  have "drop n name = take (k - n) (drop n name) @ drop k name"
    using k(1) append_take_drop_id [of "k - n" "drop n name"] by simp
  with k(2) show "drop n name \<in> glob_language (AnyRun # ts)"
    by (auto simp: token_language_def)
qed

text \<open>Behind units the rest of a word of the language is as many bytes further.\<close>

lemma language_units:
  "\<forall>t \<in> set us. t \<noteq> AnyRun \<Longrightarrow> s \<in> glob_language (us @ ts) \<Longrightarrow>
     length us \<le> length s \<and> drop (length us) s \<in> glob_language ts"
proof (induction us arbitrary: s)
  case (Cons t us)
  then obtain b v where "s = b # v" "v \<in> glob_language (us @ ts)"
    using language_unit [of t s "us @ ts"] by auto
  with Cons show ?case by auto
qed simp

definition between_stars :: "u8 list \<Rightarrow> nat \<Rightarrow> nat \<Rightarrow> nat option \<Rightarrow> nat \<Rightarrow> bool" where
  "between_stars pattern p n star_p star_n \<longleftrightarrow>
     (case star_p of
        None \<Rightarrow> True
      | Some sp \<Rightarrow> sp < length pattern \<and> star_n \<le> n
          \<and> (\<exists>us. (\<forall>t \<in> set us. t \<noteq> AnyRun) \<and> length us = n - star_n
              \<and> glob_tokens (drop (sp + 1) pattern) = us @ glob_tokens (drop p pattern)))"

definition retried :: "u8 list \<Rightarrow> u8 list \<Rightarrow> nat option \<Rightarrow> nat \<Rightarrow> bool" where
  "retried pattern name star_p star_n \<longleftrightarrow>
     (\<exists>sp k. star_p = Some sp \<and> star_n < k \<and> k \<le> length name \<and> drop k name \<in> tail_language pattern (sp + 1))"

lemma skip_stars_language: "p \<le> length pattern \<Longrightarrow> skip_stars pattern p \<longleftrightarrow> [] \<in> tail_language pattern p"
proof (induction pattern p rule: skip_stars.induct)
  case (1 pattern p)
  show ?case
  proof (cases "byte_at pattern p = Some STAR")
    case True
    then have "drop p pattern = STAR # drop (p + 1) pattern" "p + 1 \<le> length pattern"
      using Cons_nth_drop_Suc [of p pattern] by (auto simp: byte_at_def split: if_splits)
    with 1 True show ?thesis by (simp add: skip_stars.simps [of pattern p] token_language_def)
  next
    case False
    show ?thesis
    proof (cases "p = length pattern")
      case False
      with 1 have "p < length pattern" by simp
      from unit_match_token [OF this \<open>byte_at pattern p \<noteq> Some STAR\<close>] obtain t adv where
        "glob_tokens (drop p pattern) = t # glob_tokens (drop (p + adv) pattern)" "t \<noteq> AnyRun" by metis
      with False \<open>byte_at pattern p \<noteq> Some STAR\<close> show ?thesis
        by (simp add: skip_stars.simps [of pattern p] language_unit del: glob_language.simps)
    qed (subst skip_stars.simps, simp add: byte_at_def)
  qed
qed

text \<open>
  A run that was taken from an earlier star is not needed any more behind a later one: the later star can
  take what the earlier one would have taken.
\<close>

lemma retried_drop:
  assumes "between_stars pattern p n star_p star_n" "retried pattern name star_p star_n" "n \<le> length name"
  obtains k where "n < k" "k \<le> length name" "drop k name \<in> tail_language pattern p"
proof -
  obtain sp k where k: "star_p = Some sp" "star_n < k" "k \<le> length name" "drop k name \<in> tail_language pattern (sp + 1)"
    using assms(2) by (auto simp: retried_def)
  obtain us where us: "\<forall>t \<in> set us. t \<noteq> AnyRun" "length us = n - star_n" "star_n \<le> n"
    "glob_tokens (drop (sp + 1) pattern) = us @ glob_tokens (drop p pattern)"
    using assms(1) k(1) by (auto simp: between_stars_def)
  from language_units [OF us(1), of "drop k name" "glob_tokens (drop p pattern)"] k(4) us(4)
  have "n - star_n \<le> length name - k" "drop (n - star_n + k) name \<in> tail_language pattern p"
    by (simp_all add: us(2))
  with k(2,3) us(3) that [of "n - star_n + k"] show thesis by simp
qed

lemma between_stars_unit:
  assumes "between_stars pattern p n star_p star_n"
    and "glob_tokens (drop p pattern) = t # glob_tokens (drop (p + adv) pattern)" "t \<noteq> AnyRun"
  shows "between_stars pattern (p + adv) (n + 1) star_p star_n"
proof (cases star_p)
  case (Some sp)
  with assms(1) obtain us where us: "sp < length pattern" "star_n \<le> n" "\<forall>t \<in> set us. t \<noteq> AnyRun" "length us = n - star_n"
    "glob_tokens (drop (sp + 1) pattern) = us @ glob_tokens (drop p pattern)"
    by (auto simp: between_stars_def)
  with assms(2,3) Some show ?thesis
    by (auto simp: between_stars_def intro!: exI [of _ "us @ [t]"])
qed (simp add: between_stars_def)

lemma glob_loop_language:
  "p \<le> length pattern \<Longrightarrow> n \<le> length name \<Longrightarrow> between_stars pattern p n star_p star_n \<Longrightarrow>
     glob_loop pattern name p n star_p star_n \<longleftrightarrow>
       drop n name \<in> tail_language pattern p \<or> retried pattern name star_p star_n"
proof (induction pattern name p n star_p star_n rule: glob_loop.induct)
  case (1 pattern name p n star_p star_n)
  note step = glob_loop.simps [of pattern name p n star_p star_n]
  consider (stop) "n = length name" | (star) "n < length name" "byte_at pattern p = Some STAR"
    | (unit) "n < length name" "byte_at pattern p \<noteq> Some STAR" using "1.prems"(2) by linarith
  then show ?case
  proof cases
    case stop
    have "\<not> retried pattern name star_p star_n"
      using retried_drop [OF "1.prems"(3) _ "1.prems"(2)] stop by (metis leD)
    then show ?thesis unfolding step using stop "1.prems"(1) by (simp add: skip_stars_language)
  next
    case star
    then have p: "p < length pattern" "pattern ! p = STAR" by (auto simp: byte_at_def split: if_splits)
    have tokens: "glob_tokens (drop p pattern) = AnyRun # glob_tokens (drop (p + 1) pattern)"
      using Cons_nth_drop_Suc [OF p(1)] p(2) by (metis Suc_eq_plus1 glob_tokens.simps(2))
    have "between_stars pattern (p + 1) n (Some p) n" using p by (simp add: between_stars_def)
    then have "glob_loop pattern name p n star_p star_n \<longleftrightarrow>
        drop n name \<in> tail_language pattern (p + 1) \<or> retried pattern name (Some p) n"
      using "1.IH"(1) star p(1) "1.prems"(2) by (simp add: step)
    also have "\<dots> \<longleftrightarrow> drop n name \<in> tail_language pattern p"
      unfolding tokens language_run [OF "1.prems"(2)] using star(1)
      by (auto simp: retried_def intro: less_imp_le) (metis le_neq_implies_less)
    also have "\<dots> \<longleftrightarrow> drop n name \<in> tail_language pattern p \<or> retried pattern name star_p star_n"
    proof -
      have "drop n name \<in> tail_language pattern p" if "retried pattern name star_p star_n"
      proof -
        from retried_drop [OF "1.prems"(3) that "1.prems"(2)] obtain k where
          k: "n < k" "k \<le> length name" "drop k name \<in> tail_language pattern p" .
        from k(3) show ?thesis
          unfolding tokens language_run [OF k(2)] language_run [OF "1.prems"(2)]
          using k(1) by (meson less_imp_le order_trans)
      qed
      then show ?thesis by blast
    qed
    finally show ?thesis .
  next
    case unit
    have name: "drop n name = name ! n # drop (n + 1) name" using unit(1) by (simp add: Cons_nth_drop_Suc)
    have again: "(case star_p of Some sp \<Rightarrow> glob_loop pattern name (sp + 1) (star_n + 1) star_p (star_n + 1) | None \<Rightarrow> False)
        \<longleftrightarrow> retried pattern name star_p star_n"
      if "unit_match pattern p (name ! n) = None"
    proof (cases star_p)
      case (Some sp)
      then have sp: "sp < length pattern" "star_n \<le> n" using "1.prems"(3) by (simp_all add: between_stars_def)
      have "between_stars pattern (sp + 1) (star_n + 1) (Some sp) (star_n + 1)"
        using sp(1) by (simp add: between_stars_def)
      then have "glob_loop pattern name (sp + 1) (star_n + 1) star_p (star_n + 1) \<longleftrightarrow>
          drop (star_n + 1) name \<in> tail_language pattern (sp + 1) \<or> retried pattern name star_p (star_n + 1)"
        using "1.IH"(2) [OF unit that Some] sp unit(1) Some by simp
      also have "\<dots> \<longleftrightarrow> retried pattern name star_p star_n"
        using Some sp(2) unit(1) by (auto simp: retried_def) (metis Suc_lessD, metis Suc_lessI)
      finally show ?thesis using Some by simp
    qed (simp add: retried_def)
    show ?thesis
    proof (cases "p = length pattern")
      case True
      then have "unit_match pattern p (name ! n) = None" by (simp add: unit_match_def byte_at_def)
      with again [OF this] True unit name show ?thesis unfolding step by simp
    next
      case False
      then have p: "p < length pattern" using "1.prems"(1) by simp
      obtain t adv where t: "glob_tokens (drop p pattern) = t # glob_tokens (drop (p + adv) pattern)" "t \<noteq> AnyRun"
        "p + adv \<le> length pattern" "unit_match pattern p (name ! n) = (if byte_matches t (name ! n) then Some adv else None)"
        using unit_match_token [OF p unit(2)] by metis
      have here: "drop n name \<in> tail_language pattern p \<longleftrightarrow>
          byte_matches t (name ! n) \<and> drop (n + 1) name \<in> tail_language pattern (p + adv)"
        unfolding t(1) language_unit [OF t(2)] name by auto
      show ?thesis
      proof (cases "byte_matches t (name ! n)")
        case True
        have "between_stars pattern (p + adv) (n + 1) star_p star_n"
          using "1.prems"(3) t(1,2) by (rule between_stars_unit)
        with True t(3,4) unit "1.IH"(3) [OF unit] here show ?thesis by (simp add: step)
      next
        case False
        with t(4) again unit here show ?thesis by (simp add: step)
      qed
    qed
  qed
qed

text \<open>C40: The matcher of symbol patterns decides the language of the pattern. It never returns to any star but
  the last, which is enough: a name is matched exactly when it can be cut into pieces, one for each token, so
  that a star has any piece and every other token a byte that it matches.\<close>

theorem symbol_glob_matches_language:
  "symbol_glob_matches pattern name \<longleftrightarrow> name \<in> glob_language (glob_tokens pattern)"
  using glob_loop_language [of 0 pattern 0 name None 0]
  by (simp add: symbol_glob_matches_def between_stars_def retried_def)

section \<open>Patterns that stand for one name\<close>

datatype glob_pattern_type = Exact | EscapedExact | StarPattern | NonStar

fun analyze_loop :: "glob_pattern_type \<Rightarrow> u8 list \<Rightarrow> glob_pattern_type" where
  "analyze_loop pattern_type [] = pattern_type"
| "analyze_loop pattern_type (c # cs) =
     (if c = BACKSLASH
      then (let pattern_type = (if pattern_type = Exact then EscapedExact else pattern_type)
            in case cs of [] \<Rightarrow> pattern_type | _ # rest \<Rightarrow> analyze_loop pattern_type rest)
      else if c = STAR then StarPattern
      else if c = OPEN_BRACKET \<or> c = CLOSE_BRACKET \<or> c = QUESTION then analyze_loop NonStar cs
      else analyze_loop pattern_type cs)"

definition analyze_glob_pattern :: "u8 list \<Rightarrow> glob_pattern_type" where
  "analyze_glob_pattern pattern =
     (if \<not> list_ex (\<lambda>c. c \<in> {STAR, QUESTION, BACKSLASH}) pattern
         \<and> \<not> list_ex (\<lambda>c. c \<in> {OPEN_BRACKET, CLOSE_BRACKET}) pattern
      then Exact else analyze_loop Exact pattern)"

fun unescape_pattern :: "u8 list \<Rightarrow> u8 list" where
  "unescape_pattern [] = []"
| "unescape_pattern (c # cs) =
     (if c = BACKSLASH then (case cs of [] \<Rightarrow> [c] | next_c # rest \<Rightarrow> next_c # unescape_pattern rest)
      else c # unescape_pattern cs)"

text \<open>The fast path of the analysis changes nothing.\<close>

lemma analyze_fast_path: "analyze_glob_pattern pattern = analyze_loop Exact pattern"
proof -
  have "\<not> list_ex (\<lambda>c. c \<in> {STAR, QUESTION, BACKSLASH}) pattern \<Longrightarrow>
      \<not> list_ex (\<lambda>c. c \<in> {OPEN_BRACKET, CLOSE_BRACKET}) pattern \<Longrightarrow> analyze_loop t pattern = t" for t
    by (induction pattern) auto
  then show ?thesis by (simp add: analyze_glob_pattern_def)
qed

lemma analyze_keeps: "t \<in> {StarPattern, NonStar} \<Longrightarrow> analyze_loop t pattern \<in> {StarPattern, NonStar}"
  by (induction t pattern rule: analyze_loop.induct) (auto split: list.splits)

lemma analyze_exact:
  "t \<in> {Exact, EscapedExact} \<Longrightarrow> analyze_loop t pattern \<in> {Exact, EscapedExact} \<Longrightarrow>
     glob_tokens pattern = map Literal (unescape_pattern pattern)"
proof (induction pattern arbitrary: t rule: unescape_pattern.induct)
  case (2 c cs)
  have plain: "c \<noteq> BACKSLASH \<Longrightarrow> c \<noteq> STAR \<and> c \<noteq> OPEN_BRACKET \<and> c \<noteq> CLOSE_BRACKET \<and> c \<noteq> QUESTION"
    using "2.prems"(2) analyze_keeps [of NonStar cs] by (auto split: if_splits)
  have special: "BACKSLASH \<noteq> STAR" "BACKSLASH \<noteq> QUESTION" "BACKSLASH \<noteq> OPEN_BRACKET" by (simp_all add: glob_bytes)
  show ?case
  proof (cases "c = BACKSLASH")
    case True
    show ?thesis
    proof (cases cs)
      case (Cons e rest)
      have "analyze_loop EscapedExact rest \<in> {Exact, EscapedExact}"
        using "2.prems" True Cons by (auto simp: Let_def)
      with "2.IH"(1) [OF True Cons, of EscapedExact] True Cons special show ?thesis by simp
    qed (simp add: True special)
  next
    case False
    with plain "2.prems" "2.IH"(2) [OF False, of t] show ?thesis by simp
  qed
qed simp

lemma literal_language: "glob_language (map Literal name) = {name}"
  by (induction name) (auto simp: token_language_def)

lemma exact_pattern:
  assumes "analyze_glob_pattern pattern \<in> {Exact, EscapedExact}"
  shows "symbol_glob_matches pattern name \<longleftrightarrow> name = unescape_pattern pattern"
  using assms analyze_exact [of Exact pattern] glob_loop_language [of 0 pattern 0 name None 0]
  by (simp add: analyze_fast_path literal_language symbol_glob_matches_def between_stars_def retried_def)

section \<open>The names of a pattern\<close>

text \<open>
  An input with its symbols: whether a symbol is local or undefined, and its name, unless that cannot be
  read.
\<close>

record glob_input =
  input_is_dynamic :: bool
  input_symbols :: "(bool \<times> u8 list option) list"

definition glob_input_names :: "u8 list list \<Rightarrow> glob_input \<Rightarrow> u8 list list" where
  "glob_input_names patterns obj =
     (if input_is_dynamic obj then []
      else concat (map (\<lambda>(skipped, symbol_name).
        if skipped then []
        else case symbol_name of
               None \<Rightarrow> []
             | Some name \<Rightarrow>
                 if name \<noteq> [] \<and> list_ex (\<lambda>pattern. symbol_glob_matches pattern name) patterns then [name] else [])
        (input_symbols obj)))"

definition glob_undefined_names :: "u8 list list \<Rightarrow> glob_input list \<Rightarrow> u8 list list" where
  "glob_undefined_names patterns objects =
     (if patterns = [] then []
      else remdups_adj (sort (concat (map (glob_input_names patterns) objects))))"

text \<open>Every name comes once, and only names that a pattern stands for.\<close>

lemma glob_undefined_names_set:
  "sorted_wrt (<) (glob_undefined_names patterns objects)"
  "set (glob_undefined_names patterns objects) =
     {name. name \<noteq> [] \<and> (\<exists>obj \<in> set objects. \<not> input_is_dynamic obj \<and> (False, Some name) \<in> set (input_symbols obj))
        \<and> (\<exists>pattern \<in> set patterns. symbol_glob_matches pattern name)}"
proof -
  show "sorted_wrt (<) (glob_undefined_names patterns objects)"
    by (simp add: glob_undefined_names_def strict_remdups_adj_sort)
  have "set (glob_input_names patterns obj) =
      {name. name \<noteq> [] \<and> \<not> input_is_dynamic obj \<and> (False, Some name) \<in> set (input_symbols obj)
        \<and> (\<exists>pattern \<in> set patterns. symbol_glob_matches pattern name)}" for obj
    by (force simp: glob_input_names_def list_ex_iff split: option.splits)
  then show "set (glob_undefined_names patterns objects) =
     {name. name \<noteq> [] \<and> (\<exists>obj \<in> set objects. \<not> input_is_dynamic obj \<and> (False, Some name) \<in> set (input_symbols obj))
        \<and> (\<exists>pattern \<in> set patterns. symbol_glob_matches pattern name)}"
    by (auto simp: glob_undefined_names_def)
qed

end
