(* ===== verification/Symbol_Select.thy ===== *)
theory Symbol_Select
  imports Reloc_Needs
begin

text \<open>
  Which definition of a symbol is used: the priorities of \<^verbatim>\<open>SymbolPrioritySelector\<close> and \<^verbatim>\<open>select_symbol\<close>, and
  the visibility of symbols, of \<^verbatim>\<open>reld-core/src/symbol_db.rs\<close>.
\<close>

section \<open>Visibility\<close>

datatype visibility = DefaultVisibility | Protected | Hidden

fun visibility_rank :: "visibility \<Rightarrow> nat" where
  "visibility_rank DefaultVisibility = 0"
| "visibility_rank Protected = 1"
| "visibility_rank Hidden = 2"

lemma visibility_rank_inj: "visibility_rank v = visibility_rank w \<Longrightarrow> v = w"
  by (cases v; cases w) simp_all

text \<open>The derived order is that of the constructors.\<close>

instantiation visibility :: linorder
begin

definition less_eq_visibility :: "visibility \<Rightarrow> visibility \<Rightarrow> bool" where
  "v \<le> w \<longleftrightarrow> visibility_rank v \<le> visibility_rank w"

definition less_visibility :: "visibility \<Rightarrow> visibility \<Rightarrow> bool" where
  "v < w \<longleftrightarrow> visibility_rank v < visibility_rank w"

instance
  by standard (auto simp: less_eq_visibility_def less_visibility_def intro: visibility_rank_inj)

end

lemma visibility_order [simp]: "DefaultVisibility \<le> v" "v \<le> Hidden" "Protected \<le> v \<longleftrightarrow> v \<noteq> DefaultVisibility"
  by (cases v; simp add: less_eq_visibility_def)+

text \<open>
  What a visibility other than the default does to the flags of a symbol: among the alternatives of a name, and
  when an undefined reference is given a definition.
\<close>

definition handle_non_default_visibility :: "visibility \<Rightarrow> value_flags \<Rightarrow> value_flags" where
  "handle_non_default_visibility v fl =
     (case v of
        Hidden \<Rightarrow> if contains fl DYNAMIC then fl else fl OR (NON_INTERPOSABLE OR DOWNGRADE_TO_LOCAL)
      | Protected \<Rightarrow> if contains fl DYNAMIC then fl else fl OR NON_INTERPOSABLE
      | DefaultVisibility \<Rightarrow> fl)"

definition apply_visibility_to_definition :: "visibility \<Rightarrow> value_flags \<Rightarrow> value_flags" where
  "apply_visibility_to_definition v fl =
     (case v of
        Hidden \<Rightarrow> fl OR (NON_INTERPOSABLE OR DOWNGRADE_TO_LOCAL)
      | Protected \<Rightarrow> if contains fl DYNAMIC then fl else fl OR NON_INTERPOSABLE
      | DefaultVisibility \<Rightarrow> fl)"

text \<open>
  Among the alternatives of a name a symbol of a shared library is not downgraded; by a hidden reference it is.
\<close>

lemma hidden_reference_downgrades:
  "handle_non_default_visibility Hidden DYNAMIC = DYNAMIC"
  "contains (apply_visibility_to_definition Hidden DYNAMIC) DOWNGRADE_TO_LOCAL"
  by (simp_all add: handle_non_default_visibility_def apply_visibility_to_definition_def DYNAMIC_def DOWNGRADE_TO_LOCAL_def
      contains_flag bit_flag bit_or_iff)

section \<open>Priorities\<close>

datatype symbol_strength = UndefinedStrength | Weak | GnuUnique | Strong | Common u64

record symbol_attributes =
  is_weak :: bool
  is_common :: bool
  is_gnu_unique :: bool
  symbol_size :: u64

definition strength_of :: "symbol_attributes \<Rightarrow> symbol_strength" where
  "strength_of a =
     (if is_weak a then Weak else if is_common a then Common (symbol_size a)
      else if is_gnu_unique a then GnuUnique else Strong)"

record priority_selector =
  first_strong :: "symbol_id option"
  max_common :: "(u64 \<times> symbol_id) option"
  first_weak :: "symbol_id option"

definition new_selector :: priority_selector where
  "new_selector = \<lparr>first_strong = None, max_common = None, first_weak = None\<rparr>"

definition consider_symbol :: "symbol_id \<Rightarrow> symbol_strength \<Rightarrow> priority_selector \<Rightarrow> priority_selector" where
  "consider_symbol i strength sel =
     (case strength of
        Strong \<Rightarrow> if first_strong sel = None then sel\<lparr>first_strong := Some i\<rparr> else sel
      | Weak \<Rightarrow> if first_weak sel = None then sel\<lparr>first_weak := Some i\<rparr> else sel
      | GnuUnique \<Rightarrow> if first_weak sel = None then sel\<lparr>first_weak := Some i\<rparr> else sel
      | Common csize \<Rightarrow>
          (case max_common sel of
             Some (prev_size, _) \<Rightarrow> if csize \<le> prev_size then sel else sel\<lparr>max_common := Some (csize, i)\<rparr>
           | None \<Rightarrow> sel\<lparr>max_common := Some (csize, i)\<rparr>)
      | UndefinedStrength \<Rightarrow> sel)"

definition best_symbol :: "priority_selector \<Rightarrow> symbol_id option" where
  "best_symbol sel =
     (case first_strong sel of
        Some i \<Rightarrow> Some i
      | None \<Rightarrow> (case max_common sel of Some (_, i) \<Rightarrow> Some i | None \<Rightarrow> first_weak sel))"

text \<open>
  What the selection reads of the inputs: the strength of a definition once it is known which files were loaded,
  and whether it is in a section of a COMDAT group.
\<close>

record select_env =
  strength_in :: "symbol_id \<Rightarrow> symbol_strength"
  in_comdat_group :: "symbol_id \<Rightarrow> bool"
  allow_multiple_definitions :: bool

datatype symbol_error = DuplicateSymbol symbol_id symbol_id

fun select_loop ::
    "select_env \<Rightarrow> (symbol_id \<Rightarrow> value_flags) \<Rightarrow> symbol_id list \<Rightarrow> priority_selector \<Rightarrow> symbol_error + priority_selector" where
  "select_loop env flags [] sel = Inr sel"
| "select_loop env flags (i # ids) sel =
     (if is_dynamic (flags i) then select_loop env flags ids sel
      else
        let strength = strength_in env i in
        (case first_strong sel of
           Some existing \<Rightarrow>
             if strength = Strong \<and> (\<not> in_comdat_group env existing \<or> \<not> in_comdat_group env i)
                \<and> \<not> allow_multiple_definitions env
             then Inl (DuplicateSymbol existing i)
             else select_loop env flags ids (consider_symbol i strength sel)
         | None \<Rightarrow> select_loop env flags ids (consider_symbol i strength sel)))"

definition select_symbol ::
    "select_env \<Rightarrow> (symbol_id \<Rightarrow> value_flags) \<Rightarrow> symbol_id \<Rightarrow> symbol_id list \<Rightarrow> symbol_error + symbol_id" where
  "select_symbol env flags first_id alternatives =
     (case select_loop env flags (first_id # alternatives) new_selector of
        Inl e \<Rightarrow> Inl e
      | Inr sel \<Rightarrow>
          (case best_symbol sel of
             Some best \<Rightarrow> Inr best
           | None \<Rightarrow>
               (case find (\<lambda>alt. strength_in env alt \<noteq> UndefinedStrength) (first_id # alternatives) of
                  Some alt \<Rightarrow> Inr alt
                | None \<Rightarrow> Inr first_id)))"

section \<open>What is selected\<close>

text \<open>
  The definitions in loaded files that are not shared libraries, by strength. The largest common symbol is the
  first one that no other exceeds.
\<close>

definition of_strength :: "select_env \<Rightarrow> (symbol_id \<Rightarrow> value_flags) \<Rightarrow> symbol_strength set \<Rightarrow> symbol_id list \<Rightarrow> symbol_id list" where
  "of_strength env flags ss ids = filter (\<lambda>i. \<not> is_dynamic (flags i) \<and> strength_in env i \<in> ss) ids"

fun common_size :: "symbol_strength \<Rightarrow> u64" where
  "common_size (Common n) = n"
| "common_size _ = 0"

definition first_largest :: "('a \<Rightarrow> u64) \<Rightarrow> 'a list \<Rightarrow> 'a option" where
  "first_largest f xs = find (\<lambda>x. list_all (\<lambda>y. f y \<le> f x) xs) xs"

definition strong_definitions :: "select_env \<Rightarrow> (symbol_id \<Rightarrow> value_flags) \<Rightarrow> symbol_id list \<Rightarrow> symbol_id list" where
  "strong_definitions env flags ids = of_strength env flags {Strong} ids"

definition preferred :: "select_env \<Rightarrow> (symbol_id \<Rightarrow> value_flags) \<Rightarrow> symbol_id list \<Rightarrow> symbol_id option" where
  "preferred env flags ids =
     (case strong_definitions env flags ids of
        i # _ \<Rightarrow> Some i
      | [] \<Rightarrow>
          (case first_largest (\<lambda>i. common_size (strength_in env i)) (of_strength env flags (Common ` UNIV) ids) of
             Some i \<Rightarrow> Some i
           | None \<Rightarrow> (case of_strength env flags {Weak, GnuUnique} ids of i # _ \<Rightarrow> Some i | [] \<Rightarrow> None)))"

definition no_duplicates :: "select_env \<Rightarrow> (symbol_id \<Rightarrow> value_flags) \<Rightarrow> symbol_id list \<Rightarrow> bool" where
  "no_duplicates env flags ids \<longleftrightarrow>
     allow_multiple_definitions env
     \<or> (case strong_definitions env flags ids of
          [] \<Rightarrow> True
        | a # rest \<Rightarrow> list_all (\<lambda>b. in_comdat_group env a \<and> in_comdat_group env b) rest)"

lemma of_strength_append: "of_strength env flags ss (xs @ ys) = of_strength env flags ss xs @ of_strength env flags ss ys"
  by (simp add: of_strength_def)

lemma first_largest_some:
  assumes "xs \<noteq> []"
  obtains x where "first_largest f xs = Some x" "x \<in> set xs" "\<forall>y \<in> set xs. f y \<le> f x"
proof -
  have "\<exists>x \<in> set xs. \<forall>y \<in> set xs. f y \<le> f x"
    using assms by (induction xs rule: list_nonempty_induct) (auto, meson linear order_trans)
  then have "first_largest f xs \<noteq> None" by (auto simp: first_largest_def find_None_iff list_all_iff)
  then obtain x where x: "first_largest f xs = Some x" by blast
  then have "x \<in> set xs" "\<forall>y \<in> set xs. f y \<le> f x"
    by (auto simp: first_largest_def find_Some_iff list_all_iff)
  with x that show thesis by blast
qed

lemma first_largest_snoc:
  "first_largest f (xs @ [y]) = (case first_largest f xs of None \<Rightarrow> Some y | Some x \<Rightarrow> if f y \<le> f x then Some x else Some y)"
proof (cases "xs = []")
  case False
  then obtain x where x: "first_largest f xs = Some x" "x \<in> set xs" "\<forall>y \<in> set xs. f y \<le> f x"
    by (rule first_largest_some)
  show ?thesis
  proof (cases "f y \<le> f x")
    case True
    have "find P (xs @ [y]) = (case find P xs of Some z \<Rightarrow> Some z | None \<Rightarrow> if P y then Some y else None)" for P
      by (induction xs) auto
    moreover have "list_all (\<lambda>z. f z \<le> f u) (xs @ [y]) \<longleftrightarrow> list_all (\<lambda>z. f z \<le> f u) xs" if "u \<in> set xs" for u
      using True x(2,3) by (auto simp: list_all_iff intro: order_trans)
    then have "find (\<lambda>u. list_all (\<lambda>z. f z \<le> f u) (xs @ [y])) xs = find (\<lambda>u. list_all (\<lambda>z. f z \<le> f u) xs) xs"
      by (intro find_cong) simp_all
    ultimately show ?thesis using x(1) True by (simp add: first_largest_def)
  next
    case False
    then have "\<not> list_all (\<lambda>z. f z \<le> f u) (xs @ [y])" if "u \<in> set xs" for u
      using x(3) that by (auto simp: list_all_iff dest: order_trans)
    moreover have "list_all (\<lambda>z. f z \<le> f y) (xs @ [y])"
      using False x(3) by (auto simp: list_all_iff)
    ultimately have "find (\<lambda>u. list_all (\<lambda>z. f z \<le> f u) (xs @ [y])) (xs @ [y]) = Some y"
      by (simp add: find_Some_iff)(rule exI [of _ "length xs"], simp add: nth_append)
    with x(1) False show ?thesis by (simp add: first_largest_def)
  qed
qed (simp add: first_largest_def)

lemma of_strength_head: "of_strength env flags ss ids = i # rest \<Longrightarrow> i \<in> set ids"
  using filter_is_subset [of "\<lambda>i. \<not> is_dynamic (flags i) \<and> strength_in env i \<in> ss" ids] by (auto simp: of_strength_def)

lemma preferred_member:
  assumes "preferred env flags ids = Some i"
  shows "i \<in> set ids"
proof (cases "strong_definitions env flags ids")
  case Nil
  let ?common = "of_strength env flags (Common ` UNIV) ids"
  show ?thesis
  proof (cases "first_largest (\<lambda>i. common_size (strength_in env i)) ?common")
    case None
    with Nil assms show ?thesis by (auto simp: preferred_def split: list.splits dest: of_strength_head)
  next
    case (Some j)
    then have "j \<in> set ?common" by (auto simp: first_largest_def find_Some_iff)
    with Some Nil assms show ?thesis by (simp add: preferred_def of_strength_def)
  qed
qed (use assms in \<open>auto simp: preferred_def strong_definitions_def dest: of_strength_head\<close>)

text \<open>The selector after some candidates.\<close>

definition selector_of :: "select_env \<Rightarrow> (symbol_id \<Rightarrow> value_flags) \<Rightarrow> symbol_id list \<Rightarrow> priority_selector" where
  "selector_of env flags ids =
     \<lparr>first_strong = (case strong_definitions env flags ids of [] \<Rightarrow> None | i # _ \<Rightarrow> Some i),
      max_common = map_option (\<lambda>i. (common_size (strength_in env i), i))
        (first_largest (\<lambda>i. common_size (strength_in env i)) (of_strength env flags (Common ` UNIV) ids)),
      first_weak = (case of_strength env flags {Weak, GnuUnique} ids of [] \<Rightarrow> None | i # _ \<Rightarrow> Some i)\<rparr>"

lemma selector_of_best: "best_symbol (selector_of env flags ids) = preferred env flags ids"
  by (simp add: best_symbol_def selector_of_def preferred_def split: list.splits option.splits)

lemma selector_of_Nil: "selector_of env flags [] = new_selector"
  by (simp add: selector_of_def new_selector_def strong_definitions_def of_strength_def first_largest_def)

lemma selector_of_snoc:
  "selector_of env flags (ids @ [i]) =
     (if is_dynamic (flags i) then selector_of env flags ids
      else consider_symbol i (strength_in env i) (selector_of env flags ids))"
proof (cases "is_dynamic (flags i)")
  case True
  then show ?thesis by (simp add: selector_of_def strong_definitions_def of_strength_def)
next
  case False
  then show ?thesis
    by (cases "strength_in env i")
      (auto simp: selector_of_def strong_definitions_def of_strength_append consider_symbol_def first_largest_snoc
        of_strength_def [of _ _ _ "[i]"] split: list.splits option.splits)
qed

text \<open>The loop over the rest of the definitions.\<close>

definition clash :: "select_env \<Rightarrow> (symbol_id \<Rightarrow> value_flags) \<Rightarrow> symbol_id list \<Rightarrow> symbol_id \<Rightarrow> symbol_id \<Rightarrow> bool" where
  "clash env flags ids a b \<longleftrightarrow>
     \<not> allow_multiple_definitions env \<and> \<not> (in_comdat_group env a \<and> in_comdat_group env b)
     \<and> (case strong_definitions env flags ids of [] \<Rightarrow> False | i # rest \<Rightarrow> a = i \<and> b \<in> set rest)"

lemma no_duplicates_snoc:
  "no_duplicates env flags (ids @ [i]) \<longleftrightarrow> no_duplicates env flags ids
     \<and> (is_dynamic (flags i) \<or> strength_in env i \<noteq> Strong \<or> allow_multiple_definitions env
        \<or> (case strong_definitions env flags ids of [] \<Rightarrow> True | a # _ \<Rightarrow> in_comdat_group env a \<and> in_comdat_group env i))"
  by (auto simp: no_duplicates_def strong_definitions_def of_strength_append of_strength_def [of _ _ _ "[i]"]
      split: list.splits)

lemma select_loop_spec:
  "no_duplicates env flags seen \<Longrightarrow>
   (case select_loop env flags ids (selector_of env flags seen) of
      Inl (DuplicateSymbol a b) \<Rightarrow> clash env flags (seen @ ids) a b
    | Inr sel \<Rightarrow> no_duplicates env flags (seen @ ids) \<and> sel = selector_of env flags (seen @ ids))"
proof (induction ids arbitrary: seen)
  case (Cons i ids)
  let ?st = "strong_definitions env flags seen"
  have first: "first_strong (selector_of env flags seen) = (case ?st of [] \<Rightarrow> None | a # _ \<Rightarrow> Some a)"
    by (simp add: selector_of_def)
  define stops where "stops \<longleftrightarrow> \<not> is_dynamic (flags i) \<and> strength_in env i = Strong \<and> \<not> allow_multiple_definitions env
    \<and> (case ?st of [] \<Rightarrow> False | a # _ \<Rightarrow> \<not> (in_comdat_group env a \<and> in_comdat_group env i))"
  show ?case
  proof (cases stops)
    case True
    then obtain a rest where st: "?st = a # rest" "\<not> (in_comdat_group env a \<and> in_comdat_group env i)"
      "\<not> is_dynamic (flags i)" "strength_in env i = Strong" "\<not> allow_multiple_definitions env"
      by (auto simp: stops_def split: list.splits)
    then have "strong_definitions env flags (seen @ i # ids) = a # rest @ i # strong_definitions env flags ids"
      by (simp add: strong_definitions_def of_strength_def)
    with st first show ?thesis by (auto simp: clash_def)
  next
    case False
    then have "no_duplicates env flags (seen @ [i])"
      using Cons.prems by (auto simp: no_duplicates_snoc stops_def split: list.splits)
    moreover have "select_loop env flags (i # ids) (selector_of env flags seen)
        = select_loop env flags ids (selector_of env flags (seen @ [i]))"
      using False first by (auto simp: selector_of_snoc stops_def Let_def split: list.splits)
    moreover have "seen @ i # ids = (seen @ [i]) @ ids" by simp
    ultimately show ?thesis by (metis (no_types) Cons.IH)
  qed
qed simp

lemma select_symbol_lemma:
  "case select_symbol env flags first_id alternatives of
     Inl (DuplicateSymbol a b) \<Rightarrow> clash env flags (first_id # alternatives) a b
   | Inr s \<Rightarrow> no_duplicates env flags (first_id # alternatives)
       \<and> s = (case preferred env flags (first_id # alternatives) of
                Some i \<Rightarrow> i
              | None \<Rightarrow> (case filter (\<lambda>i. strength_in env i \<noteq> UndefinedStrength) (first_id # alternatives) of
                           i # _ \<Rightarrow> i | [] \<Rightarrow> first_id))"
proof -
  have "find P xs = (case filter P xs of [] \<Rightarrow> None | x # _ \<Rightarrow> Some x)" for P and xs :: "symbol_id list"
    by (induction xs) auto
  moreover have "no_duplicates env flags []" by (simp add: no_duplicates_def strong_definitions_def of_strength_def)
  ultimately show ?thesis
    using selector_of_Nil [of env flags] select_loop_spec [of env flags "[]" "first_id # alternatives"]
    by (auto simp: select_symbol_def selector_of_best simp del: select_loop.simps find.simps filter.simps
        split: sum.splits symbol_error.splits option.splits list.splits)
qed

lemma select_symbol_choice:
  "select_symbol env flags first_id alternatives = Inr s \<Longrightarrow>
     s = (case preferred env flags (first_id # alternatives) of
            Some i \<Rightarrow> i
          | None \<Rightarrow> (case filter (\<lambda>i. strength_in env i \<noteq> UndefinedStrength) (first_id # alternatives) of
                       i # _ \<Rightarrow> i | [] \<Rightarrow> first_id))"
  using select_symbol_lemma [of env flags first_id alternatives] by simp

text \<open>C35: The definition that a name is given. Of the definitions in loaded files that are not shared libraries
  it is the first strong one; if there is none, the largest common symbol, the first of equals; and if there is
  none of these either, the first that is weak or unique. Otherwise the first definition in a shared library is
  taken. An error is reported exactly when a second strong definition exists, one of the two is not in a COMDAT
  group, and multiple definitions are not allowed; it names the first strong definition.\<close>

theorem select_symbol_spec:
  "case select_symbol env flags first_id alternatives of
     Inl (DuplicateSymbol a b) \<Rightarrow> clash env flags (first_id # alternatives) a b
   | Inr s \<Rightarrow> no_duplicates env flags (first_id # alternatives)
       \<and> s = (case preferred env flags (first_id # alternatives) of
                Some i \<Rightarrow> i
              | None \<Rightarrow> (case filter (\<lambda>i. strength_in env i \<noteq> UndefinedStrength) (first_id # alternatives) of
                           i # _ \<Rightarrow> i | [] \<Rightarrow> first_id))"
  by (rule select_symbol_lemma)

end
