(* ===== verification/Symbol_Names.thy ===== *)
theory Symbol_Names
  imports Symbol_Select Thunk_Blocks
begin

text \<open>
  How the symbols of an object enter the database: the names and versions of \<^verbatim>\<open>RawSymbolName\<close> and
  \<^verbatim>\<open>VerneedTable\<close> (\<^verbatim>\<open>reld-core/src/elf.rs\<close>), the ranges of symbol ids, and \<^verbatim>\<open>load_symbols\<close> with its two
  loaders (\<^verbatim>\<open>symbol_db.rs\<close>). The hash of a name is computed by a library and is an argument.
\<close>

section \<open>Names with versions\<close>

definition AT_SIGN :: u8 where "AT_SIGN = 64"

record raw_symbol_name =
  raw_name :: "u8 list"
  version_name :: "u8 list option"
  is_default :: bool

definition parse_symbol_name :: "u8 list \<Rightarrow> raw_symbol_name" where
  "parse_symbol_name name_bytes =
     (let name = takeWhile (\<lambda>b. b \<noteq> AT_SIGN) name_bytes in
      case dropWhile (\<lambda>b. b \<noteq> AT_SIGN) name_bytes of
        [] \<Rightarrow> \<lparr>raw_name = name_bytes, version_name = None, is_default = True\<rparr>
      | _ # rest \<Rightarrow>
          if take 1 rest = [AT_SIGN]
          then \<lparr>raw_name = name, version_name = Some (drop 1 rest), is_default = True\<rparr>
          else \<lparr>raw_name = name, version_name = Some rest, is_default = False\<rparr>)"

text \<open>\<^verbatim>\<open>Display\<close>, before the bytes are replaced that are not a character.\<close>

definition format_symbol_name :: "raw_symbol_name \<Rightarrow> u8 list" where
  "format_symbol_name r =
     raw_name r @ (case version_name r of
                     None \<Rightarrow> []
                   | Some version \<Rightarrow> (if is_default r then [AT_SIGN, AT_SIGN] else [AT_SIGN]) @ version)"

text \<open>
  The versions of the symbols of an object: the table \<open>versym\<close> holds, for every symbol, the index and the hidden
  bit as the object crate reads them, \<open>names\<close> the names by index.
\<close>

definition lookup_version :: "(nat \<times> bool) list \<Rightarrow> u8 list option list \<Rightarrow> nat \<Rightarrow> u8 list option" where
  "lookup_version versym names i =
     (if i < length versym
      then let k = fst (versym ! i) in (if k < length names then names ! k else None)
      else None)"

definition elf_raw_symbol_name ::
    "(nat \<times> bool) list \<Rightarrow> u8 list option list \<Rightarrow> nat \<Rightarrow> u8 list \<Rightarrow> raw_symbol_name" where
  "elf_raw_symbol_name versym names i name_bytes =
     (case lookup_version versym names i of
        Some v \<Rightarrow> \<lparr>raw_name = name_bytes, version_name = Some v, is_default = False\<rparr>
      | None \<Rightarrow> parse_symbol_name name_bytes)"

definition symbol_name_and_version ::
    "(nat \<times> bool) list \<Rightarrow> u8 list option list \<Rightarrow> nat \<Rightarrow> u8 list \<Rightarrow> raw_symbol_name" where
  "symbol_name_and_version versym names i name_bytes =
     (if i < length versym
      then \<lparr>raw_name = name_bytes, version_name = lookup_version versym names i, is_default = \<not> snd (versym ! i)\<rparr>
      else \<lparr>raw_name = name_bytes, version_name = None, is_default = True\<rparr>)"

text \<open>The keys of the tables of names and their hashes.\<close>

datatype symbol_name = Unversioned "u8 list" | Versioned "u8 list" "u8 list"

definition from_raw :: "raw_symbol_name \<Rightarrow> symbol_name" where
  "from_raw r = (case version_name r of Some v \<Rightarrow> Versioned (raw_name r) v | None \<Rightarrow> Unversioned (raw_name r))"

fun name_hash :: "(u8 list \<Rightarrow> u64) \<Rightarrow> symbol_name \<Rightarrow> u64" where
  "name_hash h (Unversioned n) = h n"
| "name_hash h (Versioned n v) = h n XOR h v"

text \<open>The names that are written with at most two signs and read back.\<close>

definition proper_name :: "raw_symbol_name \<Rightarrow> bool" where
  "proper_name r \<longleftrightarrow> AT_SIGN \<notin> set (raw_name r)
     \<and> (case version_name r of None \<Rightarrow> is_default r | Some v \<Rightarrow> is_default r \<or> take 1 v \<noteq> [AT_SIGN])"

lemma parse_plain:
  "AT_SIGN \<notin> set bs \<Longrightarrow> parse_symbol_name bs = \<lparr>raw_name = bs, version_name = None, is_default = True\<rparr>"
proof -
  assume "AT_SIGN \<notin> set bs"
  then have "dropWhile (\<lambda>b. b \<noteq> AT_SIGN) bs = []" by (auto simp: dropWhile_eq_Nil_conv)
  then show ?thesis unfolding parse_symbol_name_def Let_def by (simp only: list.case)
qed

lemma parse_at:
  "AT_SIGN \<notin> set n \<Longrightarrow> parse_symbol_name (n @ AT_SIGN # rest) =
     (if take 1 rest = [AT_SIGN] then \<lparr>raw_name = n, version_name = Some (drop 1 rest), is_default = True\<rparr>
      else \<lparr>raw_name = n, version_name = Some rest, is_default = False\<rparr>)"
proof -
  assume "AT_SIGN \<notin> set n"
  then have "takeWhile (\<lambda>b. b \<noteq> AT_SIGN) (n @ AT_SIGN # rest) = n"
    "dropWhile (\<lambda>b. b \<noteq> AT_SIGN) (n @ AT_SIGN # rest) = AT_SIGN # rest"
    by (auto simp: takeWhile_append dropWhile_append3)
  then show ?thesis unfolding parse_symbol_name_def Let_def by (simp only: list.case)
qed

lemma name_cases:
  obtains (plain) "AT_SIGN \<notin> set bs" | (at) n rest where "AT_SIGN \<notin> set n" "bs = n @ AT_SIGN # rest"
  by (metis split_list_first)

lemma take_drop_1: "take (Suc 0) xs = [a] \<Longrightarrow> a # drop (Suc 0) xs = xs"
  by (cases xs) auto

lemma format_parse: "format_symbol_name (parse_symbol_name bs) = bs"
  by (cases bs rule: name_cases) (auto simp: parse_plain parse_at format_symbol_name_def dest: take_drop_1)

lemma parse_proper: "proper_name (parse_symbol_name bs)"
  by (cases bs rule: name_cases) (auto simp: parse_plain parse_at proper_name_def)

lemma parse_format: "proper_name r \<Longrightarrow> parse_symbol_name (format_symbol_name r) = r"
  by (cases r) (auto simp: format_symbol_name_def proper_name_def parse_plain parse_at split: option.splits)



section \<open>Ranges of symbol ids\<close>

record symbol_id_range =
  start_symbol_id :: symbol_id
  num_symbols :: nat

text \<open>\<^verbatim>\<open>add_usize\<close> panics when the id does not fit 32 bits.\<close>

definition add_usize :: "symbol_id \<Rightarrow> nat \<Rightarrow> symbol_id option" where
  "add_usize i offset = (if unat i + offset < 2 ^ 32 then Some (i + of_nat offset) else None)"

definition offset_to_id :: "symbol_id_range \<Rightarrow> nat \<Rightarrow> symbol_id option" where
  "offset_to_id r offset = add_usize (start_symbol_id r) offset"

definition id_to_offset :: "symbol_id_range \<Rightarrow> symbol_id \<Rightarrow> nat" where
  "id_to_offset r i = unat (i - start_symbol_id r)"

definition covering :: "symbol_id_range \<Rightarrow> symbol_id_range \<Rightarrow> symbol_id_range" where
  "covering a b = \<lparr>start_symbol_id = start_symbol_id a,
     num_symbols = unat (start_symbol_id b) + num_symbols b - unat (start_symbol_id a)\<rparr>"

definition range_contains_id :: "symbol_id_range \<Rightarrow> symbol_id \<Rightarrow> bool option" where
  "range_contains_id r i =
     (if i < start_symbol_id r then Some False
      else map_option (\<lambda>e. i < e) (add_usize (start_symbol_id r) (num_symbols r)))"

lemma unat_add_usize: "add_usize i k = Some j \<longleftrightarrow> unat i + k = unat j"
proof
  assume "add_usize i k = Some j"
  then have "unat i + k < 2 ^ 32" "j = i + of_nat k" by (auto simp: add_usize_def split: if_splits)
  then show "unat i + k = unat j" by (simp add: unat_word_ariths unat_of_nat)
next
  assume eq: "unat i + k = unat j"
  then have "of_nat (unat i) + of_nat k = (of_nat (unat j) :: u32)" by (metis of_nat_add)
  moreover have "unat j < 2 ^ 32" using unsigned_less [of j] by simp
  ultimately show "add_usize i k = Some j" using eq by (simp add: add_usize_def)
qed

lemma offset_id_round_trip: "offset_to_id r k = Some i \<Longrightarrow> id_to_offset r i = k"
  by (auto simp: offset_to_id_def unat_add_usize id_to_offset_def unat_sub_if_size dest: sym)

lemma id_offset_round_trip:
  "start_symbol_id r \<le> i \<Longrightarrow> offset_to_id r (id_to_offset r i) = Some i"
  by (simp add: offset_to_id_def unat_add_usize id_to_offset_def unat_sub word_le_nat_alt)

lemma range_contains_offset:
  "range_contains_id r i = Some b \<Longrightarrow> b \<longleftrightarrow> (\<exists>k < num_symbols r. offset_to_id r k = Some i)"
  by (auto simp: range_contains_id_def offset_to_id_def unat_add_usize word_less_nat_alt split: if_splits)
    (metis add_diff_inverse_nat nat_add_left_cancel_less not_less)

section \<open>Loading the symbols of an object\<close>

text \<open>
  A symbol of an object file as the object crate reads it; a name that cannot be read is \<open>None\<close>. Of the
  visibilities of ELF, the internal one counts as the default one except for interposition.
\<close>

datatype st_visibility = STV_DEFAULT | STV_INTERNAL | STV_HIDDEN | STV_PROTECTED

fun convert_elf_visibility :: "st_visibility \<Rightarrow> visibility" where
  "convert_elf_visibility STV_PROTECTED = Protected"
| "convert_elf_visibility STV_HIDDEN = Hidden"
| "convert_elf_visibility _ = DefaultVisibility"

record input_symbol = symbol_attributes +
  name_bytes :: "u8 list option"
  st_visibility :: st_visibility
  is_undefined :: bool
  is_local :: bool
  is_absolute_symbol :: bool
  is_ifunc_symbol :: bool
  is_func_symbol :: bool
  is_tls_symbol :: bool

text \<open>\<^verbatim>\<open>is_symbol_non_interposable\<close> of the ELF platform.\<close>

datatype b_symbolic_kind = BSymbolicNone | BSymbolicAll | BSymbolicFunctions | BSymbolicNonWeakFunctions | BSymbolicNonWeak

record loader_args =
  loader_output_kind :: output_kind
  b_symbolic :: b_symbolic_kind
  archive_semantics :: bool
  should_export_dynamic :: bool
  export_list :: "(u8 list \<Rightarrow> bool) option"

definition symbol_is_exported :: "loader_args \<Rightarrow> input_symbol \<Rightarrow> bool" where
  "symbol_is_exported args s =
     (case (export_list args, name_bytes s) of (Some listed, Some n) \<Rightarrow> listed n | _ \<Rightarrow> True)"

definition is_symbol_non_interposable :: "loader_args \<Rightarrow> input_symbol \<Rightarrow> bool" where
  "is_symbol_non_interposable args s \<longleftrightarrow>
     st_visibility s \<noteq> STV_DEFAULT \<or> is_local s \<or> is_static_executable (loader_output_kind args)
     \<or> (\<not> is_undefined s
        \<and> (is_executable (loader_output_kind args)
           \<or> (archive_semantics args \<and> \<not> should_export_dynamic args)
           \<or> ((b_symbolic args = BSymbolicAll
               \<or> (b_symbolic args = BSymbolicFunctions \<and> is_func_symbol s)
               \<or> (b_symbolic args = BSymbolicNonWeak \<and> \<not> is_weak s)
               \<or> (b_symbolic args = BSymbolicNonWeakFunctions \<and> is_func_symbol s \<and> \<not> is_weak s))
              \<and> \<not> (export_list args \<noteq> None \<and> symbol_is_exported args s))))"

text \<open>What the two implementations of \<^verbatim>\<open>SymbolLoader\<close> provide.\<close>

datatype version_script = RustVersionScript | RegularVersionScript "u8 list \<Rightarrow> bool"

record symbol_loader =
  compute_value_flags :: "input_symbol \<Rightarrow> value_flags"
  should_downgrade_to_local :: "u8 list \<Rightarrow> bool"
  downgrades_all :: bool
  should_ignore_symbol :: "input_symbol \<Rightarrow> bool"
  get_name_and_version :: "input_symbol \<Rightarrow> nat \<Rightarrow> raw_symbol_name option"

definition regular_value_flags :: "loader_args \<Rightarrow> input_symbol \<Rightarrow> value_flags" where
  "regular_value_flags args s =
     (let fl = (if is_absolute_symbol s then ABSOLUTE else if is_ifunc_symbol s then IFUNC
                else if is_undefined s then ABSOLUTE else 0)
      in if is_symbol_non_interposable args s then fl OR NON_INTERPOSABLE else fl)"

definition regular_loader :: "loader_args \<Rightarrow> version_script \<Rightarrow> symbol_loader" where
  "regular_loader args script =
     \<lparr>compute_value_flags = regular_value_flags args,
      should_downgrade_to_local = (case script of RustVersionScript \<Rightarrow> (\<lambda>_. True) | RegularVersionScript local \<Rightarrow> local),
      downgrades_all = (script = RustVersionScript),
      should_ignore_symbol = (\<lambda>_. False),
      get_name_and_version = (\<lambda>s _. map_option parse_symbol_name (name_bytes s))\<rparr>"

definition dynamic_value_flags :: "input_symbol \<Rightarrow> value_flags" where
  "dynamic_value_flags s =
     (let fl = DYNAMIC;
          fl = (if is_func_symbol s \<or> is_ifunc_symbol s then fl OR FUNCTION_FLAG else fl)
      in if is_undefined s then fl OR ABSOLUTE else fl)"

definition dynamic_loader :: "(nat \<times> bool) list \<Rightarrow> u8 list option list \<Rightarrow> symbol_loader" where
  "dynamic_loader versym names =
     \<lparr>compute_value_flags = dynamic_value_flags,
      should_downgrade_to_local = (\<lambda>_. False),
      downgrades_all = False,
      should_ignore_symbol = (\<lambda>s. st_visibility s = STV_HIDDEN),
      get_name_and_version = (\<lambda>s i. map_option (symbol_name_and_version versym names i) (name_bytes s))\<rparr>"

text \<open>
  What is written while the symbols of a group are read: for every symbol its flags, its first definition and its
  file; and, sorted into buckets by their hash, the names that are to enter the table.
\<close>

type_synonym pending_symbol = "symbol_id \<times> u8 list"
type_synonym pending_versioned_symbol = "symbol_id \<times> u8 list \<times> u8 list"
type_synonym load_outputs = "(pending_symbol list \<times> pending_versioned_symbol list) list"

definition bucket_index :: "(u8 list \<Rightarrow> u64) \<Rightarrow> nat \<Rightarrow> symbol_name \<Rightarrow> nat" where
  "bucket_index h n key = unat (name_hash h key) mod n"

definition add_non_versioned :: "(u8 list \<Rightarrow> u64) \<Rightarrow> pending_symbol \<Rightarrow> load_outputs \<Rightarrow> load_outputs" where
  "add_non_versioned h p outs =
     (let b = bucket_index h (length outs) (Unversioned (snd p)) in outs[b := (fst (outs ! b) @ [p], snd (outs ! b))])"

definition add_versioned :: "(u8 list \<Rightarrow> u64) \<Rightarrow> pending_versioned_symbol \<Rightarrow> load_outputs \<Rightarrow> load_outputs" where
  "add_versioned h p outs =
     (let b = bucket_index h (length outs) (case snd p of (n, v) \<Rightarrow> Versioned n v)
      in outs[b := (fst (outs ! b), snd (outs ! b) @ [p])])"

record symbol_writer =
  next_symbol_id :: symbol_id
  out_flags :: "value_flags list"
  out_resolutions :: "symbol_id list"
  out_files :: "file_id list"
  load_outputs :: load_outputs

datatype load_error = NameUnreadable nat | TooManySymbols

definition set_next :: "value_flags \<Rightarrow> symbol_id \<Rightarrow> file_id \<Rightarrow> symbol_writer \<Rightarrow> load_error + symbol_writer" where
  "set_next fl resolution f w =
     (case add_usize (next_symbol_id w) 1 of
        None \<Rightarrow> Inl TooManySymbols
      | Some n \<Rightarrow> Inr (w\<lparr>next_symbol_id := n, out_flags := out_flags w @ [fl],
                         out_resolutions := out_resolutions w @ [resolution], out_files := out_files w @ [f]\<rparr>))"

definition downgraded_flags :: "symbol_loader \<Rightarrow> input_symbol \<Rightarrow> u8 list \<Rightarrow> value_flags \<Rightarrow> value_flags" where
  "downgraded_flags loader s name fl =
     (if should_downgrade_to_local loader name
      then if \<not> downgrades_all loader \<and> \<not> is_tls_symbol s then (fl OR DOWNGRADE_TO_LOCAL) OR NON_INTERPOSABLE
           else fl OR DOWNGRADE_TO_LOCAL
      else fl)"

definition add_pending :: "(u8 list \<Rightarrow> u64) \<Rightarrow> symbol_id \<times> raw_symbol_name \<Rightarrow> load_outputs \<Rightarrow> load_outputs" where
  "add_pending h p outs =
     (case p of (i, info) \<Rightarrow>
        let outs = (if is_default info then add_non_versioned h (i, raw_name info) outs else outs)
        in case version_name info of
             Some v \<Rightarrow> add_versioned h (i, raw_name info, v) outs
           | None \<Rightarrow> outs)"

definition load_symbol ::
    "symbol_loader \<Rightarrow> (u8 list \<Rightarrow> u64) \<Rightarrow> file_id \<Rightarrow> symbol_id \<Rightarrow> input_symbol \<Rightarrow> symbol_writer \<Rightarrow> load_error + symbol_writer" where
  "load_symbol loader h f base s w =
     (let i = next_symbol_id w;
          fl = compute_value_flags loader s;
          local_index = unat (i - base)
      in if is_undefined s \<or> should_ignore_symbol loader s then set_next fl 0 f w
         else if is_local s then set_next fl i f w
         else case get_name_and_version loader s local_index of
                None \<Rightarrow> Inl (NameUnreadable local_index)
              | Some info \<Rightarrow> set_next (downgraded_flags loader s (raw_name info) fl) i f
                  (w\<lparr>load_outputs := add_pending h (i, info) (load_outputs w)\<rparr>))"

fun load_symbols_from ::
    "symbol_loader \<Rightarrow> (u8 list \<Rightarrow> u64) \<Rightarrow> file_id \<Rightarrow> symbol_id \<Rightarrow> input_symbol list \<Rightarrow> symbol_writer \<Rightarrow> load_error + symbol_writer" where
  "load_symbols_from loader h f base [] w = Inr w"
| "load_symbols_from loader h f base (s # ss) w =
     (case load_symbol loader h f base s w of Inl e \<Rightarrow> Inl e | Inr w' \<Rightarrow> load_symbols_from loader h f base ss w')"

definition load_symbols ::
    "symbol_loader \<Rightarrow> (u8 list \<Rightarrow> u64) \<Rightarrow> file_id \<Rightarrow> input_symbol list \<Rightarrow> symbol_writer \<Rightarrow> load_error + symbol_writer" where
  "load_symbols loader h f ss w = load_symbols_from loader h f (next_symbol_id w) ss w"

text \<open>
  What is expected: the symbols that are definitions here, the names that other files may refer to, in order, and
  the flags.
\<close>

definition is_definition :: "symbol_loader \<Rightarrow> input_symbol \<Rightarrow> bool" where
  "is_definition loader s \<longleftrightarrow> \<not> is_undefined s \<and> \<not> should_ignore_symbol loader s"

definition symbol_exports :: "symbol_loader \<Rightarrow> symbol_id \<Rightarrow> nat \<times> input_symbol \<Rightarrow> (symbol_id \<times> raw_symbol_name) list" where
  "symbol_exports loader base = (\<lambda>(k, s).
     if is_definition loader s \<and> \<not> is_local s
     then (case get_name_and_version loader s k of Some info \<Rightarrow> [(base + of_nat k, info)] | None \<Rightarrow> []) else [])"

definition initial_flags :: "symbol_loader \<Rightarrow> nat \<times> input_symbol \<Rightarrow> value_flags" where
  "initial_flags loader = (\<lambda>(k, s).
     if is_definition loader s \<and> \<not> is_local s
     then downgraded_flags loader s (case get_name_and_version loader s k of Some info \<Rightarrow> raw_name info | None \<Rightarrow> [])
       (compute_value_flags loader s)
     else compute_value_flags loader s)"

definition initial_definition :: "symbol_loader \<Rightarrow> symbol_id \<Rightarrow> nat \<times> input_symbol \<Rightarrow> symbol_id" where
  "initial_definition loader base = (\<lambda>(k, s). if is_definition loader s then base + of_nat k else 0)"

text \<open>What a writer holds after symbols of which the first has the number \<open>k\<close> in its file.\<close>

definition wrote ::
    "symbol_loader \<Rightarrow> (u8 list \<Rightarrow> u64) \<Rightarrow> file_id \<Rightarrow> symbol_id \<Rightarrow> nat \<Rightarrow> input_symbol list \<Rightarrow> symbol_writer \<Rightarrow> symbol_writer \<Rightarrow> bool" where
  "wrote loader h f base k ss w w' \<longleftrightarrow>
     unat (next_symbol_id w') = unat base + k + length ss
     \<and> out_flags w' = out_flags w @ map (initial_flags loader) (enumerate k ss)
     \<and> out_resolutions w' = out_resolutions w @ map (initial_definition loader base) (enumerate k ss)
     \<and> out_files w' = out_files w @ replicate (length ss) f
     \<and> load_outputs w' = fold (add_pending h) (concat (map (symbol_exports loader base) (enumerate k ss))) (load_outputs w)"

lemma load_symbol_spec:
  assumes "load_symbol loader h f base s w = Inr w'" "unat (next_symbol_id w) = unat base + k"
  shows "wrote loader h f base k [s] w w'"
proof -
  have "add_usize base k = Some (next_symbol_id w)" using assms(2) by (simp add: unat_add_usize)
  then have i: "next_symbol_id w = base + of_nat k" by (simp add: add_usize_def split: if_splits)
  have "unat (next_symbol_id w - base) = k" using assms(2) by (simp add: unat_sub word_le_nat_alt)
  with assms i show ?thesis
    by (auto simp: wrote_def load_symbol_def set_next_def Let_def is_definition_def symbol_exports_def initial_flags_def
        initial_definition_def unat_add_usize split: if_splits option.splits)
qed

lemma wrote_trans:
  "wrote loader h f base k xs u v \<Longrightarrow> wrote loader h f base (k + length xs) ys v w \<Longrightarrow> wrote loader h f base k (xs @ ys) u w"
  by (simp add: wrote_def enumerate_append_eq replicate_add)

lemma load_symbols_from_spec:
  "load_symbols_from loader h f base ss w = Inr w' \<Longrightarrow> unat (next_symbol_id w) = unat base + k
     \<Longrightarrow> wrote loader h f base k ss w w'"
proof (induction ss arbitrary: w k)
  case (Cons s ss)
  from Cons.prems(1) obtain v where v: "load_symbol loader h f base s w = Inr v"
    "load_symbols_from loader h f base ss v = Inr w'"
    by (auto split: sum.splits)
  have one: "wrote loader h f base k [s] w v" by (rule load_symbol_spec [OF v(1) Cons.prems(2)])
  then have "wrote loader h f base (Suc k) ss v w'" using Cons.IH [OF v(2)] by (simp add: wrote_def)
  with wrote_trans [OF one] show ?case by simp
qed (simp add: wrote_def)

text \<open>C38: Loading the symbols of an object. If it succeeds, the symbols have the ids that follow the last one
  given out, in the order of the file, without a gap; a symbol that the object does not define, or a hidden one of
  a shared library, is given the undefined definition 0 and every other one itself; and exactly the definitions
  that are not local enter the table of names, each once, in order: by name if its version is the default one or
  it has none, and by name and version if it has one.\<close>

theorem load_symbols_spec:
  assumes "load_symbols loader h f ss w = Inr w'"
  shows "(\<forall>k \<le> length ss. offset_to_id \<lparr>start_symbol_id = next_symbol_id w, num_symbols = length ss\<rparr> k
            = Some (next_symbol_id w + of_nat k))
    \<and> next_symbol_id w' = next_symbol_id w + of_nat (length ss)
    \<and> wrote loader h f (next_symbol_id w) 0 ss w w'"
proof -
  have w: "wrote loader h f (next_symbol_id w) 0 ss w w'"
    using load_symbols_from_spec [OF assms [unfolded load_symbols_def], of 0] by simp
  then have n: "unat (next_symbol_id w) + length ss = unat (next_symbol_id w')" by (simp add: wrote_def)
  then have lt: "unat (next_symbol_id w) + length ss < 2 ^ 32" using unsigned_less [of "next_symbol_id w'"] by simp
  have "add_usize (next_symbol_id w) (length ss) = Some (next_symbol_id w')" using n by (simp add: unat_add_usize)
  with lt w show ?thesis by (auto simp: offset_to_id_def add_usize_def split: if_splits)
qed

text \<open>A shared library with a definition of a version that is not the default one, and a reference.\<close>

definition two_symbols :: "input_symbol list" where
  "two_symbols =
     (let s = \<lparr>is_weak = False, is_common = False, is_gnu_unique = False, symbol_size = 8, name_bytes = Some [102],
         st_visibility = STV_DEFAULT, is_undefined = False, is_local = False, is_absolute_symbol = False,
         is_ifunc_symbol = False, is_func_symbol = True, is_tls_symbol = False\<rparr>
      in [s, s\<lparr>name_bytes := Some [103], is_undefined := True\<rparr>])"

theorem load_symbols_spec_witness:
  "case load_symbols (dynamic_loader [(2, True), (0, False)] [None, None, Some [49]]) (\<lambda>_. 0) 3 two_symbols
     \<lparr>next_symbol_id = 7, out_flags = [], out_resolutions = [], out_files = [], load_outputs = [([], [])]\<rparr> of
     Inl _ \<Rightarrow> False
   | Inr w' \<Rightarrow> load_outputs w' = [([], [(7, [102], [49])])]"
proof -
  define loader where "loader = dynamic_loader [(2, True), (0, False)] [None, None, Some [49]]"
  define w where "w = \<lparr>next_symbol_id = 7, out_flags = [], out_resolutions = [], out_files = [], load_outputs = [([], [])]\<rparr>"
  note defs = loader_def w_def two_symbols_def dynamic_loader_def load_symbols_def load_symbol_def set_next_def add_usize_def
    Let_def symbol_name_and_version_def lookup_version_def add_pending_def add_versioned_def bucket_index_def downgraded_flags_def
  have "\<exists>w'. load_symbols loader (\<lambda>_. 0) 3 two_symbols w = Inr w'" by (simp add: defs)
  then obtain w' where w': "load_symbols loader (\<lambda>_. 0) 3 two_symbols w = Inr w'" by blast
  from load_symbols_spec [OF w'] have "load_outputs w' = [([], [(7, [102], [49])])]"
    by (simp add: wrote_def symbol_exports_def is_definition_def defs)
  with w' show ?thesis by (simp add: loader_def w_def)
qed

end
