(* ===== verification/Symbol_Table.thy ===== *)
theory Symbol_Table
  imports Symbol_Names
begin

text \<open>
  The table of the global names (\<^verbatim>\<open>SymbolBucket\<close>, \<^verbatim>\<open>populate_symbol_db\<close>, \<^verbatim>\<open>get\<close> of
  \<^verbatim>\<open>reld-core/src/symbol_db.rs\<close>). Every bucket is filled by one thread; together they implement one map from a
  name to its definitions in the order of the inputs.
\<close>

section \<open>Buckets\<close>

record symbol_bucket =
  name_to_id :: "u8 list \<rightharpoonup> symbol_id"
  versioned_name_to_id :: "u8 list \<times> u8 list \<rightharpoonup> symbol_id"
  alternative_definitions :: "symbol_id \<rightharpoonup> symbol_id list"
  alternative_versioned_definitions :: "symbol_id \<rightharpoonup> symbol_id list"

definition empty_bucket :: symbol_bucket where
  "empty_bucket = \<lparr>name_to_id = Map.empty, versioned_name_to_id = Map.empty,
     alternative_definitions = Map.empty, alternative_versioned_definitions = Map.empty\<rparr>"

text \<open>\<^verbatim>\<open>entry(k).or_default().push(v)\<close>.\<close>

definition push_entry :: "'k \<Rightarrow> 'v \<Rightarrow> ('k \<rightharpoonup> 'v list) \<Rightarrow> ('k \<rightharpoonup> 'v list)" where
  "push_entry k v m = m(k \<mapsto> (case m k of None \<Rightarrow> [] | Some vs \<Rightarrow> vs) @ [v])"

definition add_extra_symbol_definition :: "symbol_id \<Rightarrow> symbol_id \<Rightarrow> symbol_bucket \<Rightarrow> symbol_bucket" where
  "add_extra_symbol_definition first_id new_id b =
     b\<lparr>alternative_definitions := push_entry first_id new_id (alternative_definitions b)\<rparr>"

definition add_symbol :: "pending_symbol \<Rightarrow> symbol_bucket \<Rightarrow> symbol_bucket" where
  "add_symbol p b =
     (case name_to_id b (snd p) of
        Some first_id \<Rightarrow> add_extra_symbol_definition first_id (fst p) b
      | None \<Rightarrow> b\<lparr>name_to_id := (name_to_id b)(snd p \<mapsto> fst p)\<rparr>)"

definition add_versioned_symbol :: "pending_versioned_symbol \<Rightarrow> symbol_bucket \<Rightarrow> symbol_bucket" where
  "add_versioned_symbol p b =
     (case versioned_name_to_id b (snd p) of
        Some first_id \<Rightarrow>
          b\<lparr>alternative_versioned_definitions := push_entry first_id (fst p) (alternative_versioned_definitions b)\<rparr>
      | None \<Rightarrow> b\<lparr>versioned_name_to_id := (versioned_name_to_id b)(snd p \<mapsto> fst p)\<rparr>)"

definition add_outputs :: "nat \<Rightarrow> load_outputs \<Rightarrow> symbol_bucket \<Rightarrow> symbol_bucket" where
  "add_outputs k outs b =
     fold add_versioned_symbol (snd (outs ! k)) (fold add_symbol (fst (outs ! k)) b)"

definition populate_symbol_db :: "load_outputs list \<Rightarrow> symbol_bucket list \<Rightarrow> symbol_bucket list" where
  "populate_symbol_db groups buckets =
     map (\<lambda>(k, b). fold (add_outputs k) groups b) (enumerate 0 buckets)"

section \<open>Lookups\<close>

definition bucket_for :: "(u8 list \<Rightarrow> u64) \<Rightarrow> symbol_bucket list \<Rightarrow> symbol_name \<Rightarrow> symbol_bucket" where
  "bucket_for h buckets key = buckets ! bucket_index h (length buckets) key"

definition get_unversioned :: "(u8 list \<Rightarrow> u64) \<Rightarrow> symbol_bucket list \<Rightarrow> u8 list \<Rightarrow> symbol_id option" where
  "get_unversioned h buckets name = name_to_id (bucket_for h buckets (Unversioned name)) name"

text \<open>What the lookup reads of the inputs: which file a symbol is of a shared library, and the strength it has there.\<close>

record symbol_inputs =
  in_dynamic_file :: "symbol_id \<Rightarrow> bool"
  input_strength :: "symbol_id \<Rightarrow> symbol_strength"

definition get_non_dynamic :: "symbol_inputs \<Rightarrow> symbol_id \<Rightarrow> symbol_bucket \<Rightarrow> symbol_id option" where
  "get_non_dynamic inp i b =
     (case alternative_definitions b i of
        None \<Rightarrow> None
      | Some alts \<Rightarrow>
          best_symbol (fold (\<lambda>alt sel. if in_dynamic_file inp alt then sel
                                       else consider_symbol alt (input_strength inp alt) sel) alts new_selector))"

definition get_symbol ::
    "symbol_inputs \<Rightarrow> (u8 list \<Rightarrow> u64) \<Rightarrow> symbol_bucket list \<Rightarrow> symbol_name \<Rightarrow> bool \<Rightarrow> symbol_id option" where
  "get_symbol inp h buckets key allow_dynamic =
     (let b = bucket_for h buckets key in
      case (case key of Unversioned n \<Rightarrow> name_to_id b n | Versioned n v \<Rightarrow> versioned_name_to_id b (n, v)) of
        None \<Rightarrow> None
      | Some i \<Rightarrow> if \<not> allow_dynamic \<and> in_dynamic_file inp i then get_non_dynamic inp i b else Some i)"

text \<open>The wrapped names of \<^verbatim>\<open>--wrap\<close>.\<close>

definition override_name :: "(u8 list \<Rightarrow> u64) \<Rightarrow> u8 list \<Rightarrow> symbol_id \<Rightarrow> symbol_bucket list \<Rightarrow> symbol_bucket list" where
  "override_name h name i buckets =
     (let k = bucket_index h (length buckets) (Unversioned name)
      in buckets[k := (buckets ! k)\<lparr>name_to_id := (name_to_id (buckets ! k))(name \<mapsto> i)\<rparr>])"

definition REAL_PREFIX :: "u8 list" where "REAL_PREFIX = [95, 95, 114, 101, 97, 108, 95]"
definition WRAP_PREFIX :: "u8 list" where "WRAP_PREFIX = [95, 95, 119, 114, 97, 112, 95]"

definition wrap_symbol :: "(u8 list \<Rightarrow> u64) \<Rightarrow> u8 list \<Rightarrow> symbol_bucket list \<Rightarrow> symbol_bucket list" where
  "wrap_symbol h name buckets =
     (let orig = (case get_unversioned h buckets (REAL_PREFIX @ name) of
                    Some i \<Rightarrow> Some i
                  | None \<Rightarrow> get_unversioned h buckets name);
          buckets = (case get_unversioned h buckets (WRAP_PREFIX @ name) of
                       Some w \<Rightarrow> override_name h name w buckets
                     | None \<Rightarrow> buckets)
      in case orig of Some i \<Rightarrow> override_name h (REAL_PREFIX @ name) i buckets | None \<Rightarrow> buckets)"

definition apply_wrapped_symbol_overrides ::
    "(u8 list \<Rightarrow> u64) \<Rightarrow> u8 list list \<Rightarrow> symbol_bucket list \<Rightarrow> symbol_bucket list" where
  "apply_wrapped_symbol_overrides h wrap buckets = fold (wrap_symbol h) wrap buckets"

section \<open>The table as one map\<close>

text \<open>The definitions of a key in a sequence of entries, in order.\<close>

definition ids_of :: "'k \<Rightarrow> ('i \<times> 'k) list \<Rightarrow> 'i list" where
  "ids_of k ps = map fst (filter (\<lambda>p. snd p = k) ps)"

definition first_map :: "('i \<times> 'k) list \<Rightarrow> 'k \<rightharpoonup> 'i" where
  "first_map ps = (\<lambda>k. case ids_of k ps of [] \<Rightarrow> None | i # _ \<Rightarrow> Some i)"

definition rest_map :: "('i \<times> 'k) list \<Rightarrow> 'i \<rightharpoonup> 'i list" where
  "rest_map ps = (\<lambda>i. case map_of ps i of
       None \<Rightarrow> None
     | Some k \<Rightarrow> (case ids_of k ps of j # r \<Rightarrow> if j = i \<and> r \<noteq> [] then Some r else None | [] \<Rightarrow> None))"

lemma ids_of_append [simp]: "ids_of k (ps @ qs) = ids_of k ps @ ids_of k qs"
  by (simp add: ids_of_def)

lemma ids_of_single [simp]: "ids_of k [p] = (if snd p = k then [fst p] else [])"
  by (simp add: ids_of_def)

lemma ids_of_Nil [simp]: "ids_of k [] = []"
  by (simp add: ids_of_def)

lemma ids_of_in: "i \<in> set (ids_of k ps) \<longleftrightarrow> (i, k) \<in> set ps"
  by (force simp: ids_of_def)

lemma ids_of_distinct: "distinct (map fst ps) \<Longrightarrow> distinct (ids_of k ps)"
  by (auto simp: ids_of_def intro: distinct_map_filter)

lemma ids_of_key: "distinct (map fst ps) \<Longrightarrow> i \<in> set (ids_of k ps) \<Longrightarrow> map_of ps i = Some k"
  by (simp add: ids_of_in)

text \<open>One more entry: the table of first definitions, or the list of the others, is extended.\<close>

lemma first_map_snoc:
  "first_map (ps @ [p]) = (case first_map ps (snd p) of None \<Rightarrow> (first_map ps)(snd p \<mapsto> fst p) | Some _ \<Rightarrow> first_map ps)"
  by (rule ext) (auto simp: first_map_def split: list.splits)

lemma rest_map_snoc:
  assumes "distinct (map fst (ps @ [p]))"
  shows "rest_map (ps @ [p]) =
    (case first_map ps (snd p) of None \<Rightarrow> rest_map ps | Some i \<Rightarrow> push_entry i (fst p) (rest_map ps))"
proof (rule ext)
  fix j
  have d: "distinct (map fst ps)" "fst p \<notin> fst ` set ps" using assms by auto
  have mo: "map_of (ps @ [p]) j = (if j = fst p then Some (snd p) else map_of ps j)"
  proof (cases "map_of ps j")
    case None
    then show ?thesis by (cases p) (simp add: map_add_def)
  next
    case (Some k)
    then have "j \<noteq> fst p" using d(2) by (metis map_of_eq_None_iff option.distinct(1))
    with Some show ?thesis by (cases p) (simp add: map_add_def)
  qed
  have old: "fst p \<notin> set (ids_of (snd p) ps)" using d(2) by (auto simp: ids_of_in image_iff)
  have none: "map_of ps (fst p) = None" using d(2) by (simp add: map_of_eq_None_iff)
  show "rest_map (ps @ [p]) j =
    (case first_map ps (snd p) of None \<Rightarrow> rest_map ps | Some i \<Rightarrow> push_entry i (fst p) (rest_map ps)) j"
  proof (cases "ids_of (snd p) ps")
    case Nil
    have "k \<noteq> snd p" if "map_of ps j = Some k" for k
      using that Nil ids_of_in [of j k ps] by (auto dest: map_of_SomeD)
    with Nil mo none show ?thesis by (cases "map_of ps j"; cases "j = fst p") (simp_all add: rest_map_def first_map_def del: map_of_append)
  next
    case (Cons i r)
    have i: "map_of ps i = Some (snd p)" using ids_of_key [OF d(1), of i "snd p"] Cons by simp
    then have "i \<noteq> fst p" using none by auto
    moreover have "first_map ps (snd p) = Some i" using Cons by (simp add: first_map_def)
    ultimately show ?thesis
      using Cons mo none i by (cases "map_of ps j"; cases "j = i"; cases "j = fst p") (auto simp: rest_map_def push_entry_def simp del: map_of_append)
  qed
qed

section \<open>Filling the table\<close>

definition bucket_of :: "pending_symbol list \<Rightarrow> pending_versioned_symbol list \<Rightarrow> symbol_bucket" where
  "bucket_of ps vs = \<lparr>name_to_id = first_map ps, versioned_name_to_id = first_map vs,
     alternative_definitions = rest_map ps, alternative_versioned_definitions = rest_map vs\<rparr>"

lemma bucket_of_empty: "empty_bucket = bucket_of [] []"
  by (simp add: empty_bucket_def bucket_of_def first_map_def rest_map_def)

lemma add_symbol_bucket:
  "distinct (map fst (ps @ [p])) \<Longrightarrow> add_symbol p (bucket_of ps vs) = bucket_of (ps @ [p]) vs"
  by (simp add: add_symbol_def add_extra_symbol_definition_def bucket_of_def first_map_snoc rest_map_snoc split: option.splits)

lemma add_versioned_symbol_bucket:
  "distinct (map fst (vs @ [v])) \<Longrightarrow> add_versioned_symbol v (bucket_of ps vs) = bucket_of ps (vs @ [v])"
  by (simp add: add_versioned_symbol_def bucket_of_def first_map_snoc rest_map_snoc split: option.splits)

lemma fold_add_symbol:
  "distinct (map fst (ps @ qs)) \<Longrightarrow> fold add_symbol qs (bucket_of ps vs) = bucket_of (ps @ qs) vs"
proof (induction qs rule: rev_induct)
  case (snoc q qs)
  then show ?case using add_symbol_bucket [of "ps @ qs" q vs] by simp
qed simp

lemma fold_add_versioned_symbol:
  "distinct (map fst (vs @ ws)) \<Longrightarrow> fold add_versioned_symbol ws (bucket_of ps vs) = bucket_of ps (vs @ ws)"
proof (induction ws rule: rev_induct)
  case (snoc w ws)
  then show ?case using add_versioned_symbol_bucket [of "vs @ ws" w ps] by simp
qed simp

lemma fold_add_outputs:
  "distinct (map fst (concat (map (\<lambda>o'. fst (o' ! k)) groups))) \<Longrightarrow>
   distinct (map fst (concat (map (\<lambda>o'. snd (o' ! k)) groups))) \<Longrightarrow>
   fold (add_outputs k) groups empty_bucket
     = bucket_of (concat (map (\<lambda>o'. fst (o' ! k)) groups)) (concat (map (\<lambda>o'. snd (o' ! k)) groups))"
proof (induction groups rule: rev_induct)
  case (snoc g groups)
  then show ?case by (simp add: add_outputs_def fold_add_symbol fold_add_versioned_symbol)
qed (simp add: bucket_of_empty)

text \<open>What a group sends to the table: its exported names, and those with a version.\<close>

definition exported_names :: "(symbol_id \<times> raw_symbol_name) list \<Rightarrow> pending_symbol list" where
  "exported_names ex = map (\<lambda>(i, r). (i, raw_name r)) (filter (\<lambda>(i, r). is_default r) ex)"

definition exported_versions :: "(symbol_id \<times> raw_symbol_name) list \<Rightarrow> pending_versioned_symbol list" where
  "exported_versions ex =
     map (\<lambda>(i, r). (i, raw_name r, the (version_name r))) (filter (\<lambda>(i, r). version_name r \<noteq> None) ex)"

definition in_bucket :: "(u8 list \<Rightarrow> u64) \<Rightarrow> nat \<Rightarrow> nat \<Rightarrow> pending_symbol \<Rightarrow> bool" where
  "in_bucket h n k p \<longleftrightarrow> bucket_index h n (Unversioned (snd p)) = k"

definition in_versioned_bucket :: "(u8 list \<Rightarrow> u64) \<Rightarrow> nat \<Rightarrow> nat \<Rightarrow> pending_versioned_symbol \<Rightarrow> bool" where
  "in_versioned_bucket h n k p \<longleftrightarrow> bucket_index h n (case snd p of (m, v) \<Rightarrow> Versioned m v) = k"

definition group_outputs :: "(u8 list \<Rightarrow> u64) \<Rightarrow> nat \<Rightarrow> (symbol_id \<times> raw_symbol_name) list \<Rightarrow> load_outputs" where
  "group_outputs h n ex = fold (add_pending h) ex (replicate n ([], []))"

lemma add_pending_spec:
  assumes "k < length outs"
  shows "length (add_pending h p outs) = length outs"
    "add_pending h p outs ! k =
      (fst (outs ! k) @ filter (in_bucket h (length outs) k) (exported_names [p]),
       snd (outs ! k) @ filter (in_versioned_bucket h (length outs) k) (exported_versions [p]))"
  using assms
  by (auto simp: add_pending_def add_non_versioned_def add_versioned_def exported_names_def exported_versions_def
      in_bucket_def in_versioned_bucket_def Let_def nth_list_update split: prod.splits option.splits if_splits)

lemma group_outputs_spec:
  assumes "k < n"
  shows "length (group_outputs h n ex) = n \<and> group_outputs h n ex ! k =
    (filter (in_bucket h n k) (exported_names ex), filter (in_versioned_bucket h n k) (exported_versions ex))"
proof (induction ex rule: rev_induct)
  case Nil
  show ?case using assms by (simp add: group_outputs_def exported_names_def exported_versions_def)
next
  case (snoc p ex)
  have "group_outputs h n (ex @ [p]) = add_pending h p (group_outputs h n ex)" by (simp add: group_outputs_def)
  with snoc assms add_pending_spec [of k "group_outputs h n ex" h p] show ?case
    by (simp add: exported_names_def exported_versions_def)
qed

text \<open>The table of all groups, and the two sequences of definitions that it stands for.\<close>

definition symbol_table :: "(u8 list \<Rightarrow> u64) \<Rightarrow> nat \<Rightarrow> (symbol_id \<times> raw_symbol_name) list list \<Rightarrow> symbol_bucket list" where
  "symbol_table h n groups = populate_symbol_db (map (group_outputs h n) groups) (replicate n empty_bucket)"

definition all_names :: "(symbol_id \<times> raw_symbol_name) list list \<Rightarrow> pending_symbol list" where
  "all_names groups = concat (map exported_names groups)"

definition all_versions :: "(symbol_id \<times> raw_symbol_name) list list \<Rightarrow> pending_versioned_symbol list" where
  "all_versions groups = concat (map exported_versions groups)"

lemma exported_names_ids: "fst ` set (exported_names ex) \<subseteq> fst ` set ex"
  "fst ` set (exported_versions ex) \<subseteq> fst ` set ex"
  by (force simp: exported_names_def exported_versions_def)+

lemma exported_ids_distinct:
  assumes "distinct (map fst ex)"
  shows "distinct (map fst (exported_names ex))" "distinct (map fst (exported_versions ex))"
  using assms by (auto simp: exported_names_def exported_versions_def comp_def case_prod_unfold distinct_map_filter)

lemma exported_names_append:
  "exported_names (xs @ ys) = exported_names xs @ exported_names ys"
  "exported_versions (xs @ ys) = exported_versions xs @ exported_versions ys"
  by (simp_all add: exported_names_def exported_versions_def)

lemma all_names_concat:
  "all_names groups = exported_names (concat groups)" "all_versions groups = exported_versions (concat groups)"
  by (induction groups) (simp_all add: all_names_def all_versions_def exported_names_append,
    simp_all add: exported_names_def exported_versions_def)

lemma symbol_table_bucket:
  assumes "distinct (map fst (concat groups))" "k < n"
  shows "symbol_table h n groups ! k =
    bucket_of (filter (in_bucket h n k) (all_names groups)) (filter (in_versioned_bucket h n k) (all_versions groups))"
proof -
  have f: "concat (map (\<lambda>o'. fst (o' ! k)) (map (group_outputs h n) groups)) = filter (in_bucket h n k) (all_names groups)"
    "concat (map (\<lambda>o'. snd (o' ! k)) (map (group_outputs h n) groups)) = filter (in_versioned_bucket h n k) (all_versions groups)"
    using group_outputs_spec [OF assms(2), of h] by (induction groups) (simp_all add: all_names_def all_versions_def)
  have "distinct (map fst (filter P (all_names groups)))" "distinct (map fst (filter Q (all_versions groups)))" for P Q
    using exported_ids_distinct [OF assms(1)] by (simp_all add: all_names_concat distinct_map_filter)
  then have "fold (add_outputs k) (map (group_outputs h n) groups) empty_bucket =
    bucket_of (filter (in_bucket h n k) (all_names groups)) (filter (in_versioned_bucket h n k) (all_versions groups))"
    using fold_add_outputs [of k "map (group_outputs h n) groups"] by (simp only: f)
  then show ?thesis using assms(2) by (simp add: symbol_table_def populate_symbol_db_def nth_enumerate_eq)
qed

lemma length_symbol_table [simp]: "length (symbol_table h n groups) = n"
  by (simp add: symbol_table_def populate_symbol_db_def)

lemma ids_of_bucket:
  "bucket_index h n (Unversioned name) = k \<Longrightarrow> ids_of name (filter (in_bucket h n k) ps) = ids_of name ps"
  by (induction ps) (auto simp: ids_of_def in_bucket_def)

lemma ids_of_versioned_bucket:
  "bucket_index h n (Versioned name v) = k \<Longrightarrow> ids_of (name, v) (filter (in_versioned_bucket h n k) ps) = ids_of (name, v) ps"
  by (induction ps) (auto simp: ids_of_def in_versioned_bucket_def)

lemma rest_map_first:
  "distinct (map fst ps) \<Longrightarrow> ids_of k ps = i # r \<Longrightarrow> rest_map ps i = (if r = [] then None else Some r)"
  using ids_of_key [of ps i k] by (simp add: rest_map_def)

lemma rest_map_bucket:
  assumes "distinct (map fst (concat groups))"
  shows "ids_of name (all_names groups) = i # r \<Longrightarrow>
      rest_map (filter (in_bucket h n (bucket_index h n (Unversioned name))) (all_names groups)) i = (if r = [] then None else Some r)"
    "ids_of (name, v) (all_versions groups) = j # s \<Longrightarrow>
      rest_map (filter (in_versioned_bucket h n (bucket_index h n (Versioned name v))) (all_versions groups)) j
        = (if s = [] then None else Some s)"
proof -
  have "distinct (map fst (filter P (all_names groups)))" "distinct (map fst (filter Q (all_versions groups)))" for P Q
    using exported_ids_distinct [OF assms] by (simp_all add: all_names_concat distinct_map_filter)
  then show "ids_of name (all_names groups) = i # r \<Longrightarrow>
      rest_map (filter (in_bucket h n (bucket_index h n (Unversioned name))) (all_names groups)) i = (if r = [] then None else Some r)"
    "ids_of (name, v) (all_versions groups) = j # s \<Longrightarrow>
      rest_map (filter (in_versioned_bucket h n (bucket_index h n (Versioned name v))) (all_versions groups)) j
        = (if s = [] then None else Some s)"
    by (metis rest_map_first ids_of_bucket, metis rest_map_first ids_of_versioned_bucket)
qed

lemma bucket_index_less: "0 < n \<Longrightarrow> bucket_index h n key < n"
  by (simp add: bucket_index_def)

text \<open>C36: The table of names. However the names are hashed and however many buckets there are, the table filled
  from the groups is one map: a name leads to its first definition in the order of the inputs, and behind that
  definition the bucket keeps the other definitions of the name, in order; the same holds for names with versions,
  apart from each other.\<close>

theorem table_is_one_map:
  assumes "distinct (map fst (concat groups))" "0 < n"
  shows "(case ids_of name (all_names groups) of
            [] \<Rightarrow> get_unversioned h (symbol_table h n groups) name = None
          | i # r \<Rightarrow>
              get_unversioned h (symbol_table h n groups) name = Some i
              \<and> alternative_definitions (bucket_for h (symbol_table h n groups) (Unversioned name)) i
                  = (if r = [] then None else Some r))
    \<and> (case ids_of (name, v) (all_versions groups) of
            [] \<Rightarrow> versioned_name_to_id (bucket_for h (symbol_table h n groups) (Versioned name v)) (name, v) = None
          | i # r \<Rightarrow>
              versioned_name_to_id (bucket_for h (symbol_table h n groups) (Versioned name v)) (name, v) = Some i
              \<and> alternative_versioned_definitions (bucket_for h (symbol_table h n groups) (Versioned name v)) i
                  = (if r = [] then None else Some r))"
proof -
  note bucket = symbol_table_bucket [OF assms(1) bucket_index_less [OF assms(2)]]
  show ?thesis
    by (auto simp: get_unversioned_def bucket_for_def bucket bucket_of_def first_map_def ids_of_bucket
        ids_of_versioned_bucket rest_map_bucket [OF assms(1)] split: list.splits)
qed

text \<open>Two definitions of a name and one of a version, in two buckets of three.\<close>

theorem table_is_one_map_witness:
  "get_unversioned (\<lambda>n. of_nat (length n))
     (symbol_table (\<lambda>n. of_nat (length n)) 3
        [[(1, \<lparr>raw_name = [102], version_name = None, is_default = True\<rparr>)],
         [(2, \<lparr>raw_name = [102], version_name = Some [49], is_default = True\<rparr>)]]) [102] = Some 1"
  using table_is_one_map [where groups = "[[(1, \<lparr>raw_name = [102], version_name = None, is_default = True\<rparr>)],
         [(2, \<lparr>raw_name = [102], version_name = Some [49], is_default = True\<rparr>)]]" and n = 3 and name = "[102]"
         and h = "\<lambda>n. of_nat (length n)"]
  by (simp add: all_names_def exported_names_def ids_of_def)

section \<open>What a lookup returns\<close>

text \<open>The non-dynamic definitions among the others are chosen from as the alternatives of a name are.\<close>

definition lookup_env :: "symbol_inputs \<Rightarrow> select_env" where
  "lookup_env inp = \<lparr>strength_in = input_strength inp, in_comdat_group = (\<lambda>_. False), allow_multiple_definitions = True\<rparr>"

definition file_flags :: "symbol_inputs \<Rightarrow> symbol_id \<Rightarrow> value_flags" where
  "file_flags inp i = (if in_dynamic_file inp i then DYNAMIC else 0)"

lemma is_dynamic_file_flags [simp]: "is_dynamic (file_flags inp i) = in_dynamic_file inp i"
  by (simp add: is_dynamic_def file_flags_def DYNAMIC_def contains_flag bit_flag)

lemma get_non_dynamic_preferred:
  "alternative_definitions b i = Some alts \<Longrightarrow> get_non_dynamic inp i b = preferred (lookup_env inp) (file_flags inp) alts"
proof -
  have "fold (\<lambda>alt sel. if in_dynamic_file inp alt then sel else consider_symbol alt (input_strength inp alt) sel) alts new_selector
      = selector_of (lookup_env inp) (file_flags inp) alts"
  proof (induction alts rule: rev_induct)
    case Nil
    show ?case by (simp add: selector_of_Nil)
  next
    case (snoc alt alts)
    then show ?case by (simp add: selector_of_snoc) (simp add: lookup_env_def)
  qed
  then show "alternative_definitions b i = Some alts \<Longrightarrow> ?thesis"
    by (simp add: get_non_dynamic_def selector_of_best)
qed

text \<open>C37: What a reference by name is resolved to. It is the first definition of the name; but if that one is in
  a shared library and the reference may not be to one, it is the preferred one of the other definitions that are
  not in shared libraries, the strong before the common and the common before the weak, or nothing.\<close>

theorem get_symbol_spec:
  assumes "distinct (map fst (concat groups))" "0 < n"
  shows "get_symbol inp h (symbol_table h n groups) (Unversioned name) allow_dynamic =
    (case ids_of name (all_names groups) of
       [] \<Rightarrow> None
     | i # r \<Rightarrow> if allow_dynamic \<or> \<not> in_dynamic_file inp i then Some i
                else preferred (lookup_env inp) (file_flags inp) r)"
proof -
  note bucket = symbol_table_bucket [OF assms(1) bucket_index_less [OF assms(2)]]
  show ?thesis
  proof (cases "ids_of name (all_names groups)")
    case Nil
    then show ?thesis
      by (simp add: get_symbol_def bucket_for_def bucket bucket_of_def first_map_def ids_of_bucket)
  next
    case (Cons i r)
    define b where "b = bucket_for h (symbol_table h n groups) (Unversioned name)"
    have b: "name_to_id b name = Some i" "alternative_definitions b i = (if r = [] then None else Some r)"
      using Cons by (simp_all add: b_def bucket_for_def bucket bucket_of_def first_map_def ids_of_bucket rest_map_bucket [OF assms(1)])
    have "get_non_dynamic inp i b = preferred (lookup_env inp) (file_flags inp) r"
    proof (cases "r = []")
      case True
      then show ?thesis using b(2)
        by (simp add: get_non_dynamic_def preferred_def strong_definitions_def of_strength_def first_largest_def)
    qed (use b(2) get_non_dynamic_preferred in simp)
    with b(1) Cons show ?thesis by (simp add: get_symbol_def Let_def flip: b_def)
  qed
qed

text \<open>A weak definition is found behind one in a shared library.\<close>

definition two_inputs :: symbol_inputs where
  "two_inputs = \<lparr>in_dynamic_file = (\<lambda>i. i = 1), input_strength = (\<lambda>_. Weak)\<rparr>"

theorem get_symbol_spec_witness:
  "get_symbol two_inputs (\<lambda>_. 0)
     (symbol_table (\<lambda>_. 0) 2
        [[(1, \<lparr>raw_name = [102], version_name = None, is_default = True\<rparr>)],
         [(2, \<lparr>raw_name = [102], version_name = None, is_default = True\<rparr>)]]) (Unversioned [102]) False = Some 2"
  by (subst get_symbol_spec)
    (simp_all add: all_names_def exported_names_def ids_of_def two_inputs_def lookup_env_def preferred_def
      strong_definitions_def of_strength_def first_largest_def image_iff)

text \<open>
  For names with versions the alternatives are looked for in the table of the names without versions, so that
  the definition is missed that is not in a shared library.
\<close>

lemma versioned_alternative_missed:
  "get_symbol two_inputs (\<lambda>_. 0)
     (symbol_table (\<lambda>_. 0) 1
        [[(1, \<lparr>raw_name = [102], version_name = Some [49], is_default = False\<rparr>)],
         [(2, \<lparr>raw_name = [102], version_name = Some [49], is_default = False\<rparr>)]]) (Versioned [102] [49]) False = None"
proof -
  let ?gs = "[[(1, \<lparr>raw_name = [102 :: u8], version_name = Some [49 :: u8], is_default = False\<rparr>)],
         [(2 :: symbol_id, \<lparr>raw_name = [102], version_name = Some [49], is_default = False\<rparr>)]]"
  have "symbol_table (\<lambda>_. 0) 1 ?gs ! 0 = bucket_of [] [(1, [102], [49]), (2, [102], [49])]"
    by (subst symbol_table_bucket)
      (simp_all add: all_names_def all_versions_def exported_names_def exported_versions_def in_versioned_bucket_def bucket_index_def)
  then show ?thesis
    by (simp add: get_symbol_def bucket_for_def bucket_index_def bucket_of_def first_map_def ids_of_def rest_map_def
        two_inputs_def get_non_dynamic_def)
qed

section \<open>Wrapped names\<close>

lemma length_override_name [simp]: "length (override_name h name i buckets) = length buckets"
  by (simp add: override_name_def Let_def)

lemma get_override:
  assumes "buckets \<noteq> []"
  shows "get_unversioned h (override_name h name i buckets) m = (if m = name then Some i else get_unversioned h buckets m)"
proof -
  have "bucket_index h (length buckets) key < length buckets" for key using assms by (simp add: bucket_index_def)
  then show ?thesis
    by (simp add: get_unversioned_def bucket_for_def override_name_def Let_def nth_list_update)
qed

lemma prefixes_differ: "REAL_PREFIX @ name \<noteq> name" "WRAP_PREFIX @ name \<noteq> name" "REAL_PREFIX @ name \<noteq> WRAP_PREFIX @ name"
  by (simp_all add: REAL_PREFIX_def WRAP_PREFIX_def not_Cons_self2)

text \<open>
  After one call, references to the name go to the wrapper, and references to the name with the prefix go to the
  original.
\<close>

lemma wrap_symbol_spec:
  assumes "buckets \<noteq> []"
    and orig: "orig = (case get_unversioned h buckets (REAL_PREFIX @ name) of Some i \<Rightarrow> Some i | None \<Rightarrow> get_unversioned h buckets name)"
    and wrapper: "wrapper = get_unversioned h buckets (WRAP_PREFIX @ name)"
  shows "get_unversioned h (wrap_symbol h name buckets) m =
    (if m = REAL_PREFIX @ name \<and> orig \<noteq> None then orig
     else if m = name \<and> wrapper \<noteq> None then wrapper else get_unversioned h buckets m)"
proof -
  have ne: "override_name h name i buckets \<noteq> []" for i
    using assms(1) length_override_name [of h name i buckets] by (metis length_0_conv)
  show ?thesis
    using assms(1) ne prefixes_differ [of name]
    by (auto simp: wrap_symbol_def Let_def get_override orig wrapper split: option.splits)
qed

lemma wrap_symbol_nonempty: "buckets \<noteq> [] \<Longrightarrow> wrap_symbol h name buckets \<noteq> []"
  by (auto simp: wrap_symbol_def Let_def override_name_def split: option.splits)

text \<open>Wrapping a name twice, as happens when the outputs of the compiler plugin are linked. If the name or the
  original had a definition when it was first wrapped, the second call changes no lookup. If it had none, the
  first call leads the name to the wrapper and the second the original to the wrapper as well, so that the wrapper
  calls itself where it means the original.\<close>

theorem wrapping_twice:
  assumes "buckets \<noteq> []" "get_unversioned h buckets (REAL_PREFIX @ name) = None"
    "get_unversioned h buckets (WRAP_PREFIX @ name) = Some w"
  shows "get_unversioned h (wrap_symbol h name (wrap_symbol h name buckets)) m =
    (if get_unversioned h buckets name = None \<and> m = REAL_PREFIX @ name then Some w
     else get_unversioned h (wrap_symbol h name buckets) m)"
  using assms(2,3) prefixes_differ [of name]
  by (auto simp: wrap_symbol_spec [OF assms(1) refl refl] wrap_symbol_spec [OF wrap_symbol_nonempty [OF assms(1)] refl refl]
      split: option.splits)

text \<open>A wrapper for a name without a definition.\<close>

theorem wrapping_twice_witness:
  "get_unversioned (\<lambda>_. 0) (wrap_symbol (\<lambda>_. 0) [102] (wrap_symbol (\<lambda>_. 0) [102]
     [empty_bucket\<lparr>name_to_id := [WRAP_PREFIX @ [102] \<mapsto> 5]\<rparr>])) (REAL_PREFIX @ [102]) = Some 5"
  using wrapping_twice [where h = "\<lambda>_. 0" and buckets = "[empty_bucket\<lparr>name_to_id := [WRAP_PREFIX @ [102] \<mapsto> 5]\<rparr>]"
    and name = "[102]" and w = 5 and m = "REAL_PREFIX @ [102]"]
  by (simp add: get_unversioned_def bucket_for_def bucket_index_def empty_bucket_def REAL_PREFIX_def WRAP_PREFIX_def)

end
