(* ===== verification/Symbol_Resolve.thy ===== *)
theory Symbol_Resolve
  imports Symbol_Table "HOL-Library.Multiset"
begin

text \<open>
  Settling which definition every name has once the files are loaded: \<^verbatim>\<open>process_alternatives\<close>,
  \<^verbatim>\<open>resolve_alternative_symbol_definitions\<close> and the lookup \<^verbatim>\<open>definition\<close> of \<^verbatim>\<open>reld-core/src/symbol_db.rs\<close>.
  The buckets are processed by threads that store to shared tables; the order of the stores is arbitrary here.
\<close>

section \<open>The alternatives of one name\<close>

text \<open>The tables that the threads share.\<close>

record resolve_state =
  definitions :: "symbol_id \<Rightarrow> symbol_id"
  symbol_flags :: "symbol_id \<Rightarrow> value_flags"
  error_queue :: "symbol_error list"

type_synonym alternatives = "symbol_id \<times> symbol_id list"

definition members :: "alternatives \<Rightarrow> symbol_id list" where
  "members g = fst g # snd g"

definition merged_visibility :: "(symbol_id \<Rightarrow> visibility) \<Rightarrow> alternatives \<Rightarrow> visibility" where
  "merged_visibility vis g = fold (\<lambda>i v. max v (vis i)) (snd g) (vis (fst g))"

definition update_definition :: "symbol_id \<Rightarrow> symbol_id \<Rightarrow> resolve_state \<Rightarrow> resolve_state" where
  "update_definition new i st = st\<lparr>definitions := (definitions st)(i := new)\<rparr>"

definition merge_visibility :: "visibility \<Rightarrow> symbol_id \<Rightarrow> resolve_state \<Rightarrow> resolve_state" where
  "merge_visibility v i st =
     st\<lparr>symbol_flags := (symbol_flags st)(i := handle_non_default_visibility v (symbol_flags st i))\<rparr>"

definition process_group ::
    "select_env \<Rightarrow> (symbol_id \<Rightarrow> visibility) \<Rightarrow> alternatives \<Rightarrow> resolve_state \<Rightarrow> resolve_state" where
  "process_group env vis g st =
     (let v = merged_visibility vis g in
      case select_symbol env (symbol_flags st) (fst g) (snd g) of
        Inr selected \<Rightarrow>
          let st = update_definition selected (fst g) st;
              st = fold (update_definition selected) (snd g) st
          in if v \<noteq> DefaultVisibility then fold (merge_visibility v) (snd g) (merge_visibility v (fst g) st) else st
      | Inl e \<Rightarrow> st\<lparr>error_queue := error_queue st @ [e]\<rparr>)"

definition process_alternatives ::
    "select_env \<Rightarrow> (symbol_id \<Rightarrow> visibility) \<Rightarrow> alternatives list \<Rightarrow> resolve_state \<Rightarrow> resolve_state" where
  "process_alternatives env vis es st = fold (process_group env vis) es st"

text \<open>One bucket: the names without a version, then those with one. The entries come in the order of the hash map.\<close>

definition resolve_bucket ::
    "select_env \<Rightarrow> (symbol_id \<Rightarrow> visibility) \<Rightarrow> alternatives list \<times> alternatives list \<Rightarrow> resolve_state \<Rightarrow> resolve_state" where
  "resolve_bucket env vis b st = process_alternatives env vis (snd b) (process_alternatives env vis (fst b) st)"

definition resolve_result :: "resolve_state \<Rightarrow> symbol_error list + (symbol_id \<Rightarrow> symbol_id) \<times> (symbol_id \<Rightarrow> value_flags)" where
  "resolve_result st =
     (if error_queue st \<noteq> [] then Inl (error_queue st) else Inr (definitions st, symbol_flags st))"

text \<open>The definition of a symbol is looked up in two steps.\<close>

definition symbol_definition :: "(symbol_id \<Rightarrow> symbol_id) \<Rightarrow> symbol_id \<Rightarrow> symbol_id" where
  "symbol_definition defs i = defs (defs i)"

section \<open>The stores of the threads\<close>

datatype atomic_op =
    StoreDefinition symbol_id symbol_id
  | MergeVisibility visibility symbol_id
  | ReportError symbol_error

fun exec_op :: "atomic_op \<Rightarrow> resolve_state \<Rightarrow> resolve_state" where
  "exec_op (StoreDefinition new i) st = update_definition new i st"
| "exec_op (MergeVisibility v i) st = merge_visibility v i st"
| "exec_op (ReportError e) st = st\<lparr>error_queue := error_queue st @ [e]\<rparr>"

definition group_ops ::
    "select_env \<Rightarrow> (symbol_id \<Rightarrow> visibility) \<Rightarrow> (symbol_id \<Rightarrow> value_flags) \<Rightarrow> alternatives \<Rightarrow> atomic_op list" where
  "group_ops env vis fl g =
     (case select_symbol env fl (fst g) (snd g) of
        Inl e \<Rightarrow> [ReportError e]
      | Inr selected \<Rightarrow>
          map (StoreDefinition selected) (members g)
          @ (if merged_visibility vis g \<noteq> DefaultVisibility
             then map (MergeVisibility (merged_visibility vis g)) (members g) else []))"

lemma exec_op_fun: "exec_op (StoreDefinition new i) = update_definition new i" "exec_op (MergeVisibility v i) = merge_visibility v i"
  by (rule ext, simp)+

lemma process_group_ops: "process_group env vis g st = fold exec_op (group_ops env vis (symbol_flags st) g) st"
  by (simp add: process_group_def group_ops_def members_def Let_def fold_map comp_def exec_op_fun split: sum.splits)

text \<open>The stores do not touch what the selection reads.\<close>

lemma dynamic_handle [simp]: "is_dynamic (handle_non_default_visibility v fl) = is_dynamic fl"
  by (cases v)
    (simp_all add: handle_non_default_visibility_def is_dynamic_def contains_flag DYNAMIC_def NON_INTERPOSABLE_def
      DOWNGRADE_TO_LOCAL_def bit_or_iff bit_flag)

lemma dynamic_exec [simp]: "is_dynamic (symbol_flags (exec_op op st) i) = is_dynamic (symbol_flags st i)"
  by (cases op) (simp_all add: update_definition_def merge_visibility_def)

lemma dynamic_exec_fold [simp]: "is_dynamic (symbol_flags (fold exec_op ops st) i) = is_dynamic (symbol_flags st i)"
  by (induction ops arbitrary: st) simp_all

lemma select_loop_dynamic:
  assumes "\<And>i. is_dynamic (fl i) = is_dynamic (fl' i)"
  shows "select_loop env fl ids sel = select_loop env fl' ids sel"
proof (induction ids arbitrary: sel)
  case (Cons i ids)
  show ?case by (simp only: select_loop.simps assms Cons.IH)
qed simp

lemma group_ops_dynamic:
  assumes "\<And>i. is_dynamic (fl i) = is_dynamic (fl' i)"
  shows "group_ops env vis fl g = group_ops env vis fl' g"
  by (simp only: group_ops_def select_symbol_def select_loop_dynamic [of fl fl', OF assms])

lemma process_alternatives_ops:
  "process_alternatives env vis es st = fold exec_op (concat (map (group_ops env vis (symbol_flags st)) es)) st"
proof (induction es arbitrary: st)
  case (Cons g es)
  let ?st = "fold exec_op (group_ops env vis (symbol_flags st) g) st"
  have "group_ops env vis (symbol_flags ?st) = group_ops env vis (symbol_flags st)"
    by (rule ext, rule group_ops_dynamic) simp
  with Cons.IH [of ?st] show ?case by (simp add: process_alternatives_def process_group_ops)
qed (simp add: process_alternatives_def)

lemma process_buckets_ops:
  "fold (resolve_bucket env vis) buckets st
     = fold exec_op (concat (map (group_ops env vis (symbol_flags st)) (concat (map (\<lambda>b. fst b @ snd b) buckets)))) st"
proof -
  have "fold (resolve_bucket env vis) buckets st = process_alternatives env vis (concat (map (\<lambda>b. fst b @ snd b) buckets)) st"
    by (induction buckets arbitrary: st) (simp_all add: resolve_bucket_def process_alternatives_def)
  then show ?thesis by (simp add: process_alternatives_ops)
qed

section \<open>Any order of the stores\<close>

text \<open>What a sequence of stores leaves, when the definitions stored for a symbol agree.\<close>

lemma definitions_fold:
  assumes "\<And>new. StoreDefinition new i \<in> set ops \<Longrightarrow> new = s"
  shows "definitions (fold exec_op ops st) i = (if StoreDefinition s i \<in> set ops then s else definitions st i)"
  using assms
proof (induction ops rule: rev_induct)
  case (snoc op ops)
  have "definitions (fold exec_op ops st) i = (if StoreDefinition s i \<in> set ops then s else definitions st i)"
    by (rule snoc.IH) (simp add: snoc.prems)
  moreover have "op = StoreDefinition s i \<or> (\<forall>new. op \<noteq> StoreDefinition new i)" using snoc.prems by auto
  ultimately show ?case by (cases op) (auto simp: update_definition_def merge_visibility_def)
qed simp

lemma handle_idem:
  "handle_non_default_visibility v (handle_non_default_visibility v fl) = handle_non_default_visibility v fl"
  using dynamic_handle [of v fl]
  by (cases v) (simp_all add: handle_non_default_visibility_def is_dynamic_def or.assoc)

lemma flags_fold:
  assumes "\<And>w. MergeVisibility w i \<in> set ops \<Longrightarrow> w = v"
  shows "symbol_flags (fold exec_op ops st) i =
    (if MergeVisibility v i \<in> set ops then handle_non_default_visibility v (symbol_flags st i) else symbol_flags st i)"
  using assms
proof (induction ops rule: rev_induct)
  case (snoc op ops)
  have "symbol_flags (fold exec_op ops st) i =
    (if MergeVisibility v i \<in> set ops then handle_non_default_visibility v (symbol_flags st i) else symbol_flags st i)"
    by (rule snoc.IH) (simp add: snoc.prems)
  moreover have "op = MergeVisibility v i \<or> (\<forall>w. op \<noteq> MergeVisibility w i)" using snoc.prems by auto
  ultimately show ?case by (cases op) (auto simp: update_definition_def merge_visibility_def handle_idem)
qed simp

fun reported :: "atomic_op \<Rightarrow> symbol_error list" where
  "reported (ReportError e) = [e]"
| "reported _ = []"

lemma errors_fold: "error_queue (fold exec_op ops st) = error_queue st @ concat (map reported ops)"
proof (induction ops arbitrary: st)
  case (Cons op ops)
  then show ?case by (cases op) (simp_all add: update_definition_def merge_visibility_def)
qed simp

text \<open>The group of a symbol, if it is among the alternatives of a name.\<close>

definition group_of :: "alternatives list \<Rightarrow> symbol_id \<Rightarrow> alternatives option" where
  "group_of gs i = find (\<lambda>g. i \<in> set (members g)) gs"

definition disjoint_groups :: "alternatives list \<Rightarrow> bool" where
  "disjoint_groups gs \<longleftrightarrow> (\<forall>g \<in> set gs. \<forall>g' \<in> set gs. set (members g) \<inter> set (members g') \<noteq> {} \<longrightarrow> g = g')"

lemma disjoint_groups_member:
  "disjoint_groups gs \<Longrightarrow> g \<in> set gs \<Longrightarrow> g' \<in> set gs \<Longrightarrow> i \<in> set (members g) \<Longrightarrow> i \<in> set (members g') \<Longrightarrow> g = g'"
  unfolding disjoint_groups_def by blast

lemma group_of_Some: "group_of gs i = Some g \<Longrightarrow> g \<in> set gs \<and> i \<in> set (members g)"
  by (auto simp: group_of_def find_Some_iff)

lemma group_of_None: "group_of gs i = None \<longleftrightarrow> (\<forall>g \<in> set gs. i \<notin> set (members g))"
  by (auto simp: group_of_def find_None_iff)

lemma group_ops_sets:
  "StoreDefinition s i \<in> set (group_ops env vis fl g) \<longleftrightarrow> select_symbol env fl (fst g) (snd g) = Inr s \<and> i \<in> set (members g)"
  "MergeVisibility v i \<in> set (group_ops env vis fl g) \<longleftrightarrow>
     v \<noteq> DefaultVisibility \<and> v = merged_visibility vis g \<and> i \<in> set (members g)
     \<and> (\<exists>s. select_symbol env fl (fst g) (snd g) = Inr s)"
  by (auto simp: group_ops_def split: sum.splits)

text \<open>What the alternatives are to leave for a symbol.\<close>

definition settled_definition ::
    "select_env \<Rightarrow> (symbol_id \<Rightarrow> value_flags) \<Rightarrow> alternatives list \<Rightarrow> symbol_id \<Rightarrow> symbol_id option" where
  "settled_definition env fl gs i =
     (case group_of gs i of
        None \<Rightarrow> None
      | Some g \<Rightarrow> (case select_symbol env fl (fst g) (snd g) of Inr s \<Rightarrow> Some s | Inl _ \<Rightarrow> None))"

definition settled_flags ::
    "select_env \<Rightarrow> (symbol_id \<Rightarrow> visibility) \<Rightarrow> (symbol_id \<Rightarrow> value_flags) \<Rightarrow> alternatives list \<Rightarrow> symbol_id \<Rightarrow> value_flags" where
  "settled_flags env vis fl gs i =
     (case group_of gs i of
        Some g \<Rightarrow> (case select_symbol env fl (fst g) (snd g) of
                     Inr _ \<Rightarrow> handle_non_default_visibility (merged_visibility vis g) (fl i)
                   | Inl _ \<Rightarrow> fl i)
      | None \<Rightarrow> fl i)"

lemma handle_default [simp]: "handle_non_default_visibility DefaultVisibility fl = fl"
  by (simp add: handle_non_default_visibility_def)

lemma mset_reported:
  "mset ops = mset ops' \<Longrightarrow> mset (concat (map reported ops)) = mset (concat (map reported ops'))"
proof -
  have "mset (concat (map reported xs)) = \<Sum>\<^sub># (image_mset (mset \<circ> reported) (mset xs))" for xs
    by (induction xs) simp_all
  then show "mset ops = mset ops' \<Longrightarrow> ?thesis" by simp
qed

lemma settled_result:
  assumes "disjoint_groups gs" "set xs = set (concat (map (group_ops env vis (symbol_flags st)) gs))"
  shows "definitions (fold exec_op xs st) i =
      (case settled_definition env (symbol_flags st) gs i of Some s \<Rightarrow> s | None \<Rightarrow> definitions st i)
    \<and> symbol_flags (fold exec_op xs st) i = settled_flags env vis (symbol_flags st) gs i"
proof (cases "group_of gs i")
  case None
  then have "StoreDefinition s i \<notin> set xs" "MergeVisibility v i \<notin> set xs" for s v
    using assms(2) by (auto simp: group_of_None group_ops_sets)
  with None definitions_fold [of i xs] flags_fold [of i xs] show ?thesis
    by (simp add: settled_definition_def settled_flags_def)
next
  case (Some g)
  have g: "g \<in> set gs" "i \<in> set (members g)" using group_of_Some [OF Some] by simp_all
  have only: "i \<in> set (members g') \<longleftrightarrow> g' = g" if "g' \<in> set gs" for g'
    using disjoint_groups_member [OF assms(1) that g(1) _ g(2)] g(2) by auto
  have "op \<in> set xs \<longleftrightarrow> (\<exists>g' \<in> set gs. op \<in> set (group_ops env vis (symbol_flags st) g'))" for op using assms(2) by simp
  then have store: "StoreDefinition s i \<in> set xs \<longleftrightarrow> select_symbol env (symbol_flags st) (fst g) (snd g) = Inr s"
    and merge: "MergeVisibility v i \<in> set xs \<longleftrightarrow> v \<noteq> DefaultVisibility \<and> v = merged_visibility vis g
      \<and> (\<exists>s. select_symbol env (symbol_flags st) (fst g) (snd g) = Inr s)" for s v
    using g(1) only by (simp_all only: group_ops_sets) metis+
  show ?thesis
  proof (cases "select_symbol env (symbol_flags st) (fst g) (snd g)")
    case (Inl e)
    then have "StoreDefinition s i \<notin> set xs" "MergeVisibility v i \<notin> set xs" for s v
      by (simp_all add: store merge)
    with Some Inl definitions_fold [of i xs] flags_fold [of i xs] show ?thesis
      by (simp add: settled_definition_def settled_flags_def)
  next
    case (Inr s)
    have "definitions (fold exec_op xs st) i = s"
      using definitions_fold [of i xs s st] Inr by (simp add: store)
    moreover have "symbol_flags (fold exec_op xs st) i = handle_non_default_visibility (merged_visibility vis g) ((symbol_flags st) i)"
      using flags_fold [of i xs "merged_visibility vis g" st] Inr
      by (cases "merged_visibility vis g = DefaultVisibility") (simp_all add: merge)
    ultimately show ?thesis using Some Inr by (simp add: settled_definition_def settled_flags_def)
  qed
qed


text \<open>Two threads, each with the definitions of one name: a strong one behind a weak one, and two weak ones.\<close>

definition weak_then_strong :: select_env where
  "weak_then_strong = \<lparr>strength_in = (\<lambda>i. if i = 2 then Strong else Weak), in_comdat_group = (\<lambda>_. False),
     allow_multiple_definitions = False\<rparr>"

definition unsettled :: resolve_state where
  "unsettled = \<lparr>definitions = id, symbol_flags = (\<lambda>_. 0), error_queue = []\<rparr>"

lemma not_dynamic_0: "\<not> is_dynamic 0"
  by (simp add: is_dynamic_def DYNAMIC_def contains_flag)

lemma select_two:
  "select_symbol weak_then_strong (\<lambda>_. 0) 1 [2] = Inr 2" "select_symbol weak_then_strong (\<lambda>_. 0) 3 [4] = Inr 3"
  "select_symbol weak_then_strong (\<lambda>_. 0) 1 [3] = Inr 1"
  by (simp_all add: select_symbol_def not_dynamic_0 weak_then_strong_def consider_symbol_def new_selector_def best_symbol_def Let_def)


text \<open>
  A definition with a default version is an alternative both of its name and of its version. If the selected
  definitions differ, the stores for the version and for the name decide by their order which one it gets; the
  two names can be in different buckets.
\<close>

lemma default_version_race:
  "definitions (fold (process_group weak_then_strong (\<lambda>_. DefaultVisibility)) [(1, [2]), (1, [3])] unsettled) 1 = 1"
  "definitions (fold (process_group weak_then_strong (\<lambda>_. DefaultVisibility)) [(1, [3]), (1, [2])] unsettled) 1 = 2"
  by (simp_all add: process_group_def unsettled_def select_two merged_visibility_def update_definition_def Let_def)

section \<open>From the names of the inputs to their definitions\<close>

text \<open>A hash map is gone through in some order.\<close>

definition iterates :: "alternatives list \<Rightarrow> (symbol_id \<rightharpoonup> symbol_id list) \<Rightarrow> bool" where
  "iterates es m \<longleftrightarrow> distinct es \<and> set es = Map.graph m"

lemma rest_map_graph:
  assumes "distinct (map fst ps)"
  shows "(i, r) \<in> Map.graph (rest_map ps) \<longleftrightarrow> (\<exists>k. ids_of k ps = i # r \<and> r \<noteq> [])"
proof
  assume "(i, r) \<in> Map.graph (rest_map ps)"
  then have "rest_map ps i = Some r" by (simp add: in_graphD)
  then show "\<exists>k. ids_of k ps = i # r \<and> r \<noteq> []"
    by (auto simp: rest_map_def split: option.splits list.splits if_splits)
next
  assume "\<exists>k. ids_of k ps = i # r \<and> r \<noteq> []"
  then show "(i, r) \<in> Map.graph (rest_map ps)"
    using rest_map_first [OF assms] by (auto intro!: in_graphI)
qed

text \<open>The groups that the buckets are processed for are those of the names with more than one definition.\<close>

definition groups_of_buckets :: "(nat \<Rightarrow> alternatives list \<times> alternatives list) \<Rightarrow> nat \<Rightarrow> alternatives list" where
  "groups_of_buckets es n = concat (map (\<lambda>b. fst b @ snd b) (map es [0..<n]))"

definition covers_table :: "(nat \<Rightarrow> alternatives list \<times> alternatives list) \<Rightarrow> symbol_bucket list \<Rightarrow> bool" where
  "covers_table es table \<longleftrightarrow> (\<forall>k < length table. iterates (fst (es k)) (alternative_definitions (table ! k))
     \<and> iterates (snd (es k)) (alternative_versioned_definitions (table ! k)))"

text \<open>The definitions that a name stands for: those without a version, or those with one.\<close>

fun definitions_of :: "(symbol_id \<times> raw_symbol_name) list list \<Rightarrow> symbol_name \<Rightarrow> symbol_id list" where
  "definitions_of groups (Unversioned n) = ids_of n (all_names groups)"
| "definitions_of groups (Versioned n v) = ids_of (n, v) (all_versions groups)"

lemma in_groups_of_buckets:
  assumes "distinct (map fst (concat groups))" "0 < n" "covers_table es (symbol_table h n groups)"
  shows "(i, r) \<in> set (groups_of_buckets es n) \<longleftrightarrow> r \<noteq> [] \<and> (\<exists>key. definitions_of groups key = i # r)"
proof -
  have d: "distinct (map fst (filter P (all_names groups)))" "distinct (map fst (filter Q (all_versions groups)))" for P Q
    using exported_ids_distinct [OF assms(1)] by (simp_all add: all_names_concat distinct_map_filter)
  have table: "symbol_table h n groups ! k = bucket_of (filter (in_bucket h n k) (all_names groups))
      (filter (in_versioned_bucket h n k) (all_versions groups))" if "k < n" for k
    by (rule symbol_table_bucket [OF assms(1) that])
  have names: "ids_of m (filter (in_bucket h n k) ps) = (if bucket_index h n (Unversioned m) = k then ids_of m ps else [])" for m k ps
    by (induction ps) (auto simp: ids_of_def in_bucket_def)
  have versions: "ids_of v (filter (in_versioned_bucket h n k) ps)
      = (if bucket_index h n (Versioned (fst v) (snd v)) = k then ids_of v ps else [])" for v k ps
    by (induction ps) (auto simp: ids_of_def in_versioned_bucket_def)
  have fsts: "(i, r) \<in> set (fst (es k)) \<longleftrightarrow> r \<noteq> [] \<and> (\<exists>m. bucket_index h n (Unversioned m) = k \<and> ids_of m (all_names groups) = i # r)"
    if "k < n" for k
  proof -
    have "set (fst (es k)) = Map.graph (rest_map (filter (in_bucket h n k) (all_names groups)))"
      using assms(3) that by (simp add: covers_table_def iterates_def table bucket_of_def)
    then show ?thesis by (simp only: rest_map_graph [OF d(1)] names) (metis list.distinct(1))
  qed
  have snds: "(i, r) \<in> set (snd (es k)) \<longleftrightarrow> r \<noteq> []
      \<and> (\<exists>m v. bucket_index h n (Versioned m v) = k \<and> ids_of (m, v) (all_versions groups) = i # r)" if "k < n" for k
  proof -
    have "set (snd (es k)) = Map.graph (rest_map (filter (in_versioned_bucket h n k) (all_versions groups)))"
      using assms(3) that by (simp add: covers_table_def iterates_def table bucket_of_def)
    then show ?thesis by (simp only: rest_map_graph [OF d(2)] versions) (metis fst_conv snd_conv prod.collapse list.distinct(1))
  qed
  have "(i, r) \<in> set (groups_of_buckets es n) \<longleftrightarrow> (\<exists>k < n. (i, r) \<in> set (fst (es k))) \<or> (\<exists>k < n. (i, r) \<in> set (snd (es k)))"
    by (auto simp: groups_of_buckets_def)
  also have "(\<exists>k < n. (i, r) \<in> set (fst (es k))) \<longleftrightarrow> r \<noteq> [] \<and> (\<exists>m. ids_of m (all_names groups) = i # r)"
    using fsts bucket_index_less [OF assms(2)] by blast
  also have "(\<exists>k < n. (i, r) \<in> set (snd (es k))) \<longleftrightarrow> r \<noteq> [] \<and> (\<exists>m v. ids_of (m, v) (all_versions groups) = i # r)"
    using snds bucket_index_less [OF assms(2)] by blast
  finally show ?thesis by (metis definitions_of.simps symbol_name.exhaust)
qed

text \<open>No definition is the default version of its name and so an alternative of two names.\<close>

definition single_names :: "(symbol_id \<times> raw_symbol_name) list list \<Rightarrow> bool" where
  "single_names groups \<longleftrightarrow> (\<forall>p \<in> set (concat groups). is_default (snd p) \<longrightarrow> version_name (snd p) = None)"

lemma definitions_of_ids: "i \<in> set (definitions_of groups key) \<Longrightarrow> i \<in> fst ` set (concat groups)"
  by (cases key) (force simp: ids_of_in all_names_concat exported_names_def exported_versions_def)+

lemma definitions_of_unique:
  assumes "distinct (map fst (concat groups))" "single_names groups"
    "i \<in> set (definitions_of groups key)" "i \<in> set (definitions_of groups key')"
  shows "key = key'"
proof -
  have "\<exists>p \<in> set (concat groups). fst p = i \<and> key' = (if is_default (snd p) then Unversioned (raw_name (snd p))
      else Versioned (raw_name (snd p)) (the (version_name (snd p))))" if "i \<in> set (definitions_of groups key')" for key'
    using that assms(2)
    by (cases key') (force simp: ids_of_in all_names_concat exported_names_def exported_versions_def single_names_def)+
  with assms(3,4) obtain p q where p: "p \<in> set (concat groups)" "q \<in> set (concat groups)" "fst p = i" "fst q = i"
    "key = (if is_default (snd p) then Unversioned (raw_name (snd p)) else Versioned (raw_name (snd p)) (the (version_name (snd p))))"
    "key' = (if is_default (snd q) then Unversioned (raw_name (snd q)) else Versioned (raw_name (snd q)) (the (version_name (snd q))))"
    by metis
  have "p = q" using eq_key_imp_eq_value [OF assms(1), of i "snd p" "snd q"] p by (metis prod.collapse)
  with p show ?thesis by simp
qed

lemma table_groups_disjoint:
  assumes "distinct (map fst (concat groups))" "0 < n" "covers_table es (symbol_table h n groups)" "single_names groups"
  shows "disjoint_groups (groups_of_buckets es n)"
proof -
  have "\<exists>key. definitions_of groups key = members g" if "g \<in> set (groups_of_buckets es n)" for g
    using that in_groups_of_buckets [OF assms(1-3), of "fst g" "snd g"] by (simp add: members_def)
  moreover have "members g = members g' \<Longrightarrow> g = g'" for g g' by (simp add: members_def prod_eq_iff)
  ultimately show ?thesis
    unfolding disjoint_groups_def using definitions_of_unique [OF assms(1,4)] by (metis disjoint_iff)
qed

lemma select_symbol_member:
  assumes "select_symbol env fl i r = Inr s"
  shows "s \<in> set (i # r)"
proof (cases "preferred env fl (i # r)")
  case (Some j)
  then show ?thesis using select_symbol_choice [OF assms] preferred_member [OF Some] by simp
next
  case None
  define xs where "xs = filter (\<lambda>i. strength_in env i \<noteq> UndefinedStrength) (i # r)"
  have "set xs \<subseteq> set (i # r)" unfolding xs_def by (rule filter_is_subset)
  then show ?thesis
    using select_symbol_choice [OF assms, folded xs_def] None by (cases xs) simp_all
qed

lemma groups_of_names:
  assumes "distinct (map fst (concat groups))" "0 < n" "covers_table es (symbol_table h n groups)"
  shows "g \<in> set (groups_of_buckets es n) \<longleftrightarrow> snd g \<noteq> [] \<and> (\<exists>key. definitions_of groups key = members g)"
  using in_groups_of_buckets [OF assms, of "fst g" "snd g"] by (simp add: members_def)

lemma settled_name:
  assumes inputs: "distinct (map fst (concat groups))" "single_names groups"
    and table: "0 < n" "covers_table es (symbol_table h n groups)"
    and name: "definitions_of groups key = i # r" "j \<in> set (i # r)"
  shows "group_of (groups_of_buckets es n) j = (if r = [] then None else Some (i, r))"
proof -
  let ?gs = "groups_of_buckets es n"
  note groups = groups_of_names [OF inputs(1) table]
  have only: "members g = i # r" if g: "g \<in> set ?gs" "j \<in> set (members g)" for g
  proof -
    obtain key' where key': "definitions_of groups key' = members g" using groups g(1) by blast
    then have "key = key'" using definitions_of_unique [OF inputs, of j key key'] name g(2) by simp
    with key' name(1) show ?thesis by simp
  qed
  show ?thesis
  proof (cases "r = []")
    case True
    have "j \<notin> set (members g)" if "g \<in> set ?gs" for g
      using only [OF that] that groups [of g] True by (auto simp: members_def)
    with True show ?thesis by (simp add: group_of_None)
  next
    case False
    then have "(i, r) \<in> set ?gs" using groups [of "(i, r)"] name(1) by (auto simp: members_def)
    moreover have "j \<in> set (members (i, r))" using name(2) by (simp add: members_def)
    ultimately obtain g where g: "group_of ?gs j = Some g" using group_of_None by fastforce
    then have "members g = i # r" using only group_of_Some by blast
    with g False show ?thesis by (cases g) (simp add: members_def)
  qed
qed

lemma settled_other:
  assumes "distinct (map fst (concat groups))" "0 < n" "covers_table es (symbol_table h n groups)"
    "x \<notin> fst ` set (concat groups)"
  shows "group_of (groups_of_buckets es n) x = None"
  using groups_of_names [OF assms(1-3)] definitions_of_ids assms(4) by (metis group_of_None)


text \<open>
  A weak and a strong definition of a name and a reference, symbol 9, that was led to the weak one, which stands
  first in the table.
\<close>

definition two_definitions :: "(symbol_id \<times> raw_symbol_name) list list" where
  "two_definitions = [[(1, \<lparr>raw_name = [102], version_name = None, is_default = True\<rparr>)],
                      [(2, \<lparr>raw_name = [102], version_name = None, is_default = True\<rparr>)]]"

lemma two_definitions_bucket:
  "symbol_table (\<lambda>_. 0) 1 two_definitions ! 0 = bucket_of [(1, [102]), (2, [102])] []"
  by (subst symbol_table_bucket)
    (simp_all add: two_definitions_def all_names_def all_versions_def exported_names_def exported_versions_def in_bucket_def
      bucket_index_def)

lemma two_definitions_covers: "covers_table (\<lambda>_. ([(1, [2])], [])) (symbol_table (\<lambda>_. 0) 1 two_definitions)"
proof -
  have "rest_map [(1 :: symbol_id, [102 :: u8]), (2, [102])] = [1 \<mapsto> [2]]"
    by (rule ext) (simp add: rest_map_def ids_of_def)
  moreover have "rest_map ([] :: pending_versioned_symbol list) = Map.empty" by (rule ext) (simp add: rest_map_def)
  moreover have "k = 0" if "k < length (symbol_table (\<lambda>_. 0) 1 two_definitions)" for k using that by simp
  ultimately show ?thesis
    unfolding covers_table_def iterates_def using two_definitions_bucket by (auto simp: bucket_of_def graph_map_upd simp del: One_nat_def)
qed


end
