(* ===== verification/Symbol_Load.thy ===== *)
theory Symbol_Load
  imports Symbol_Table "HOL-Library.Multiset"
begin

text \<open>
  Resolving the references of the loaded files and, with that, selecting the members of archives
  (\<^verbatim>\<open>resolve_symbols_and_select_archive_entries\<close> of \<^verbatim>\<open>reld-core/src/resolution.rs\<close>). The files are processed
  by a pool of threads: a work item is the sequence of its accesses to the shared state, and a step performs the
  next access of any item. Inputs for the compiler plugin are not modelled, nor the second call that follows them.
\<close>

section \<open>Inputs\<close>

record input_object =
  object_symbols :: "input_symbol list"
  object_start :: symbol_id
  object_dynamic :: bool
  has_archive_semantics :: bool
  whole_archive :: bool
  as_needed :: bool
  verneed_table :: "((nat \<times> bool) list \<times> u8 list option list) option"

definition is_optional :: "input_object \<Rightarrow> bool" where
  "is_optional obj \<longleftrightarrow> has_archive_semantics obj \<and> \<not> whole_archive obj \<or> object_dynamic obj \<and> as_needed obj"

text \<open>Of an expression that defines a symbol, the names in it count; a script is the list of its definitions.\<close>

datatype symbol_placement = ForceUndefined "u8 list" | Redirect "u8 list list" | OtherPlacement

record prelude =
  entry_symbol_name :: "u8 list option"
  prelude_placements :: "symbol_placement list"

datatype input_group =
    PreludeGroup prelude
  | ObjectsGroup "input_object list"
  | StubLibrariesGroup nat
  | LinkerScriptsGroup "symbol_placement list list"
  | SyntheticSymbolsGroup

text \<open>The number of a group and that of a file in it.\<close>

type_synonym file_index = "nat \<times> nat"

definition PRELUDE_FILE :: file_index where "PRELUDE_FILE = (0, 0)"

record load_env =
  input_groups :: "input_group list"
  names_hash :: "u8 list \<Rightarrow> u64"
  names_table :: "symbol_bucket list"
  names_inputs :: symbol_inputs
  file_for_symbol :: "symbol_id \<Rightarrow> file_index"
  first_definitions :: "symbol_id \<Rightarrow> symbol_id"
  input_visibility :: "symbol_id \<Rightarrow> visibility"
  debug_assertions :: bool

section \<open>The accesses of a work item\<close>

datatype load_failure = VersionsUnreadable | SymbolNameUnreadable | LocalSymbolUndefined

record undefined_symbol =
  ignore_if_loaded :: "file_index option"
  undefined_name :: symbol_name
  undefined_id :: symbol_id

datatype access =
    StoreSymbol symbol_id symbol_id
  | ApplyVisibility visibility symbol_id
  | MarkNonIrReference symbol_id
  | RequestFile file_index
  | NoteUndefined undefined_symbol
  | Fail load_failure

definition HAS_NON_IR_REF :: value_flags where "HAS_NON_IR_REF = shl 1 16"

definition resolve_symbol ::
    "load_env \<Rightarrow> file_index \<Rightarrow> bool \<Rightarrow> symbol_id \<Rightarrow> raw_symbol_name \<Rightarrow> input_symbol \<Rightarrow> access list" where
  "resolve_symbol env f in_dynamic own name_info s =
     (if debug_assertions env \<and> is_local s then [Fail LocalSymbolUndefined]
      else
        let name = from_raw name_info;
            default_visibility = (st_visibility s = STV_DEFAULT)
        in case get_symbol (names_inputs env) (names_hash env) (names_table env) name default_visibility of
             Some target \<Rightarrow>
               StoreSymbol own target
               # (if default_visibility then [] else [ApplyVisibility (input_visibility env own) target])
               @ MarkNonIrReference target
               # (let target_file = file_for_symbol env target in
                  if target_file \<noteq> f \<and> \<not> is_weak s
                  then if \<not> in_dynamic \<or> \<not> in_dynamic_file (names_inputs env) target then [RequestFile target_file] else []
                  else if target_file \<noteq> PRELUDE_FILE
                  then [NoteUndefined \<lparr>ignore_if_loaded = Some target_file, undefined_name = name, undefined_id = own\<rparr>]
                  else [])
           | None \<Rightarrow> [NoteUndefined \<lparr>ignore_if_loaded = None, undefined_name = name, undefined_id = own\<rparr>])"

text \<open>
  \<^verbatim>\<open>resolve_symbols\<close>: the symbols from \<open>start\<close> on, as many as the item has definitions to write. The number that
  selects the version of a symbol is counted from the start of the item.
\<close>

definition resolve_one :: "load_env \<Rightarrow> file_index \<Rightarrow> input_object \<Rightarrow> (nat \<times> bool) list \<times> u8 list option list \<Rightarrow> nat \<Rightarrow>
    nat \<times> input_symbol \<Rightarrow> access list" where
  "resolve_one env f obj versions start = (\<lambda>(j, s).
     let own = object_start obj + of_nat (start + j) in
     if first_definitions env own \<noteq> 0 \<or> start + j = 0 \<or> object_dynamic obj \<and> st_visibility s = STV_HIDDEN then []
     else case name_bytes s of
            None \<Rightarrow> [Fail SymbolNameUnreadable]
          | Some bytes \<Rightarrow>
              resolve_symbol env f (object_dynamic obj) own (elf_raw_symbol_name (fst versions) (snd versions) j bytes) s)"

text \<open>An error ends the item.\<close>

fun failed :: "access list \<Rightarrow> bool" where
  "failed [Fail _] = True"
| "failed _ = False"

fun until_failure :: "access list list \<Rightarrow> access list" where
  "until_failure [] = []"
| "until_failure (as # rest) = (if failed as then as else as @ until_failure rest)"

definition resolve_symbols :: "load_env \<Rightarrow> file_index \<Rightarrow> input_object \<Rightarrow> nat \<Rightarrow> nat \<Rightarrow> access list" where
  "resolve_symbols env f obj start len =
     (case verneed_table obj of
        None \<Rightarrow> [Fail VersionsUnreadable]
      | Some versions \<Rightarrow>
          until_failure (map (resolve_one env f obj versions start)
            (enumerate 0 (take len (drop start (object_symbols obj))))))"

text \<open>The symbols that the command line and the linker scripts ask for.\<close>

definition load_symbol_named :: "load_env \<Rightarrow> symbol_id option \<Rightarrow> u8 list \<Rightarrow> access list" where
  "load_symbol_named env own name =
     (case get_unversioned (names_hash env) (names_table env) name of
        Some i \<Rightarrow> (case own of Some o' \<Rightarrow> [StoreSymbol o' i] | None \<Rightarrow> []) @ [RequestFile (file_for_symbol env i)]
      | None \<Rightarrow> [])"

definition load_symbols_in_redirect :: "load_env \<Rightarrow> u8 list list \<Rightarrow> access list" where
  "load_symbols_in_redirect env names =
     concat (map (\<lambda>n. case get_unversioned (names_hash env) (names_table env) n of
                        Some i \<Rightarrow> [RequestFile (file_for_symbol env i), MarkNonIrReference i]
                      | None \<Rightarrow> []) names)"

definition load_prelude :: "load_env \<Rightarrow> prelude \<Rightarrow> access list" where
  "load_prelude env p =
     (case entry_symbol_name p of
        Some name \<Rightarrow> load_symbol_named env None name
          @ (case get_unversioned (names_hash env) (names_table env) name of Some i \<Rightarrow> [MarkNonIrReference i] | None \<Rightarrow> [])
      | None \<Rightarrow> [])
     @ concat (map (\<lambda>(k, placement).
         case placement of
           ForceUndefined name \<Rightarrow> load_symbol_named env (Some (of_nat k)) name
         | Redirect names \<Rightarrow> load_symbols_in_redirect env names
         | OtherPlacement \<Rightarrow> []) (enumerate 0 (prelude_placements p)))"

definition load_scripts :: "load_env \<Rightarrow> symbol_placement list list \<Rightarrow> access list" where
  "load_scripts env scripts =
     concat (map (\<lambda>placement. case placement of Redirect names \<Rightarrow> load_symbols_in_redirect env names | _ \<Rightarrow> [])
       (concat scripts))"

section \<open>Work items\<close>

definition MAX_SYMBOLS_PER_WORK_ITEM :: nat where "MAX_SYMBOLS_PER_WORK_ITEM = 5000"

text \<open>The loop of \<^verbatim>\<open>work_items_do\<close>: start and length of every item; there is at least one.\<close>

function chunks :: "nat \<Rightarrow> nat \<Rightarrow> (nat \<times> nat) list" where
  "chunks start n =
     (let len = min MAX_SYMBOLS_PER_WORK_ITEM n in
      (start, len) # (if n - len = 0 then [] else chunks (start + len) (n - len)))"
  by pat_completeness auto
termination
  by (relation "measure snd") (auto simp: MAX_SYMBOLS_PER_WORK_ITEM_def)

declare chunks.simps [simp del]

definition object_at :: "load_env \<Rightarrow> file_index \<Rightarrow> input_object option" where
  "object_at env f =
     (if fst f < length (input_groups env)
      then (case input_groups env ! fst f of
              ObjectsGroup objs \<Rightarrow> if snd f < length objs then Some (objs ! snd f) else None
            | _ \<Rightarrow> None)
      else None)"

definition object_items :: "load_env \<Rightarrow> file_index \<Rightarrow> access list list" where
  "object_items env f =
     (case object_at env f of
        Some obj \<Rightarrow> map (\<lambda>(start, len). resolve_symbols env f obj start len) (chunks 0 (length (object_symbols obj)))
      | None \<Rightarrow> [])"

text \<open>
  \<^verbatim>\<open>resolve_group\<close>: objects that are not optional are loaded at once, with the prelude; every script makes an item
  for all scripts of its group.
\<close>

definition group_items :: "load_env \<Rightarrow> nat \<times> input_group \<Rightarrow> access list list" where
  "group_items env = (\<lambda>(g, group).
     case group of
       PreludeGroup p \<Rightarrow> [load_prelude env p]
     | ObjectsGroup objs \<Rightarrow> concat (map (\<lambda>(k, obj). if is_optional obj then [] else object_items env (g, k)) (enumerate 0 objs))
     | LinkerScriptsGroup scripts \<Rightarrow> map (\<lambda>_. load_scripts env scripts) scripts
     | _ \<Rightarrow> [])"

definition objects_where :: "load_env \<Rightarrow> (input_object \<Rightarrow> bool) \<Rightarrow> file_index list" where
  "objects_where env P =
     concat (map (\<lambda>(g, group). case group of
         ObjectsGroup objs \<Rightarrow> map (\<lambda>(k, _). (g, k)) (filter (\<lambda>(_, obj). P obj) (enumerate 0 objs))
       | _ \<Rightarrow> []) (enumerate 0 (input_groups env)))"

record load_state =
  running :: "access list multiset"
  available :: "file_index set"
  loaded_files :: "file_index list"
  load_definitions :: "symbol_id \<Rightarrow> symbol_id"
  load_flags :: "symbol_id \<Rightarrow> value_flags"
  undefined_symbols :: "undefined_symbol list"
  first_error :: "load_failure option"

definition initial_items :: "load_env \<Rightarrow> access list list" where
  "initial_items env = concat (map (group_items env) (enumerate 0 (input_groups env)))"

definition initial_load :: "load_env \<Rightarrow> (symbol_id \<Rightarrow> value_flags) \<Rightarrow> load_state" where
  "initial_load env fl =
     \<lparr>running = mset (initial_items env),
      available = set (objects_where env is_optional),
      loaded_files = objects_where env (\<lambda>obj. \<not> is_optional obj),
      load_definitions = first_definitions env, load_flags = fl, undefined_symbols = [], first_error = None\<rparr>"

text \<open>\<^verbatim>\<open>try_request_file_id\<close> takes the definitions of a file once; the thread that does so adds its items.\<close>

definition try_request_file :: "load_env \<Rightarrow> file_index \<Rightarrow> load_state \<Rightarrow> load_state" where
  "try_request_file env f st =
     (if f \<in> available st
      then st\<lparr>available := available st - {f}, loaded_files := loaded_files st @ [f],
              running := running st + mset (object_items env f)\<rparr>
      else st)"

fun perform :: "load_env \<Rightarrow> access \<Rightarrow> load_state \<Rightarrow> load_state" where
  "perform env (StoreSymbol own target) st = st\<lparr>load_definitions := (load_definitions st)(own := target)\<rparr>"
| "perform env (ApplyVisibility v i) st =
     st\<lparr>load_flags := (load_flags st)(i := apply_visibility_to_definition v (load_flags st i))\<rparr>"
| "perform env (MarkNonIrReference i) st = st\<lparr>load_flags := (load_flags st)(i := load_flags st i OR HAS_NON_IR_REF)\<rparr>"
| "perform env (RequestFile f) st = try_request_file env f st"
| "perform env (NoteUndefined u) st = st\<lparr>undefined_symbols := undefined_symbols st @ [u]\<rparr>"
| "perform env (Fail e) st = st\<lparr>first_error := (case first_error st of None \<Rightarrow> Some e | Some e' \<Rightarrow> Some e')\<rparr>"

text \<open>One access of any item, and the runs with their accesses.\<close>

inductive load_step :: "load_env \<Rightarrow> access \<Rightarrow> load_state \<Rightarrow> load_state \<Rightarrow> bool" for env where
  access: "running st = add_mset (a # as) rest \<Longrightarrow> load_step env a st (perform env a (st\<lparr>running := add_mset as rest\<rparr>))"

inductive load_run :: "load_env \<Rightarrow> load_state \<Rightarrow> access list \<Rightarrow> load_state \<Rightarrow> bool" for env where
  finished: "load_run env st [] st"
| continue: "load_run env st as st' \<Longrightarrow> load_step env a st' st'' \<Longrightarrow> load_run env st (as @ [a]) st''"

definition idle :: "load_state \<Rightarrow> bool" where
  "idle st \<longleftrightarrow> (\<forall>as \<in># running st. as = [])"

definition load_result :: "load_state \<Rightarrow> load_failure + file_index list" where
  "load_result st = (case first_error st of Some e \<Rightarrow> Inl e | None \<Rightarrow> Inr (loaded_files st))"

section \<open>Every run ends\<close>

definition file_accesses :: "load_env \<Rightarrow> file_index \<Rightarrow> access list" where
  "file_accesses env f = concat (object_items env f)"

definition remaining :: "load_state \<Rightarrow> access multiset" where
  "remaining st = \<Sum>\<^sub># (image_mset mset (running st))"

text \<open>The accesses that can still come: those of the items, and those of the files that nobody has taken.\<close>

definition pending :: "load_env \<Rightarrow> load_state \<Rightarrow> nat" where
  "pending env st = size (remaining st) + (\<Sum>f\<in>available st. length (file_accesses env f))"

lemma remaining_mset: "\<Sum>\<^sub># (image_mset mset (mset xss)) = mset (concat xss)"
  by (induction xss) simp_all

text \<open>The files that an access takes.\<close>

definition taken_by :: "access \<Rightarrow> load_state \<Rightarrow> file_index list" where
  "taken_by a st = (case a of RequestFile f \<Rightarrow> if f \<in> available st then [f] else [] | _ \<Rightarrow> [])"

lemma step_parts:
  assumes "load_step env a st st'"
  shows "available st' = available st - set (taken_by a st)"
    "loaded_files st' = loaded_files st @ taken_by a st" "distinct (taken_by a st)" "set (taken_by a st) \<subseteq> available st"
    "add_mset a (remaining st') = remaining st + mset (concat (map (file_accesses env) (taken_by a st)))"
proof -
  from assms obtain as rest where "running st = add_mset (a # as) rest" "st' = perform env a (st\<lparr>running := add_mset as rest\<rparr>)"
    by (auto elim: load_step.cases)
  note st' = this
  show "available st' = available st - set (taken_by a st)" "loaded_files st' = loaded_files st @ taken_by a st"
    unfolding st'(2) by (cases a; simp add: taken_by_def try_request_file_def; fail)+
  show "distinct (taken_by a st)" "set (taken_by a st) \<subseteq> available st"
    by (auto simp: taken_by_def split: access.splits)
  have "remaining st' = mset as + \<Sum>\<^sub># (image_mset mset rest) + mset (concat (map (file_accesses env) (taken_by a st)))"
    unfolding st'(2) by (cases a) (simp_all add: remaining_def taken_by_def try_request_file_def remaining_mset file_accesses_def)
  then show "add_mset a (remaining st') = remaining st + mset (concat (map (file_accesses env) (taken_by a st)))"
    by (simp add: remaining_def st'(1))
qed

lemma step_pending:
  assumes "load_step env a st st'" "finite (available st)"
  shows "pending env st = Suc (pending env st')"
proof -
  note parts = step_parts [OF assms(1)]
  have "(\<Sum>f\<in>available st. length (file_accesses env f))
      = (\<Sum>f\<in>set (taken_by a st). length (file_accesses env f)) + (\<Sum>f\<in>available st'. length (file_accesses env f))"
    unfolding parts(1) using sum.subset_diff [OF parts(4) assms(2)] by (simp only: add.commute)
  also have "(\<Sum>f\<in>set (taken_by a st). length (file_accesses env f)) = length (concat (map (file_accesses env) (taken_by a st)))"
    using parts(3) by (simp add: length_concat sum_list_distinct_conv_sum_set comp_def)
  finally show ?thesis
    using arg_cong [OF parts(5), of size] by (simp add: pending_def)
qed

lemma run_finite: "load_run env st as st' \<Longrightarrow> finite (available st) \<Longrightarrow> finite (available st')"
  by (induction rule: load_run.induct) (simp_all add: step_parts)

lemma run_pending: "load_run env st as st' \<Longrightarrow> finite (available st) \<Longrightarrow> pending env st = length as + pending env st'"
  by (induction rule: load_run.induct) (simp_all add: run_finite step_pending)

lemma step_exists:
  assumes "\<not> idle st"
  obtains a st' where "load_step env a st st'"
proof -
  from assms obtain as where "as \<in># running st" "as \<noteq> []" by (auto simp: idle_def)
  then obtain a as' rest where "running st = add_mset (a # as') rest" by (metis list.exhaust multi_member_split)
  then show thesis using load_step.access that by blast
qed

lemma run_front: "load_run env st1 as st' \<Longrightarrow> load_step env a st st1 \<Longrightarrow> load_run env st (a # as) st'"
proof (induction rule: load_run.induct)
  case (finished st1)
  then show ?case using load_run.continue [OF load_run.finished] by fastforce
next
  case (continue st1 as st' b st'')
  then show ?case using load_run.continue [of env st "a # as" st' b st''] by simp
qed

lemma run_completes: "finite (available st) \<Longrightarrow> \<exists>as st'. load_run env st as st' \<and> idle st'"
proof (induction "pending env st" arbitrary: st rule: less_induct)
  case less
  show ?case
  proof (cases "idle st")
    case False
    then obtain a st1 where st1: "load_step env a st st1" by (rule step_exists)
    then obtain as st' where run: "load_run env st1 as st'" "idle st'"
      using less.hyps [of st1] step_pending [OF st1 less.prems] less.prems by (auto simp: step_parts)
    have "load_run env st (a # as) st'" by (rule run_front [OF run(1) st1])
    with run(2) show ?thesis by blast
  qed (use load_run.finished in blast)
qed

lemma objects_finite [simp]: "finite (available (initial_load env fl))"
  by (simp add: initial_load_def)

text \<open>C32: Selecting the files always ends. Whichever item performs the next access, every access uses up one of the
  accesses that the files of the inputs can make together, so no run is longer than these; and as long as an item
  is not finished there is a next access, so every run can be continued to one in which all items are finished.\<close>

theorem load_terminates:
  assumes "load_run env (initial_load env fl) as st"
  shows "length as \<le> pending env (initial_load env fl)
    \<and> (\<exists>as' st'. load_run env st as' st' \<and> idle st' \<and> length as + length as' \<le> pending env (initial_load env fl))"
proof -
  have len: "pending env (initial_load env fl) = length as + pending env st"
    by (rule run_pending [OF assms objects_finite])
  have fin: "finite (available st)" by (rule run_finite [OF assms objects_finite])
  then obtain as' st' where st': "load_run env st as' st'" "idle st'" using run_completes by blast
  then have "length as + length as' \<le> pending env (initial_load env fl)" using run_pending [OF st'(1) fin] len by simp
  with st' len show ?thesis by auto
qed

section \<open>Which files are loaded\<close>

text \<open>The optional files that are needed: those that the first items request, and those that needed files request.\<close>

inductive_set needed_files :: "load_env \<Rightarrow> file_index set" for env where
  root: "RequestFile f \<in> set (concat (initial_items env)) \<Longrightarrow> f \<in> set (objects_where env is_optional) \<Longrightarrow> f \<in> needed_files env"
| reference: "g \<in> needed_files env \<Longrightarrow> RequestFile f \<in> set (file_accesses env g)
    \<Longrightarrow> f \<in> set (objects_where env is_optional) \<Longrightarrow> f \<in> needed_files env"

definition mandatory_files :: "load_env \<Rightarrow> file_index list" where
  "mandatory_files env = objects_where env (\<lambda>obj. \<not> is_optional obj)"

text \<open>What holds in every state of a run: \<open>extra\<close> are the optional files taken so far.\<close>

definition load_invariant :: "load_env \<Rightarrow> access list \<Rightarrow> load_state \<Rightarrow> file_index list \<Rightarrow> bool" where
  "load_invariant env as st extra \<longleftrightarrow>
     loaded_files st = mandatory_files env @ extra \<and> distinct extra
     \<and> set extra \<inter> available st = {} \<and> set extra \<union> available st = set (objects_where env is_optional)
     \<and> mset as + remaining st = mset (concat (initial_items env)) + mset (concat (map (file_accesses env) extra))
     \<and> (\<forall>f. RequestFile f \<in> set as \<longrightarrow> f \<notin> available st) \<and> set extra \<subseteq> needed_files env"

lemma invariant_accesses:
  "load_invariant env as st extra \<Longrightarrow> a \<in> set as \<or> a \<in># remaining st \<longleftrightarrow>
     a \<in> set (concat (initial_items env)) \<or> (\<exists>f \<in> set extra. a \<in> set (file_accesses env f))"
proof -
  assume "load_invariant env as st extra"
  then have "set_mset (mset as + remaining st) = set_mset (mset (concat (initial_items env)) + mset (concat (map (file_accesses env) extra)))"
    by (simp add: load_invariant_def)
  then show ?thesis by (simp add: set_eq_iff)
qed

lemma invariant_step:
  assumes inv: "load_invariant env as st extra" and step: "load_step env a st st'"
  shows "load_invariant env (as @ [a]) st' (extra @ taken_by a st)"
proof -
  note parts = step_parts [OF step]
  have "a \<in># remaining st"
    using step by (auto elim!: load_step.cases simp: remaining_def)
  then have "a \<in> set (concat (initial_items env)) \<or> (\<exists>f \<in> set extra. a \<in> set (file_accesses env f))"
    using invariant_accesses [OF inv] by blast
  then have "f \<in> needed_files env" if "f \<in> set (taken_by a st)" for f
  proof -
    have f: "a = RequestFile f" "f \<in> available st"
      using that by (auto simp: taken_by_def split: access.splits if_splits)
    have opt: "f \<in> set (objects_where env is_optional)" and extra: "set extra \<subseteq> needed_files env"
      using f(2) inv unfolding load_invariant_def by blast+
    show ?thesis
      using \<open>a \<in> set (concat _) \<or> _\<close> f(1) needed_files.root [OF _ opt] needed_files.reference [OF _ _ opt] extra by blast
  qed
  moreover have "f \<notin> available st'" if "a = RequestFile f" for f
    using that parts(1) by (auto simp: taken_by_def)
  moreover have "mset (as @ [a]) + remaining st' = (mset as + remaining st) + mset (concat (map (file_accesses env) (taken_by a st)))"
    using parts(5) by simp
  ultimately show ?thesis
    using inv parts(1-4) unfolding load_invariant_def by auto
qed

lemma invariant_run: "load_run env (initial_load env fl) as st \<Longrightarrow> \<exists>extra. load_invariant env as st extra"
proof (induction "initial_load env fl" as st rule: load_run.induct)
  case finished
  have "load_invariant env [] (initial_load env fl) []"
    by (simp add: load_invariant_def initial_load_def mandatory_files_def remaining_def remaining_mset)
  then show ?case by blast
qed (use invariant_step in blast)

lemma idle_remaining: "idle st \<Longrightarrow> remaining st = {#}"
proof -
  have "\<forall>as \<in># M. as = [] \<Longrightarrow> \<Sum>\<^sub># (image_mset mset M) = {#}" for M :: "access list multiset"
    by (induction M) auto
  then show "idle st \<Longrightarrow> ?thesis" by (simp add: idle_def remaining_def)
qed

text \<open>When all items are finished, the files taken are exactly the needed ones.\<close>

lemma invariant_idle:
  assumes inv: "load_invariant env as st extra" and "idle st"
  shows "set extra = needed_files env"
    "mset as = mset (concat (initial_items env)) + mset (concat (map (file_accesses env) extra))"
proof -
  note rem = idle_remaining [OF assms(2)]
  have "f \<in> set extra" if "f \<in> needed_files env" for f
    using that
  proof induction
    case (root f)
    then have "RequestFile f \<in> set as" using invariant_accesses [OF inv, of "RequestFile f"] rem by auto
    then show ?case using inv root.hyps(2) unfolding load_invariant_def by blast
  next
    case (reference g f)
    then have "RequestFile f \<in> set as" using invariant_accesses [OF inv, of "RequestFile f"] rem by auto
    then show ?case using inv reference.hyps(3) unfolding load_invariant_def by blast
  qed
  then show "set extra = needed_files env" using inv by (auto simp: load_invariant_def)
  show "mset as = mset (concat (initial_items env)) + mset (concat (map (file_accesses env) extra))"
    using inv rem by (simp add: load_invariant_def)
qed

lemma objects_where_iff: "f \<in> set (objects_where env P) \<longleftrightarrow> (\<exists>obj. object_at env f = Some obj \<and> P obj)"
proof -
  have "f \<in> set (objects_where env P) \<longleftrightarrow>
      (\<exists>g objs k. (g, ObjectsGroup objs) \<in> set (enumerate 0 (input_groups env)) \<and> k < length objs \<and> P (objs ! k) \<and> f = (g, k))"
    by (force simp: objects_where_def in_set_enumerate_eq split: input_group.splits)
  also have "\<dots> \<longleftrightarrow> (\<exists>obj. object_at env f = Some obj \<and> P obj)"
    by (cases f) (auto simp: object_at_def in_set_enumerate_eq split: input_group.splits)
  finally show ?thesis .
qed

lemma distinct_enumerated:
  assumes "\<And>g x. distinct (F (g, x))" "\<And>g x f. f \<in> set (F (g, x)) \<Longrightarrow> fst f = g"
  shows "distinct (concat (map F (enumerate n xs)))"
proof (induction xs arbitrary: n)
  case (Cons x xs)
  have "set (F (n, x)) \<inter> set (F (g, y)) = {}" if "(g, y) \<in> set (enumerate (Suc n) xs)" for g y
  proof -
    have "Suc n \<le> g" using that by (simp add: in_set_enumerate_eq)
    then have "fst f \<noteq> fst f'" if "f \<in> set (F (n, x))" "f' \<in> set (F (g, y))" for f f'
      using assms(2) [OF that(1)] assms(2) [OF that(2)] by simp
    then show ?thesis by blast
  qed
  then have "set (F (n, x)) \<inter> set (concat (map F (enumerate (Suc n) xs))) = {}" by fastforce
  with Cons.IH [of "Suc n"] assms(1) show ?case by simp
qed simp

lemma objects_where_distinct: "distinct (objects_where env P)"
  unfolding objects_where_def
proof (rule distinct_enumerated)
  fix g group
  have "distinct (map (Pair g) (map fst (filter Q (enumerate 0 objs))))" for Q and objs :: "input_object list"
    by (auto simp: distinct_map_filter distinct_map inj_on_def in_set_enumerate_eq simp del: map_map)
  then show "distinct (case (g, group) of (g, ObjectsGroup objs) \<Rightarrow> map (\<lambda>(k, _). (g, k)) (filter (\<lambda>(_, obj). P obj) (enumerate 0 objs)) | (g, _) \<Rightarrow> [])"
    by (simp add: comp_def case_prod_unfold split: input_group.splits)
qed (auto split: input_group.splits)

section \<open>Every schedule has the same result\<close>

text \<open>The tables as functions of the accesses made.\<close>

fun store_access :: "access \<Rightarrow> (symbol_id \<Rightarrow> symbol_id) \<Rightarrow> (symbol_id \<Rightarrow> symbol_id)" where
  "store_access (StoreSymbol own target) d = d(own := target)"
| "store_access _ d = d"

fun flag_access :: "access \<Rightarrow> (symbol_id \<Rightarrow> value_flags) \<Rightarrow> (symbol_id \<Rightarrow> value_flags)" where
  "flag_access (ApplyVisibility v i) fl = fl(i := apply_visibility_to_definition v (fl i))"
| "flag_access (MarkNonIrReference i) fl = fl(i := fl i OR HAS_NON_IR_REF)"
| "flag_access _ fl = fl"

fun noted :: "access \<Rightarrow> undefined_symbol list" where
  "noted (NoteUndefined u) = [u]"
| "noted _ = []"

definition is_failure :: "access \<Rightarrow> bool" where
  "is_failure a \<longleftrightarrow> (case a of Fail _ \<Rightarrow> True | _ \<Rightarrow> False)"

lemma run_tables:
  "load_run env st as st' \<Longrightarrow>
     load_definitions st' = fold store_access as (load_definitions st)
     \<and> load_flags st' = fold flag_access as (load_flags st)
     \<and> undefined_symbols st' = undefined_symbols st @ concat (map noted as)
     \<and> (first_error st' = None \<longleftrightarrow> first_error st = None \<and> \<not> list_ex is_failure as)"
proof (induction rule: load_run.induct)
  case (continue st as st' a st'')
  from continue.hyps(2) obtain xs rest where "st'' = perform env a (st'\<lparr>running := add_mset xs rest\<rparr>)"
    by (auto elim: load_step.cases)
  with continue.IH show ?case
    by (cases a) (auto simp: try_request_file_def is_failure_def split: option.splits)
qed simp

text \<open>C30: Which files are loaded. At no point of a run is a file loaded twice, or loaded that is neither mandatory
  nor needed: an archive member, or a shared library to be linked as needed, is only taken when some loaded file
  refers to a definition in it, or the command line or a script asks for it. When all items are finished, the
  loaded files are exactly the mandatory and the needed ones, however the threads were scheduled, and the link
  goes on exactly if none of their items met an error.\<close>

theorem loads_needed_files:
  assumes "load_run env (initial_load env fl) as st"
  shows "distinct (loaded_files st)
    \<and> set (loaded_files st) \<subseteq> set (mandatory_files env) \<union> needed_files env
    \<and> (idle st \<longrightarrow> set (loaded_files st) = set (mandatory_files env) \<union> needed_files env
         \<and> (load_result st = Inr (loaded_files st) \<longleftrightarrow> \<not> list_ex is_failure (concat (initial_items env))
               \<and> (\<forall>f \<in> needed_files env. \<not> list_ex is_failure (file_accesses env f))))"
proof -
  obtain extra where inv: "load_invariant env as st extra" using invariant_run [OF assms] by blast
  then have st: "loaded_files st = mandatory_files env @ extra" "distinct extra" "set extra \<subseteq> needed_files env"
    "set extra \<subseteq> set (objects_where env is_optional)"
    unfolding load_invariant_def by blast+
  then have "set (mandatory_files env) \<inter> set extra = {}"
    by (fastforce simp: mandatory_files_def objects_where_iff)
  then have "distinct (loaded_files st)"
    using st(1,2) objects_where_distinct [of env "\<lambda>obj. \<not> is_optional obj"] by (simp add: mandatory_files_def)
  moreover have "first_error st = None \<longleftrightarrow> \<not> list_ex is_failure (concat (initial_items env))
      \<and> (\<forall>f \<in> needed_files env. \<not> list_ex is_failure (file_accesses env f))" if "idle st"
  proof -
    have "first_error st = None \<longleftrightarrow> \<not> list_ex is_failure as"
      using run_tables [OF assms] by (simp add: initial_load_def)
    moreover have "a \<in> set as \<longleftrightarrow> a \<in> set (concat (initial_items env)) \<or> (\<exists>f \<in> needed_files env. a \<in> set (file_accesses env f))" for a
      using invariant_accesses [OF inv, of a] invariant_idle(1) [OF inv that] idle_remaining [OF that] by simp
    ultimately show ?thesis by (simp only: list_ex_iff) blast
  qed
  ultimately show ?thesis using st invariant_idle(1) [OF inv] by (auto simp: load_result_def split: option.splits)
qed

text \<open>Accesses to the flags can be exchanged.\<close>

lemma visibility_bits:
  "apply_visibility_to_definition v fl =
     fl OR (case v of Hidden \<Rightarrow> NON_INTERPOSABLE OR DOWNGRADE_TO_LOCAL
                    | Protected \<Rightarrow> if is_dynamic fl then 0 else NON_INTERPOSABLE | DefaultVisibility \<Rightarrow> 0)"
  by (cases v) (simp_all add: apply_visibility_to_definition_def is_dynamic_def)

lemma is_dynamic_or: "is_dynamic (fl OR gl) \<longleftrightarrow> is_dynamic fl \<or> is_dynamic gl"
  by (simp add: is_dynamic_def DYNAMIC_def contains_flag bit_or_iff)

lemma not_dynamic_flags [simp]: "\<not> is_dynamic NON_INTERPOSABLE" "\<not> is_dynamic DOWNGRADE_TO_LOCAL" "\<not> is_dynamic HAS_NON_IR_REF"
  by (simp_all add: is_dynamic_def DYNAMIC_def NON_INTERPOSABLE_def DOWNGRADE_TO_LOCAL_def HAS_NON_IR_REF_def contains_flag bit_flag)

lemma visibility_commute:
  "apply_visibility_to_definition v (apply_visibility_to_definition w fl)
     = apply_visibility_to_definition w (apply_visibility_to_definition v fl)"
  "apply_visibility_to_definition v (fl OR HAS_NON_IR_REF) = apply_visibility_to_definition v fl OR HAS_NON_IR_REF"
  by (cases v; cases w; simp add: visibility_bits is_dynamic_or or.assoc or.commute or.left_commute)
    (cases v; simp add: visibility_bits is_dynamic_or or.assoc or.commute or.left_commute)

lemma flag_access_commute: "flag_access a \<circ> flag_access b = flag_access b \<circ> flag_access a"
  by (cases a; cases b) (auto simp: fun_eq_iff visibility_commute)

text \<open>Two stores to the same symbol, if they agree, can be exchanged too.\<close>

definition stores_agree :: "access set \<Rightarrow> bool" where
  "stores_agree A \<longleftrightarrow> (\<forall>own t t'. StoreSymbol own t \<in> A \<longrightarrow> StoreSymbol own t' \<in> A \<longrightarrow> t = t')"

lemma store_access_commute:
  "stores_agree A \<Longrightarrow> a \<in> A \<Longrightarrow> b \<in> A \<Longrightarrow> store_access a \<circ> store_access b = store_access b \<circ> store_access a"
  by (cases a; cases b) (auto simp: fun_eq_iff stores_agree_def)

lemma stored_definition:
  "stores_agree (set as) \<Longrightarrow> StoreSymbol own t \<in> set as \<Longrightarrow> fold store_access as d own = t"
proof (induction as rule: rev_induct)
  case (snoc a as)
  have same: "t' = t" if "a = StoreSymbol own t'" for t'
    using snoc.prems that unfolding stores_agree_def by auto
  show ?case
  proof (cases "\<exists>t'. a = StoreSymbol own t'")
    case True
    with same show ?thesis by auto
  next
    case False
    have "stores_agree (set as)" using snoc.prems(1) unfolding stores_agree_def by auto
    with False snoc have "fold store_access as d own = t" by auto
    with False show ?thesis by (cases a) auto
  qed
qed simp

text \<open>Every symbol of an object or of the prelude has an id of its own.\<close>

definition prelude_at :: "load_env \<Rightarrow> file_index \<Rightarrow> prelude option" where
  "prelude_at env f =
     (if fst f < length (input_groups env) \<and> snd f = 0
      then (case input_groups env ! fst f of PreludeGroup p \<Rightarrow> Some p | _ \<Rightarrow> None) else None)"

definition symbol_slots :: "load_env \<Rightarrow> (file_index \<times> nat \<times> symbol_id) set" where
  "symbol_slots env =
     {(f, k, object_start obj + of_nat k) | f k obj. object_at env f = Some obj \<and> k < length (object_symbols obj)}
     \<union> {(f, k, of_nat k) | f k p. prelude_at env f = Some p \<and> k < length (prelude_placements p)}"

definition distinct_ids :: "load_env \<Rightarrow> bool" where
  "distinct_ids env \<longleftrightarrow>
     (\<forall>f k g l own. (f, k, own) \<in> symbol_slots env \<longrightarrow> (g, l, own) \<in> symbol_slots env \<longrightarrow> f = g \<and> k = l)"

text \<open>
  What a symbol is resolved to. The name is made with the number of the symbol in its work item, the rest of the
  division by the number of symbols of an item.
\<close>

definition reference_target :: "load_env \<Rightarrow> input_object \<Rightarrow> nat \<Rightarrow> symbol_id option" where
  "reference_target env obj k =
     (let s = object_symbols obj ! k; versions = the (verneed_table obj);
          info = elf_raw_symbol_name (fst versions) (snd versions) (k mod MAX_SYMBOLS_PER_WORK_ITEM) (the (name_bytes s))
      in get_symbol (names_inputs env) (names_hash env) (names_table env) (from_raw info) (st_visibility s = STV_DEFAULT))"

definition slot_target :: "load_env \<Rightarrow> file_index \<Rightarrow> nat \<Rightarrow> symbol_id option" where
  "slot_target env f k =
     (case object_at env f of
        Some obj \<Rightarrow> reference_target env obj k
      | None \<Rightarrow>
          (case prelude_at env f of
             Some p \<Rightarrow> (case prelude_placements p ! k of
                          ForceUndefined name \<Rightarrow> get_unversioned (names_hash env) (names_table env) name
                        | _ \<Rightarrow> None)
           | None \<Rightarrow> None))"

lemma chunks_spec:
  "(s, l) \<in> set (chunks start n) \<Longrightarrow> MAX_SYMBOLS_PER_WORK_ITEM dvd start
     \<Longrightarrow> MAX_SYMBOLS_PER_WORK_ITEM dvd s \<and> l \<le> MAX_SYMBOLS_PER_WORK_ITEM \<and> s + l \<le> start + n"
proof (induction start n rule: chunks.induct)
  case (1 start n)
  define len where "len = min MAX_SYMBOLS_PER_WORK_ITEM n"
  show ?case
  proof (cases "(s, l) = (start, len)")
    case False
    have "chunks start n = (start, len) # (if n - len = 0 then [] else chunks (start + len) (n - len))"
      by (subst chunks.simps) (simp add: Let_def len_def)
    with False "1.prems"(1) have rest: "n - len \<noteq> 0" "(s, l) \<in> set (chunks (start + len) (n - len))"
      by (auto split: if_splits)
    then have "len = MAX_SYMBOLS_PER_WORK_ITEM" by (auto simp: len_def)
    with "1.IH" [OF len_def rest] "1.prems"(2) rest(1) show ?thesis by simp
  qed (use "1.prems"(2) in \<open>simp add: len_def\<close>)
qed

lemma until_failure_subset: "set (until_failure ass) \<subseteq> set (concat ass)"
  by (induction ass) auto

lemma resolve_symbol_store:
  "StoreSymbol o' t \<in> set (resolve_symbol env f dyn own info s) \<Longrightarrow>
     o' = own \<and> get_symbol (names_inputs env) (names_hash env) (names_table env) (from_raw info) (st_visibility s = STV_DEFAULT) = Some t"
  by (auto simp: resolve_symbol_def Let_def split: if_splits option.splits)

lemma resolve_symbols_store:
  assumes "StoreSymbol own t \<in> set (resolve_symbols env f obj start len)"
    "MAX_SYMBOLS_PER_WORK_ITEM dvd start" "len \<le> MAX_SYMBOLS_PER_WORK_ITEM" "start + len \<le> length (object_symbols obj)"
  shows "\<exists>k < length (object_symbols obj). own = object_start obj + of_nat k \<and> reference_target env obj k = Some t"
proof -
  from assms(1) obtain versions where v: "verneed_table obj = Some versions"
    "StoreSymbol own t \<in> set (until_failure (map (resolve_one env f obj versions start) (enumerate 0 (take len (drop start (object_symbols obj))))))"
    by (auto simp: resolve_symbols_def split: option.splits)
  then have "StoreSymbol own t \<in> set (concat (map (resolve_one env f obj versions start) (enumerate 0 (take len (drop start (object_symbols obj))))))"
    using until_failure_subset by blast
  then obtain j where j: "j < len" "StoreSymbol own t \<in> set (resolve_one env f obj versions start (j, object_symbols obj ! (start + j)))"
    using assms(4) by (auto simp: in_set_enumerate_eq)
  have mod: "(start + j) mod MAX_SYMBOLS_PER_WORK_ITEM = j"
    using assms(2,3) j(1) by (auto simp: mod_add_left_eq [symmetric] dvd_eq_mod_eq_0)
  have "own = object_start obj + of_nat (start + j) \<and> reference_target env obj (start + j) = Some t"
    using j(2) resolve_symbol_store v(1)
    by (fastforce simp: resolve_one_def reference_target_def mod Let_def split: if_splits option.splits)
  then show ?thesis using j(1) assms(4) by (intro exI [of _ "start + j"]) simp
qed

lemma file_store:
  assumes "StoreSymbol own t \<in> set (file_accesses env f)"
  shows "\<exists>k. (f, k, own) \<in> symbol_slots env \<and> slot_target env f k = Some t"
proof -
  from assms obtain obj where obj0: "object_at env f = Some obj"
    by (cases "object_at env f") (auto simp: file_accesses_def object_items_def)
  with assms have "\<exists>start len. (start, len) \<in> set (chunks 0 (length (object_symbols obj)))
      \<and> StoreSymbol own t \<in> set (resolve_symbols env f obj start len)"
    by (auto simp: file_accesses_def object_items_def)
  with obj0 obtain start len where obj: "object_at env f = Some obj" "(start, len) \<in> set (chunks 0 (length (object_symbols obj)))"
    "StoreSymbol own t \<in> set (resolve_symbols env f obj start len)"
    by blast
  obtain k where "k < length (object_symbols obj)" "own = object_start obj + of_nat k" "reference_target env obj k = Some t"
    using resolve_symbols_store [OF obj(3)] chunks_spec [OF obj(2)] by auto
  with obj(1) show ?thesis
    by (intro exI [of _ k]) (cases f, auto simp: symbol_slots_def slot_target_def)
qed

lemma redirect_store: "StoreSymbol own t \<notin> set (load_symbols_in_redirect env names)"
  by (auto simp: load_symbols_in_redirect_def split: option.splits)

lemma prelude_store:
  assumes "StoreSymbol own t \<in> set (load_prelude env p)"
  shows "\<exists>k < length (prelude_placements p). \<exists>name. prelude_placements p ! k = ForceUndefined name
    \<and> own = of_nat k \<and> get_unversioned (names_hash env) (names_table env) name = Some t"
proof -
  define F where "F = (\<lambda>k placement. case placement of
      ForceUndefined name \<Rightarrow> load_symbol_named env (Some (of_nat k)) name
    | Redirect names \<Rightarrow> load_symbols_in_redirect env names
    | OtherPlacement \<Rightarrow> [])"
  have "StoreSymbol own t \<in> set (concat (map (\<lambda>(k, placement). F k placement) (enumerate 0 (prelude_placements p))))"
    using assms by (auto simp: load_prelude_def F_def load_symbol_named_def split: option.splits)
  then have "\<exists>k < length (prelude_placements p). StoreSymbol own t \<in> set (F k (prelude_placements p ! k))"
    by (force simp: in_set_enumerate_eq)
  then obtain k where k: "k < length (prelude_placements p)" "StoreSymbol own t \<in> set (F k (prelude_placements p ! k))"
    by blast
  then show ?thesis
    by (intro exI [of _ k])
      (cases "prelude_placements p ! k"; auto simp: F_def redirect_store load_symbol_named_def split: option.splits)
qed

lemma initial_store:
  assumes "StoreSymbol own t \<in> set (concat (initial_items env))"
  shows "\<exists>f k. (f, k, own) \<in> symbol_slots env \<and> slot_target env f k = Some t"
proof -
  have "\<exists>g < length (input_groups env). \<exists>as \<in> set (group_items env (g, input_groups env ! g)). StoreSymbol own t \<in> set as"
    using assms by (force simp: initial_items_def in_set_enumerate_eq)
  then obtain g where g: "g < length (input_groups env)"
    "\<exists>as \<in> set (group_items env (g, input_groups env ! g)). StoreSymbol own t \<in> set as"
    by blast
  show ?thesis
  proof (cases "input_groups env ! g")
    case (PreludeGroup p)
    with g(2) have "StoreSymbol own t \<in> set (load_prelude env p)" by (simp add: group_items_def)
    then obtain k name where "k < length (prelude_placements p)" "prelude_placements p ! k = ForceUndefined name"
      "own = of_nat k" "get_unversioned (names_hash env) (names_table env) name = Some t"
      using prelude_store by blast
    with PreludeGroup g(1) show ?thesis
      by (intro exI [of _ "(g, 0)"] exI [of _ k])
        (auto simp: symbol_slots_def slot_target_def object_at_def prelude_at_def)
  next
    case (ObjectsGroup objs)
    with g(2) obtain k where "StoreSymbol own t \<in> set (file_accesses env (g, k))"
      by (auto simp: group_items_def file_accesses_def split: if_splits)
    then show ?thesis using file_store by blast
  next
    case (LinkerScriptsGroup scripts)
    with g(2) show ?thesis by (auto simp: group_items_def load_scripts_def redirect_store split: symbol_placement.splits)
  qed (use g(2) in \<open>simp_all add: group_items_def\<close>)
qed

text \<open>All accesses of the first items and of the needed files.\<close>

definition all_accesses :: "load_env \<Rightarrow> access set" where
  "all_accesses env = set (concat (initial_items env)) \<union> (\<Union>f \<in> needed_files env. set (file_accesses env f))"

lemma accesses_agree: "distinct_ids env \<Longrightarrow> stores_agree (all_accesses env)"
proof -
  assume d: "distinct_ids env"
  have "\<exists>f k. (f, k, own) \<in> symbol_slots env \<and> slot_target env f k = Some t" if "StoreSymbol own t \<in> all_accesses env" for own t
    using that file_store initial_store unfolding all_accesses_def by blast
  then show ?thesis
    using d unfolding stores_agree_def distinct_ids_def by (metis option.inject)
qed

lemma complete_run:
  assumes "load_run env (initial_load env fl) as st" "idle st"
  obtains extra where "load_invariant env as st extra" "set extra = needed_files env" "set as = all_accesses env"
    "mset as = mset (concat (initial_items env)) + mset (concat (map (file_accesses env) extra))"
proof -
  obtain extra where inv: "load_invariant env as st extra" using invariant_run [OF assms(1)] by blast
  note idle = invariant_idle [OF inv assms(2)]
  then have "set_mset (mset as) = set_mset (mset (concat (initial_items env)) + mset (concat (map (file_accesses env) extra)))" by simp
  then have "set as = all_accesses env" using idle(1) by (simp add: all_accesses_def)
  with inv idle that show thesis by blast
qed

text \<open>C31: The schedule does not matter. Two runs to the end, with any order of the threads' accesses, leave the same
  definitions and the same flags for every symbol, note the same undefined symbols, load the same files, each once,
  and both report an error or neither does; and every reference of a loaded file was given the definition that
  the table of names holds for it.\<close>

theorem schedule_independent:
  assumes "distinct_ids env"
    and "load_run env (initial_load env fl) as st" "idle st"
    and "load_run env (initial_load env fl) as' st'" "idle st'"
  shows "load_definitions st = load_definitions st' \<and> load_flags st = load_flags st'
    \<and> mset (undefined_symbols st) = mset (undefined_symbols st') \<and> mset (loaded_files st) = mset (loaded_files st')
    \<and> (first_error st = None \<longleftrightarrow> first_error st' = None)
    \<and> (\<forall>own t. StoreSymbol own t \<in> all_accesses env \<longrightarrow> load_definitions st own = t)"
proof -
  obtain extra where e: "load_invariant env as st extra" "set extra = needed_files env" "set as = all_accesses env"
    "mset as = mset (concat (initial_items env)) + mset (concat (map (file_accesses env) extra))"
    by (rule complete_run [OF assms(2,3)])
  obtain extra' where e': "load_invariant env as' st' extra'" "set extra' = needed_files env" "set as' = all_accesses env"
    "mset as' = mset (concat (initial_items env)) + mset (concat (map (file_accesses env) extra'))"
    by (rule complete_run [OF assms(4,5)])
  have extra: "mset extra = mset extra'"
    using e(1,2) e'(1,2) by (simp add: load_invariant_def set_eq_iff_mset_eq_distinct [symmetric])
  have "mset (concat (map (file_accesses env) xs)) = \<Sum>\<^sub># (image_mset (mset \<circ> file_accesses env) (mset xs))" for xs
    by (induction xs) simp_all
  then have same: "mset as = mset as'" using e(4) e'(4) extra by simp
  note agree = accesses_agree [OF assms(1)]
  have "fold store_access as = fold store_access as'"
    using same by (rule fold_multiset_equiv [rotated]) (use store_access_commute [OF agree] e(3) in blast)
  moreover have "fold flag_access as = fold flag_access as'"
    using same by (rule fold_multiset_equiv [rotated]) (rule flag_access_commute)
  moreover have "mset (concat (map noted xs)) = \<Sum>\<^sub># (image_mset (mset \<circ> noted) (mset xs))" for xs
    by (induction xs) simp_all
  then have "mset (concat (map noted as)) = mset (concat (map noted as'))" using same by simp
  moreover have "mset (loaded_files st) = mset (loaded_files st')" using e(1) e'(1) extra by (simp add: load_invariant_def)
  moreover have "list_ex is_failure as \<longleftrightarrow> list_ex is_failure as'" using e(3) e'(3) by (simp add: list_ex_iff)
  moreover have "fold store_access as d own = t" if "StoreSymbol own t \<in> all_accesses env" for own t d
    using stored_definition [of as own t d] agree that e(3) by simp
  ultimately show ?thesis
    using run_tables [OF assms(2)] run_tables [OF assms(4)] by (simp add: initial_load_def)
qed

section \<open>An archive member\<close>

text \<open>
  Two objects that are loaded in any case, of which the first refers to the symbol 102; a member of an archive that
  defines it, as the symbol 6; and a second member that nobody refers to. The first symbol of each file is the null
  symbol.
\<close>

definition demo_symbol :: "u8 list \<Rightarrow> bool \<Rightarrow> input_symbol" where
  "demo_symbol name undef =
     \<lparr>is_weak = False, is_common = False, is_gnu_unique = False, symbol_size = 0, name_bytes = Some name,
      st_visibility = STV_DEFAULT, is_undefined = undef, is_local = False, is_absolute_symbol = False,
      is_ifunc_symbol = False, is_func_symbol = False, is_tls_symbol = False\<rparr>"

definition demo_object :: "bool \<Rightarrow> symbol_id \<Rightarrow> input_symbol list \<Rightarrow> input_object" where
  "demo_object member start ss =
     \<lparr>object_symbols = demo_symbol [] True # ss, object_start = start, object_dynamic = False,
      has_archive_semantics = member, whole_archive = False, as_needed = False, verneed_table = Some ([], [])\<rparr>"

definition demo_env :: load_env where
  "demo_env =
     \<lparr>input_groups = [PreludeGroup \<lparr>entry_symbol_name = None, prelude_placements = []\<rparr>,
        ObjectsGroup [demo_object False 1 [demo_symbol [102] True], demo_object False 3 [demo_symbol [102] True],
                      demo_object True 5 [demo_symbol [102] False], demo_object True 7 [demo_symbol [103] False]]],
      names_hash = (\<lambda>_. 0),
      names_table = symbol_table (\<lambda>_. 0) 1 [[(6, \<lparr>raw_name = [102], version_name = None, is_default = True\<rparr>)]],
      names_inputs = \<lparr>in_dynamic_file = (\<lambda>_. False), input_strength = (\<lambda>_. Strong)\<rparr>,
      file_for_symbol = (\<lambda>i. (1, 2)),
      first_definitions = (\<lambda>i. if i = 6 then 6 else 0),
      input_visibility = (\<lambda>_. DefaultVisibility),
      debug_assertions = False\<rparr>"

lemma demo_lookup: "get_symbol (names_inputs demo_env) (names_hash demo_env) (names_table demo_env) (Unversioned [102]) True = Some 6"
proof -
  have "symbol_table (\<lambda>_. 0) 1 [[(6, \<lparr>raw_name = [102], version_name = None, is_default = True\<rparr>)]] ! 0 = bucket_of [(6, [102])] []"
    by (subst symbol_table_bucket)
      (simp_all add: all_names_def all_versions_def exported_names_def exported_versions_def in_bucket_def bucket_index_def)
  then show ?thesis
    by (simp add: demo_env_def get_symbol_def bucket_for_def bucket_index_def bucket_of_def first_map_def ids_of_def)
qed

lemma demo_reference:
  "resolve_symbol demo_env (1, k) False own \<lparr>raw_name = [102], version_name = None, is_default = True\<rparr> (demo_symbol [102] u)
     = StoreSymbol own 6 # MarkNonIrReference 6 # (if k \<noteq> 2 then [RequestFile (1, 2)]
         else [NoteUndefined \<lparr>ignore_if_loaded = Some (1, 2), undefined_name = Unversioned [102], undefined_id = own\<rparr>])"
proof -
  have "debug_assertions demo_env = False" "file_for_symbol demo_env 6 = (1, 2)" "in_dynamic_file (names_inputs demo_env) 6 = False"
    by (simp_all add: demo_env_def)
  then show ?thesis
    using demo_lookup by (simp add: resolve_symbol_def from_raw_def demo_symbol_def PRELUDE_FILE_def)
qed

lemma demo_chunks: "chunks 0 2 = [(0, 2)]"
  by (subst chunks.simps) (simp add: MAX_SYMBOLS_PER_WORK_ITEM_def)

lemma demo_parse: "parse_symbol_name [102] = \<lparr>raw_name = [102], version_name = None, is_default = True\<rparr>"
  by (rule parse_plain) (simp add: AT_SIGN_def)

lemma demo_failed: "\<not> failed (resolve_symbol demo_env (1, k) False own \<lparr>raw_name = [102], version_name = None, is_default = True\<rparr> (demo_symbol [102] u))"
  by (simp add: demo_reference del: One_nat_def)

lemma demo_object_items:
  assumes "object_at demo_env (1, k) = Some (demo_object m start [demo_symbol [102] u])"
  shows "object_items demo_env (1, k) =
    [if first_definitions demo_env (start + 1) \<noteq> 0 then []
     else resolve_symbol demo_env (1, k) False (start + 1) \<lparr>raw_name = [102], version_name = None, is_default = True\<rparr> (demo_symbol [102] u)]"
proof -
  let ?obj = "demo_object m start [demo_symbol [102] u]"
  have one: "resolve_one demo_env (1, k) ?obj ([], []) 0 (0, demo_symbol [] True) = []"
    "resolve_one demo_env (1, k) ?obj ([], []) 0 (1, demo_symbol [102] u) =
      (if first_definitions demo_env (start + 1) \<noteq> 0 then []
       else resolve_symbol demo_env (1, k) False (start + 1) \<lparr>raw_name = [102], version_name = None, is_default = True\<rparr> (demo_symbol [102] u))"
    by (simp_all add: resolve_one_def demo_object_def demo_symbol_def elf_raw_symbol_name_def lookup_version_def
        demo_parse Let_def)
  have "object_items demo_env (1, k) = [resolve_symbols demo_env (1, k) ?obj 0 2]"
    using assms demo_chunks by (simp add: object_items_def demo_object_def numeral_2_eq_2)
  also have "resolve_symbols demo_env (1, k) ?obj 0 2 =
      until_failure [[], resolve_one demo_env (1, k) ?obj ([], []) 0 (1, demo_symbol [102] u)]"
    using one(1) by (simp add: resolve_symbols_def demo_object_def)
  finally show ?thesis using demo_failed by (simp add: one(2) del: One_nat_def)
qed

lemma demo_first: "first_definitions demo_env i = (if i = 6 then 6 else 0)"
  by (simp add: demo_env_def)

lemma demo_items:
  "object_items demo_env (1, 0) = [[StoreSymbol 2 6, MarkNonIrReference 6, RequestFile (1, 2)]]"
  "object_items demo_env (1, 1) = [[StoreSymbol 4 6, MarkNonIrReference 6, RequestFile (1, 2)]]"
  "object_items demo_env (1, 2) = [[]]"
proof -
  have "object_at demo_env (1, 0) = Some (demo_object False 1 [demo_symbol [102] True])"
    "object_at demo_env (1, 1) = Some (demo_object False 3 [demo_symbol [102] True])"
    "object_at demo_env (1, 2) = Some (demo_object True 5 [demo_symbol [102] False])"
    by (simp_all add: object_at_def demo_env_def)
  note items = this [THEN demo_object_items]
  show "object_items demo_env (1, 0) = [[StoreSymbol 2 6, MarkNonIrReference 6, RequestFile (1, 2)]]"
    "object_items demo_env (1, 1) = [[StoreSymbol 4 6, MarkNonIrReference 6, RequestFile (1, 2)]]"
    "object_items demo_env (1, 2) = [[]]"
    by (simp_all add: items demo_reference demo_first del: One_nat_def)
qed

lemma demo_optional: "objects_where demo_env is_optional = [(1, 2), (1, 3)]" "mandatory_files demo_env = [(1, 0), (1, 1)]"
  by (simp_all add: mandatory_files_def objects_where_def demo_env_def is_optional_def demo_object_def)

lemma demo_initial:
  "initial_items demo_env = [[], [StoreSymbol 2 6, MarkNonIrReference 6, RequestFile (1, 2)],
     [StoreSymbol 4 6, MarkNonIrReference 6, RequestFile (1, 2)]]"
proof -
  have "initial_items demo_env = [] # object_items demo_env (1, 0) @ object_items demo_env (1, 1)"
    by (simp add: initial_items_def demo_env_def group_items_def load_prelude_def is_optional_def demo_object_def)
  then show ?thesis by (simp add: demo_items del: One_nat_def)
qed

lemma demo_needed: "needed_files demo_env = {(1, 2)}"
proof -
  have "(1, 2) \<in> needed_files demo_env" by (rule needed_files.root) (simp_all add: demo_initial demo_optional)
  moreover have "f = (1, 2)" if "f \<in> needed_files demo_env" for f
    using that by induction (auto simp: demo_initial file_accesses_def demo_items simp del: One_nat_def)
  ultimately show ?thesis by blast
qed

text \<open>Runs to the end that start with the first or with the second object.\<close>

lemma demo_first_step:
  "\<exists>st. load_step demo_env (StoreSymbol 2 6) (initial_load demo_env fl) st"
  "\<exists>st. load_step demo_env (StoreSymbol 4 6) (initial_load demo_env fl) st"
  using load_step.access [of "initial_load demo_env fl" "StoreSymbol 2 6" "[MarkNonIrReference 6, RequestFile (1, 2)]"
      "{#[], [StoreSymbol 4 6, MarkNonIrReference 6, RequestFile (1, 2)]#}" demo_env]
    load_step.access [of "initial_load demo_env fl" "StoreSymbol 4 6" "[MarkNonIrReference 6, RequestFile (1, 2)]"
      "{#[], [StoreSymbol 2 6, MarkNonIrReference 6, RequestFile (1, 2)]#}" demo_env]
  by (auto simp: initial_load_def demo_initial add_mset_commute)

lemma demo_complete:
  assumes "a = StoreSymbol 2 6 \<or> a = StoreSymbol 4 6"
  obtains as st where "load_run demo_env (initial_load demo_env fl) (a # as) st" "idle st"
proof -
  obtain st1 where st1: "load_step demo_env a (initial_load demo_env fl) st1" using assms demo_first_step by blast
  then have "finite (available st1)" by (simp add: step_parts)
  then obtain as st where "load_run demo_env st1 as st" "idle st" using run_completes by blast
  then show thesis using that run_front [OF _ st1] by blast
qed

lemma demo_objects:
  "object_at demo_env (g, j) = Some obj \<Longrightarrow>
     g = 1 \<and> j < 4 \<and> object_start obj = of_nat (2 * j + 1) \<and> length (object_symbols obj) = 2"
proof -
  assume at: "object_at demo_env (g, j) = Some obj"
  have "length (input_groups demo_env) = 2" by (simp add: demo_env_def)
  with at have "g = 0 \<or> g = 1" by (auto simp: object_at_def split: if_splits)
  with at have g: "g = 1" by (auto simp: object_at_def demo_env_def)
  with at have "j < 4" by (auto simp: object_at_def demo_env_def split: if_splits)
  then have "j = 0 \<or> j = 1 \<or> j = 2 \<or> j = 3" by linarith
  with at g show ?thesis by (auto simp: object_at_def demo_env_def demo_object_def)
qed

lemma demo_slots:
  assumes "((g, j), k, own) \<in> symbol_slots demo_env"
  shows "g = 1 \<and> j < 4 \<and> k < 2 \<and> unat own = 2 * j + 1 + k"
proof -
  have "prelude_placements p = []" if "prelude_at demo_env f = Some p" for f p
  proof -
    have "length (input_groups demo_env) = 2" by (simp add: demo_env_def)
    with that have "fst f = 0 \<or> fst f = 1" by (auto simp: prelude_at_def split: if_splits)
    with that show ?thesis by (auto simp: prelude_at_def demo_env_def split: if_splits)
  qed
  then obtain obj where obj: "object_at demo_env (g, j) = Some obj" "k < length (object_symbols obj)" "own = object_start obj + of_nat k"
    using assms by (auto simp: symbol_slots_def)
  note at = demo_objects [OF obj(1)]
  then have "own = of_nat (2 * j + 1 + k)" using obj(3) by simp
  moreover have "2 * j + 1 + k < 2 ^ 32" using at obj(2) by simp
  ultimately have "unat own = 2 * j + 1 + k" by (simp only: unat_of_nat take_bit_nat_eq_self len_of_numeral_defs) simp
  with at obj(2) show ?thesis by simp
qed

lemma demo_distinct: "distinct_ids demo_env"
proof -
  have "j = j' \<and> k = k'" if "2 * j + 1 + k = 2 * j' + 1 + k'" "k < 2" "k' < 2" for j j' k k' :: nat
    using that by presburger
  then show ?thesis unfolding distinct_ids_def by (metis demo_slots surj_pair)
qed

text \<open>The member that is referred to is loaded and the other one is not.\<close>

theorem loads_needed_files_witness:
  "\<exists>as st. load_run demo_env (initial_load demo_env (\<lambda>_. 0)) (StoreSymbol 4 6 # as) st \<and> idle st
     \<and> load_result st = Inr (loaded_files st) \<and> set (loaded_files st) = {(1, 0), (1, 1), (1, 2)}"
proof -
  obtain as st where st: "load_run demo_env (initial_load demo_env (\<lambda>_. 0)) (StoreSymbol 4 6 # as) st" "idle st"
    by (rule demo_complete [of "StoreSymbol 4 6"]) auto
  have "set (loaded_files st) = {(1, 0), (1, 1), (1, 2)} \<and> load_result st = Inr (loaded_files st)"
    using loads_needed_files [OF st(1)] st(2)
    by (auto simp: demo_needed demo_optional demo_initial file_accesses_def demo_items is_failure_def simp del: One_nat_def)
  with st show ?thesis by blast
qed

theorem load_terminates_witness:
  "\<exists>st. load_run demo_env (initial_load demo_env (\<lambda>_. 0)) [StoreSymbol 4 6] st
     \<and> (\<exists>as' st'. load_run demo_env st as' st' \<and> idle st' \<and> length as' < pending demo_env (initial_load demo_env (\<lambda>_. 0)))"
proof -
  obtain st where "load_step demo_env (StoreSymbol 4 6) (initial_load demo_env (\<lambda>_. 0)) st" using demo_first_step by blast
  then have st: "load_run demo_env (initial_load demo_env (\<lambda>_. 0)) [StoreSymbol 4 6] st"
    using run_front [OF load_run.finished] by blast
  with load_terminates [OF st] show ?thesis by fastforce
qed

theorem schedule_independent_witness:
  "\<exists>as st as' st'. load_run demo_env (initial_load demo_env (\<lambda>_. 0)) (StoreSymbol 2 6 # as) st
     \<and> load_run demo_env (initial_load demo_env (\<lambda>_. 0)) (StoreSymbol 4 6 # as') st'
     \<and> load_definitions st = load_definitions st' \<and> load_definitions st 2 = 6 \<and> load_definitions st 4 = 6"
proof -
  obtain as st where st: "load_run demo_env (initial_load demo_env (\<lambda>_. 0)) (StoreSymbol 2 6 # as) st" "idle st"
    by (rule demo_complete [of "StoreSymbol 2 6"]) auto
  obtain as' st' where st': "load_run demo_env (initial_load demo_env (\<lambda>_. 0)) (StoreSymbol 4 6 # as') st'" "idle st'"
    by (rule demo_complete [of "StoreSymbol 4 6"]) auto
  have "StoreSymbol 2 6 \<in> all_accesses demo_env" "StoreSymbol 4 6 \<in> all_accesses demo_env"
    by (simp_all add: all_accesses_def demo_initial)
  with schedule_independent [OF demo_distinct st st'] st(1) st'(1) show ?thesis by blast
qed

section \<open>Versions in large shared libraries\<close>

text \<open>
  The version of a reference is looked up with the number of the symbol in its work item. In a library with more
  symbols than an item has, a reference behind the first item is given the version of another symbol: here the
  symbol 5001, whose version is \<open>2\<close>, is given the version \<open>1\<close> of the symbol 1.
\<close>

definition large_versions :: "(nat \<times> bool) list \<times> u8 list option list" where
  "large_versions = ((0, False) # (2, False) # replicate 4999 (0, False) @ [(3, False)], [None, None, Some [49], Some [50]])"

lemma version_of_other_symbol:
  "resolve_one env f obj large_versions 5000 (1, s) =
     (if first_definitions env (object_start obj + 5001) \<noteq> 0 \<or> object_dynamic obj \<and> st_visibility s = STV_HIDDEN then []
      else case name_bytes s of
             None \<Rightarrow> [Fail SymbolNameUnreadable]
           | Some bytes \<Rightarrow> resolve_symbol env f (object_dynamic obj) (object_start obj + 5001)
               \<lparr>raw_name = bytes, version_name = Some [49], is_default = False\<rparr> s)"
  "lookup_version (fst large_versions) (snd large_versions) 5001 = Some [50]"
proof -
  have one: "lookup_version (fst large_versions) (snd large_versions) 1 = Some [49]"
    by (simp add: lookup_version_def large_versions_def)
  then show "resolve_one env f obj large_versions 5000 (1, s) =
     (if first_definitions env (object_start obj + 5001) \<noteq> 0 \<or> object_dynamic obj \<and> st_visibility s = STV_HIDDEN then []
      else case name_bytes s of
             None \<Rightarrow> [Fail SymbolNameUnreadable]
           | Some bytes \<Rightarrow> resolve_symbol env f (object_dynamic obj) (object_start obj + 5001)
               \<lparr>raw_name = bytes, version_name = Some [49], is_default = False\<rparr> s)"
    by (simp add: resolve_one_def elf_raw_symbol_name_def Let_def del: One_nat_def split: option.splits)
  have "fst large_versions = ((0, False) # (2, False) # replicate 4999 (0, False)) @ [(3, False)]" by (simp add: large_versions_def)
  then have "fst large_versions ! 5001 = (3, False)" by (simp only: nth_append) simp
  then show "lookup_version (fst large_versions) (snd large_versions) 5001 = Some [50]"
    by (simp add: lookup_version_def) (simp add: large_versions_def)
qed

end
